(* ===== verification/Nuts_Prelude.thy ===== *)
theory Nuts_Prelude
  imports Main "HOL-Library.Multiset" "HOL-Library.Sublist"
begin

text \<open>
  Shared vocabulary of the development: Go results and errors, instants and durations, the
  iteration order of a Go map, the library routines \<^verbatim>\<open>sort.Search\<close> and
  \<^verbatim>\<open>sort.Slice\<close>, and the generic list lemmas the component theories use.
\<close>

named_theorems go_simps \<open>unfolding of the small Go helper definitions\<close>
named_theorems frame_simps \<open>fields and keys an operation leaves alone\<close>

section \<open>Results, instants and sizes\<close>

text \<open>
  A Go function returning \<^verbatim>\<open>(T, error)\<close> is modelled by \<^typ>\<open>'e + 'a\<close>: \<^term>\<open>Inl e\<close> is the
  error, \<^term>\<open>Inr v\<close> the value. An instant (\<^verbatim>\<open>time.Time\<close>) and a duration
  (\<^verbatim>\<open>time.Duration\<close>) are counts of nanoseconds; the zero instant (\<^verbatim>\<open>IsZero\<close>) is 0. Every
  call of \<^verbatim>\<open>time.Now()\<close> is an argument of the definition that makes it.
\<close>

type_synonym gotime = int
type_synonym duration = int

abbreviation second :: duration where
  "second \<equiv> 1000000000"

abbreviation millisecond :: duration where
  "millisecond \<equiv> 1000000"

definition after :: "gotime \<Rightarrow> gotime \<Rightarrow> bool" where
  [go_simps]: "after t u \<longleftrightarrow> u < t"

definition before :: "gotime \<Rightarrow> gotime \<Rightarrow> bool" where
  [go_simps]: "before t u \<longleftrightarrow> t < u"

definition isZero :: "gotime \<Rightarrow> bool" where
  [go_simps]: "isZero t \<longleftrightarrow> t = 0"

text \<open>
  \<^verbatim>\<open>if err != nil { return err }\<close>: \<open>bindE\<close> returns the first error and otherwise goes on with
  the value; \<open>mapErr\<close> is the wrapping \<^verbatim>\<open>fmt.Errorf("...: %w", err)\<close>.
\<close>

definition bindE :: "'e + 'a \<Rightarrow> ('a \<Rightarrow> 'e + 'b) \<Rightarrow> 'e + 'b" where
  "bindE r f = (case r of Inl e \<Rightarrow> Inl e | Inr v \<Rightarrow> f v)"

definition mapErr :: "('e \<Rightarrow> 'f) \<Rightarrow> 'e + 'a \<Rightarrow> 'f + 'a" where
  "mapErr g r = (case r of Inl e \<Rightarrow> Inl (g e) | Inr v \<Rightarrow> Inr v)"

lemma bindE_simps [simp]: "bindE (Inl e) f = Inl e" "bindE (Inr v) f = f v"
  by (simp_all add: bindE_def)

lemma mapErr_simps [simp]: "mapErr g (Inl e) = Inl (g e)" "mapErr g (Inr v) = Inr v"
  by (simp_all add: mapErr_def)

lemma bindE_eq_Inr: "bindE r f = Inr y \<longleftrightarrow> (\<exists>v. r = Inr v \<and> f v = Inr y)"
  by (cases r) auto

lemma bindE_eq_Inl: "bindE r f = Inl e \<longleftrightarrow> r = Inl e \<or> (\<exists>v. r = Inr v \<and> f v = Inl e)"
  by (cases r) auto

lemma mapErr_eq_Inr [simp]: "mapErr g r = Inr y \<longleftrightarrow> r = Inr y"
  by (cases r) auto

lemma mapErr_eq_Inl: "mapErr g r = Inl f \<longleftrightarrow> (\<exists>e. r = Inl e \<and> f = g e)"
  by (cases r) auto

fun traverseE :: "('a \<Rightarrow> 'e + 'b) \<Rightarrow> 'a list \<Rightarrow> 'e + 'b list" where
  "traverseE f [] = Inr []"
| "traverseE f (x # xs) = bindE (f x) (\<lambda>y. bindE (traverseE f xs) (\<lambda>ys. Inr (y # ys)))"

lemma traverseE_map [simp]: "(\<And>x. f (g x) = Inr x) \<Longrightarrow> traverseE f (map g xs) = Inr xs"
  by (induction xs) auto

section \<open>Iteration order of a Go map\<close>

text \<open>
  \<^verbatim>\<open>for k := range m\<close> visits the keys of a map in an order the runtime chooses. The order
  is a rank function: \<^term>\<open>range_keys rank ks\<close> lists the keys by rank. Any rank gives a
  permutation of the keys, and every permutation is given by some rank
  (\<open>range_keys_complete\<close>), so a theorem for all ranks is a theorem for all iteration orders.
\<close>

definition range_keys :: "('k \<Rightarrow> nat) \<Rightarrow> 'k list \<Rightarrow> 'k list" where
  "range_keys rank ks = sort_key rank ks"

lemma mset_range_keys [simp]: "mset (range_keys rank ks) = mset ks"
  by (simp add: range_keys_def)

lemma set_range_keys [simp]: "set (range_keys rank ks) = set ks"
  by (simp add: range_keys_def)

lemma distinct_range_keys [simp]: "distinct (range_keys rank ks) = distinct ks"
  by (simp add: range_keys_def)

lemma length_range_keys [simp]: "length (range_keys rank ks) = length ks"
  by (simp add: range_keys_def)

lemma range_keys_Nil [simp]: "range_keys rank [] = []"
  by (simp add: range_keys_def)

fun index_of :: "'k list \<Rightarrow> 'k \<Rightarrow> nat" where
  "index_of [] k = 0"
| "index_of (x # xs) k = (if x = k then 0 else Suc (index_of xs k))"

lemma sorted_index_of: "distinct ks \<Longrightarrow> sorted (map (index_of ks) ks)"
proof (induction ks)
  case (Cons k ks)
  then have "map (index_of (k # ks)) ks = map (Suc \<circ> index_of ks) ks"
    by (auto simp: map_eq_conv)
  moreover have "sorted (map (Suc \<circ> index_of ks) ks)"
    using Cons by (simp add: sorted_map sorted_wrt_map comp_def)
  ultimately have "sorted (map (index_of (k # ks)) ks)"
    by metis
  moreover have "index_of (k # ks) k = 0" by simp
  ultimately show ?case by (simp del: index_of.simps)
qed simp

lemma index_of_inj: "inj_on (index_of ks) (set ks)"
  by (induction ks) (auto simp: inj_on_def)

lemma range_keys_complete:
  assumes "distinct ks" and "mset ks = mset ks'"
  shows "\<exists>rank. range_keys rank ks' = ks"
proof -
  have d: "distinct ks'" using assms by (metis mset_eq_imp_distinct_iff)
  have "sort_key (index_of ks) ks' = ks"
  proof (rule properties_for_sort_key)
    show "mset ks = mset ks'" by (fact assms)
    show "filter (\<lambda>x. index_of ks k = index_of ks x) ks = filter (\<lambda>x. index_of ks k = index_of ks x) ks'"
      if "k \<in> set ks" for k
    proof -
      have "filter (\<lambda>x. index_of ks k = index_of ks x) xs = filter (\<lambda>x. x = k) xs"
        if "set xs = set ks" for xs
        using \<open>k \<in> set ks\<close> that index_of_inj [of ks] by (auto intro!: filter_cong simp: inj_on_def)
      moreover have "filter (\<lambda>x. x = k) xs = [k]" if "distinct xs" "k \<in> set xs" for xs
        using that by (induction xs) (auto simp: filter_empty_conv)
      ultimately show ?thesis
        using assms d \<open>k \<in> set ks\<close> mset_eq_setD [OF assms(2)] by simp
    qed
    show "sorted (map (index_of ks) ks)" by (rule sorted_index_of) (fact assms)
  qed
  then show ?thesis by (auto simp: range_keys_def)
qed

section \<open>Library sorting and searching\<close>

text \<open>
  \<^verbatim>\<open>sort.Search(n, f)\<close>: the binary search of the Go library, with its half-open interval and
  its midpoint \<^verbatim>\<open>int(uint(i+j) >> 1)\<close>.
\<close>

function go_search :: "(nat \<Rightarrow> bool) \<Rightarrow> nat \<Rightarrow> nat \<Rightarrow> nat" where
  "go_search f i j =
     (if i < j
      then let h = (i + j) div 2 in if \<not> f h then go_search f (h + 1) j else go_search f i h
      else i)"
  by pat_completeness auto
termination
  by (relation "measure (\<lambda>(f, i, j). j - i)") (auto simp: Let_def)

declare go_search.simps [simp del]

text \<open>
  For a predicate that is monotone on the interval the search returns the least index at which
  it holds, or the end of the interval.
\<close>

lemma go_search_least:
  assumes "i \<le> j"
    and "\<And>a b. i \<le> a \<Longrightarrow> a \<le> b \<Longrightarrow> b < j \<Longrightarrow> f a \<Longrightarrow> f b"
  shows "i \<le> go_search f i j \<and> go_search f i j \<le> j
       \<and> (\<forall>k. i \<le> k \<and> k < go_search f i j \<longrightarrow> \<not> f k)
       \<and> (\<forall>k. go_search f i j \<le> k \<and> k < j \<longrightarrow> f k)"
  using assms
proof (induction f i j rule: go_search.induct)
  case (1 f i j)
  define h where "h = (i + j) div 2"
  show ?case
  proof (cases "i < j")
    case False
    then have "go_search f i j = i" by (simp add: go_search.simps [of f i j])
    with False "1.prems"(1) show ?thesis by auto
  next
    case True
    then have h: "i \<le> h" "h < j" by (auto simp: h_def)
    show ?thesis
    proof (cases "f h")
      case False
      have IH: "h + 1 \<le> go_search f (h + 1) j \<and> go_search f (h + 1) j \<le> j
          \<and> (\<forall>k. h + 1 \<le> k \<and> k < go_search f (h + 1) j \<longrightarrow> \<not> f k)
          \<and> (\<forall>k. go_search f (h + 1) j \<le> k \<and> k < j \<longrightarrow> f k)"
      proof (rule "1.IH"(1) [OF True h_def False])
        show "h + 1 \<le> j" using h by simp
        show "f b" if "h + 1 \<le> a" "a \<le> b" "b < j" "f a" for a b
          using "1.prems"(2) [of a b] that h by linarith
      qed
      have low: "\<not> f k" if "i \<le> k" "k \<le> h" for k
        using "1.prems"(2) [of k h] that h False by blast
      have "\<not> f k" if "i \<le> k" "k < go_search f (h + 1) j" for k
        using IH low [OF that(1)] that by (cases "k \<le> h") auto
      with IH h True False show ?thesis
        by (simp add: go_search.simps [of f i j] Let_def flip: h_def)
    next
      case True': True
      have IH: "i \<le> go_search f i h \<and> go_search f i h \<le> h
          \<and> (\<forall>k. i \<le> k \<and> k < go_search f i h \<longrightarrow> \<not> f k)
          \<and> (\<forall>k. go_search f i h \<le> k \<and> k < h \<longrightarrow> f k)"
      proof (rule "1.IH"(2) [OF True h_def])
        show "\<not> \<not> f h" using True' by simp
        show "i \<le> h" using h by simp
        show "f b" if "i \<le> a" "a \<le> b" "b < h" "f a" for a b
          using "1.prems"(2) [of a b] that h by linarith
      qed
      have "f k" if "h \<le> k" "k < j" for k
        using "1.prems"(2) [of h k] that h True' by blast
      with IH have "\<forall>k. go_search f i h \<le> k \<and> k < j \<longrightarrow> f k"
        by (metis linorder_not_le)
      with IH h True True' show ?thesis
        by (simp add: go_search.simps [of f i j] Let_def flip: h_def)
    qed
  qed
qed

text \<open>
  \<^verbatim>\<open>sort.Slice\<close> is not stable: elements with equal keys come out in an order the library
  does not fix. \<^term>\<open>tie\<close> is that order; a theorem for all \<^term>\<open>tie\<close> covers every outcome.
\<close>

definition go_sort_slice :: "('a \<Rightarrow> nat) \<Rightarrow> ('a \<Rightarrow> int) \<Rightarrow> 'a list \<Rightarrow> 'a list" where
  "go_sort_slice tie key xs = sort_key key (sort_key tie xs)"

lemma mset_go_sort_slice [simp]: "mset (go_sort_slice tie key xs) = mset xs"
  by (simp add: go_sort_slice_def)

lemma set_go_sort_slice [simp]: "set (go_sort_slice tie key xs) = set xs"
  by (simp add: go_sort_slice_def)

lemma length_go_sort_slice [simp]: "length (go_sort_slice tie key xs) = length xs"
  by (simp add: go_sort_slice_def)

lemma sorted_go_sort_slice [simp]: "sorted (map key (go_sort_slice tie key xs))"
  by (simp add: go_sort_slice_def)

section \<open>Lists\<close>

text \<open>The suffix \<^verbatim>\<open>xs[len(xs)-n:]\<close> kept when a history is trimmed to \<open>n\<close> entries.\<close>

definition keep_last :: "nat \<Rightarrow> 'a list \<Rightarrow> 'a list" where
  "keep_last n xs = drop (length xs - n) xs"

lemma length_keep_last [simp]: "length (keep_last n xs) = min n (length xs)"
  by (simp add: keep_last_def)

lemma last_keep_last [simp]: "0 < n \<Longrightarrow> xs \<noteq> [] \<Longrightarrow> last (keep_last n xs) = last xs"
  by (simp add: keep_last_def)

lemma keep_last_id [simp]: "length xs \<le> n \<Longrightarrow> keep_last n xs = xs"
  by (simp add: keep_last_def)

lemma suffix_keep_last: "suffix (keep_last n xs) xs"
  by (simp add: keep_last_def suffix_drop)

lemma keep_last_eq_Nil [simp]: "keep_last n xs = [] \<longleftrightarrow> n = 0 \<or> xs = []"
  by (cases xs) (auto simp: keep_last_def)

text \<open>Insertion at a position, the \<^verbatim>\<open>append\<close>/\<^verbatim>\<open>copy\<close> idiom of Go.\<close>

definition insert_at :: "nat \<Rightarrow> 'a \<Rightarrow> 'a list \<Rightarrow> 'a list" where
  "insert_at pos x xs = take pos xs @ x # drop pos xs"

lemma mset_insert_at [simp]: "mset (insert_at pos x xs) = add_mset x (mset xs)"
proof -
  have "mset (take pos xs) + mset (drop pos xs) = mset xs"
    by (metis append_take_drop_id mset_append)
  then show ?thesis by (simp add: insert_at_def)
qed

lemma set_insert_at [simp]: "set (insert_at pos x xs) = insert x (set xs)"
  by (metis mset_insert_at set_mset_add_mset_insert set_mset_mset)

lemma length_insert_at [simp]: "length (insert_at pos x xs) = Suc (length xs)"
  by (metis mset_insert_at size_add_mset size_mset)

lemma insert_at_neq_Nil [simp]: "insert_at pos x xs \<noteq> []"
  by (simp add: insert_at_def)

text \<open>Removal of the first entry with a given key, the \<^verbatim>\<open>append(xs[:i], xs[i+1:]...)\<close> loop.\<close>

fun remove_first :: "('a \<Rightarrow> bool) \<Rightarrow> 'a list \<Rightarrow> 'a list" where
  "remove_first P [] = []"
| "remove_first P (x # xs) = (if P x then xs else x # remove_first P xs)"

lemma remove_first_none [simp]: "(\<And>x. x \<in> set xs \<Longrightarrow> \<not> P x) \<Longrightarrow> remove_first P xs = xs"
  by (induction xs) auto

lemma set_remove_first_subset: "set (remove_first P xs) \<subseteq> set xs"
  by (induction xs) auto

lemma remove_first_key:
  "distinct (map f xs) \<Longrightarrow> remove_first (\<lambda>x. f x = k) xs = filter (\<lambda>x. f x \<noteq> k) xs"
proof (induction xs)
  case (Cons x xs)
  show ?case
  proof (cases "f x = k")
    case True
    then have "filter (\<lambda>y. f y \<noteq> k) xs = xs"
      using Cons.prems by (intro filter_True) (metis distinct.simps(2) image_eqI list.map(2) list.set_map)
    with True show ?thesis by simp
  qed (use Cons in auto)
qed simp

section \<open>Decimal printing\<close>

text \<open>\<^verbatim>\<open>strconv.FormatInt(n, 10)\<close> and \<^verbatim>\<open>fmt.Sprintf("%d", n)\<close>.\<close>

definition digit_char :: "nat \<Rightarrow> char" where
  "digit_char d = (char_of (48 + d) :: char)"

fun show_nat :: "nat \<Rightarrow> string" where
  "show_nat n = (if n < 10 then [digit_char n] else show_nat (n div 10) @ [digit_char (n mod 10)])"

definition show_int :: "int \<Rightarrow> string" where
  "show_int n = (if n < 0 then ''-'' @ show_nat (nat (- n)) else show_nat (nat n))"

definition read_digits :: "string \<Rightarrow> nat" where
  "read_digits s = fold (\<lambda>c a. 10 * a + (of_char c - 48)) s 0"

lemma of_digit_char: "d < 10 \<Longrightarrow> of_char (digit_char d) = 48 + d"
  by (simp add: digit_char_def of_char_of)

lemma read_show_nat: "read_digits (show_nat n) = n"
proof (induction n rule: show_nat.induct)
  case (1 n)
  show ?case
  proof (cases "n < 10")
    case True
    then show ?thesis by (simp add: read_digits_def of_digit_char)
  next
    case False
    then have "read_digits (show_nat n) = 10 * read_digits (show_nat (n div 10)) + n mod 10"
      by (subst show_nat.simps) (simp add: read_digits_def of_digit_char)
    with 1 [OF False] show ?thesis by simp
  qed
qed

declare show_nat.simps [simp del]

lemma show_nat_inj: "show_nat m = show_nat n \<longleftrightarrow> m = n"
  by (metis read_show_nat)

lemma show_nat_digits: "c \<in> set (show_nat n) \<Longrightarrow> c \<noteq> CHR ''-''"
proof (induction n rule: show_nat.induct)
  case (1 n)
  have "digit_char d \<noteq> CHR ''-''" if "d < 10" for d
    using of_digit_char [OF that] by auto
  from this [of n] this [of "n mod 10"] 1 show ?case
    by (cases "n < 10") (auto simp: show_nat.simps [of n])
qed

lemma show_nat_not_minus: "show_nat n \<noteq> CHR ''-'' # s"
  using show_nat_digits [of "CHR ''-''" n] by (metis list.set_intros(1))

lemma show_int_inj: "show_int m = show_int n \<longleftrightarrow> m = n"
  using show_nat_not_minus show_nat_not_minus [symmetric]
  by (auto simp: show_int_def show_nat_inj nat_eq_iff split: if_splits)

lemma set_map_filter_iff: "y \<in> set (List.map_filter f xs) \<longleftrightarrow> (\<exists>x \<in> set xs. f x = Some y)"
  by (auto simp: List.map_filter_def intro!: image_eqI)

lemma map_filter_total: "(\<And>x. x \<in> set xs \<Longrightarrow> f x = Some (g x)) \<Longrightarrow> List.map_filter f xs = map g xs"
  by (induction xs) (auto simp: List.map_filter_simps)

lemma subseq_snoc: "subseq xs ys \<Longrightarrow> subseq xs (ys @ [y])"
  by (metis append_Nil2 list_emb_append_mono list_emb_Nil)

end
