(* ===== verification/Nuts_Values.thy ===== *)
theory Nuts_Values
  imports Nuts_Prelude Complex_Main
begin

text \<open>
  Dynamically typed values (\<^verbatim>\<open>interface{}\<close>) as the configuration files and event payloads carry
  them, and the map readers of \<^verbatim>\<open>src/pkg/task/sm_factory.go\<close>. A \<^verbatim>\<open>float64\<close> is its rational
  value; a map is an association list, read at its first binding of a key.
\<close>

datatype govalue =
    VNil
  | VString string
  | VInt int
  | VInt64 int
  | VFloat rat
  | VBool bool
  | VSlice "govalue list"
  | VMap "(string \<times> govalue) list"
  | VStrMap "(string \<times> string) list"
  | VAnyMap "(govalue \<times> govalue) list"

type_synonym gomap = "(string \<times> govalue) list"

text \<open>\<^verbatim>\<open>int(v)\<close> of a \<^verbatim>\<open>float64\<close> truncates towards zero.\<close>

definition truncate_float :: "rat \<Rightarrow> int" where
  "truncate_float q = (if q < 0 then - \<lfloor>- q\<rfloor> else \<lfloor>q\<rfloor>)"

definition getStringFromMap :: "gomap \<Rightarrow> string \<Rightarrow> string \<Rightarrow> string" where
  "getStringFromMap m key defaultVal =
     (case map_of m key of Some (VString s) \<Rightarrow> s | _ \<Rightarrow> defaultVal)"

definition getBoolFromMap :: "gomap \<Rightarrow> string \<Rightarrow> bool \<Rightarrow> bool" where
  "getBoolFromMap m key defaultVal =
     (case map_of m key of Some (VBool b) \<Rightarrow> b | _ \<Rightarrow> defaultVal)"

definition getIntFromMap :: "gomap \<Rightarrow> string \<Rightarrow> int \<Rightarrow> int" where
  "getIntFromMap m key defaultVal =
     (case map_of m key of
        Some (VInt v) \<Rightarrow> v
      | Some (VInt64 v) \<Rightarrow> v
      | Some (VFloat v) \<Rightarrow> truncate_float v
      | _ \<Rightarrow> defaultVal)"

definition getStringSliceFromMap :: "gomap \<Rightarrow> string \<Rightarrow> string list" where
  "getStringSliceFromMap m key =
     (case map_of m key of
        Some (VSlice vs) \<Rightarrow> List.map_filter (\<lambda>v. case v of VString s \<Rightarrow> Some s | _ \<Rightarrow> None) vs
      | _ \<Rightarrow> [])"

lemma truncate_float_int [simp]: "truncate_float (of_int n) = n"
  by (simp add: truncate_float_def flip: of_int_minus)

end
