(* ===== verification/Nuts_DB.thy ===== *)
theory Nuts_DB
  imports Nuts_Prelude
begin

text \<open>
  The key-value storage layer (\<^verbatim>\<open>src/pkg/db\<close>): the \<^verbatim>\<open>DB\<close> interface as a dictionary of
  operations over a database state, the in-memory backend, the backend factory, and the locale
  \<open>kv_db\<close> with the laws the stores built on it rely on.
\<close>

section \<open>The interface\<close>

datatype db_error =
    KeyNotFound string
  | UnsupportedType string
  | BackendFailure string

text \<open>
  An interface value is the state \<^typ>\<open>'d\<close> of the backend and its methods. A method that
  fails leaves the state as it was.
\<close>

record ('d, 'b) DB =
  db_get :: "'d \<Rightarrow> string \<Rightarrow> db_error + 'b"
  db_set :: "'d \<Rightarrow> string \<Rightarrow> 'b \<Rightarrow> db_error + 'd"
  db_delete :: "'d \<Rightarrow> string \<Rightarrow> db_error + 'd"
  db_list :: "'d \<Rightarrow> string \<Rightarrow> db_error + string list"

text \<open>
  What a store relies on: \<open>view\<close> is the content of the backend, reads agree with it, a
  successful write changes exactly one key, and a listing names each key with the prefix once.
\<close>

locale kv_db =
  fixes B :: "('d, 'b) DB"
    and view :: "'d \<Rightarrow> string \<Rightarrow> 'b option"
    and db_ok :: "'d \<Rightarrow> bool"
  assumes get_Some: "db_ok d \<Longrightarrow> view d k = Some v \<Longrightarrow> db_get B d k = Inr v"
    and get_None: "db_ok d \<Longrightarrow> view d k = None \<Longrightarrow> \<exists>e. db_get B d k = Inl e"
    and set_ok: "db_ok d \<Longrightarrow> db_set B d k v = Inr d' \<Longrightarrow> db_ok d'"
    and set_view: "db_ok d \<Longrightarrow> db_set B d k v = Inr d' \<Longrightarrow> view d' = (view d)(k \<mapsto> v)"
    and delete_ok: "db_ok d \<Longrightarrow> db_delete B d k = Inr d' \<Longrightarrow> db_ok d'"
    and delete_view: "db_ok d \<Longrightarrow> db_delete B d k = Inr d' \<Longrightarrow> view d' = (view d)(k := None)"
    and list_distinct: "db_ok d \<Longrightarrow> db_list B d p = Inr ks \<Longrightarrow> distinct ks"
    and list_set: "db_ok d \<Longrightarrow> db_list B d p = Inr ks \<Longrightarrow>
          set ks = {k. prefix p k \<and> view d k \<noteq> None}"
begin

lemma get_iff: "db_ok d \<Longrightarrow> db_get B d k = Inr v \<longleftrightarrow> view d k = Some v"
  by (cases "view d k") (auto simp: get_Some dest: get_None)

lemma get_after_set:
  "db_ok d \<Longrightarrow> db_set B d k v = Inr d' \<Longrightarrow>
     db_get B d' k' = Inr w \<longleftrightarrow> (if k' = k then w = v else db_get B d k' = Inr w)"
  by (auto simp: get_iff set_ok set_view)

lemma get_after_delete:
  "db_ok d \<Longrightarrow> db_delete B d k = Inr d' \<Longrightarrow>
     db_get B d' k' = Inr w \<longleftrightarrow> k' \<noteq> k \<and> db_get B d k' = Inr w"
  by (auto simp: get_iff delete_ok delete_view)

end

section \<open>The in-memory backend\<close>

text \<open>
  \<^verbatim>\<open>MemoryDB.data\<close> is a Go map, kept as an association list with distinct keys; the rank
  given to \<open>List\<close> is the runtime's iteration order.
\<close>

record 'b MemoryDB =
  data :: "(string \<times> 'b) list"

definition NewMemoryDB :: "'b MemoryDB" where
  "NewMemoryDB = \<lparr>data = []\<rparr>"

definition MemoryDB_Get :: "'b MemoryDB \<Rightarrow> string \<Rightarrow> db_error + 'b" where
  "MemoryDB_Get m key =
     (case map_of (data m) key of None \<Rightarrow> Inl (KeyNotFound key) | Some v \<Rightarrow> Inr v)"

fun alist_put :: "'k \<Rightarrow> 'v \<Rightarrow> ('k \<times> 'v) list \<Rightarrow> ('k \<times> 'v) list" where
  "alist_put k v [] = [(k, v)]"
| "alist_put k v (x # xs) = (if fst x = k then (k, v) # xs else x # alist_put k v xs)"

definition MemoryDB_Set :: "'b MemoryDB \<Rightarrow> string \<Rightarrow> 'b \<Rightarrow> db_error + 'b MemoryDB" where
  "MemoryDB_Set m key value = Inr (m\<lparr>data := alist_put key value (data m)\<rparr>)"

definition MemoryDB_Delete :: "'b MemoryDB \<Rightarrow> string \<Rightarrow> db_error + 'b MemoryDB" where
  "MemoryDB_Delete m key = Inr (m\<lparr>data := filter (\<lambda>x. fst x \<noteq> key) (data m)\<rparr>)"

definition MemoryDB_List :: "(string \<Rightarrow> nat) \<Rightarrow> 'b MemoryDB \<Rightarrow> string \<Rightarrow> db_error + string list" where
  "MemoryDB_List rank m p =
     Inr (filter (prefix p) (range_keys rank (map fst (data m))))"

definition memoryDB :: "(string \<Rightarrow> nat) \<Rightarrow> ('b MemoryDB, 'b) DB" where
  "memoryDB rank =
     \<lparr>db_get = MemoryDB_Get, db_set = MemoryDB_Set, db_delete = MemoryDB_Delete,
      db_list = MemoryDB_List rank\<rparr>"

definition mem_view :: "'b MemoryDB \<Rightarrow> string \<Rightarrow> 'b option" where
  "mem_view m = map_of (data m)"

definition mem_ok :: "'b MemoryDB \<Rightarrow> bool" where
  "mem_ok m \<longleftrightarrow> distinct (map fst (data m))"

lemma map_of_alist_put: "map_of (alist_put k v xs) = (map_of xs)(k \<mapsto> v)"
  by (induction xs) (auto simp: fun_eq_iff)

lemma keys_alist_put: "fst ` set (alist_put k v xs) = insert k (fst ` set xs)"
  by (induction xs) auto

lemma distinct_alist_put: "distinct (map fst xs) \<Longrightarrow> distinct (map fst (alist_put k v xs))"
  by (induction xs) (auto simp: keys_alist_put)

lemma map_of_filter_key: "map_of (filter (\<lambda>x. fst x \<noteq> k) xs) = (map_of xs)(k := None)"
  by (induction xs) (auto simp: fun_eq_iff)

lemma distinct_filter_key: "distinct (map fst xs) \<Longrightarrow> distinct (map fst (filter P xs))"
  by (induction xs) auto

lemmas memoryDB_simps = memoryDB_def MemoryDB_Get_def MemoryDB_Set_def MemoryDB_Delete_def
  MemoryDB_List_def mem_view_def mem_ok_def

interpretation mem: kv_db "memoryDB rank" mem_view mem_ok
proof
  fix d :: "'a MemoryDB" and p ks
  assume "mem_ok d" "db_list (memoryDB rank) d p = Inr ks"
  then show "set ks = {k. prefix p k \<and> mem_view d k \<noteq> None}"
    by (force simp: memoryDB_simps map_of_eq_None_iff)
qed (auto simp: memoryDB_simps map_of_alist_put map_of_filter_key distinct_alist_put
  distinct_filter_key)

lemma mem_set_total: "\<exists>d'. db_set (memoryDB rank) d k v = Inr d'"
  by (simp add: memoryDB_simps)

lemma mem_ok_NewMemoryDB [simp]: "mem_ok NewMemoryDB"
  by (simp add: NewMemoryDB_def mem_ok_def)

section \<open>The factory\<close>

record Config =
  cfg_Type :: string
  cfg_Path :: string
  cfg_TableName :: string

type_synonym 'db creator = "Config \<Rightarrow> db_error + 'db"
type_synonym 'db Factory = "string \<rightharpoonup> 'db creator"

definition Factory_Register :: "'db Factory \<Rightarrow> string \<Rightarrow> 'db creator \<Rightarrow> 'db Factory" where
  "Factory_Register f name creator = f(name \<mapsto> creator)"

definition Factory_Create :: "'db Factory \<Rightarrow> Config \<Rightarrow> db_error + 'db" where
  "Factory_Create f cfg =
     (case f (cfg_Type cfg) of
        None \<Rightarrow> Inl (UnsupportedType (cfg_Type cfg))
      | Some creator \<Rightarrow> creator cfg)"

text \<open>The registration that the \<^verbatim>\<open>init\<close> function of the in-memory backend performs.\<close>

definition memory_init :: "'b MemoryDB Factory \<Rightarrow> 'b MemoryDB Factory" where
  "memory_init f = Factory_Register f ''memory'' (\<lambda>cfg. Inr NewMemoryDB)"

lemma Factory_Create_Register:
  "Factory_Create (Factory_Register f name c) cfg =
     (if cfg_Type cfg = name then c cfg else Factory_Create f cfg)"
  by (simp add: Factory_Create_def Factory_Register_def)

end
