(* ===== verification/Nuts_Event.thy ===== *)
theory Nuts_Event
  imports Nuts_Values Nuts_DB
begin

text \<open>
  The event record that all modules exchange (\<^verbatim>\<open>src/pkg/common/event.go\<close>): field access over the typed
  and untyped payloads, and the flattening into one map. A Go map is an association list, a nil
  map is \<^term>\<open>None\<close>. The payload messages are those of \<^verbatim>\<open>src/api/event.proto\<close>.
\<close>

type_synonym strmap = "(string \<times> string) list"

record PodEventPayload =
  pod_PodName :: string
  pod_PodNamespace :: string
  pod_PodUid :: string
  pod_PodId :: string
  pod_Labels :: "strmap option"
  pod_Extensions :: "strmap option"

record PolicyEventPayload =
  pol_PolicyId :: string
  pol_TriggerEventType :: string
  pol_TriggerEventSource :: string
  pol_TriggerEventId :: string
  pol_Timestamp :: int
  pol_Extensions :: "strmap option"

record TaskEventPayload =
  tsk_TaskId :: string
  tsk_OldState :: string
  tsk_NewState :: string
  tsk_CurrentState :: string
  tsk_TargetState :: string
  tsk_Timestamp :: int
  tsk_PolicyId :: string
  tsk_TriggerEventType :: string
  tsk_TriggerEventId :: string
  tsk_Extensions :: "strmap option"

record ComponentEventPayload =
  cmp_TaskId :: string
  cmp_CurrentState :: string
  cmp_TargetState :: string
  cmp_ComponentName :: string
  cmp_Success :: bool
  cmp_Message :: string

datatype typed_payload =
    Event_Pod "PodEventPayload option"
  | Event_Policy "PolicyEventPayload option"
  | Event_Task "TaskEventPayload option"
  | Event_Component "ComponentEventPayload option"
  | Event_Other

text \<open>The context of an event is read for its trace id only; \<^verbatim>\<open>Background\<close> carries none.\<close>

type_synonym gocontext = "string option"

record Event =
  ev_ID :: string
  ev_Type :: string
  ev_Topic :: string
  ev_Timestamp :: gotime
  ev_TraceID :: string
  ev_Source :: string
  ev_Version :: string
  ev_TypedPayload :: "typed_payload option"
  ev_Payload :: "gomap option"
  ev_Ctx :: "gocontext option"

definition TraceIDFromContext :: "gocontext option \<Rightarrow> string" where
  "TraceIDFromContext ctx = (case ctx of Some (Some tid) \<Rightarrow> tid | _ \<Rightarrow> '''')"

definition ContextWithTraceID :: "gocontext option \<Rightarrow> string \<Rightarrow> gocontext option" where
  "ContextWithTraceID ctx traceID = Some (Some traceID)"

definition WithContext :: "Event \<Rightarrow> gocontext option \<Rightarrow> Event" where
  "WithContext e ctx =
     (let ctx = (case ctx of None \<Rightarrow> Some None | Some c \<Rightarrow> Some c);
          e = e\<lparr>ev_Ctx := ctx\<rparr>;
          traceID = TraceIDFromContext ctx
      in if traceID \<noteq> '''' then e\<lparr>ev_TraceID := traceID\<rparr> else e)"

definition NewEvent :: "string \<Rightarrow> gotime \<Rightarrow> string \<Rightarrow> string \<Rightarrow> string \<Rightarrow> Event" where
  "NewEvent uuid now eventType topic source =
     \<lparr>ev_ID = uuid, ev_Type = eventType, ev_Topic = topic, ev_Timestamp = now, ev_TraceID = '''',
      ev_Source = source, ev_Version = ''1.0'', ev_TypedPayload = None, ev_Payload = None,
      ev_Ctx = None\<rparr>"

section \<open>Single fields\<close>

definition nonempty :: "string \<Rightarrow> govalue option" where
  "nonempty s = (if s \<noteq> '''' then Some (VString s) else None)"

definition nonzero :: "int \<Rightarrow> govalue option" where
  "nonzero n = (if n \<noteq> 0 then Some (VInt64 n) else None)"

definition extension :: "strmap option \<Rightarrow> string \<Rightarrow> govalue option" where
  "extension ext key = (case ext of None \<Rightarrow> None | Some m \<Rightarrow> map_option VString (map_of m key))"

definition getPodField :: "PodEventPayload \<Rightarrow> string \<Rightarrow> govalue option" where
  "getPodField pod key =
     (if key = ''pod_uid'' then nonempty (pod_PodUid pod)
      else if key = ''pod_name'' then nonempty (pod_PodName pod)
      else if key = ''pod_namespace'' \<or> key = ''namespace'' then nonempty (pod_PodNamespace pod)
      else if key = ''pod_id'' then nonempty (pod_PodId pod)
      else if key = ''labels'' then map_option VStrMap (pod_Labels pod)
      else extension (pod_Extensions pod) key)"

definition getPolicyField :: "PolicyEventPayload \<Rightarrow> string \<Rightarrow> govalue option" where
  "getPolicyField p key =
     (if key = ''policy_id'' then nonempty (pol_PolicyId p)
      else if key = ''trigger_event_type'' then nonempty (pol_TriggerEventType p)
      else if key = ''trigger_event_source'' then nonempty (pol_TriggerEventSource p)
      else if key = ''trigger_event_id'' then nonempty (pol_TriggerEventId p)
      else if key = ''timestamp'' then nonzero (pol_Timestamp p)
      else extension (pol_Extensions p) key)"

definition getTaskField :: "TaskEventPayload \<Rightarrow> string \<Rightarrow> govalue option" where
  "getTaskField t key =
     (if key = ''task_id'' then nonempty (tsk_TaskId t)
      else if key = ''old_state'' then nonempty (tsk_OldState t)
      else if key = ''new_state'' then nonempty (tsk_NewState t)
      else if key = ''current_state'' then nonempty (tsk_CurrentState t)
      else if key = ''target_state'' then nonempty (tsk_TargetState t)
      else if key = ''timestamp'' then nonzero (tsk_Timestamp t)
      else if key = ''policy_id'' then nonempty (tsk_PolicyId t)
      else if key = ''trigger_event_type'' then nonempty (tsk_TriggerEventType t)
      else if key = ''trigger_event_id'' then nonempty (tsk_TriggerEventId t)
      else extension (tsk_Extensions t) key)"

definition getComponentField :: "ComponentEventPayload \<Rightarrow> string \<Rightarrow> govalue option" where
  "getComponentField c key =
     (if key = ''task_id'' then nonempty (cmp_TaskId c)
      else if key = ''current_state'' then nonempty (cmp_CurrentState c)
      else if key = ''target_state'' then nonempty (cmp_TargetState c)
      else if key = ''component_name'' then nonempty (cmp_ComponentName c)
      else if key = ''success'' then Some (VBool (cmp_Success c))
      else if key = ''message'' then nonempty (cmp_Message c)
      else None)"

definition typedField :: "typed_payload option \<Rightarrow> string \<Rightarrow> govalue option" where
  "typedField tp key =
     (case tp of
        Some (Event_Pod (Some pod)) \<Rightarrow> getPodField pod key
      | Some (Event_Policy (Some p)) \<Rightarrow> getPolicyField p key
      | Some (Event_Task (Some t)) \<Rightarrow> getTaskField t key
      | Some (Event_Component (Some c)) \<Rightarrow> getComponentField c key
      | _ \<Rightarrow> None)"

definition GetField :: "Event \<Rightarrow> string \<Rightarrow> govalue option" where
  "GetField e key =
     (case typedField (ev_TypedPayload e) key of
        Some v \<Rightarrow> Some v
      | None \<Rightarrow> (case ev_Payload e of Some m \<Rightarrow> map_of m key | None \<Rightarrow> None))"

definition GetPayloadString :: "Event \<Rightarrow> string \<Rightarrow> string" where
  "GetPayloadString e key = (case GetField e key of Some (VString s) \<Rightarrow> s | _ \<Rightarrow> '''')"

text \<open>\<open>unmarshal\<close> is \<^verbatim>\<open>json.Unmarshal\<close> into a \<^verbatim>\<open>map[string]interface{}\<close>.\<close>

definition GetPayloadMap :: "(string \<Rightarrow> gomap option) \<Rightarrow> Event \<Rightarrow> string \<Rightarrow> gomap option" where
  "GetPayloadMap unmarshal e key =
     (case GetField e key of
        Some (VMap m) \<Rightarrow> Some m
      | Some (VStrMap m) \<Rightarrow> Some (map (\<lambda>(k, s). (k, VString s)) m)
      | Some (VString s) \<Rightarrow> unmarshal s
      | _ \<Rightarrow> None)"

section \<open>The flattened payload\<close>

definition putSome :: "string \<Rightarrow> govalue option \<Rightarrow> gomap \<Rightarrow> gomap" where
  "putSome key v m = (case v of None \<Rightarrow> m | Some v \<Rightarrow> alist_put key v m)"

text \<open>\<^verbatim>\<open>for k, v := range src { if _, exists := result[k]; !exists { result[k] = v } }\<close>\<close>

definition fillMissing :: "gomap \<Rightarrow> gomap \<Rightarrow> gomap" where
  "fillMissing src result =
     fold (\<lambda>(k, v) r. if map_of r k = None then alist_put k v r else r) src result"

definition fillExtensions :: "strmap option \<Rightarrow> gomap \<Rightarrow> gomap" where
  "fillExtensions ext result =
     (case ext of None \<Rightarrow> result | Some m \<Rightarrow> fillMissing (map (\<lambda>(k, s). (k, VString s)) m) result)"

definition typedPayloadMap :: "typed_payload \<Rightarrow> gomap" where
  "typedPayloadMap tp =
     (case tp of
        Event_Pod (Some pod) \<Rightarrow>
          fillExtensions (pod_Extensions pod)
            (putSome ''labels'' (map_option VStrMap (pod_Labels pod))
            (putSome ''pod_id'' (nonempty (pod_PodId pod))
            (putSome ''pod_uid'' (nonempty (pod_PodUid pod))
            (putSome ''namespace'' (nonempty (pod_PodNamespace pod))
            (putSome ''pod_namespace'' (nonempty (pod_PodNamespace pod))
            (putSome ''pod_name'' (nonempty (pod_PodName pod)) []))))))
      | Event_Policy (Some p) \<Rightarrow>
          fillExtensions (pol_Extensions p)
            (putSome ''timestamp'' (nonzero (pol_Timestamp p))
            (putSome ''trigger_event_id'' (nonempty (pol_TriggerEventId p))
            (putSome ''trigger_event_source'' (nonempty (pol_TriggerEventSource p))
            (putSome ''trigger_event_type'' (nonempty (pol_TriggerEventType p))
            (putSome ''policy_id'' (nonempty (pol_PolicyId p)) [])))))
      | Event_Task (Some t) \<Rightarrow>
          fillExtensions (tsk_Extensions t)
            (putSome ''trigger_event_id'' (nonempty (tsk_TriggerEventId t))
            (putSome ''trigger_event_type'' (nonempty (tsk_TriggerEventType t))
            (putSome ''policy_id'' (nonempty (tsk_PolicyId t))
            (putSome ''timestamp'' (nonzero (tsk_Timestamp t))
            (putSome ''target_state'' (nonempty (tsk_TargetState t))
            (putSome ''current_state'' (nonempty (tsk_CurrentState t))
            (putSome ''new_state'' (nonempty (tsk_NewState t))
            (putSome ''old_state'' (nonempty (tsk_OldState t))
            (putSome ''task_id'' (nonempty (tsk_TaskId t)) [])))))))))
      | Event_Component (Some c) \<Rightarrow>
          putSome ''message'' (nonempty (cmp_Message c))
            (putSome ''success'' (if cmp_Success c then Some (VBool True) else None)
            (putSome ''component'' (nonempty (cmp_ComponentName c))
            (putSome ''target_state'' (nonempty (cmp_TargetState c))
            (putSome ''current_state'' (nonempty (cmp_CurrentState c))
            (putSome ''task_id'' (nonempty (cmp_TaskId c)) [])))))
      | _ \<Rightarrow> [])"

definition ToPayloadMap :: "Event \<Rightarrow> gomap" where
  "ToPayloadMap e =
     (case ev_TypedPayload e of
        None \<Rightarrow> []
      | Some tp \<Rightarrow>
          (case ev_Payload e of
             None \<Rightarrow> typedPayloadMap tp
           | Some m \<Rightarrow> fillMissing m (typedPayloadMap tp)))"

section \<open>The two views agree\<close>

lemma map_of_putSome [simp]:
  "map_of (putSome key v m) k = (if k = key \<and> v \<noteq> None then v else map_of m k)"
  by (auto simp: putSome_def map_of_alist_put split: option.split)

lemma map_of_fillMissing:
  "map_of (fillMissing src r) k = (case map_of r k of Some v \<Rightarrow> Some v | None \<Rightarrow> map_of src k)"
  unfolding fillMissing_def
  by (induction src arbitrary: r) (auto simp: map_of_alist_put split: option.split if_splits)

lemma map_of_VString: "map_of (map (\<lambda>(k, s). (k, VString s)) m) k = map_option VString (map_of m k)"
  by (induction m) auto

lemma map_of_fillExtensions:
  "map_of (fillExtensions ext r) k = (case map_of r k of Some v \<Rightarrow> Some v | None \<Rightarrow> extension ext k)"
  by (auto simp: fillExtensions_def map_of_fillMissing map_of_VString extension_def split: option.split)

definition reservedKeys :: "typed_payload \<Rightarrow> string set" where
  "reservedKeys tp =
     (case tp of
        Event_Pod _ \<Rightarrow> {''pod_uid'', ''pod_name'', ''pod_namespace'', ''namespace'', ''pod_id'', ''labels''}
      | Event_Policy _ \<Rightarrow> {''policy_id'', ''trigger_event_type'', ''trigger_event_source'',
          ''trigger_event_id'', ''timestamp''}
      | Event_Task _ \<Rightarrow> {''task_id'', ''old_state'', ''new_state'', ''current_state'', ''target_state'',
          ''timestamp'', ''policy_id'', ''trigger_event_type'', ''trigger_event_id''}
      | Event_Component _ \<Rightarrow> {''component'', ''component_name'', ''success''}
      | Event_Other \<Rightarrow> {})"

definition extensionsOf :: "typed_payload \<Rightarrow> strmap" where
  "extensionsOf tp =
     (case tp of
        Event_Pod (Some pod) \<Rightarrow> (case pod_Extensions pod of Some m \<Rightarrow> m | None \<Rightarrow> [])
      | Event_Policy (Some p) \<Rightarrow> (case pol_Extensions p of Some m \<Rightarrow> m | None \<Rightarrow> [])
      | Event_Task (Some t) \<Rightarrow> (case tsk_Extensions t of Some m \<Rightarrow> m | None \<Rightarrow> [])
      | _ \<Rightarrow> [])"

text \<open>No extension shadows a typed field, and a component event is asked for its shared keys.\<close>

definition readable :: "typed_payload \<Rightarrow> string \<Rightarrow> bool" where
  "readable tp key \<longleftrightarrow>
     (case tp of
        Event_Component _ \<Rightarrow> key \<notin> reservedKeys tp
      | _ \<Rightarrow> key \<in> reservedKeys tp \<longrightarrow> map_of (extensionsOf tp) key = None)"

lemma typedPayloadMap_pod:
  "readable (Event_Pod (Some pod)) key \<Longrightarrow>
     map_of (typedPayloadMap (Event_Pod (Some pod))) key = getPodField pod key"
  by (auto simp: typedPayloadMap_def getPodField_def map_of_fillExtensions nonempty_def readable_def
      reservedKeys_def extensionsOf_def extension_def split: option.splits)

lemma typedPayloadMap_policy:
  "readable (Event_Policy (Some p)) key \<Longrightarrow>
     map_of (typedPayloadMap (Event_Policy (Some p))) key = getPolicyField p key"
  by (auto simp: typedPayloadMap_def getPolicyField_def map_of_fillExtensions nonempty_def nonzero_def
      readable_def reservedKeys_def extensionsOf_def extension_def split: option.splits)

lemma typedPayloadMap_task:
  assumes "readable (Event_Task (Some t)) key"
  shows "map_of (typedPayloadMap (Event_Task (Some t))) key = getTaskField t key"
proof (cases "key \<in> reservedKeys (Event_Task (Some t))")
  case True
  with assms have "extension (tsk_Extensions t) key = None"
    by (auto simp: readable_def extensionsOf_def extension_def split: option.splits)
  with True show ?thesis unfolding reservedKeys_def typed_payload.case
    by (elim insertE)
      (simp_all add: typedPayloadMap_def getTaskField_def map_of_fillExtensions option.case_eq_if)
next
  case False
  then show ?thesis
    by (simp add: reservedKeys_def typedPayloadMap_def getTaskField_def map_of_fillExtensions)
qed

lemma typedPayloadMap_component:
  "readable (Event_Component (Some c)) key \<Longrightarrow>
     map_of (typedPayloadMap (Event_Component (Some c))) key = getComponentField c key"
  by (auto simp: typedPayloadMap_def getComponentField_def nonempty_def readable_def reservedKeys_def)

lemma typed_views_agree:
  assumes "ev_TypedPayload e = Some tp" "readable tp key"
  shows "map_of (ToPayloadMap e) key = GetField e key"
proof -
  have "map_of (typedPayloadMap tp) key = typedField (Some tp) key"
  proof (cases "tp = Event_Other \<or> tp \<in> {Event_Pod None, Event_Policy None, Event_Task None, Event_Component None}")
    case True
    then show ?thesis by (auto simp: typedPayloadMap_def typedField_def)
  next
    case False
    then consider pod where "tp = Event_Pod (Some pod)" | p where "tp = Event_Policy (Some p)"
      | t where "tp = Event_Task (Some t)" | c where "tp = Event_Component (Some c)"
      by (cases tp) (auto split: option.splits)
    then show ?thesis using assms(2)
      by cases (simp_all add: typedField_def typedPayloadMap_pod typedPayloadMap_policy
          typedPayloadMap_task typedPayloadMap_component)
  qed
  with assms(1) show ?thesis
    by (auto simp: ToPayloadMap_def GetField_def map_of_fillMissing split: option.split)
qed

text \<open>
  For an event with a typed payload the two ways of reading it agree: looking a key up in
  the flattened map gives what \<^verbatim>\<open>GetField\<close> gives, for every key that no extension shadows (for a
  component event, for the keys the two spell alike).
\<close>

theorem GetField_ToPayloadMap:
  assumes "ev_TypedPayload e = Some tp" "readable tp key"
  shows "map_of (ToPayloadMap e) key = GetField e key"
  using assms by (rule typed_views_agree)

definition podPayload :: PodEventPayload where
  "podPayload = \<lparr>pod_PodName = ''web'', pod_PodNamespace = ''prod'', pod_PodUid = '''',
     pod_PodId = ''p1'', pod_Labels = None, pod_Extensions = Some [(''node'', ''n7'')]\<rparr>"

definition podEvent :: Event where
  "podEvent = (NewEvent ''e1'' 5 ''PodStart'' ''pod'' ''nri'')
     \<lparr>ev_TypedPayload := Some (Event_Pod (Some podPayload)),
      ev_Payload := Some [(''pod_uid'', VString ''u9''), (''pod_name'', VString ''ignored'')]\<rparr>"

theorem GetField_ToPayloadMap_witness:
  "map_of (ToPayloadMap podEvent) ''pod_uid'' = GetField podEvent ''pod_uid''
   \<and> GetField podEvent ''pod_uid'' = Some (VString ''u9'')
   \<and> GetField podEvent ''pod_name'' = Some (VString ''web'')"
proof -
  have "map_of (ToPayloadMap podEvent) ''pod_uid'' = GetField podEvent ''pod_uid''"
    by (rule GetField_ToPayloadMap [of _ "Event_Pod (Some podPayload)"])
      (simp_all add: podEvent_def podPayload_def readable_def reservedKeys_def extensionsOf_def)
  then show ?thesis by (simp add: podEvent_def podPayload_def NewEvent_def GetField_def typedField_def getPodField_def nonempty_def)
qed

text \<open>
  An event that carries only the untyped payload flattens to the empty map, so its
  fields, which \<^verbatim>\<open>GetField\<close> does find, never reach the policies and the payload builders; and the
  flattened form of a component event has the component under another key than \<^verbatim>\<open>GetField\<close>.
\<close>

theorem ToPayloadMap_divergence:
  "ToPayloadMap (e\<lparr>ev_TypedPayload := None, ev_Payload := Some ((k, v) # m)\<rparr>) = []
   \<and> GetField (e\<lparr>ev_TypedPayload := None, ev_Payload := Some ((k, v) # m)\<rparr>) k = Some v
   \<and> (let e' = e\<lparr>ev_TypedPayload := Some (Event_Component (Some c)), ev_Payload := None\<rparr>
      in map_of (ToPayloadMap e') ''component'' = nonempty (cmp_ComponentName c)
       \<and> map_of (ToPayloadMap e') ''component_name'' = None
       \<and> GetField e' ''component'' = None \<and> GetField e' ''component_name'' = nonempty (cmp_ComponentName c))"
  by (simp add: Let_def ToPayloadMap_def GetField_def typedField_def getComponentField_def
      typedPayloadMap_def split: option.split)

end
