(* ===== verification/Nuts_Common.thy ===== *)
theory Nuts_Common
  imports Nuts_Prelude
begin

text \<open>
  The error codes and structured errors (\<^verbatim>\<open>src/pkg/common/errorcode.go\<close>, \<^verbatim>\<open>app_error.go\<close>) and the
  address parser (\<^verbatim>\<open>utils.go\<close>). Opening a listener is not modelled.
\<close>

section \<open>Error codes\<close>

type_synonym ErrorCode = int

abbreviation (input) CodeSuccess :: ErrorCode where "CodeSuccess \<equiv> 0"
abbreviation (input) CodeInternalError :: ErrorCode where "CodeInternalError \<equiv> 1"
abbreviation (input) CodeInvalidParam :: ErrorCode where "CodeInvalidParam \<equiv> 2"
abbreviation (input) CodeUnauthorized :: ErrorCode where "CodeUnauthorized \<equiv> 3"
abbreviation (input) CodeForbidden :: ErrorCode where "CodeForbidden \<equiv> 4"
abbreviation (input) CodeNotFound :: ErrorCode where "CodeNotFound \<equiv> 5"
abbreviation (input) CodeAlreadyExists :: ErrorCode where "CodeAlreadyExists \<equiv> 6"
abbreviation (input) CodeServiceUnavailable :: ErrorCode where "CodeServiceUnavailable \<equiv> 7"
abbreviation (input) CodeTimeout :: ErrorCode where "CodeTimeout \<equiv> 8"
abbreviation (input) CodeRateLimited :: ErrorCode where "CodeRateLimited \<equiv> 9"
abbreviation (input) CodeDataSourceNotFound :: ErrorCode where "CodeDataSourceNotFound \<equiv> 1000"
abbreviation (input) CodeDataSourceConnectFail :: ErrorCode where "CodeDataSourceConnectFail \<equiv> 1001"
abbreviation (input) CodeDataSourceAuthFail :: ErrorCode where "CodeDataSourceAuthFail \<equiv> 1002"
abbreviation (input) CodeDataSourceTimeout :: ErrorCode where "CodeDataSourceTimeout \<equiv> 1003"
abbreviation (input) CodePolicyNotFound :: ErrorCode where "CodePolicyNotFound \<equiv> 2000"
abbreviation (input) CodePolicyInvalidDSL :: ErrorCode where "CodePolicyInvalidDSL \<equiv> 2001"
abbreviation (input) CodePolicyCompileFail :: ErrorCode where "CodePolicyCompileFail \<equiv> 2002"
abbreviation (input) CodeTaskNotFound :: ErrorCode where "CodeTaskNotFound \<equiv> 3000"
abbreviation (input) CodeTaskInvalidState :: ErrorCode where "CodeTaskInvalidState \<equiv> 3001"
abbreviation (input) CodeTaskCreateFail :: ErrorCode where "CodeTaskCreateFail \<equiv> 3002"
abbreviation (input) CodeTaskResourceExhaust :: ErrorCode where "CodeTaskResourceExhaust \<equiv> 3003"
abbreviation (input) CodeTaskStateMismatch :: ErrorCode where "CodeTaskStateMismatch \<equiv> 3004"
abbreviation (input) CodeTaskTransitionDenied :: ErrorCode where "CodeTaskTransitionDenied \<equiv> 3005"
abbreviation (input) CodeTaskVersionConflict :: ErrorCode where "CodeTaskVersionConflict \<equiv> 3006"
abbreviation (input) CodeEventBusConnectFail :: ErrorCode where "CodeEventBusConnectFail \<equiv> 4000"
abbreviation (input) CodeEventPublishFail :: ErrorCode where "CodeEventPublishFail \<equiv> 4001"
abbreviation (input) CodeEventBusTimeout :: ErrorCode where "CodeEventBusTimeout \<equiv> 4002"
abbreviation (input) CodeEventSubscribeFail :: ErrorCode where "CodeEventSubscribeFail \<equiv> 4003"
abbreviation (input) CodeConfigInvalid :: ErrorCode where "CodeConfigInvalid \<equiv> 5000"
abbreviation (input) CodeConfigMissing :: ErrorCode where "CodeConfigMissing \<equiv> 5001"
abbreviation (input) CodeConfigParseFail :: ErrorCode where "CodeConfigParseFail \<equiv> 5002"

definition ErrorCodeToHTTPStatus :: "ErrorCode \<Rightarrow> int" where
  "ErrorCodeToHTTPStatus code =
     (if code = CodeSuccess then 200
      else if code = CodeInvalidParam then 400
      else if code = CodeUnauthorized then 401
      else if code = CodeForbidden then 403
      else if code = CodeNotFound then 404
      else if code = CodeAlreadyExists then 409
      else if code = CodeRateLimited then 429
      else if code \<ge> CodeInternalError \<and> code < 1000 then 500
      else 500)"

definition ErrorCode_String :: "ErrorCode \<Rightarrow> string" where
  "ErrorCode_String c =
     (if c = CodeSuccess then ''success''
      else if c = CodeInternalError then ''internal error''
      else if c = CodeInvalidParam then ''invalid parameter''
      else if c = CodeNotFound then ''resource not found''
      else if c = CodeDataSourceNotFound then ''datasource not found''
      else if c = CodeTaskNotFound then ''task not found''
      else if c = CodeTaskInvalidState then ''invalid task state''
      else if c = CodeTaskStateMismatch then ''task state mismatch''
      else if c = CodeTaskTransitionDenied then ''task transition denied''
      else if c = CodeTaskVersionConflict then ''task version conflict''
      else if c = CodePolicyNotFound then ''policy not found''
      else if c = CodeEventBusConnectFail then ''eventbus connect failed''
      else if c = CodeEventPublishFail then ''event publish failed''
      else if c = CodeEventBusTimeout then ''eventbus timeout''
      else if c = CodeEventSubscribeFail then ''event subscribe failed''
      else ''unknown error'')"

text \<open>A success status is reported for the success code only.\<close>

lemma status_200_iff: "ErrorCodeToHTTPStatus c = 200 \<longleftrightarrow> c = CodeSuccess"
  by (simp add: ErrorCodeToHTTPStatus_def)

section \<open>Structured errors\<close>

text \<open>
  An \<^verbatim>\<open>error\<close> value: a plain one of some type \<^typ>\<open>'b\<close>, an \<^verbatim>\<open>*AppError\<close> with an optional cause, or one
  wrapped by \<^verbatim>\<open>fmt.Errorf("...: %w", err)\<close>.
\<close>

datatype 'b goerror =
    Plain 'b
  | AppError ErrorCode string "'b goerror option"
  | Wrapped string "'b goerror"

definition NewAppError :: "ErrorCode \<Rightarrow> string \<Rightarrow> 'b goerror" where
  "NewAppError code msg = AppError code msg None"

definition WrapError :: "ErrorCode \<Rightarrow> 'b goerror \<Rightarrow> string \<Rightarrow> 'b goerror" where
  "WrapError code cause msg = AppError code msg (Some cause)"

text \<open>\<^verbatim>\<open>errors.As\<close> walks the chain of \<^verbatim>\<open>Unwrap\<close> to the first \<^verbatim>\<open>*AppError\<close>.\<close>

fun IsAppError :: "'b goerror \<Rightarrow> 'b goerror option" where
  "IsAppError (Plain b) = None"
| "IsAppError (AppError code msg cause) = Some (AppError code msg cause)"
| "IsAppError (Wrapped msg err) = IsAppError err"

fun GetErrorCode :: "'b goerror \<Rightarrow> ErrorCode" where
  "GetErrorCode err =
     (case IsAppError err of Some (AppError code msg cause) \<Rightarrow> code | _ \<Rightarrow> CodeInternalError)"

lemma GetErrorCode_simps [simp]:
  "GetErrorCode (NewAppError c m) = c" "GetErrorCode (WrapError c e m) = c"
  "GetErrorCode (Plain b) = CodeInternalError"
  by (simp_all add: NewAppError_def WrapError_def)

lemma GetErrorCode_Wrapped: "GetErrorCode (Wrapped m e) = GetErrorCode e"
  by simp

declare GetErrorCode.simps [simp del]

section \<open>Addresses\<close>

record Addr =
  addr_Scheme :: string
  addr_Host :: string

definition Addr_String :: "Addr \<Rightarrow> string" where
  "Addr_String a = addr_Scheme a @ ''://'' @ addr_Host a"

text \<open>\<^verbatim>\<open>strings.Cut(s, sep)\<close>: the text around the first occurrence of the separator.\<close>

fun strings_Cut :: "string \<Rightarrow> string \<Rightarrow> (string \<times> string) option" where
  "strings_Cut [] sep = (if sep = [] then Some ([], []) else None)"
| "strings_Cut (c # cs) sep =
     (if prefix sep (c # cs) then Some ([], drop (length sep) (c # cs))
      else map_option (\<lambda>(b, a). (c # b, a)) (strings_Cut cs sep))"

datatype addr_error = MissingSeparator | MissingScheme | MissingHost | QueryOrFragment | PathSeparator
  | Userinfo

definition ParseAddr :: "string \<Rightarrow> addr_error + Addr" where
  "ParseAddr raw =
     (case strings_Cut raw ''://'' of
        None \<Rightarrow> Inl MissingSeparator
      | Some (scheme, host) \<Rightarrow>
          if scheme = '''' then Inl MissingScheme
          else if host = '''' then Inl MissingHost
          else if CHR ''?'' \<in> set host \<or> CHR ''#'' \<in> set host then Inl QueryOrFragment
          else if scheme \<noteq> ''unix'' \<and> CHR ''/'' \<in> set host then Inl PathSeparator
          else if CHR ''@'' \<in> set host then Inl Userinfo
          else Inr \<lparr>addr_Scheme = scheme, addr_Host = host\<rparr>)"

lemma strings_Cut_append: "strings_Cut s sep = Some (a, b) \<Longrightarrow> s = a @ sep @ b"
  by (induction s arbitrary: a) (auto simp: prefix_def split: if_splits)

lemma strings_Cut_None: "strings_Cut s sep = None \<longleftrightarrow> \<not> (\<exists>a b. s = a @ sep @ b)"
proof (induction s)
  case (Cons c cs)
  have "(\<exists>a b. c # cs = a @ sep @ b) \<longleftrightarrow> prefix sep (c # cs) \<or> (\<exists>a b. cs = a @ sep @ b)"
    by (metis append_Cons append_Nil list.sel(3) neq_Nil_conv prefix_def)
  with Cons show ?case by simp
qed simp

text \<open>The scheme found is the shortest text before a separator.\<close>

lemma strings_Cut_shortest:
  "\<not> (\<exists>a' b'. a' @ sep @ b' = a @ butlast sep) \<Longrightarrow> sep \<noteq> [] \<Longrightarrow> strings_Cut (a @ sep @ b) sep = Some (a, b)"
proof (induction a)
  case Nil
  then show ?case by (cases sep) auto
next
  case (Cons c a)
  have tail: "\<not> (\<exists>a' b'. a' @ sep @ b' = a @ butlast sep)"
    using Cons.prems(1) by (metis append_Cons)
  have np: "\<not> prefix sep ((c # a) @ sep @ b)"
  proof
    assume "prefix sep ((c # a) @ sep @ b)"
    then have eq: "sep = take (length sep) ((c # a) @ sep @ b)" by (auto simp: prefix_def)
    have "(c # a) @ sep @ b = ((c # a) @ butlast sep) @ last sep # b"
      using append_butlast_last_id [OF Cons.prems(2)] by (metis append.assoc append_Cons append_Nil)
    moreover have "length sep \<le> length ((c # a) @ butlast sep)" by simp
    ultimately have "take (length sep) ((c # a) @ sep @ b) = take (length sep) ((c # a) @ butlast sep)"
      by (metis take_all take_append append_Nil2 diff_is_0_eq' take0)
    with eq have "prefix sep ((c # a) @ butlast sep)" by (metis take_is_prefix)
    with Cons.prems(1) show False by (metis append_Nil prefix_def)
  qed
  with Cons.IH [OF tail Cons.prems(2)] show ?case by simp
qed

definition addr_valid :: "Addr \<Rightarrow> bool" where
  "addr_valid a \<longleftrightarrow> addr_Scheme a \<noteq> '''' \<and> CHR '':'' \<notin> set (addr_Scheme a)
     \<and> addr_Host a \<noteq> '''' \<and> set (addr_Host a) \<inter> {CHR ''?'', CHR ''#'', CHR ''@''} = {}
     \<and> (addr_Scheme a \<noteq> ''unix'' \<longrightarrow> CHR ''/'' \<notin> set (addr_Host a))"

lemma no_early_separator:
  assumes "CHR '':'' \<notin> set s" shows "\<not> (\<exists>a b. a @ ''://'' @ b = s @ butlast ''://'')"
proof
  assume "\<exists>a b. a @ ''://'' @ b = s @ butlast ''://''"
  then obtain a b where e: "a @ ''://'' @ b = s @ '':/''" by auto
  then have l: "length a + length b + 1 = length s" by (auto dest: arg_cong [where f = length])
  from e have "(a @ ''://'' @ b) ! length a = (s @ '':/'') ! length a" by simp
  with l have "s ! length a = CHR '':''" by (simp add: nth_append)
  with l assms show False by (metis add.assoc le_add1 less_add_one nth_mem order_le_less_trans)
qed

text \<open>
  Parsing an address inverts printing it: a printed valid address parses back to itself,
  and whatever parses successfully prints back to the raw text and has a scheme, a host, no query,
  fragment or userinfo, and no path unless it is a Unix socket.
\<close>

theorem ParseAddr_roundtrip:
  "(addr_valid a \<longrightarrow> ParseAddr (Addr_String a) = Inr a)
   \<and> (ParseAddr raw = Inr c \<longrightarrow> Addr_String c = raw \<and> addr_Scheme c \<noteq> '''' \<and> addr_Host c \<noteq> ''''
        \<and> set (addr_Host c) \<inter> {CHR ''?'', CHR ''#'', CHR ''@''} = {}
        \<and> (addr_Scheme c \<noteq> ''unix'' \<longrightarrow> CHR ''/'' \<notin> set (addr_Host c)))"
proof
  show "addr_valid a \<longrightarrow> ParseAddr (Addr_String a) = Inr a"
  proof
    assume v: "addr_valid a"
    then have "strings_Cut (Addr_String a) ''://'' = Some (addr_Scheme a, addr_Host a)"
      unfolding Addr_String_def addr_valid_def by (intro strings_Cut_shortest no_early_separator) auto
    with v show "ParseAddr (Addr_String a) = Inr a" by (auto simp: ParseAddr_def addr_valid_def)
  qed
  show "ParseAddr raw = Inr c \<longrightarrow> Addr_String c = raw \<and> addr_Scheme c \<noteq> '''' \<and> addr_Host c \<noteq> ''''
        \<and> set (addr_Host c) \<inter> {CHR ''?'', CHR ''#'', CHR ''@''} = {}
        \<and> (addr_Scheme c \<noteq> ''unix'' \<longrightarrow> CHR ''/'' \<notin> set (addr_Host c))"
    by (auto simp: ParseAddr_def Addr_String_def split: option.splits if_splits dest!: strings_Cut_append)
qed

theorem ParseAddr_roundtrip_witness:
  "ParseAddr ''tcp://0.0.0.0:8080'' = Inr \<lparr>addr_Scheme = ''tcp'', addr_Host = ''0.0.0.0:8080''\<rparr>"
proof -
  have v: "addr_valid \<lparr>addr_Scheme = ''tcp'', addr_Host = ''0.0.0.0:8080''\<rparr>" by (simp add: addr_valid_def)
  show ?thesis
    using ParseAddr_roundtrip [of "\<lparr>addr_Scheme = ''tcp'', addr_Host = ''0.0.0.0:8080''\<rparr>"
        "''tcp://0.0.0.0:8080''" undefined] v by (simp add: Addr_String_def)
qed

end
