(* ===== verification/Bus_Model.thy ===== *)
theory Bus_Model
  imports Nuts_Event Nuts_Common "HOL-Library.Sublist" "HOL-Library.Word"
begin

text \<open>
  The event bus of the core (\<^verbatim>\<open>src/pkg/eventbus/grpc.go\<close>, \<^verbatim>\<open>noop_eventbus.go\<close>): topics, subscribers and their channels, in
  server mode, and the connection of a client to it. Channels are cells of an explicit store, since
  a subscriber and the goroutine that reads its channel share it; a channel also remembers what was taken
  from it, which no operation reads. Contexts are numbers, and \<open>gb_done\<close> lists the cancelled ones.
\<close>

section \<open>Channels and subscribers\<close>

record 'e channel =
  ch_buf :: "'e list"
  ch_cap :: nat
  ch_closed :: bool
  ch_taken :: "'e list"

record Subscriber =
  sub_ID :: string
  sub_Topic :: string
  sub_Ch :: nat
  sub_Ctx :: nat
  sub_IsRemote :: bool

record GRPCConfig =
  gc_Address :: string
  gc_PublishTimeout :: string
  gc_SubscriberBufferSize :: int
  gc_SubscriberSendTimeout :: string

record 'e GRPCEventBus =
  gb_address :: string
  gb_subscribers :: "(string \<times> Subscriber list) list"
  gb_chans :: "'e channel list"
  gb_ctx :: nat
  gb_done :: "nat list"
  gb_dropCount :: int
  gb_publishTimeout :: duration
  gb_subscriberSendTimeout :: duration
  gb_subscriberBufferSize :: nat

definition parseDurationOrDefault :: "(string \<Rightarrow> duration option) \<Rightarrow> string \<Rightarrow> duration \<Rightarrow> duration" where
  "parseDurationOrDefault parse s defaultVal =
     (if s = '''' then defaultVal else case parse s of None \<Rightarrow> defaultVal | Some d \<Rightarrow> d)"

text \<open>\<open>ctx\<close> is the context the constructor makes. The keepalive settings go to the gRPC library only.\<close>

definition NewGRPCEventBusServerWithConfig :: "(string \<Rightarrow> duration option) \<Rightarrow> nat \<Rightarrow> GRPCConfig \<Rightarrow> 'e GRPCEventBus" where
  "NewGRPCEventBusServerWithConfig parse ctx cfg =
     \<lparr>gb_address = gc_Address cfg, gb_subscribers = [], gb_chans = [], gb_ctx = ctx, gb_done = [], gb_dropCount = 0,
      gb_publishTimeout = parseDurationOrDefault parse (gc_PublishTimeout cfg) (5 * second),
      gb_subscriberSendTimeout = parseDurationOrDefault parse (gc_SubscriberSendTimeout cfg) (100 * millisecond),
      gb_subscriberBufferSize = (if gc_SubscriberBufferSize cfg \<le> 0 then 100 else nat (gc_SubscriberBufferSize cfg))\<rparr>"

definition subsOf :: "'e GRPCEventBus \<Rightarrow> string \<Rightarrow> Subscriber list" where
  "subsOf b topic = (case map_of (gb_subscribers b) topic of None \<Rightarrow> [] | Some subs \<Rightarrow> subs)"

definition updChan :: "nat \<Rightarrow> ('e channel \<Rightarrow> 'e channel) \<Rightarrow> 'e GRPCEventBus \<Rightarrow> 'e GRPCEventBus" where
  "updChan i f b = b\<lparr>gb_chans := (gb_chans b)[i := f (gb_chans b ! i)]\<rparr>"

text \<open>\<^verbatim>\<open>make(chan *common.Event, b.subscriberBufferSize)\<close>\<close>

definition makeChan :: "'e GRPCEventBus \<Rightarrow> nat \<times> 'e GRPCEventBus" where
  "makeChan b =
     (length (gb_chans b),
      b\<lparr>gb_chans := gb_chans b @ [\<lparr>ch_buf = [], ch_cap = gb_subscriberBufferSize b, ch_closed = False, ch_taken = []\<rparr>]\<rparr>)"

text \<open>\<^verbatim>\<open>Subscriber.Close\<close> closes once.\<close>

definition Subscriber_Close :: "Subscriber \<Rightarrow> 'e GRPCEventBus \<Rightarrow> 'e GRPCEventBus" where
  "Subscriber_Close s b = updChan (sub_Ch s) (\<lambda>c. c\<lparr>ch_closed := True\<rparr>) b"

definition closeSubs :: "Subscriber list \<Rightarrow> 'e GRPCEventBus \<Rightarrow> 'e GRPCEventBus" where
  "closeSubs subs b = fold Subscriber_Close subs b"

abbreviation (input) TaskEventTopicPrefix :: string where "TaskEventTopicPrefix \<equiv> ''task.state_changed_''"

definition isStateSpecificTopic :: "string \<Rightarrow> bool" where
  "isStateSpecificTopic topic \<longleftrightarrow> prefix TaskEventTopicPrefix topic"

definition putSubs :: "string \<Rightarrow> Subscriber list \<Rightarrow> 'e GRPCEventBus \<Rightarrow> 'e GRPCEventBus" where
  "putSubs topic subs b = b\<lparr>gb_subscribers := alist_put topic subs (gb_subscribers b)\<rparr>"

section \<open>Subscribing\<close>

text \<open>\<open>uuid\<close> is the generated identifier of the subscriber.\<close>

definition subscribeLocal :: "string \<Rightarrow> string \<Rightarrow> 'e GRPCEventBus \<Rightarrow> nat \<times> 'e GRPCEventBus" where
  "subscribeLocal uuid topic b =
     (case makeChan b of (ch, b) \<Rightarrow>
        let sub = \<lparr>sub_ID = uuid, sub_Topic = topic, sub_Ch = ch, sub_Ctx = gb_ctx b, sub_IsRemote = False\<rparr>
        in (ch, putSubs topic (subsOf b topic @ [sub]) b))"

text \<open>The start of a subscription stream; \<open>streamCtx\<close> is the context of the stream.\<close>

definition server_Subscribe :: "string \<Rightarrow> nat \<Rightarrow> string \<Rightarrow> 'e GRPCEventBus \<Rightarrow> Subscriber \<times> 'e GRPCEventBus" where
  "server_Subscribe uuid streamCtx topic b =
     (case makeChan b of (ch, b) \<Rightarrow>
        let sub = \<lparr>sub_ID = uuid, sub_Topic = topic, sub_Ch = ch, sub_Ctx = streamCtx, sub_IsRemote = True\<rparr>;
            b = (if isStateSpecificTopic topic \<and> subsOf b topic \<noteq> []
                 then putSubs topic [] (closeSubs (subsOf b topic) b) else b)
        in (sub, putSubs topic (subsOf b topic @ [sub]) b))"

text \<open>The deferred end of a subscription stream.\<close>

definition streamEnd :: "string \<Rightarrow> Subscriber \<Rightarrow> 'e GRPCEventBus \<Rightarrow> 'e GRPCEventBus" where
  "streamEnd topic sub b =
     Subscriber_Close sub (putSubs topic (remove_first (\<lambda>s. sub_ID s = sub_ID sub) (subsOf b topic)) b)"

text \<open>
  One receive of the goroutine that owns a channel: the next event; \<^term>\<open>None\<close> from a closed and empty channel (the
  nil event), which ends a stream. An open and empty channel blocks: nothing changes.
\<close>

definition receive :: "nat \<Rightarrow> 'e GRPCEventBus \<Rightarrow> 'e option \<times> 'e GRPCEventBus" where
  "receive ch b =
     (case ch_buf (gb_chans b ! ch) of
        [] \<Rightarrow> (None, b)
      | e # es \<Rightarrow> (Some e, updChan ch (\<lambda>c. c\<lparr>ch_buf := es, ch_taken := ch_taken c @ [e]\<rparr>) b))"

definition Bus_Unsubscribe :: "string \<Rightarrow> 'e GRPCEventBus \<Rightarrow> 'e GRPCEventBus" where
  "Bus_Unsubscribe topic b =
     (case map_of (gb_subscribers b) topic of
        None \<Rightarrow> b
      | Some subs \<Rightarrow> (closeSubs subs b)\<lparr>gb_subscribers := filter (\<lambda>kv. fst kv \<noteq> topic) (gb_subscribers b)\<rparr>)"

definition Bus_Close :: "'e GRPCEventBus \<Rightarrow> 'e GRPCEventBus" where
  "Bus_Close b =
     (closeSubs (concat (map snd (gb_subscribers b))) b)\<lparr>gb_done := gb_ctx b # gb_done b, gb_subscribers := []\<rparr>"

definition HasSubscribers :: "string \<Rightarrow> 'e GRPCEventBus \<Rightarrow> bool" where
  "HasSubscribers topic b \<longleftrightarrow>
     (case map_of (gb_subscribers b) topic of None \<Rightarrow> False | Some subs \<Rightarrow> length subs > 0)"

definition HasRemoteSubscribers :: "string \<Rightarrow> 'e GRPCEventBus \<Rightarrow> bool" where
  "HasRemoteSubscribers topic b \<longleftrightarrow>
     (case map_of (gb_subscribers b) topic of None \<Rightarrow> False | Some subs \<Rightarrow> list_ex sub_IsRemote subs)"

definition HasAnyRemoteSubscribers :: "'e GRPCEventBus \<Rightarrow> bool" where
  "HasAnyRemoteSubscribers b \<longleftrightarrow> list_ex (\<lambda>(topic, subs). list_ex sub_IsRemote subs) (gb_subscribers b)"

section \<open>Publishing\<close>

text \<open>
  One \<^verbatim>\<open>select\<close> of the publishing loops. A send on a closed channel panics. When both a send and the cancelled context
  are ready the runtime picks one; \<open>pickDone\<close> says which. In \<^verbatim>\<open>publishLocal\<close> a send that cannot proceed is given up after
  the timeout and counted; in the gRPC handler it waits. A reader that makes room while a send waits is a
  receive that comes before it.
\<close>

datatype 'a outcome = Finished 'a | Panics | Blocks

fun bindO :: "'a outcome \<Rightarrow> ('a \<Rightarrow> 'b outcome) \<Rightarrow> 'b outcome" where
  "bindO (Finished a) f = f a"
| "bindO Panics f = Panics"
| "bindO Blocks f = Blocks"

definition hasRoom :: "'e channel \<Rightarrow> bool" where
  "hasRoom c \<longleftrightarrow> length (ch_buf c) < ch_cap c"

definition sendReady :: "'e channel \<Rightarrow> bool" where
  "sendReady c \<longleftrightarrow> ch_closed c \<or> hasRoom c"

definition sendTo :: "bool \<Rightarrow> bool \<Rightarrow> 'e \<Rightarrow> Subscriber \<Rightarrow> 'e GRPCEventBus \<Rightarrow> 'e GRPCEventBus outcome" where
  "sendTo withTimeout pickDone event sub b =
     (let c = gb_chans b ! sub_Ch sub; isDone = (sub_Ctx sub \<in> set (gb_done b))
      in if isDone \<and> (pickDone \<or> \<not> sendReady c) then Finished b
         else if ch_closed c then Panics
         else if hasRoom c then Finished (updChan (sub_Ch sub) (\<lambda>c. c\<lparr>ch_buf := ch_buf c @ [event]\<rparr>) b)
         else if withTimeout then Finished (b\<lparr>gb_dropCount := gb_dropCount b + 1\<rparr>)
         else Blocks)"

fun sendLoop :: "bool \<Rightarrow> (Subscriber \<Rightarrow> bool) \<Rightarrow> 'e \<Rightarrow> Subscriber list \<Rightarrow> 'e GRPCEventBus \<Rightarrow> 'e GRPCEventBus outcome" where
  "sendLoop withTimeout pickDone event [] b = Finished b"
| "sendLoop withTimeout pickDone event (sub # subs) b =
     bindO (sendTo withTimeout (pickDone sub) event sub b) (sendLoop withTimeout pickDone event subs)"

text \<open>\<^verbatim>\<open>publishLocal\<close>: the snapshot of the subscribers is taken first, the sends follow without the lock.\<close>

definition publishLocal :: "(Subscriber \<Rightarrow> bool) \<Rightarrow> string \<Rightarrow> 'e \<Rightarrow> 'e GRPCEventBus \<Rightarrow> 'e GRPCEventBus outcome" where
  "publishLocal pickDone topic event b = sendLoop True pickDone event (subsOf b topic) b"

record PublishResponse =
  pr_Success :: bool
  pr_Message :: string

text \<open>
  The handler of a remote publication. It recovers from a panic, and then returns without a response and without sending to the rest of the
  subscribers; this outcome is \<^const>\<open>Panics\<close> here. The bus and its serializer are never nil after construction.
\<close>

definition server_Publish ::
  "('b \<Rightarrow> string + 'e) \<Rightarrow> (Subscriber \<Rightarrow> bool) \<Rightarrow> string \<Rightarrow> 'b \<Rightarrow> 'e GRPCEventBus \<Rightarrow> (PublishResponse \<times> 'e GRPCEventBus) outcome" where
  "server_Publish deserialize pickDone topic bytes b =
     (case deserialize bytes of
        Inl err \<Rightarrow> Finished (\<lparr>pr_Success = False, pr_Message = err\<rparr>, b)
      | Inr event \<Rightarrow>
          bindO (sendLoop False pickDone event (subsOf b topic) b) (\<lambda>b. Finished (\<lparr>pr_Success = True, pr_Message = ''''\<rparr>, b)))"

text \<open>
  A client: \<open>call\<close> is the remote call of \<^verbatim>\<open>server_Publish\<close> through gRPC, which fails with an error or returns the
  response; the response itself is not looked at.
\<close>

definition publishViaGRPC ::
  "('e \<Rightarrow> string + 'b) \<Rightarrow> (string \<Rightarrow> 'b \<Rightarrow> 'w \<Rightarrow> (string + PublishResponse) \<times> 'w) \<Rightarrow> string \<Rightarrow> 'e \<Rightarrow> 'w \<Rightarrow> string option \<times> 'w" where
  "publishViaGRPC serialize call topic event w =
     (case serialize event of
        Inl err \<Rightarrow> (Some (''serialize event: '' @ err), w)
      | Inr bytes \<Rightarrow>
          (case call topic bytes w of
             (Inl err, w) \<Rightarrow> (Some (''grpc publish: '' @ err), w)
           | (Inr _, w) \<Rightarrow> (None, w)))"

text \<open>\<^verbatim>\<open>1 << uint(retry)\<close> of a 64-bit \<^verbatim>\<open>int\<close> and the 64-bit product with \<^verbatim>\<open>time.Second\<close>.\<close>

definition subBackoff :: "nat \<Rightarrow> duration" where
  "subBackoff retry =
     (let n = sint (push_bit retry (1 :: 64 word));
          n = (if n > 60 then 60 else n)
      in sint (word_of_int (n * second) :: 64 word))"

section \<open>The empty bus\<close>

definition noop_Publish :: "string \<Rightarrow> 'e \<Rightarrow> 'w \<Rightarrow> string option \<times> 'w" where
  "noop_Publish topic event w = (None, w)"

text \<open>Its channel is closed from the start.\<close>

definition noop_Subscribe :: "string \<Rightarrow> 'e channel" where
  "noop_Subscribe topic = \<lparr>ch_buf = [], ch_cap = 0, ch_closed = True, ch_taken = []\<rparr>"

end
