(* ===== verification/Component_Pool.thy ===== *)
theory Component_Pool
  imports Bus_Model "HOL-Library.Multiset"
begin

text \<open>
  The worker pool of a component (\<^verbatim>\<open>src/pkg/component/worker_pool.go\<close>). Its goroutines share the event channel and the two
  atomic counters; a step of the pool is a step of one of them, of the sender of the channel, or the
  cancellation. The handler works on a world of its own and is one step, which comes at its return; \<open>wp_done\<close> records
  its calls with their results and is read by no operation. The 64-bit counters are unbounded here: they count single events.
\<close>

section \<open>The pool\<close>

datatype 'e worker_state = Waiting | Handling 'e | Returned

record 'e WorkerPool =
  wp_maxWorkers :: int
  wp_eventChan :: "'e channel"
  wp_workers :: "'e worker_state list"
  wp_cancelled :: bool
  wp_processed :: int
  wp_failed :: int
  wp_done :: "('e \<times> string option) list"

definition NewWorkerPool :: "int \<Rightarrow> 'e WorkerPool" where
  "NewWorkerPool maxWorkers =
     \<lparr>wp_maxWorkers = maxWorkers, wp_eventChan = \<lparr>ch_buf = [], ch_cap = 0, ch_closed = False, ch_taken = []\<rparr>, wp_workers = [],
      wp_cancelled = False, wp_processed = 0, wp_failed = 0, wp_done = []\<rparr>"

text \<open>A fresh context and one goroutine per turn of the loop; there are none when the number is not positive.\<close>

definition Pool_Start :: "'e channel \<Rightarrow> 'e WorkerPool \<Rightarrow> 'e WorkerPool" where
  "Pool_Start eventChan p =
     p\<lparr>wp_eventChan := eventChan, wp_cancelled := False, wp_workers := replicate (nat (wp_maxWorkers p)) Waiting\<rparr>"

text \<open>\<^verbatim>\<open>Stop\<close> cancels, then waits until every worker has returned.\<close>

definition Pool_cancel :: "'e WorkerPool \<Rightarrow> 'e WorkerPool" where
  "Pool_cancel p = p\<lparr>wp_cancelled := True\<rparr>"

definition Pool_stopped :: "'e WorkerPool \<Rightarrow> bool" where
  "Pool_stopped p \<longleftrightarrow> wp_cancelled p \<and> list_all (\<lambda>w. w = Returned) (wp_workers p)"

definition Stats :: "'e WorkerPool \<Rightarrow> int \<times> int" where
  "Stats p = (wp_processed p, wp_failed p)"

section \<open>The worker\<close>

text \<open>
  The arms of the worker's \<^verbatim>\<open>select\<close>. A receive is possible when there is an event, or when the channel is closed and empty: then it
  yields nil, and the loop goes on.
\<close>

definition worker_receive :: "nat \<Rightarrow> 'e WorkerPool \<Rightarrow> 'e WorkerPool option" where
  "worker_receive i p =
     (if i < length (wp_workers p) \<and> wp_workers p ! i = Waiting then
        (case ch_buf (wp_eventChan p) of
           e # es \<Rightarrow>
             Some (p\<lparr>wp_eventChan := (wp_eventChan p)\<lparr>ch_buf := es, ch_taken := ch_taken (wp_eventChan p) @ [e]\<rparr>,
                     wp_workers := (wp_workers p)[i := Handling e]\<rparr>)
         | [] \<Rightarrow> if ch_closed (wp_eventChan p) then Some p else None)
      else None)"

definition worker_return :: "nat \<Rightarrow> 'e WorkerPool \<Rightarrow> 'e WorkerPool option" where
  "worker_return i p =
     (if i < length (wp_workers p) \<and> wp_workers p ! i = Waiting \<and> wp_cancelled p
      then Some (p\<lparr>wp_workers := (wp_workers p)[i := Returned]\<rparr>) else None)"

text \<open>The call of the handler and the count of its outcome.\<close>

definition worker_handle :: "('e \<Rightarrow> 'w \<Rightarrow> string option \<times> 'w) \<Rightarrow> nat \<Rightarrow> 'e WorkerPool \<times> 'w \<Rightarrow> ('e WorkerPool \<times> 'w) option" where
  "worker_handle handler i pw =
     (case pw of (p, w) \<Rightarrow>
        if i < length (wp_workers p) then
          (case wp_workers p ! i of
             Handling e \<Rightarrow>
               (case handler e w of (err, w') \<Rightarrow>
                  let p = p\<lparr>wp_workers := (wp_workers p)[i := Waiting], wp_done := wp_done p @ [(e, err)]\<rparr>
                  in Some (if err \<noteq> None then p\<lparr>wp_failed := wp_failed p + 1\<rparr> else p\<lparr>wp_processed := wp_processed p + 1\<rparr>, w'))
           | _ \<Rightarrow> None)
        else None)"

text \<open>Interleavings. The trace is the list of the events sent so far.\<close>

inductive pool_run ::
  "('e \<Rightarrow> 'w \<Rightarrow> string option \<times> 'w) \<Rightarrow> 'e WorkerPool \<times> 'w \<Rightarrow> 'e list \<Rightarrow> 'e WorkerPool \<times> 'w \<Rightarrow> bool"
  for handler :: "'e \<Rightarrow> 'w \<Rightarrow> string option \<times> 'w" and s0 :: "'e WorkerPool \<times> 'w" where
  pool_start: "pool_run handler s0 [] s0"
| pool_send: "pool_run handler s0 sent (p, w) \<Longrightarrow> \<not> ch_closed (wp_eventChan p) \<Longrightarrow> hasRoom (wp_eventChan p)
    \<Longrightarrow> pool_run handler s0 (sent @ [e]) (p\<lparr>wp_eventChan := (wp_eventChan p)\<lparr>ch_buf := ch_buf (wp_eventChan p) @ [e]\<rparr>\<rparr>, w)"
| pool_close: "pool_run handler s0 sent (p, w) \<Longrightarrow> pool_run handler s0 sent (p\<lparr>wp_eventChan := (wp_eventChan p)\<lparr>ch_closed := True\<rparr>\<rparr>, w)"
| pool_receive: "pool_run handler s0 sent (p, w) \<Longrightarrow> worker_receive i p = Some p' \<Longrightarrow> pool_run handler s0 sent (p', w)"
| pool_handle: "pool_run handler s0 sent pw \<Longrightarrow> worker_handle handler i pw = Some pw' \<Longrightarrow> pool_run handler s0 sent pw'"
| pool_cancel: "pool_run handler s0 sent (p, w) \<Longrightarrow> pool_run handler s0 sent (Pool_cancel p, w)"
| pool_return: "pool_run handler s0 sent (p, w) \<Longrightarrow> worker_return i p = Some p' \<Longrightarrow> pool_run handler s0 sent (p', w)"

section \<open>The invariant\<close>

fun inHand :: "'e worker_state \<Rightarrow> 'e list" where
  "inHand (Handling e) = [e]"
| "inHand _ = []"

definition inHands :: "'e WorkerPool \<Rightarrow> 'e list" where
  "inHands p = concat (map inHand (wp_workers p))"

definition pool_inv :: "'e list \<Rightarrow> 'e WorkerPool \<Rightarrow> bool" where
  "pool_inv sent p \<longleftrightarrow>
     ch_taken (wp_eventChan p) @ ch_buf (wp_eventChan p) = sent
   \<and> mset (ch_taken (wp_eventChan p)) = mset (inHands p) + mset (map fst (wp_done p))
   \<and> length (wp_workers p) = nat (wp_maxWorkers p)
   \<and> wp_processed p = int (length (filter (\<lambda>d. snd d = None) (wp_done p)))
   \<and> wp_failed p = int (length (filter (\<lambda>d. snd d \<noteq> None) (wp_done p)))"

lemma mset_concat_update:
  "i < length ws \<Longrightarrow> mset (concat (map f (ws[i := w]))) + mset (f (ws ! i)) = mset (concat (map f ws)) + mset (f w)"
proof (induction ws arbitrary: i)
  case (Cons v ws)
  then show ?case by (cases i) (simp_all add: ac_simps)
qed simp

lemma inHands_update:
  "i < length (wp_workers p) \<Longrightarrow> wp_workers p ! i = v \<Longrightarrow>
     mset (concat (map inHand ((wp_workers p)[i := w]))) + mset (inHand v) = mset (inHands p) + mset (inHand w)"
  unfolding inHands_def using mset_concat_update [of i "wp_workers p" inHand w] by simp

lemma pool_receive_inv: "pool_inv sent p \<Longrightarrow> worker_receive i p = Some p' \<Longrightarrow> pool_inv sent p'"
  using inHands_update [of i p Waiting] 
  by (auto simp: pool_inv_def worker_receive_def inHands_def split: if_splits list.splits)

lemma return_inv: "pool_inv sent p \<Longrightarrow> worker_return i p = Some p' \<Longrightarrow> pool_inv sent p'"
  using inHands_update [of i p Waiting Returned] by (auto simp: pool_inv_def worker_return_def inHands_def split: if_splits)

lemma handle_inv:
  assumes "pool_inv sent p" "worker_handle handler i (p, w) = Some (p', w')"
  shows "pool_inv sent p'"
proof -
  obtain e where i: "i < length (wp_workers p)" "wp_workers p ! i = Handling e"
    using assms(2) by (auto simp: worker_handle_def split: if_splits worker_state.splits)
  then show ?thesis using assms inHands_update [OF i, of Waiting]
    by (auto simp: pool_inv_def worker_handle_def inHands_def Let_def split: prod.splits if_splits)
qed

lemma pool_run_inv: "pool_run handler s0 sent pw \<Longrightarrow> pool_inv [] (fst s0) \<Longrightarrow> pool_inv sent (fst pw)"
proof (induction rule: pool_run.induct)
  case (pool_handle sent pw i pw')
  then show ?case using handle_inv [of sent "fst pw" handler i "snd pw" "fst pw'" "snd pw'"] by simp
next
  case (pool_receive sent p w i p')
  then show ?case using pool_receive_inv [of sent p i p'] by simp
next
  case (pool_return sent p w i p')
  then show ?case using return_inv [of sent p i p'] by simp
qed (auto simp: pool_inv_def inHands_def Pool_cancel_def)

lemma run_max: "pool_run handler s0 sent pw \<Longrightarrow> wp_maxWorkers (fst pw) = wp_maxWorkers (fst s0)"
  by (induction rule: pool_run.induct)
    (auto simp: Pool_cancel_def worker_receive_def worker_return_def worker_handle_def Let_def
      split: if_splits list.splits worker_state.splits prod.splits)

text \<open>A pool that was just started on an empty channel.\<close>

definition startedPool :: "int \<Rightarrow> nat \<Rightarrow> 'e WorkerPool" where
  "startedPool maxWorkers cap = Pool_Start \<lparr>ch_buf = [], ch_cap = cap, ch_closed = False, ch_taken = []\<rparr> (NewWorkerPool maxWorkers)"

lemma pool_started_inv: "pool_inv [] (startedPool maxWorkers cap)"
proof -
  have "concat (map inHand (replicate n Waiting)) = []" for n by (induction n) simp_all
  then show ?thesis by (simp add: pool_inv_def startedPool_def Pool_Start_def NewWorkerPool_def inHands_def)
qed

lemma length_inHand: "length (inHand w) \<le> 1"
  by (cases w) simp_all

lemma inHands_le: "length (inHands p) \<le> length (wp_workers p)"
proof -
  have "sum_list (map (length \<circ> inHand) ws) \<le> sum_list (map (\<lambda>_. 1) ws)" for ws :: "'e worker_state list"
    by (rule sum_list_mono) (use length_inHand in simp)
  then show ?thesis by (simp add: inHands_def length_concat sum_list_triv)
qed

section \<open>Progress\<close>

text \<open>No worker returns before the cancellation.\<close>

lemma returned_cancelled:
  "pool_run handler s0 sent pw \<Longrightarrow> Returned \<notin> set (wp_workers (fst s0)) \<Longrightarrow> Returned \<in> set (wp_workers (fst pw)) \<Longrightarrow> wp_cancelled (fst pw)"
proof (induction rule: pool_run.induct)
  case (pool_receive sent p w i p')
  then show ?case
    by (auto simp: worker_receive_def split: if_splits list.splits dest!: set_update_subset_insert [THEN subsetD])
next
  case (pool_handle sent pw i pw')
  then show ?case
    by (auto simp: worker_handle_def Let_def split: if_splits worker_state.splits prod.splits dest!: set_update_subset_insert [THEN subsetD])
next
  case (pool_return sent p w i p')
  then show ?case by (auto simp: worker_return_def split: if_splits)
qed (simp_all add: Pool_cancel_def)

definition todo :: "'e WorkerPool \<Rightarrow> nat" where
  "todo p = 2 * length (ch_buf (wp_eventChan p)) + length (inHands p)"

lemma no_worker_no_event: "(\<And>w e. w \<in> set (wp_workers p) \<Longrightarrow> w \<noteq> Handling e) \<Longrightarrow> inHands p = []"
  unfolding inHands_def by simp (metis inHand.simps(2,3) worker_state.exhaust)

lemma handle_progress:
  assumes "i < length (wp_workers p)" "wp_workers p ! i = Handling e"
  shows "\<exists>p' w'. worker_handle handler i (p, w) = Some (p', w') \<and> wp_eventChan p' = wp_eventChan p
    \<and> wp_cancelled p' = wp_cancelled p \<and> wp_workers p' = (wp_workers p)[i := Waiting] \<and> Suc (length (inHands p')) = length (inHands p)"
proof -
  have "Suc (length (concat (map inHand ((wp_workers p)[i := Waiting])))) = length (inHands p)"
    using arg_cong [OF inHands_update [OF assms, of Waiting], of size] by simp
  then show ?thesis using assms by (auto simp: worker_handle_def Let_def inHands_def split: prod.splits)
qed

text \<open>Without further events and cancellations, the workers can finish what was sent.\<close>

lemma pool_can_drain:
  assumes "pool_run handler s0 sent (p, w)" "wp_workers p \<noteq> []" "Returned \<notin> set (wp_workers p)"
  shows "\<exists>p' w'. pool_run handler s0 sent (p', w') \<and> todo p' = 0 \<and> wp_cancelled p' = wp_cancelled p"
  using assms
proof (induction "todo p" arbitrary: p w rule: less_induct)
  case less
  show ?case
  proof (cases "\<exists>i e. i < length (wp_workers p) \<and> wp_workers p ! i = Handling e")
    case True
    then obtain i e where i: "i < length (wp_workers p)" "wp_workers p ! i = Handling e" by blast
    obtain p' w' where h: "worker_handle handler i (p, w) = Some (p', w')" "wp_eventChan p' = wp_eventChan p"
      "wp_workers p' = (wp_workers p)[i := Waiting]" "Suc (length (inHands p')) = length (inHands p)" "wp_cancelled p' = wp_cancelled p"
      using handle_progress [OF i, of handler w] by blast
    have "todo p' < todo p" using h(2,4) by (simp add: todo_def)
    moreover have "Returned \<notin> set (wp_workers p')" using h(3) less.prems(3) set_update_subset_insert [of "wp_workers p" i Waiting] by auto
    ultimately show ?thesis using less.hyps [of p' w'] pool_handle [OF less.prems(1) h(1)] h(3,5) less.prems(2) by simp
  next
    case False
    then have free: "inHands p = []" by (intro no_worker_no_event) (metis in_set_conv_nth)
    have w0: "0 < length (wp_workers p)" "wp_workers p ! 0 = Waiting"
      using less.prems(2,3) False by (auto simp: in_set_conv_nth) (metis length_greater_0_conv worker_state.exhaust)
    show ?thesis
    proof (cases "ch_buf (wp_eventChan p)")
      case Nil
      then show ?thesis using less.prems(1) free by (auto simp: todo_def)
    next
      case (Cons e es)
      then obtain p' where r: "worker_receive 0 p = Some p'" "ch_buf (wp_eventChan p') = es" "wp_cancelled p' = wp_cancelled p"
        "wp_workers p' = (wp_workers p)[0 := Handling e]"
        using w0 by (simp add: worker_receive_def)
      have "length (inHands p') = 1"
        using arg_cong [OF inHands_update [OF w0, of "Handling e"], of size] free r(4) by (simp add: inHands_def)
      then have "todo p' < todo p" using r(2) Cons free by (simp add: todo_def)
      moreover have "Returned \<notin> set (wp_workers p')"
        using r(4) less.prems(3) set_update_subset_insert [of "wp_workers p" 0 "Handling e"] by auto
      ultimately show ?thesis using less.hyps [of p' w] pool_receive [OF less.prems(1) r(1)] r(3,4) less.prems(2) by simp
    qed
  qed
qed

text \<open>After the cancellation, the workers can return.\<close>

fun unreturned :: "'e worker_state \<Rightarrow> nat" where
  "unreturned Waiting = 1"
| "unreturned (Handling e) = 2"
| "unreturned Returned = 0"

lemma sum_list_update_less:
  "i < length ws \<Longrightarrow> f w < f (ws ! i) \<Longrightarrow> sum_list (map f (ws[i := w])) < (sum_list (map f ws) :: nat)"
proof (induction ws arbitrary: i)
  case (Cons v ws)
  then show ?case by (cases i) simp_all
qed simp

lemma pool_can_stop:
  assumes "pool_run handler s0 sent (p, w)" "wp_cancelled p"
  shows "\<exists>p' w'. pool_run handler s0 sent (p', w') \<and> Pool_stopped p'"
  using assms
proof (induction "sum_list (map unreturned (wp_workers p))" arbitrary: p w rule: less_induct)
  case less
  show ?case
  proof (cases "\<exists>i < length (wp_workers p). wp_workers p ! i \<noteq> Returned")
    case False
    then show ?thesis using less.prems by (auto simp: Pool_stopped_def list_all_length)
  next
    case True
    then obtain i where i: "i < length (wp_workers p)" "wp_workers p ! i \<noteq> Returned" by blast
    show ?thesis
    proof (cases "wp_workers p ! i")
      case Waiting
      then obtain p' where r: "worker_return i p = Some p'" "wp_workers p' = (wp_workers p)[i := Returned]" "wp_cancelled p'"
        using i(1) less.prems(2) by (auto simp: worker_return_def)
      have "sum_list (map unreturned (wp_workers p')) < sum_list (map unreturned (wp_workers p))"
        unfolding r(2) by (rule sum_list_update_less) (use i(1) Waiting in simp_all)
      then show ?thesis using less.hyps pool_return [OF less.prems(1) r(1)] r(3) by blast
    next
      case (Handling e)
      obtain p' w' where h: "worker_handle handler i (p, w) = Some (p', w')" "wp_workers p' = (wp_workers p)[i := Waiting]" "wp_cancelled p'"
        using handle_progress [OF i(1) Handling, of handler w] less.prems(2) by blast
      have "sum_list (map unreturned (wp_workers p')) < sum_list (map unreturned (wp_workers p))"
        unfolding h(2) by (rule sum_list_update_less) (use i(1) Handling in simp_all)
      then show ?thesis using less.hyps pool_handle [OF less.prems(1) h(1)] h(3) by blast
    qed (use i in simp)
  qed
qed

section \<open>Claims\<close>

text \<open>
  Claim C10. Exactly once: however the sender and the workers interleave, every event that was sent is either still in the channel, in the hands of
  one worker, or was given to the handler once; no more than the configured number of events are handled at a time; the
  counters are the numbers of the handler's successes and failures. While the pool is not cancelled and has workers, it can
  always reach a state in which everything sent was handled.
\<close>

theorem pool_handles_exactly_once:
  assumes run: "pool_run handler (startedPool maxWorkers cap, w0) sent (p, w)"
  shows "mset sent = mset (ch_buf (wp_eventChan p)) + mset (inHands p) + mset (map fst (wp_done p))
     \<and> length (inHands p) \<le> nat maxWorkers
     \<and> Stats p = (int (length (filter (\<lambda>d. snd d = None) (wp_done p))), int (length (filter (\<lambda>d. snd d \<noteq> None) (wp_done p))))
     \<and> (0 < maxWorkers \<and> \<not> wp_cancelled p \<longrightarrow>
          (\<exists>p' w'. pool_run handler (startedPool maxWorkers cap, w0) sent (p', w') \<and> mset (map fst (wp_done p')) = mset sent))"
proof -
  have inv: "pool_inv sent q" if "pool_run handler (startedPool maxWorkers cap, w0) sent (q, v)" for q v
    using pool_run_inv [OF that] by (simp add: pool_started_inv)
  have split: "mset sent = mset (ch_buf (wp_eventChan q)) + mset (inHands q) + mset (map fst (wp_done q))" if "pool_inv sent q" for q
  proof -
    have "mset sent = mset (ch_taken (wp_eventChan q)) + mset (ch_buf (wp_eventChan q))"
      using that unfolding pool_inv_def by (metis mset_append)
    then show ?thesis using that unfolding pool_inv_def by (simp add: ac_simps)
  qed
  have max: "wp_maxWorkers p = maxWorkers"
    using run_max [OF run] by (simp add: startedPool_def Pool_Start_def NewWorkerPool_def)
  have len: "length (wp_workers p) = nat maxWorkers" using inv [OF run] max by (simp add: pool_inv_def)
  have "\<exists>p' w'. pool_run handler (startedPool maxWorkers cap, w0) sent (p', w') \<and> mset (map fst (wp_done p')) = mset sent"
    if "0 < maxWorkers" "\<not> wp_cancelled p"
  proof -
    have "Returned \<notin> set (wp_workers p)"
      using returned_cancelled [OF run] that(2) by (auto simp: startedPool_def Pool_Start_def)
    moreover have "wp_workers p \<noteq> []" using len that(1) by auto
    ultimately obtain p' w' where d: "pool_run handler (startedPool maxWorkers cap, w0) sent (p', w')" "todo p' = 0"
      using pool_can_drain [OF run] by blast
    then show ?thesis using split [OF inv [OF d(1)]] by (intro exI conjI) (auto simp: todo_def)
  qed
  then show ?thesis
    using split [OF inv [OF run]] inv [OF run] inHands_le [of p] len by (simp add: Stats_def pool_inv_def)
qed

text \<open>
  Stopping: once cancelled, the pool can always reach the state that \<^verbatim>\<open>Stop\<close> waits for, and in that state every event taken from the
  channel was handled, in no other way than by the handler; the events still in the channel are not handled.
\<close>

theorem pool_stop_completes:
  assumes run: "pool_run handler (startedPool maxWorkers cap, w0) sent (p, w)"
  shows "(wp_cancelled p \<longrightarrow> (\<exists>p' w'. pool_run handler (startedPool maxWorkers cap, w0) sent (p', w') \<and> Pool_stopped p'))
     \<and> (Pool_stopped p \<longrightarrow> (\<exists>handled. sent = handled @ ch_buf (wp_eventChan p) \<and> mset handled = mset (map fst (wp_done p))))"
proof -
  have inv: "pool_inv sent p" using pool_run_inv [OF run] by (simp add: pool_started_inv)
  have "inHands p = []" if "Pool_stopped p"
    using that by (intro no_worker_no_event) (auto simp: Pool_stopped_def list_all_iff)
  then show ?thesis using pool_can_stop [OF run] inv unfolding pool_inv_def by (metis add_0 mset_zero_iff)
qed

text \<open>
  A pool whose channel is closed and empty does not end: a waiting worker's receive is always possible, yields nil, and leads back to the
  same state, and without the cancellation no worker can return.
\<close>

theorem closed_channel_spins:
  assumes "i < length (wp_workers p)" "wp_workers p ! i = Waiting" "ch_closed (wp_eventChan p)" "ch_buf (wp_eventChan p) = []" "\<not> wp_cancelled p"
  shows "worker_receive i p = Some p \<and> worker_return i p = None"
  using assms by (simp add: worker_receive_def worker_return_def)

lemma no_workers_handle_nothing:
  assumes "pool_run handler (startedPool maxWorkers cap, w0) sent (p, w)" "maxWorkers \<le> 0"
  shows "ch_buf (wp_eventChan p) = sent \<and> w = w0"
proof -
  have "wp_workers (fst pw) = [] \<and> ch_buf (wp_eventChan (fst pw)) = s \<and> snd pw = w0"
    if "pool_run handler (startedPool maxWorkers cap, w0) s pw" for s pw
    using that
  proof (induction rule: pool_run.induct)
    case pool_start
    then show ?case using assms(2) by (simp add: startedPool_def Pool_Start_def NewWorkerPool_def)
  next
    case (pool_handle sent pw i pw')
    then show ?case by (cases pw) (simp add: worker_handle_def)
  qed (auto simp: worker_receive_def worker_return_def Pool_cancel_def)
  from this [OF assms(1)] show ?thesis by simp
qed

section \<open>Examples\<close>

definition onePool :: "nat WorkerPool" where
  "onePool = (startedPool 1 1)\<lparr>wp_eventChan := \<lparr>ch_buf = [7], ch_cap = 1, ch_closed = False, ch_taken = []\<rparr>\<rparr>"

lemma onePool_run: "pool_run (\<lambda>e w. (None, e # w)) (startedPool 1 1, []) [7] (onePool, [])"
proof -
  have "pool_run (\<lambda>e w. (None, e # w)) (startedPool 1 1, []) ([] @ [7])
      ((startedPool 1 1)\<lparr>wp_eventChan := (wp_eventChan (startedPool 1 1))\<lparr>ch_buf := ch_buf (wp_eventChan (startedPool 1 1)) @ [7 :: nat]\<rparr>\<rparr>, [])"
    by (rule pool_send [OF pool_start]) (simp_all add: startedPool_def Pool_Start_def hasRoom_def)
  then show ?thesis by (simp add: onePool_def startedPool_def Pool_Start_def)
qed

theorem pool_handles_exactly_once_witness:
  "\<exists>p' w'. pool_run (\<lambda>e w. (None, e # w)) (startedPool 1 1, []) [7 :: nat] (p', w') \<and> mset (map fst (wp_done p')) = {#7#}"
  using pool_handles_exactly_once [OF onePool_run] by (simp add: onePool_def startedPool_def Pool_Start_def NewWorkerPool_def)

theorem pool_stop_completes_witness:
  "\<exists>p' w'. pool_run (\<lambda>e w. (None, e # w)) (startedPool 1 1, []) [7 :: nat] (p', w') \<and> Pool_stopped p'"
  using pool_stop_completes [OF pool_cancel [OF onePool_run]] by (simp add: Pool_cancel_def)

theorem closed_channel_spins_witness:
  "worker_receive 0 ((startedPool 1 1)\<lparr>wp_eventChan := noop_Subscribe ''t''\<rparr> :: nat WorkerPool) = Some ((startedPool 1 1)\<lparr>wp_eventChan := noop_Subscribe ''t''\<rparr>)"
  using closed_channel_spins [of 0 "(startedPool 1 1)\<lparr>wp_eventChan := noop_Subscribe ''t''\<rparr> :: nat WorkerPool"]
  by (simp add: noop_Subscribe_def startedPool_def Pool_Start_def NewWorkerPool_def)

end
