(* ===== verification/Component_Base.thy ===== *)
theory Component_Base
  imports Component_Pool
begin

text \<open>
  The component framework (\<^verbatim>\<open>src/pkg/component/framework.go\<close>) and the example components (\<^verbatim>\<open>examples/*.go\<close>): the life cycle of
  a component around its pool, the transition command it publishes, and the handlers of the pending, validating,
  processing and failover components. The bus is a parameter: \<open>pub\<close> publishes and changes a world; the identifier and
  time of a new event are arguments. What is only printed is left out.
\<close>

section \<open>Life cycle\<close>

text \<open>\<^verbatim>\<open>ComponentInfo\<close> of the framework; the engine has a record of that name.\<close>

record ComponentDescr =
  cd_Name :: string
  cd_Version :: string
  cd_HandlesState :: string
  cd_NextState :: string
  cd_FailureState :: string

record ComponentConfig =
  cc_EventBusServer :: string
  cc_ReconnectInterval :: duration
  cc_MaxConcurrent :: int
  cc_Timeout :: duration
  cc_RetryAttempts :: int

record ComponentState =
  cs_Status :: string
  cs_StartedAt :: gotime
  cs_StoppedAt :: gotime

record 'e BaseComponent =
  bc_info :: ComponentDescr
  bc_config :: ComponentConfig
  bc_workerPool :: "'e WorkerPool"
  bc_state :: ComponentState

definition NewBaseComponent :: "ComponentDescr \<Rightarrow> ComponentConfig \<Rightarrow> 'e BaseComponent" where
  "NewBaseComponent info config =
     \<lparr>bc_info = info, bc_config = config, bc_workerPool = NewWorkerPool (cc_MaxConcurrent config),
      bc_state = \<lparr>cs_Status = '''', cs_StartedAt = 0, cs_StoppedAt = 0\<rparr>\<rparr>"

definition Component_Init :: "ComponentConfig \<Rightarrow> 'e BaseComponent \<Rightarrow> 'e BaseComponent" where
  "Component_Init config c = c\<lparr>bc_config := config\<rparr>"

definition stateTopicOf :: "ComponentDescr \<Rightarrow> string" where
  "stateTopicOf info = TaskEventTopicPrefix @ cd_HandlesState info"

text \<open>\<open>subscribe\<close> is \<^verbatim>\<open>bus.Subscribe\<close>: a channel, and the bus afterwards.\<close>

definition Component_Start ::
  "(string \<Rightarrow> 'b \<Rightarrow> 'e channel \<times> 'b) \<Rightarrow> gotime \<Rightarrow> 'e BaseComponent \<Rightarrow> 'b \<Rightarrow> string option \<times> 'e BaseComponent \<times> 'b" where
  "Component_Start subscribe now c b =
     (if cs_Status (bc_state c) = ''running'' then (Some ''component already running'', c, b)
      else (case subscribe (stateTopicOf (bc_info c)) b of (ch, b) \<Rightarrow>
        (None, c\<lparr>bc_state := (bc_state c)\<lparr>cs_Status := ''running'', cs_StartedAt := now\<rparr>,
                 bc_workerPool := Pool_Start ch (bc_workerPool c)\<rparr>, b)))"

text \<open>\<^verbatim>\<open>Stop\<close> in two parts, before and after the wait for the workers.\<close>

definition Component_beginStop :: "'e BaseComponent \<Rightarrow> string option \<times> 'e BaseComponent" where
  "Component_beginStop c =
     (if cs_Status (bc_state c) \<noteq> ''running'' then (Some ''component not running'', c)
      else (None, c\<lparr>bc_state := (bc_state c)\<lparr>cs_Status := ''stopping''\<rparr>, bc_workerPool := Pool_cancel (bc_workerPool c)\<rparr>))"

definition Component_endStop :: "gotime \<Rightarrow> 'e BaseComponent \<Rightarrow> 'e BaseComponent option" where
  "Component_endStop now c =
     (if Pool_stopped (bc_workerPool c)
      then Some (c\<lparr>bc_state := (bc_state c)\<lparr>cs_Status := ''stopped'', cs_StoppedAt := now\<rparr>\<rparr>) else None)"

definition Component_Health :: "string option \<Rightarrow> string option" where
  "Component_Health busHealth = (case busHealth of None \<Rightarrow> None | Some err \<Rightarrow> Some (''eventbus unhealthy: '' @ err))"

section \<open>The transition command\<close>

type_synonym 'w publish = "string \<Rightarrow> Event \<Rightarrow> 'w \<Rightarrow> string option \<times> 'w"

abbreviation (input) commandTopic :: string where "commandTopic \<equiv> ''state.transition.command''"

definition orBackground :: "gocontext option \<Rightarrow> gocontext option" where
  "orBackground ctx = (case ctx of None \<Rightarrow> Some None | Some c \<Rightarrow> Some c)"

definition transitionEvent ::
  "string \<Rightarrow> gotime \<Rightarrow> string \<Rightarrow> gocontext option \<Rightarrow> string \<Rightarrow> string \<Rightarrow> string \<Rightarrow> bool \<Rightarrow> string \<Rightarrow> Event" where
  "transitionEvent uuid now name ctx taskID currentState targetState success message =
     (WithContext (NewEvent uuid now ''StateTransitionCommand'' commandTopic name) (orBackground ctx))
       \<lparr>ev_TypedPayload := Some (Event_Component (Some
          \<lparr>cmp_TaskId = taskID, cmp_CurrentState = currentState, cmp_TargetState = targetState, cmp_ComponentName = name,
           cmp_Success = success, cmp_Message = message\<rparr>))\<rparr>"

definition PublishStateTransition ::
  "'w publish \<Rightarrow> string \<Rightarrow> gotime \<Rightarrow> string \<Rightarrow> gocontext option \<Rightarrow> string \<Rightarrow> string \<Rightarrow> string \<Rightarrow> bool \<Rightarrow> string \<Rightarrow> 'w \<Rightarrow> string option \<times> 'w" where
  "PublishStateTransition pub uuid now name ctx taskID currentState targetState success message w =
     (case pub commandTopic (transitionEvent uuid now name ctx taskID currentState targetState success message) w of
        (Some err, w) \<Rightarrow>
          (Some (''PublishStateTransition failed (task='' @ taskID @ '' '' @ currentState @ ''->'' @ targetState @ ''): '' @ err), w)
      | (None, w) \<Rightarrow> (None, w))"

section \<open>The example components\<close>

definition pendingInfo :: ComponentDescr where
  "pendingInfo = \<lparr>cd_Name = ''pending'', cd_Version = ''1.0.0'', cd_HandlesState = ''pending'', cd_NextState = ''validating'',
     cd_FailureState = ''failed''\<rparr>"

definition validatingInfo :: ComponentDescr where
  "validatingInfo = \<lparr>cd_Name = ''validating'', cd_Version = ''1.0.0'', cd_HandlesState = ''validating'', cd_NextState = ''processing'',
     cd_FailureState = ''failed''\<rparr>"

definition processingInfo :: ComponentDescr where
  "processingInfo = \<lparr>cd_Name = ''processing'', cd_Version = ''1.0.0'', cd_HandlesState = ''processing'', cd_NextState = ''failover'',
     cd_FailureState = ''failed''\<rparr>"

definition failoverInfo :: ComponentDescr where
  "failoverInfo = \<lparr>cd_Name = ''failover'', cd_Version = ''1.0.0'', cd_HandlesState = ''failover'', cd_NextState = ''completed'',
     cd_FailureState = ''abandoned''\<rparr>"

definition exampleCfg :: "int \<Rightarrow> duration \<Rightarrow> int \<Rightarrow> ComponentConfig" where
  "exampleCfg maxConcurrent timeout attempts =
     \<lparr>cc_EventBusServer = '''', cc_ReconnectInterval = 0, cc_MaxConcurrent = maxConcurrent, cc_Timeout = timeout, cc_RetryAttempts = attempts\<rparr>"

text \<open>The timeout of the pending component is the literal 30, without a unit.\<close>

definition NewPendingComponent :: "'e BaseComponent" where
  "NewPendingComponent = NewBaseComponent pendingInfo (exampleCfg 10 30 3)"

definition NewValidatingComponent :: "'e BaseComponent" where
  "NewValidatingComponent = NewBaseComponent validatingInfo (exampleCfg 10 (30 * second) 3)"

definition NewProcessingComponent :: "'e BaseComponent" where
  "NewProcessingComponent = NewBaseComponent processingInfo (exampleCfg 20 (5 * 60 * second) 3)"

text \<open>The start of all handlers: the task of the event.\<close>

definition withTask :: "Event \<Rightarrow> (string \<Rightarrow> 'w \<Rightarrow> string option \<times> 'w) \<Rightarrow> 'w \<Rightarrow> string option \<times> 'w" where
  "withTask event k w =
     (let taskID = GetPayloadString event ''task_id''
      in if taskID = '''' then (Some ''task_id not found in event'', w) else k taskID w)"

definition pending_handleEvent :: "string \<Rightarrow> gotime \<Rightarrow> 'w publish \<Rightarrow> Event \<Rightarrow> 'w \<Rightarrow> string option \<times> 'w" where
  "pending_handleEvent uuid now pub event =
     withTask event (\<lambda>taskID. PublishStateTransition pub uuid now ''pending'' (orBackground (ev_Ctx event)) taskID ''pending'' ''validating'' True
       ''auto transition to validating'')"

definition processing_handleEvent :: "string \<Rightarrow> gotime \<Rightarrow> 'w publish \<Rightarrow> Event \<Rightarrow> 'w \<Rightarrow> string option \<times> 'w" where
  "processing_handleEvent uuid now pub event =
     withTask event (\<lambda>taskID. PublishStateTransition pub uuid now ''processing'' (orBackground (ev_Ctx event)) taskID ''processing'' ''failover'' True
       ''processing pass-through'')"

record ValidationRule =
  vr_Name :: string
  vr_Check :: "gomap option \<Rightarrow> bool \<times> string"
  vr_Critical :: bool

fun validate :: "ValidationRule list \<Rightarrow> gomap option \<Rightarrow> bool \<times> string" where
  "validate [] params = (True, ''all validations passed'')"
| "validate (rule # rules) params =
     (case vr_Check rule params of (passed, reason) \<Rightarrow>
        if \<not> passed \<and> vr_Critical rule then (False, ''validation failed: '' @ vr_Name rule @ '' - '' @ reason)
        else validate rules params)"

definition DefaultValidationRules :: "ValidationRule list" where
  "DefaultValidationRules = [\<lparr>vr_Name = ''task_id_present'', vr_Check = (\<lambda>params. (True, '''')), vr_Critical = False\<rparr>]"

definition validating_handleEvent ::
  "(string \<Rightarrow> gomap option) \<Rightarrow> ValidationRule list \<Rightarrow> string \<Rightarrow> gotime \<Rightarrow> 'w publish \<Rightarrow> Event \<Rightarrow> 'w \<Rightarrow> string option \<times> 'w" where
  "validating_handleEvent unmarshal rules uuid now pub event =
     withTask event (\<lambda>taskID w.
       case validate rules (GetPayloadMap unmarshal event ''parameters'') of (passed, reason) \<Rightarrow>
         if passed then PublishStateTransition pub uuid now ''validating'' (orBackground (ev_Ctx event)) taskID ''validating'' ''processing'' True reason w
         else PublishStateTransition pub uuid now ''validating'' (orBackground (ev_Ctx event)) taskID ''validating'' ''processing'' False reason w)"

text \<open>The default processor; the processing component keeps one and does not call it.\<close>

definition Process :: "int \<Rightarrow> string \<Rightarrow> gomap \<Rightarrow> gomap" where
  "Process unixNow taskID params =
     fold (\<lambda>(k, v) result. alist_put (''input_'' @ k) v result) params
       [(''task_id'', VString taskID), (''processed'', VBool True), (''timestamp'', VInt64 unixNow)]"

section \<open>Failover\<close>

text \<open>\<open>rp_scale\<close> is the product of a duration with the backoff rate in 64-bit floating point, truncated.\<close>

record RetryPolicy =
  rp_MaxRetries :: int
  rp_BaseDelay :: duration
  rp_MaxDelay :: duration
  rp_scale :: "duration \<Rightarrow> duration"

text \<open>The rate 2.0: doubling is exact in floating point below 2 to the 52nd.\<close>

definition DefaultRetryPolicy :: RetryPolicy where
  "DefaultRetryPolicy = \<lparr>rp_MaxRetries = 3, rp_BaseDelay = 5 * second, rp_MaxDelay = 5 * 60 * second, rp_scale = (\<lambda>d. 2 * d)\<rparr>"

record FailoverComponent =
  fo_retryPolicy :: RetryPolicy
  fo_retryCounts :: "(string \<times> int) list"

definition NewFailoverComponent :: "RetryPolicy \<Rightarrow> FailoverComponent" where
  "NewFailoverComponent policy =
     \<lparr>fo_retryPolicy = (if rp_MaxRetries policy = 0 then DefaultRetryPolicy else policy), fo_retryCounts = []\<rparr>"

definition getRetryCount :: "FailoverComponent \<Rightarrow> string \<Rightarrow> int" where
  "getRetryCount c taskID = (case map_of (fo_retryCounts c) taskID of None \<Rightarrow> 0 | Some n \<Rightarrow> n)"

definition incrementRetryCount :: "string \<Rightarrow> FailoverComponent \<Rightarrow> FailoverComponent" where
  "incrementRetryCount taskID c = c\<lparr>fo_retryCounts := alist_put taskID (getRetryCount c taskID + 1) (fo_retryCounts c)\<rparr>"

definition resetRetryCount :: "string \<Rightarrow> FailoverComponent \<Rightarrow> FailoverComponent" where
  "resetRetryCount taskID c = c\<lparr>fo_retryCounts := filter (\<lambda>kv. fst kv \<noteq> taskID) (fo_retryCounts c)\<rparr>"

definition calculateBackoff :: "RetryPolicy \<Rightarrow> int \<Rightarrow> duration" where
  "calculateBackoff policy attempt =
     (let delay = (rp_scale policy ^^ nat attempt) (rp_BaseDelay policy)
      in if delay > rp_MaxDelay policy then rp_MaxDelay policy else delay)"

text \<open>A delayed publication of \<^verbatim>\<open>time.AfterFunc\<close>: the delay and the arguments of the command.\<close>

record delayed =
  dl_delay :: duration
  dl_ctx :: "gocontext option"
  dl_taskID :: string
  dl_attempt :: int

text \<open>The handler on the component, the timers it has started, and the world of the bus.\<close>

definition failover_handleEvent ::
  "string \<Rightarrow> gotime \<Rightarrow> 'w publish \<Rightarrow> Event \<Rightarrow> FailoverComponent \<times> delayed list \<times> 'w
     \<Rightarrow> string option \<times> FailoverComponent \<times> delayed list \<times> 'w" where
  "failover_handleEvent uuid now pub event s =
     withTask event (\<lambda>taskID (c, timers, w).
       if GetPayloadString event ''policy_id'' = '''' then (Some ''policy_id not found in event'', c, timers, w)
       else
         (let retryCount = getRetryCount c taskID; ctx = orBackground (ev_Ctx event)
          in if retryCount \<ge> rp_MaxRetries (fo_retryPolicy c) then
               (case PublishStateTransition pub uuid now ''failover'' ctx taskID ''failover'' ''abandoned'' False ''max retries exceeded'' w of
                  (err, w) \<Rightarrow> (err, resetRetryCount taskID c, timers, w))
             else
               (let c = incrementRetryCount taskID c
                in (None, c, timers @ [\<lparr>dl_delay = calculateBackoff (fo_retryPolicy c) retryCount, dl_ctx = ctx, dl_taskID = taskID,
                      dl_attempt = getRetryCount c taskID\<rparr>], w)))) s"

text \<open>What a timer does when it fires; an error is printed only.\<close>

definition fireDelayed :: "string \<Rightarrow> gotime \<Rightarrow> 'w publish \<Rightarrow> delayed \<Rightarrow> 'w \<Rightarrow> 'w" where
  "fireDelayed uuid now pub d w =
     snd (PublishStateTransition pub uuid now ''failover'' (dl_ctx d) (dl_taskID d) ''failover'' ''completed'' True
       (''failover handled, attempt '' @ show_int (dl_attempt d)) w)"

end
