(* ===== verification/Nuts_Words.thy ===== *)
theory Nuts_Words
  imports "HOL-Library.Word"
begin

text \<open>
  Signed 64-bit readings: values that fit, and the left shift of one that the waiting times between attempts use.
\<close>

lemma sint_fits:
  fixes x :: int
  assumes "- (2 ^ 63) \<le> x" "x < 2 ^ 63" shows "sint (word_of_int x :: 64 word) = x"
  unfolding sint_sbintrunc' by (rule signed_take_bit_int_eq_self) (use assms in simp_all)

lemma push_bit_one_sint:
  assumes "n < 63" shows "sint (push_bit n (1 :: 64 word)) = 2 ^ n"
proof -
  have "(2::int) ^ n < 2 ^ 63" using power_strict_increasing [OF assms, of "2::int"] by simp
  moreover have "push_bit n (1 :: 64 word) = word_of_int (2 ^ n)" by simp
  moreover have "- (2 ^ 63) \<le> (2::int) ^ n" by (rule order_trans [of _ 0]) simp_all
  ultimately show ?thesis using sint_fits [of "2 ^ n"] by simp
qed

lemma push_bit_one_sint_63: "sint (push_bit 63 (1 :: 64 word)) = - (2 ^ 63)"
  by (simp add: push_bit_eq_mult sint_uint)

text \<open>A shift by 64 or more gives zero.\<close>

lemma push_bit_one_overflow: "64 \<le> n \<Longrightarrow> push_bit n (1 :: 64 word) = 0"
  by simp

end
