(* ===== verification/Bus_Props.thy ===== *)
theory Bus_Props
  imports Bus_Model Nuts_Words
begin

text \<open>
  What the event bus does, over every interleaving of subscriptions, publications, receipts, ends of streams and shutdown:
  the channels of registered subscribers are open and their own, events reach exactly the subscribers of their
  topic, in order, and a topic of one task state has one remote subscriber.
\<close>

section \<open>The parts of the state\<close>

lemma subs_simps [simp]:
  "subsOf (putSubs topic subs b) = (subsOf b)(topic := subs)" "subsOf (updChan i f b) = subsOf b"
  "subsOf (b\<lparr>gb_done := d\<rparr>) = subsOf b" "subsOf (b\<lparr>gb_dropCount := n\<rparr>) = subsOf b"
  "gb_chans (putSubs topic subs b) = gb_chans b" "gb_done (putSubs topic subs b) = gb_done b"
  "gb_subscribers (updChan i f b) = gb_subscribers b" "gb_done (updChan i f b) = gb_done b"
  "gb_dropCount (updChan i f b) = gb_dropCount b" "length (gb_chans (updChan i f b)) = length (gb_chans b)"
  by (auto simp: subsOf_def putSubs_def updChan_def map_of_alist_put fun_eq_iff)

lemma chan_upd: "i < length (gb_chans b) \<Longrightarrow> gb_chans (updChan j f b) ! i = (if i = j then f (gb_chans b ! i) else gb_chans b ! i)"
  by (auto simp: updChan_def nth_list_update)

lemma distinct_putSubs [simp]: "distinct (map fst (gb_subscribers b)) \<Longrightarrow> distinct (map fst (gb_subscribers (putSubs topic subs b)))"
  by (simp add: putSubs_def distinct_alist_put)

lemma closeSubs_simps [simp]:
  "gb_subscribers (closeSubs subs b) = gb_subscribers b" "subsOf (closeSubs subs b) = subsOf b" "gb_done (closeSubs subs b) = gb_done b"
  "length (gb_chans (closeSubs subs b)) = length (gb_chans b)"
  unfolding closeSubs_def by (induction subs arbitrary: b) (simp_all add: Subscriber_Close_def)

lemma chan_closeSubs:
  "i < length (gb_chans b) \<Longrightarrow> gb_chans (closeSubs subs b) ! i
     = (if \<exists>s \<in> set subs. sub_Ch s = i then (gb_chans b ! i)\<lparr>ch_closed := True\<rparr> else gb_chans b ! i)"
  unfolding closeSubs_def by (induction subs arbitrary: b) (auto simp: Subscriber_Close_def chan_upd)

definition content :: "'e GRPCEventBus \<Rightarrow> nat \<Rightarrow> 'e list" where
  "content b i = ch_taken (gb_chans b ! i) @ ch_buf (gb_chans b ! i)"

section \<open>The invariant\<close>

definition bus_inv :: "'e GRPCEventBus \<Rightarrow> bool" where
  "bus_inv b \<longleftrightarrow> distinct (map fst (gb_subscribers b))
     \<and> (\<forall>t. \<forall>s \<in> set (subsOf b t). sub_Topic s = t \<and> sub_Ch s < length (gb_chans b) \<and> \<not> ch_closed (gb_chans b ! sub_Ch s))
     \<and> (\<forall>t. distinct (map sub_Ch (subsOf b t)) \<and> distinct (map sub_ID (subsOf b t)))
     \<and> (\<forall>t t' s s'. s \<in> set (subsOf b t) \<and> s' \<in> set (subsOf b t') \<and> sub_Ch s = sub_Ch s' \<longrightarrow> t = t')
     \<and> (\<forall>c \<in> set (gb_chans b). length (ch_buf c) \<le> ch_cap c)
     \<and> (\<forall>t. isStateSpecificTopic t \<longrightarrow> length (filter sub_IsRemote (subsOf b t)) \<le> 1)"

lemma bus_invD:
  assumes "bus_inv b"
  shows "distinct (map fst (gb_subscribers b))"
    "s \<in> set (subsOf b t) \<Longrightarrow> sub_Topic s = t \<and> sub_Ch s < length (gb_chans b) \<and> \<not> ch_closed (gb_chans b ! sub_Ch s)"
    "distinct (map sub_Ch (subsOf b t))" "distinct (map sub_ID (subsOf b t))"
    "s \<in> set (subsOf b t) \<Longrightarrow> s' \<in> set (subsOf b t') \<Longrightarrow> sub_Ch s = sub_Ch s' \<Longrightarrow> t = t'"
    "c \<in> set (gb_chans b) \<Longrightarrow> length (ch_buf c) \<le> ch_cap c"
    "isStateSpecificTopic t \<Longrightarrow> length (filter sub_IsRemote (subsOf b t)) \<le> 1"
  using assms unfolding bus_inv_def by (blast+)

lemma same_channel: "bus_inv b \<Longrightarrow> s \<in> set (subsOf b t) \<Longrightarrow> s' \<in> set (subsOf b t') \<Longrightarrow> sub_Ch s = sub_Ch s' \<Longrightarrow> s = s'"
  using bus_invD(3) [of b t] bus_invD(5) [of b s t s' t'] by (metis distinct_map inj_on_eq_iff)

text \<open>Channels that the subscriptions do not depend on: a change that keeps what the invariant needs.\<close>

lemma inv_chans:
  assumes inv: "bus_inv b" and subs: "gb_subscribers b' = gb_subscribers b" and len: "length (gb_chans b') = length (gb_chans b)"
    and ch: "\<And>i. i < length (gb_chans b) \<Longrightarrow> ch_closed (gb_chans b' ! i) = ch_closed (gb_chans b ! i)
        \<and> length (ch_buf (gb_chans b' ! i)) \<le> ch_cap (gb_chans b' ! i)"
  shows "bus_inv b'"
proof -
  have s: "subsOf b' = subsOf b" using subs by (simp add: subsOf_def fun_eq_iff)
  have "length (ch_buf c) \<le> ch_cap c" if "c \<in> set (gb_chans b')" for c
    using that ch len by (metis in_set_conv_nth)
  then show ?thesis using inv ch len unfolding bus_inv_def s subs by auto
qed

section \<open>Publishing\<close>

definition accepts :: "(Subscriber \<Rightarrow> bool) \<Rightarrow> 'e GRPCEventBus \<Rightarrow> Subscriber \<Rightarrow> bool" where
  "accepts pickDone b s \<longleftrightarrow> hasRoom (gb_chans b ! sub_Ch s) \<and> \<not> (sub_Ctx s \<in> set (gb_done b) \<and> pickDone s)"

definition refuses :: "'e GRPCEventBus \<Rightarrow> Subscriber \<Rightarrow> bool" where
  "refuses b s \<longleftrightarrow> \<not> hasRoom (gb_chans b ! sub_Ch s) \<and> sub_Ctx s \<notin> set (gb_done b)"

text \<open>
  A publication puts the event at the end of the channel of each subscriber of the topic that has room; every subscriber that has
  not is counted; nothing else changes.
\<close>

definition delivered :: "(Subscriber \<Rightarrow> bool) \<Rightarrow> 'e \<Rightarrow> Subscriber list \<Rightarrow> 'e GRPCEventBus \<Rightarrow> 'e GRPCEventBus \<Rightarrow> bool" where
  "delivered pickDone event subs b b' \<longleftrightarrow>
     gb_subscribers b' = gb_subscribers b \<and> gb_done b' = gb_done b \<and> length (gb_chans b') = length (gb_chans b)
     \<and> (\<forall>i < length (gb_chans b). gb_chans b' ! i =
          (if \<exists>s \<in> set subs. sub_Ch s = i \<and> accepts pickDone b s
           then (gb_chans b ! i)\<lparr>ch_buf := ch_buf (gb_chans b ! i) @ [event]\<rparr> else gb_chans b ! i))
     \<and> gb_dropCount b' = gb_dropCount b + int (length (filter (refuses b) subs))"

lemma sendTo_open:
  assumes "\<not> ch_closed (gb_chans b ! sub_Ch s)"
  shows "sendTo wt (pickDone s) event s b =
     (if accepts pickDone b s then Finished (updChan (sub_Ch s) (\<lambda>c. c\<lparr>ch_buf := ch_buf c @ [event]\<rparr>) b)
      else if refuses b s then (if wt then Finished (b\<lparr>gb_dropCount := gb_dropCount b + 1\<rparr>) else Blocks)
      else Finished b)"
  using assms by (auto simp: sendTo_def accepts_def refuses_def sendReady_def Let_def)

lemma sendLoop_delivers:
  assumes "distinct (map sub_Ch subs)" "\<And>s. s \<in> set subs \<Longrightarrow> sub_Ch s < length (gb_chans b) \<and> \<not> ch_closed (gb_chans b ! sub_Ch s)"
    and "wt \<or> (\<forall>s \<in> set subs. \<not> refuses b s)"
  shows "\<exists>b'. sendLoop wt pickDone event subs b = Finished b' \<and> delivered pickDone event subs b b'"
  using assms
proof (induction subs arbitrary: b)
  case Nil
  then show ?case by (simp add: delivered_def)
next
  case (Cons s subs)
  have s: "sub_Ch s < length (gb_chans b)" "\<not> ch_closed (gb_chans b ! sub_Ch s)" using Cons.prems(2) by simp_all
  define b1 where "b1 = (if accepts pickDone b s then updChan (sub_Ch s) (\<lambda>c. c\<lparr>ch_buf := ch_buf c @ [event]\<rparr>) b
      else if refuses b s then b\<lparr>gb_dropCount := gb_dropCount b + 1\<rparr> else b)"
  have one: "sendTo wt (pickDone s) event s b = Finished b1"
    using sendTo_open [OF s(2), of wt pickDone event] Cons.prems(3) by (auto simp: b1_def)
  have ch: "gb_chans b1 ! i = (if i = sub_Ch s \<and> accepts pickDone b s then (gb_chans b ! i)\<lparr>ch_buf := ch_buf (gb_chans b ! i) @ [event]\<rparr> else gb_chans b ! i)"
    if "i < length (gb_chans b)" for i using that by (auto simp: b1_def chan_upd)
  have rest: "sub_Ch t \<noteq> sub_Ch s" "gb_chans b1 ! sub_Ch t = gb_chans b ! sub_Ch t" if "t \<in> set subs" for t
    using Cons.prems(1,2) that ch [of "sub_Ch t"] by (auto simp: image_iff)
  have b1: "length (gb_chans b1) = length (gb_chans b)" "gb_subscribers b1 = gb_subscribers b" "gb_done b1 = gb_done b"
    "gb_dropCount b1 = gb_dropCount b + (if refuses b s then 1 else 0)"
    by (auto simp: b1_def accepts_def refuses_def)
  have same: "accepts pickDone b1 t = accepts pickDone b t" "refuses b1 t = refuses b t" if "t \<in> set subs" for t
    using rest [OF that] b1(3) by (simp_all add: accepts_def refuses_def)
  have "\<exists>b'. sendLoop wt pickDone event subs b1 = Finished b' \<and> delivered pickDone event subs b1 b'"
    by (rule Cons.IH) (use Cons.prems rest same b1(1) in auto)
  then obtain b' where b': "sendLoop wt pickDone event subs b1 = Finished b'" "delivered pickDone event subs b1 b'" by blast
  have "gb_chans b' ! i = (if \<exists>u \<in> set (s # subs). sub_Ch u = i \<and> accepts pickDone b u
      then (gb_chans b ! i)\<lparr>ch_buf := ch_buf (gb_chans b ! i) @ [event]\<rparr> else gb_chans b ! i)" if i: "i < length (gb_chans b)" for i
  proof (cases "\<exists>u \<in> set subs. sub_Ch u = i")
    case True
    then have "i \<noteq> sub_Ch s" using rest(1) by auto
    then show ?thesis using b'(2) i ch [OF i] same(1) b1(1) by (auto simp: delivered_def)
  next
    case False
    then show ?thesis using b'(2) i ch [OF i] b1(1) by (auto simp: delivered_def)
  qed
  moreover have "filter (refuses b1) subs = filter (refuses b) subs" using same(2) by (intro filter_cong) auto
  ultimately have "delivered pickDone event (s # subs) b b'" using b'(2) b1 by (auto simp: delivered_def)
  then show ?case using one b'(1) by auto
qed

lemma publish_delivers:
  assumes "bus_inv b"
  shows "\<exists>b'. publishLocal pickDone topic event b = Finished b' \<and> delivered pickDone event (subsOf b topic) b b'"
  unfolding publishLocal_def by (rule sendLoop_delivers) (use bus_invD(2,3) [OF assms] in auto)

lemma delivered_inv:
  assumes inv: "bus_inv b" and d: "delivered pickDone event subs b b'"
  shows "bus_inv b'"
proof (rule inv_chans [OF inv])
  fix i assume i: "i < length (gb_chans b)"
  have "length (ch_buf (gb_chans b ! i)) \<le> ch_cap (gb_chans b ! i)" using bus_invD(6) [OF inv] i by simp
  then show "ch_closed (gb_chans b' ! i) = ch_closed (gb_chans b ! i) \<and> length (ch_buf (gb_chans b' ! i)) \<le> ch_cap (gb_chans b' ! i)"
    using d i by (auto simp: delivered_def accepts_def hasRoom_def)
qed (use d in \<open>simp_all add: delivered_def\<close>)

lemma delivered_content:
  assumes "delivered pickDone event subs b b'" "i < length (gb_chans b)"
  shows "content b' i = content b i \<or> content b' i = content b i @ [event] \<and> (\<exists>s \<in> set subs. sub_Ch s = i)"
  using assms by (auto simp: delivered_def content_def)

section \<open>The other operations\<close>

lemma length_filter_filter: "length (filter A (filter P xs)) \<le> length (filter A xs)"
  by (induction xs) auto

lemma inv_close:
  assumes inv: "bus_inv b" and keys: "distinct (map fst (gb_subscribers b'))" and subs: "\<And>t. subsOf b' t = filter (P t) (subsOf b t)"
    and ch: "gb_chans b' = gb_chans (closeSubs X b)" and X: "\<And>t s. s \<in> set (subsOf b' t) \<Longrightarrow> sub_Ch s \<notin> sub_Ch ` set X"
  shows "bus_inv b'"
proof -
  have mem: "s \<in> set (subsOf b t)" if "s \<in> set (subsOf b' t)" for s t using that subs by simp
  have len: "length (gb_chans b') = length (gb_chans b)" by (simp add: ch)
  have open': "sub_Topic s = t \<and> sub_Ch s < length (gb_chans b') \<and> \<not> ch_closed (gb_chans b' ! sub_Ch s)" if "s \<in> set (subsOf b' t)" for s t
  proof -
    note d = bus_invD(2) [OF inv mem [OF that]]
    have "gb_chans b' ! sub_Ch s = gb_chans b ! sub_Ch s" using X [OF that] d by (simp add: ch chan_closeSubs image_iff) metis
    then show ?thesis using d len by simp
  qed
  have "distinct (map sub_Ch (subsOf b' t)) \<and> distinct (map sub_ID (subsOf b' t))" for t
    using bus_invD(3,4) [OF inv, of t] by (simp add: subs distinct_map_filter)
  moreover have "length (ch_buf c) \<le> ch_cap c" if c: "c \<in> set (gb_chans b')" for c
  proof -
    obtain i where i: "i < length (gb_chans b)" "c = gb_chans b' ! i" using c len by (metis in_set_conv_nth)
    then have "length (ch_buf (gb_chans b ! i)) \<le> ch_cap (gb_chans b ! i)" using bus_invD(6) [OF inv] by simp
    then show ?thesis using i by (simp add: ch chan_closeSubs)
  qed
  moreover have "length (filter sub_IsRemote (subsOf b' t)) \<le> 1" if "isStateSpecificTopic t" for t
    using bus_invD(7) [OF inv that] length_filter_filter [of sub_IsRemote "P t" "subsOf b t"] subs by simp
  moreover have "t = t'" if "s \<in> set (subsOf b' t)" "s' \<in> set (subsOf b' t')" "sub_Ch s = sub_Ch s'" for t t' s s'
    using bus_invD(5) [OF inv mem [OF that(1)] mem [OF that(2)] that(3)] .
  ultimately show ?thesis using keys open' unfolding bus_inv_def by blast
qed

lemma closed_content: "i < length (gb_chans b) \<Longrightarrow> content (closeSubs X b) i = content b i"
  by (simp add: content_def chan_closeSubs)

lemma inv_newchan:
  assumes inv: "bus_inv b" and m: "makeChan b = (ch, b')"
  shows "bus_inv b' \<and> subsOf b' = subsOf b \<and> ch = length (gb_chans b) \<and> length (gb_chans b') = Suc ch \<and> content b' ch = []
    \<and> \<not> ch_closed (gb_chans b' ! ch) \<and> (\<forall>t. \<forall>s \<in> set (subsOf b' t). sub_Ch s \<noteq> ch) \<and> (\<forall>i < ch. gb_chans b' ! i = gb_chans b ! i)"
proof -
  have b': "subsOf b' = subsOf b" "gb_subscribers b' = gb_subscribers b" "ch = length (gb_chans b)"
    "gb_chans b' = gb_chans b @ [\<lparr>ch_buf = [], ch_cap = gb_subscriberBufferSize b, ch_closed = False, ch_taken = []\<rparr>]"
    using m by (auto simp: makeChan_def subsOf_def fun_eq_iff)
  have used: "sub_Ch s < length (gb_chans b)" if "s \<in> set (subsOf b t)" for s t using bus_invD(2) [OF inv that] by simp
  then have "\<forall>t. \<forall>s \<in> set (subsOf b' t). sub_Ch s \<noteq> ch" using b'(1,3) by fastforce
  moreover have "bus_inv b'" using inv used unfolding bus_inv_def b'(1,2) by (auto simp: b'(4) nth_append less_SucI)
  ultimately show ?thesis using b' by (auto simp: content_def nth_append)
qed

lemma inv_add:
  assumes inv: "bus_inv b" and s: "sub_Topic s = t" "sub_ID s \<notin> sub_ID ` set (subsOf b t)" "sub_Ch s < length (gb_chans b)"
    "\<not> ch_closed (gb_chans b ! sub_Ch s)" and unused: "\<And>t s'. s' \<in> set (subsOf b t) \<Longrightarrow> sub_Ch s' \<noteq> sub_Ch s"
    and one: "isStateSpecificTopic t \<Longrightarrow> sub_IsRemote s \<Longrightarrow> subsOf b t = []"
  shows "bus_inv (putSubs t (subsOf b t @ [s]) b)"
proof -
  let ?b = "putSubs t (subsOf b t @ [s]) b"
  have free: "sub_Ch s \<notin> sub_Ch ` set (subsOf b t)" using unused [of _ t] by (metis imageE)
  have "length (filter sub_IsRemote (subsOf ?b t')) \<le> 1" if "isStateSpecificTopic t'" for t'
    using bus_invD(7) [OF inv that] one that by (cases "t' = t"; cases "sub_IsRemote s") auto
  moreover have "distinct (map sub_Ch (subsOf ?b t')) \<and> distinct (map sub_ID (subsOf ?b t'))" for t'
    using bus_invD(3,4) [OF inv, of t'] s(2) free by auto
  moreover have "k = k'" if "x \<in> set (subsOf ?b k)" "y \<in> set (subsOf ?b k')" "sub_Ch x = sub_Ch y" for k k' x y
  proof -
    have mem: "z \<in> set (subsOf b l) \<or> l = t \<and> z = s" if "z \<in> set (subsOf ?b l)" for z l using that by (auto split: if_splits)
    note m = mem [OF that(1)] mem [OF that(2)]
    consider "x \<in> set (subsOf b k)" "y \<in> set (subsOf b k')" | "x \<in> set (subsOf b k)" "y = s" | "x = s" "y \<in> set (subsOf b k')" | "k = t" "k' = t"
      using m by blast
    then show ?thesis
    proof cases
      case 1
      then show ?thesis using bus_invD(5) [OF inv _ _ that(3)] by blast
    next
      case 2
      then show ?thesis using unused [of x k] that(3) by simp
    next
      case 3
      then show ?thesis using unused [of y k'] that(3) by simp
    qed simp
  qed
  moreover have "sub_Topic x = k \<and> sub_Ch x < length (gb_chans ?b) \<and> \<not> ch_closed (gb_chans ?b ! sub_Ch x)" if "x \<in> set (subsOf ?b k)" for x k
    using that bus_invD(2) [OF inv, of x k] s(1,3,4) by (cases "k = t") auto
  moreover have "distinct (map fst (gb_subscribers ?b))" "\<forall>c \<in> set (gb_chans ?b). length (ch_buf c) \<le> ch_cap c"
    using bus_invD(1,6) [OF inv] by simp_all
  ultimately show ?thesis unfolding bus_inv_def by blast
qed

section \<open>Runs\<close>

text \<open>
  Runs of the bus, with what was published, in order. A stream ends for a subscriber that is registered, or that was
  replaced or unsubscribed and so has its channel closed. Identifiers are fresh, as generated ones are.
\<close>

definition fresh :: "string \<Rightarrow> string \<Rightarrow> 'e GRPCEventBus \<Rightarrow> bool" where
  "fresh uuid topic b \<longleftrightarrow> uuid \<notin> sub_ID ` set (subsOf b topic)"

definition streamOf :: "string \<Rightarrow> Subscriber \<Rightarrow> 'e GRPCEventBus \<Rightarrow> bool" where
  "streamOf topic sub b \<longleftrightarrow> sub \<in> set (subsOf b topic)
     \<or> sub_Ch sub < length (gb_chans b) \<and> ch_closed (gb_chans b ! sub_Ch sub) \<and> fresh (sub_ID sub) topic b"

inductive bus_run :: "'e GRPCEventBus \<Rightarrow> (string \<times> 'e) list \<Rightarrow> 'e GRPCEventBus \<Rightarrow> bool" where
  start: "bus_run b0 [] b0"
| subscribe: "bus_run b0 tr b \<Longrightarrow> fresh uuid topic b \<Longrightarrow> subscribeLocal uuid topic b = (ch, b') \<Longrightarrow> bus_run b0 tr b'"
| stream: "bus_run b0 tr b \<Longrightarrow> fresh uuid topic b \<Longrightarrow> server_Subscribe uuid ctx topic b = (sub, b') \<Longrightarrow> bus_run b0 tr b'"
| stream_end: "bus_run b0 tr b \<Longrightarrow> streamOf topic sub b \<Longrightarrow> bus_run b0 tr (streamEnd topic sub b)"
| receive: "bus_run b0 tr b \<Longrightarrow> ch < length (gb_chans b) \<Longrightarrow> receive ch b = (e, b') \<Longrightarrow> bus_run b0 tr b'"
| unsubscribe: "bus_run b0 tr b \<Longrightarrow> bus_run b0 tr (Bus_Unsubscribe topic b)"
| close: "bus_run b0 tr b \<Longrightarrow> bus_run b0 tr (Bus_Close b)"
| cancel: "bus_run b0 tr b \<Longrightarrow> bus_run b0 tr (b\<lparr>gb_done := ctx # gb_done b\<rparr>)"
| publish: "bus_run b0 tr b \<Longrightarrow> publishLocal pickDone topic e b = Finished b' \<Longrightarrow> bus_run b0 (tr @ [(topic, e)]) b'"
| remote_publish: "bus_run b0 tr b \<Longrightarrow> server_Publish (deserialize :: string \<Rightarrow> string + 'e) pickDone topic bytes b = Finished (resp, b')
    \<Longrightarrow> deserialize bytes = Inr e \<Longrightarrow> bus_run b0 (tr @ [(topic, e)]) b'"

definition published :: "string \<Rightarrow> (string \<times> 'e) list \<Rightarrow> 'e list" where
  "published topic tr = map snd (filter (\<lambda>x. fst x = topic) tr)"

definition in_order :: "(string \<times> 'e) list \<Rightarrow> 'e GRPCEventBus \<Rightarrow> bool" where
  "in_order tr b \<longleftrightarrow> (\<forall>t. \<forall>s \<in> set (subsOf b t). subseq (content b (sub_Ch s)) (published t tr))"

lemma published_snoc: "published t (tr @ [(topic, e)]) = (if t = topic then published t tr @ [e] else published t tr)"
  by (simp add: published_def)

text \<open>Fewer subscribers, or the same channel contents, keep the order.\<close>

lemma in_order_mono:
  assumes "in_order tr b" "\<And>t s. s \<in> set (subsOf b' t) \<Longrightarrow> s \<in> set (subsOf b t) \<and> content b' (sub_Ch s) = content b (sub_Ch s)"
  shows "in_order tr b'"
  using assms unfolding in_order_def by auto

lemma close_step:
  assumes inv: "bus_inv b" and ord: "in_order tr b" and keys: "distinct (map fst (gb_subscribers b'))"
    and subs: "\<And>t. subsOf b' t = filter (P t) (subsOf b t)" and ch: "gb_chans b' = gb_chans (closeSubs X b)"
    and X: "\<And>t s. s \<in> set (subsOf b' t) \<Longrightarrow> sub_Ch s \<notin> sub_Ch ` set X"
  shows "bus_inv b' \<and> in_order tr b'"
proof
  show "bus_inv b'" by (rule inv_close [OF inv keys subs ch X])
  show "in_order tr b'"
  proof (rule in_order_mono [OF ord])
    fix t s assume s: "s \<in> set (subsOf b' t)"
    then have "s \<in> set (subsOf b t)" by (simp add: subs)
    moreover from this have "sub_Ch s < length (gb_chans b)" using bus_invD(2) [OF inv] by blast
    then have "content b' (sub_Ch s) = content b (sub_Ch s)" using closed_content [of "sub_Ch s" b X] by (simp add: content_def ch)
    ultimately show "s \<in> set (subsOf b t) \<and> content b' (sub_Ch s) = content b (sub_Ch s)" by simp
  qed
qed

lemma unsubscribe_step:
  assumes inv: "bus_inv b" and ord: "in_order tr b"
  shows "bus_inv (Bus_Unsubscribe topic b) \<and> in_order tr (Bus_Unsubscribe topic b)"
proof (cases "map_of (gb_subscribers b) topic")
  case None
  then show ?thesis using assms by (simp add: Bus_Unsubscribe_def)
next
  case (Some subs)
  let ?b = "Bus_Unsubscribe topic b"
  have subs: "subsOf b topic = subs" using Some by (simp add: subsOf_def)
  have b: "subsOf ?b t = filter (\<lambda>_. t \<noteq> topic) (subsOf b t)" for t
    using Some by (simp add: Bus_Unsubscribe_def subsOf_def map_of_filter_key)
  show ?thesis
  proof (rule close_step [OF inv ord _ b])
    show "distinct (map fst (gb_subscribers ?b))" using Some bus_invD(1) [OF inv] by (simp add: Bus_Unsubscribe_def distinct_filter_key)
    show "gb_chans ?b = gb_chans (closeSubs subs b)" using Some by (simp add: Bus_Unsubscribe_def)
    show "sub_Ch s \<notin> sub_Ch ` set subs" if "s \<in> set (subsOf ?b t)" for t s
      using that bus_invD(5) [OF inv, of s t _ topic] subs by (auto simp: b split: if_splits)
  qed
qed

lemma Close_step:
  assumes inv: "bus_inv b" and ord: "in_order tr b"
  shows "bus_inv (Bus_Close b) \<and> in_order tr (Bus_Close b)"
proof (rule close_step [OF inv ord, where P = "\<lambda>_ _. False"])
  show "distinct (map fst (gb_subscribers (Bus_Close b)))" "gb_chans (Bus_Close b) = gb_chans (closeSubs (concat (map snd (gb_subscribers b))) b)"
    "\<And>t. subsOf (Bus_Close b) t = filter (\<lambda>_. False) (subsOf b t)"
    by (simp_all add: Bus_Close_def subsOf_def)
  then show "sub_Ch s \<notin> sub_Ch ` set (concat (map snd (gb_subscribers b)))" if "s \<in> set (subsOf (Bus_Close b) t)" for t s
    using that by simp
qed

lemma stream_end_step:
  assumes inv: "bus_inv b" and ord: "in_order tr b" and s: "streamOf topic sub b"
  shows "bus_inv (streamEnd topic sub b) \<and> in_order tr (streamEnd topic sub b)"
proof -
  let ?b = "streamEnd topic sub b"
  have b: "subsOf ?b t = filter (\<lambda>x. \<not> (t = topic \<and> sub_ID x = sub_ID sub)) (subsOf b t)" for t
    using remove_first_key [OF bus_invD(4) [OF inv, of topic], of "sub_ID sub"] by (simp add: streamEnd_def Subscriber_Close_def)
  show ?thesis
  proof (rule close_step [OF inv ord _ b])
    show "distinct (map fst (gb_subscribers ?b))" using bus_invD(1) [OF inv] by (simp add: streamEnd_def Subscriber_Close_def)
    show "gb_chans ?b = gb_chans (closeSubs [sub] b)" by (simp add: streamEnd_def closeSubs_def Subscriber_Close_def updChan_def)
    show "sub_Ch x \<notin> sub_Ch ` set [sub]" if "x \<in> set (subsOf ?b t)" for t x
    proof
      have x: "x \<in> set (subsOf b t)" "\<not> (t = topic \<and> sub_ID x = sub_ID sub)" using that by (simp_all add: b)
      assume "sub_Ch x \<in> sub_Ch ` set [sub]"
      then have c: "sub_Ch x = sub_Ch sub" by simp
      from s consider "sub \<in> set (subsOf b topic)" | "ch_closed (gb_chans b ! sub_Ch sub)" unfolding streamOf_def by blast
      then show False
      proof cases
        case 1
        then show False using same_channel [OF inv x(1) 1 c] bus_invD(5) [OF inv x(1) 1 c] x(2) by simp
      next
        case 2
        then show False using bus_invD(2) [OF inv x(1)] c by simp
      qed
    qed
  qed
qed

lemma delivered_step:
  assumes inv: "bus_inv b" and ord: "in_order tr b" and d: "delivered pickDone e (subsOf b topic) b b'"
  shows "bus_inv b' \<and> in_order (tr @ [(topic, e)]) b'"
proof
  show "bus_inv b'" by (rule delivered_inv [OF inv d])
  have subs: "subsOf b' = subsOf b" using d by (simp add: delivered_def subsOf_def fun_eq_iff)
  show "in_order (tr @ [(topic, e)]) b'"
    unfolding in_order_def
  proof (intro allI ballI)
    fix t s assume "s \<in> set (subsOf b' t)"
    then have s: "s \<in> set (subsOf b t)" by (simp add: subs)
    have o: "subseq (content b (sub_Ch s)) (published t tr)" using ord s by (simp add: in_order_def)
    have "sub_Ch s < length (gb_chans b)" using bus_invD(2) [OF inv s] by simp
    from delivered_content [OF d this]
    have c: "content b' (sub_Ch s) = content b (sub_Ch s) \<or> content b' (sub_Ch s) = content b (sub_Ch s) @ [e] \<and> t = topic"
      using bus_invD(5) [OF inv s] by metis
    have "subseq (content b (sub_Ch s)) (published t tr @ [e])" using o by (rule subseq_snoc)
    moreover have "subseq (content b (sub_Ch s) @ [e]) (published t tr @ [e])" using o by simp
    ultimately show "subseq (content b' (sub_Ch s)) (published t (tr @ [(topic, e)]))" using c o by (auto simp: published_snoc)
  qed
qed

lemma sendLoop_timeout: "sendLoop False pickDone e subs b = Finished b' \<Longrightarrow> sendLoop True pickDone e subs b = Finished b'"
proof (induction subs arbitrary: b)
  case (Cons s subs)
  obtain b1 where b1: "sendTo False (pickDone s) e s b = Finished b1" "sendLoop False pickDone e subs b1 = Finished b'"
    using Cons.prems by (cases "sendTo False (pickDone s) e s b") auto
  have "sendTo True (pickDone s) e s b = Finished b1" using b1(1) by (auto simp: sendTo_def Let_def split: if_splits)
  then show ?case using Cons.IH [OF b1(2)] by simp
qed simp

lemma publish_step:
  assumes inv: "bus_inv b" and ord: "in_order tr b" and p: "publishLocal pickDone topic e b = Finished b'"
  shows "bus_inv b' \<and> in_order (tr @ [(topic, e)]) b'"
proof -
  have "delivered pickDone e (subsOf b topic) b b'" using publish_delivers [OF inv, of pickDone topic e] p by auto
  then show ?thesis by (rule delivered_step [OF inv ord])
qed

lemma receive_step:
  assumes inv: "bus_inv b" and ord: "in_order tr b" and r: "receive ch b = (e, b')" and ch: "ch < length (gb_chans b)"
  shows "bus_inv b' \<and> in_order tr b'"
proof (cases "ch_buf (gb_chans b ! ch)")
  case Nil
  then show ?thesis using assms by (simp add: receive_def)
next
  case (Cons x xs)
  then have b': "b' = updChan ch (\<lambda>c. c\<lparr>ch_buf := xs, ch_taken := ch_taken c @ [x]\<rparr>) b" using r by (simp add: receive_def)
  have len: "length (x # xs) \<le> ch_cap (gb_chans b ! ch)" using bus_invD(6) [OF inv, of "gb_chans b ! ch"] ch Cons by simp
  have "content b' i = content b i" if "i < length (gb_chans b)" for i
    using that Cons by (simp add: content_def b' chan_upd)
  then have "in_order tr b'" by (intro in_order_mono [OF ord]) (use bus_invD(2) [OF inv] in \<open>auto simp: b'\<close>)
  moreover have "bus_inv b'"
    by (rule inv_chans [OF inv]) (use len bus_invD(6) [OF inv] in \<open>auto simp: b' chan_upd\<close>)
  ultimately show ?thesis by blast
qed

lemma in_order_add:
  assumes inv: "bus_inv b" and ord: "in_order tr b" and "content b (sub_Ch s) = []"
  shows "in_order tr (putSubs t (subsOf b t @ [s]) b)"
  using ord assms(3) by (auto simp: in_order_def content_def split: if_splits)

lemma makeChan_step:
  assumes inv: "bus_inv b" and ord: "in_order tr b" and m: "makeChan b = (ch, b')"
  shows "bus_inv b' \<and> in_order tr b'"
proof -
  note n = inv_newchan [OF inv m]
  have "in_order tr b'" using n bus_invD(2) [OF inv] by (intro in_order_mono [OF ord]) (auto simp: content_def)
  with n show ?thesis by blast
qed

lemma subscribe_step:
  assumes inv: "bus_inv b" and ord: "in_order tr b" and f: "fresh uuid topic b" and r: "subscribeLocal uuid topic b = (ch, b')"
  shows "bus_inv b' \<and> in_order tr b'"
proof -
  obtain c b1 where m: "makeChan b = (c, b1)" by (rule prod.exhaust)
  note n = inv_newchan [OF inv m] and o = makeChan_step [OF inv ord m]
  let ?s = "\<lparr>sub_ID = uuid, sub_Topic = topic, sub_Ch = c, sub_Ctx = gb_ctx b1, sub_IsRemote = False\<rparr>"
  have b': "b' = putSubs topic (subsOf b1 topic @ [?s]) b1" using r m by (auto simp: subscribeLocal_def Let_def)
  have "bus_inv b'" unfolding b' by (rule inv_add) (use n f in \<open>auto simp: fresh_def\<close>)
  moreover have "in_order tr b'" unfolding b' by (rule in_order_add) (use n o in auto)
  ultimately show ?thesis by blast
qed

lemma stream_step:
  assumes inv: "bus_inv b" and ord: "in_order tr b" and f: "fresh uuid topic b" and r: "server_Subscribe uuid ctx topic b = (sub, b')"
  shows "bus_inv b' \<and> in_order tr b'"
proof -
  obtain c b1 where m: "makeChan b = (c, b1)" by (rule prod.exhaust)
  note n = inv_newchan [OF inv m] and o = makeChan_step [OF inv ord m]
  define b2 where "b2 = (if isStateSpecificTopic topic \<and> subsOf b1 topic \<noteq> []
      then putSubs topic [] (closeSubs (subsOf b1 topic) b1) else b1)"
  let ?s = "\<lparr>sub_ID = uuid, sub_Topic = topic, sub_Ch = c, sub_Ctx = ctx, sub_IsRemote = True\<rparr>"
  have b': "b' = putSubs topic (subsOf b2 topic @ [?s]) b2" using r m by (auto simp: server_Subscribe_def b2_def Let_def)
  have b2: "bus_inv b2 \<and> in_order tr b2"
  proof (cases "isStateSpecificTopic topic \<and> subsOf b1 topic \<noteq> []")
    case True
    then have e: "b2 = putSubs topic [] (closeSubs (subsOf b1 topic) b1)" by (simp add: b2_def)
    show ?thesis
    proof (rule close_step [OF conjunct1 [OF o] conjunct2 [OF o], where P = "\<lambda>t _. t \<noteq> topic" and X = "subsOf b1 topic"])
      show "distinct (map fst (gb_subscribers b2))" using o bus_invD(1) [of b1] by (simp add: e)
      show "sub_Ch s \<notin> sub_Ch ` set (subsOf b1 topic)" if "s \<in> set (subsOf b2 t)" for t s
        using that bus_invD(5) [of b1 s t _ topic] o by (auto simp: e split: if_splits)
    qed (simp_all add: e)
  next
    case False
    then have "b2 = b1" by (auto simp: b2_def)
    then show ?thesis using o by simp
  qed
  have unused: "\<not> (\<exists>s \<in> set (subsOf b1 topic). sub_Ch s = c)" using n by blast
  have chan: "gb_chans b2 ! c = gb_chans b1 ! c" "length (gb_chans b2) = length (gb_chans b1)"
    using n unused by (auto simp: b2_def chan_closeSubs)
  have sub: "set (subsOf b2 t) \<subseteq> set (subsOf b1 t)" for t by (simp add: b2_def)
  have "bus_inv b'" unfolding b'
    by (rule inv_add) (use b2 n f chan sub in \<open>auto simp: fresh_def b2_def split: if_splits\<close>)
  moreover have "in_order tr b'" unfolding b' by (rule in_order_add) (use b2 n chan in \<open>auto simp: content_def\<close>)
  ultimately show ?thesis by blast
qed

lemma run_inv_order: "bus_run b0 tr b \<Longrightarrow> bus_inv b0 \<Longrightarrow> subsOf b0 = (\<lambda>_. []) \<Longrightarrow> bus_inv b \<and> in_order tr b"
proof (induction rule: bus_run.induct)
  case (start b0)
  then show ?case by (simp add: in_order_def)
next
  case (cancel b0 tr b ctx)
  have "bus_inv (b\<lparr>gb_done := ctx # gb_done b\<rparr>)" 
    by (rule inv_chans [of b]) (use cancel bus_invD(6) [of b] in auto)
  moreover have "in_order tr (b\<lparr>gb_done := ctx # gb_done b\<rparr>)" using cancel by (auto simp: in_order_def content_def)
  ultimately show ?case ..
next
  case (remote_publish b0 tr b deserialize pickDone topic bytes resp b' e)
  then have "sendLoop False pickDone e (subsOf b topic) b = Finished b'"
    by (cases "sendLoop False pickDone e (subsOf b topic) b") (auto simp: server_Publish_def)
  then have "publishLocal pickDone topic e b = Finished b'" unfolding publishLocal_def by (rule sendLoop_timeout)
  moreover have "bus_inv b \<and> in_order tr b" using remote_publish.IH remote_publish.prems by blast
  ultimately show ?case using publish_step [of b tr pickDone topic e b'] by blast
qed (blast intro: subscribe_step [THEN conjunct1] subscribe_step [THEN conjunct2] stream_step [THEN conjunct1] stream_step [THEN conjunct2]
    stream_end_step [THEN conjunct1] stream_end_step [THEN conjunct2] receive_step [THEN conjunct1] receive_step [THEN conjunct2]
    unsubscribe_step [THEN conjunct1] unsubscribe_step [THEN conjunct2] Close_step [THEN conjunct1] Close_step [THEN conjunct2]
    publish_step [THEN conjunct1] publish_step [THEN conjunct2])+

section \<open>Claims\<close>

lemma new_bus_inv:
  "bus_inv (NewGRPCEventBusServerWithConfig parse ctx cfg)" "subsOf (NewGRPCEventBusServerWithConfig parse ctx cfg) = (\<lambda>_. [])"
  by (simp_all add: bus_inv_def subsOf_def NewGRPCEventBusServerWithConfig_def fun_eq_iff)


text \<open>
  Claim C40. The snapshot of the subscribers does not protect a publication: when the topic is unsubscribed, or its only subscriber
  is replaced, after the snapshot is taken and before the first send, that send is on a closed channel and
  panics.
\<close>

lemma send_closed: "sub_Ctx s \<notin> set (gb_done b) \<Longrightarrow> ch_closed (gb_chans b ! sub_Ch s) \<Longrightarrow> sendLoop wt pickDone e (s # subs) b = Panics"
  by (simp add: sendTo_def Let_def)

lemma closed_by: "s \<in> set subs \<Longrightarrow> sub_Ch s < length (gb_chans b) \<Longrightarrow> ch_closed (gb_chans (closeSubs subs b) ! sub_Ch s)"
  by (auto simp: chan_closeSubs)

theorem snapshot_race_panics:
  assumes inv: "bus_inv b" and s: "subsOf b topic = s # subs" "sub_Ctx s \<notin> set (gb_done b)"
  shows "sendLoop True pickDone e (subsOf b topic) (Bus_Unsubscribe topic b) = Panics
     \<and> (isStateSpecificTopic topic \<longrightarrow> sendLoop True pickDone e (subsOf b topic) (snd (server_Subscribe uuid streamCtx topic b)) = Panics)"
proof -
  have ch: "sub_Ch s < length (gb_chans b)" using bus_invD(2) [OF inv, of s topic] s(1) by simp
  have m: "map_of (gb_subscribers b) topic = Some (s # subs)" using s(1) by (auto simp: subsOf_def split: option.splits)
  have "ch_closed (gb_chans (Bus_Unsubscribe topic b) ! sub_Ch s)" "gb_done (Bus_Unsubscribe topic b) = gb_done b"
    using closed_by [of s "s # subs" b] ch by (simp_all add: Bus_Unsubscribe_def m)
  moreover have "ch_closed (gb_chans (snd (server_Subscribe uuid streamCtx topic b)) ! sub_Ch s)"
      "gb_done (snd (server_Subscribe uuid streamCtx topic b)) = gb_done b" if spec: "isStateSpecificTopic topic"
  proof -
    obtain c b1 where mk: "makeChan b = (c, b1)" by (rule prod.exhaust)
    note n = inv_newchan [OF inv mk]
    have "gb_done b1 = gb_done b" using mk by (auto simp: makeChan_def)
    moreover have "sub_Ch s < length (gb_chans b1)" using n ch by simp
    ultimately show "ch_closed (gb_chans (snd (server_Subscribe uuid streamCtx topic b)) ! sub_Ch s)"
      "gb_done (snd (server_Subscribe uuid streamCtx topic b)) = gb_done b"
      using closed_by [of s "s # subs" b1] n s(1) mk spec by (simp_all add: server_Subscribe_def Let_def)
  qed
  ultimately show ?thesis using s(2) by (simp only: s(1)) (metis send_closed)
qed

text \<open>
  The wait before a subscription is renewed doubles up to a minute while fewer than 63 attempts failed in a row; from then on
  the shift overflows and there is no wait at all.
\<close>

theorem subBackoff_doubles:
  "subBackoff retry = (if retry < 63 then min (2 ^ retry) 60 * second else 0)"
proof -
  have fits: "sint (word_of_int (n * second) :: 64 word) = n * second" if "0 \<le> n" "n \<le> 60" for n :: int
    using that by (intro sint_fits) simp_all
  consider (small) "retry < 63" | (min) "retry = 63" | (large) "64 \<le> retry" by linarith
  then show ?thesis
  proof cases
    case small
    have "(if (2 :: int) ^ retry > 60 then 60 else 2 ^ retry) = (min (2 ^ retry) 60 :: int)" by (simp add: min_def)
    then show ?thesis using small fits [of "min (2 ^ retry) 60"] unfolding subBackoff_def Let_def push_bit_one_sint [OF small] by simp
  next
    case min
    have "sint (word_of_int (- (2 ^ 63) * second) :: 64 word) = 0" by (simp add: sint_sbintrunc')
    then show ?thesis unfolding subBackoff_def Let_def min push_bit_one_sint_63 by simp
  next
    case large
    then show ?thesis unfolding subBackoff_def Let_def push_bit_one_overflow [OF large] by simp
  qed
qed

section \<open>Examples\<close>

definition exBusConfig :: GRPCConfig where
  "exBusConfig = \<lparr>gc_Address = ''tcp://127.0.0.1:50051'', gc_PublishTimeout = '''', gc_SubscriberBufferSize = 1, gc_SubscriberSendTimeout = ''''\<rparr>"

abbreviation newBus :: "nat GRPCEventBus" where
  "newBus \<equiv> NewGRPCEventBusServerWithConfig (\<lambda>_. None) 0 exBusConfig"

definition exBus :: "nat GRPCEventBus" where
  "exBus = snd (subscribeLocal ''u1'' ''task.state_changed_a'' newBus)"

definition exSub :: Subscriber where
  "exSub = \<lparr>sub_ID = ''u1'', sub_Topic = ''task.state_changed_a'', sub_Ch = 0, sub_Ctx = 0, sub_IsRemote = False\<rparr>"

lemma exBus_facts:
  "subsOf exBus ''task.state_changed_a'' = [exSub]" "gb_done exBus = []" "bus_run newBus [] exBus"
  "gb_chans exBus = [\<lparr>ch_buf = [], ch_cap = 1, ch_closed = False, ch_taken = []\<rparr>]" "gb_dropCount exBus = 0"
proof -
  show "subsOf exBus ''task.state_changed_a'' = [exSub]" "gb_done exBus = []"
    "gb_chans exBus = [\<lparr>ch_buf = [], ch_cap = 1, ch_closed = False, ch_taken = []\<rparr>]" "gb_dropCount exBus = 0"
    by (simp_all add: exBus_def subscribeLocal_def makeChan_def putSubs_def subsOf_def exSub_def NewGRPCEventBusServerWithConfig_def exBusConfig_def)
  have "fresh ''u1'' ''task.state_changed_a'' newBus" by (simp add: fresh_def new_bus_inv)
  from subscribe [OF start this, of "fst (subscribeLocal ''u1'' ''task.state_changed_a'' newBus)" exBus]
  show "bus_run newBus [] exBus" by (simp add: exBus_def)
qed


theorem snapshot_race_panics_witness:
  "sendLoop True (\<lambda>_. False) 7 (subsOf exBus ''task.state_changed_a'') (Bus_Unsubscribe ''task.state_changed_a'' exBus) = Panics"
proof -
  have "bus_inv exBus" using run_inv_order [OF exBus_facts(3) new_bus_inv] by blast
  from snapshot_race_panics [OF this exBus_facts(1), of "\<lambda>_. False" 7] show ?thesis by (simp only: exBus_facts exSub_def) simp
qed

end
