(* ===== verification/Bus_Serializer.thy ===== *)
theory Bus_Serializer
  imports Bus_Props
begin

text \<open>
  The serializer of events (\<^verbatim>\<open>src/pkg/eventbus/serializer.go\<close>).
  The protobuf library is a pair of functions between messages
  and bytes; what the serializer relies on is that a decoded message is the one that was encoded.
\<close>

section \<open>Messages\<close>

record pb_event =
  pb_Id :: string
  pb_Type :: string
  pb_Topic :: string
  pb_Timestamp :: "gotime option"
  pb_TraceId :: string
  pb_Source :: string
  pb_Version :: string
  pb_Payload :: "typed_payload option"

record 'b protobuf =
  proto_Marshal :: "pb_event \<Rightarrow> string + 'b"
  proto_Unmarshal :: "'b \<Rightarrow> string + pb_event"

definition toMessage :: "Event \<Rightarrow> pb_event" where
  "toMessage event =
     \<lparr>pb_Id = ev_ID event, pb_Type = ev_Type event, pb_Topic = ev_Topic event, pb_Timestamp = Some (ev_Timestamp event),
      pb_TraceId = ev_TraceID event, pb_Source = ev_Source event, pb_Version = ev_Version event, pb_Payload = ev_TypedPayload event\<rparr>"

text \<open>\<open>typeName\<close> is the printed type of a payload of no known kind.\<close>

definition Serialize :: "string \<Rightarrow> 'b protobuf \<Rightarrow> Event \<Rightarrow> string + 'b" where
  "Serialize typeName P event =
     (case ev_TypedPayload event of
        None \<Rightarrow> Inl ''event has no TypedPayload set''
      | Some Event_Other \<Rightarrow> Inl (''unsupported TypedPayload type: '' @ typeName)
      | Some _ \<Rightarrow> proto_Marshal P (toMessage event))"

definition Deserialize :: "'b protobuf \<Rightarrow> 'b \<Rightarrow> string + Event" where
  "Deserialize P bytes =
     (case proto_Unmarshal P bytes of
        Inl err \<Rightarrow> Inl (''unmarshal protobuf: '' @ err)
      | Inr pb \<Rightarrow>
          Inr \<lparr>ev_ID = pb_Id pb, ev_Type = pb_Type pb, ev_Topic = pb_Topic pb,
               ev_Timestamp = (case pb_Timestamp pb of None \<Rightarrow> 0 | Some t \<Rightarrow> t), ev_TraceID = pb_TraceId pb, ev_Source = pb_Source pb,
               ev_Version = pb_Version pb,
               ev_TypedPayload = (case pb_Payload pb of Some Event_Other \<Rightarrow> None | p \<Rightarrow> p), ev_Payload = None, ev_Ctx = None\<rparr>)"

text \<open>
  What the encoding of protobuf does not tell apart: an empty map from an absent one, and a payload without its message from one with the
  empty message. A decoded message has the first form of the former and the second of the latter.
\<close>

definition canonMap :: "strmap option \<Rightarrow> strmap option" where
  "canonMap m = (if m = Some [] then None else m)"

definition emptyPod :: PodEventPayload where
  "emptyPod = \<lparr>pod_PodName = '''', pod_PodNamespace = '''', pod_PodUid = '''', pod_PodId = '''', pod_Labels = None, pod_Extensions = None\<rparr>"

definition emptyPolicyPayload :: PolicyEventPayload where
  "emptyPolicyPayload = \<lparr>pol_PolicyId = '''', pol_TriggerEventType = '''', pol_TriggerEventSource = '''', pol_TriggerEventId = '''',
     pol_Timestamp = 0, pol_Extensions = None\<rparr>"

definition emptyTaskPayload :: TaskEventPayload where
  "emptyTaskPayload = \<lparr>tsk_TaskId = '''', tsk_OldState = '''', tsk_NewState = '''', tsk_CurrentState = '''', tsk_TargetState = '''',
     tsk_Timestamp = 0, tsk_PolicyId = '''', tsk_TriggerEventType = '''', tsk_TriggerEventId = '''', tsk_Extensions = None\<rparr>"

definition emptyComponentPayload :: ComponentEventPayload where
  "emptyComponentPayload = \<lparr>cmp_TaskId = '''', cmp_CurrentState = '''', cmp_TargetState = '''', cmp_ComponentName = '''', cmp_Success = False, cmp_Message = ''''\<rparr>"

definition orEmpty :: "'a \<Rightarrow> 'a option \<Rightarrow> 'a" where
  "orEmpty d m = (case m of None \<Rightarrow> d | Some x \<Rightarrow> x)"

fun canonPayload :: "typed_payload \<Rightarrow> typed_payload" where
  "canonPayload (Event_Pod m) =
     (let p = orEmpty emptyPod m
      in Event_Pod (Some (p\<lparr>pod_Labels := canonMap (pod_Labels p), pod_Extensions := canonMap (pod_Extensions p)\<rparr>)))"
| "canonPayload (Event_Policy m) =
     (let p = orEmpty emptyPolicyPayload m in Event_Policy (Some (p\<lparr>pol_Extensions := canonMap (pol_Extensions p)\<rparr>)))"
| "canonPayload (Event_Task m) =
     (let p = orEmpty emptyTaskPayload m in Event_Task (Some (p\<lparr>tsk_Extensions := canonMap (tsk_Extensions p)\<rparr>)))"
| "canonPayload (Event_Component m) = Event_Component (Some (orEmpty emptyComponentPayload m))"
| "canonPayload Event_Other = Event_Other"

definition canonMessage :: "pb_event \<Rightarrow> pb_event" where
  "canonMessage pb = pb\<lparr>pb_Payload := map_option canonPayload (pb_Payload pb)\<rparr>"

text \<open>What survives the transport.\<close>

definition transported :: "Event \<Rightarrow> Event" where
  "transported e = e\<lparr>ev_TypedPayload := map_option canonPayload (ev_TypedPayload e), ev_Payload := None, ev_Ctx := None\<rparr>"

lemma canonMap_map_of: "extension (canonMap m) key = extension m key"
  by (simp add: canonMap_def extension_def)

text \<open>The transport keeps every field that is read by its key, but for absent labels.\<close>

lemma canon_fields:
  "key \<noteq> ''labels'' \<Longrightarrow> getPodField (p\<lparr>pod_Labels := canonMap (pod_Labels p), pod_Extensions := canonMap (pod_Extensions p)\<rparr>) key = getPodField p key"
  "getPolicyField (q\<lparr>pol_Extensions := canonMap (pol_Extensions q)\<rparr>) key = getPolicyField q key"
  "getTaskField (t\<lparr>tsk_Extensions := canonMap (tsk_Extensions t)\<rparr>) key = getTaskField t key"
  by (simp_all add: getPodField_def getPolicyField_def getTaskField_def canonMap_map_of)

lemma transported_field:
  assumes "ev_TypedPayload e = Some (Event_Task (Some t))" "ev_Payload e = None"
  shows "GetField (transported e) key = GetField e key"
  using assms by (simp add: transported_def GetField_def typedField_def orEmpty_def Let_def canon_fields split: option.split)

text \<open>
  The contract of the protobuf library, and of a serializer: decoding inverts encoding up to what is \<open>kept\<close>.
\<close>

locale serializer =
  fixes ser :: "Event \<Rightarrow> string + 'b" and des :: "'b \<Rightarrow> string + Event" and kept :: "Event \<Rightarrow> Event"
  assumes roundtrip: "ser e = Inr bytes \<Longrightarrow> des bytes = Inr (kept e)"
begin

text \<open>
  A client that publishes to a bus over an undisturbed connection: the event that comes out at the other end is the one
  published, up to what the transport keeps.
\<close>

definition connect :: "(Subscriber \<Rightarrow> bool) \<Rightarrow> string \<Rightarrow> 'b \<Rightarrow> Event GRPCEventBus \<Rightarrow> (string + PublishResponse) \<times> Event GRPCEventBus" where
  "connect pickDone topic bytes b =
     (case server_Publish des pickDone topic bytes b of
        Finished (resp, b') \<Rightarrow> (Inr resp, b')
      | Panics \<Rightarrow> (Inl ''Internal'', b)
      | Blocks \<Rightarrow> (Inl ''DeadlineExceeded'', b))"

lemma publish_arrives:
  assumes inv: "bus_inv b" and ser: "ser e = Inr bytes" and room: "\<forall>s \<in> set (subsOf b topic). \<not> refuses b s"
  shows "\<exists>b'. publishViaGRPC ser (connect pickDone) topic e b = (None, b') \<and> delivered pickDone (kept e) (subsOf b topic) b b'"
proof -
  have "\<exists>b'. sendLoop False pickDone (kept e) (subsOf b topic) b = Finished b' \<and> delivered pickDone (kept e) (subsOf b topic) b b'"
    by (rule sendLoop_delivers) (use bus_invD(2,3) [OF inv] room in auto)
  then obtain b' where b': "sendLoop False pickDone (kept e) (subsOf b topic) b = Finished b'"
    "delivered pickDone (kept e) (subsOf b topic) b b'" by blast
  then have "publishViaGRPC ser (connect pickDone) topic e b = (None, b')"
    using ser roundtrip [OF ser] by (simp add: publishViaGRPC_def connect_def server_Publish_def)
  with b'(2) show ?thesis by blast
qed

end

definition proto_ok :: "'b protobuf \<Rightarrow> bool" where
  "proto_ok P \<longleftrightarrow> (\<forall>pb bytes. proto_Marshal P pb = Inr bytes \<longrightarrow> proto_Unmarshal P bytes = Inr (canonMessage pb))"

lemma serialize_roundtrip:
  assumes "proto_ok P" "Serialize typeName P e = Inr bytes"
  shows "Deserialize P bytes = Inr (transported e)"
proof -
  obtain tp where tp: "ev_TypedPayload e = Some tp" "tp \<noteq> Event_Other" "proto_Marshal P (toMessage e) = Inr bytes"
    using assms(2) by (auto simp: Serialize_def split: option.splits typed_payload.splits)
  then have "proto_Unmarshal P bytes = Inr (canonMessage (toMessage e))" using assms(1) by (simp add: proto_ok_def)
  then show ?thesis using tp(1,2) by (cases tp) (simp_all add: Deserialize_def canonMessage_def toMessage_def transported_def Let_def)
qed

text \<open>
  The bytes of the library as the messages themselves: an encoding that fulfils the contract.
\<close>

definition plainProto :: "pb_event protobuf" where
    "plainProto = \<lparr>proto_Marshal = Inr, proto_Unmarshal = (\<lambda>pb. Inr (canonMessage pb))\<rparr>"

lemma plainProto_ok: "proto_ok plainProto"
  by (simp add: proto_ok_def plainProto_def)

text \<open>The serializer over any protobuf library that decodes what it encoded.\<close>

locale protobuf_lib =
  fixes P :: "'b protobuf" and typeName :: string
  assumes decodes: "proto_ok P"

sublocale protobuf_lib \<subseteq> ser: serializer "Serialize typeName P" "Deserialize P" transported
  by unfold_locales (rule serialize_roundtrip [OF decodes])

interpretation pbs: protobuf_lib plainProto typeName for typeName :: string
  by unfold_locales (rule plainProto_ok)

text \<open>
  Claim C37. Serialization is a round trip for what it carries: an event with a typed payload that can be encoded is decoded to itself,
  without its untyped payload and its context and with its payload in canonical form (absent instead of empty maps), in which a task event has the
  same fields; an event without typed payload is refused, so that one with an
  untyped payload only never leaves the process.
\<close>

theorem event_serialization_roundtrip:
  assumes "proto_ok P"
  shows "(Serialize typeName P e = Inr bytes \<longrightarrow> 
        Deserialize P bytes = Inr (e\<lparr>ev_TypedPayload := map_option canonPayload (ev_TypedPayload e), ev_Payload := None, ev_Ctx := None\<rparr>))
     \<and> (ev_TypedPayload e = Some (Event_Task (Some t)) \<and> ev_Payload e = None \<longrightarrow> GetField (transported e) key = GetField e key)
     \<and> (ev_TypedPayload e = None \<longrightarrow> Serialize typeName P e = Inl ''event has no TypedPayload set'')"
  using serialize_roundtrip [OF assms, of typeName e bytes] transported_field [of e t key] by (simp add: transported_def [of e] Serialize_def)

theorem event_serialization_roundtrip_witness:
  "Deserialize plainProto (toMessage ((NewEvent ''e1'' 5 ''start'' ''topic'' ''src'')\<lparr>ev_TypedPayload := Some (Event_Pod (Some emptyPod)), ev_Payload := Some []\<rparr>))
     = Inr ((NewEvent ''e1'' 5 ''start'' ''topic'' ''src'')\<lparr>ev_TypedPayload := Some (Event_Pod (Some emptyPod))\<rparr>)"
  using event_serialization_roundtrip [OF plainProto_ok, of "''''"
      "(NewEvent ''e1'' 5 ''start'' ''topic'' ''src'')\<lparr>ev_TypedPayload := Some (Event_Pod (Some emptyPod)), ev_Payload := Some []\<rparr>"
      "toMessage ((NewEvent ''e1'' 5 ''start'' ''topic'' ''src'')\<lparr>ev_TypedPayload := Some (Event_Pod (Some emptyPod)), ev_Payload := Some []\<rparr>)"]
  by (simp add: Serialize_def plainProto_def NewEvent_def orEmpty_def emptyPod_def canonMap_def)

text \<open>
  A client does not look at the response of a publication: when the server cannot decode the event and answers that it
  failed, the client reports success, and no subscriber gets anything.
\<close>

theorem failed_publish_reported_as_success:
  assumes "Serialize typeName P e = Inr bytes" "Deserialize Q bytes = Inl err"
    and "server_Publish (Deserialize Q) pickDone topic bytes b = Finished (resp, b')"
    and "call topic bytes b = (Inr resp, b')"
  shows "publishViaGRPC (Serialize typeName P) call topic e b = (None, b) \<and> \<not> pr_Success resp"
  using assms by (auto simp: publishViaGRPC_def server_Publish_def)

theorem failed_publish_reported_as_success_witness:
  "publishViaGRPC (Serialize [] plainProto)
      (\<lambda>topic bytes b. (Inr \<lparr>pr_Success = False, pr_Message = ''unmarshal protobuf: bad''\<rparr>, b)) ''t''
      ((NewEvent ''e1'' 5 ''start'' ''t'' ''src'')\<lparr>ev_TypedPayload := Some (Event_Pod None)\<rparr>)
      (NewGRPCEventBusServerWithConfig (\<lambda>_. None) 0 exBusConfig :: Event GRPCEventBus)
    = (None, NewGRPCEventBusServerWithConfig (\<lambda>_. None) 0 exBusConfig)"
proof -
  let ?e = "(NewEvent ''e1'' 5 ''start'' ''t'' ''src'')\<lparr>ev_TypedPayload := Some (Event_Pod None)\<rparr>"
  let ?Q = "plainProto\<lparr>proto_Unmarshal := \<lambda>_. Inl ''bad''\<rparr>"
  have "Serialize [] plainProto ?e = Inr (toMessage ?e)" "Deserialize ?Q (toMessage ?e) = Inl ''unmarshal protobuf: bad''"
    by (simp_all add: Serialize_def Deserialize_def plainProto_def)
  then show ?thesis
    using failed_publish_reported_as_success [of "[]" plainProto ?e "toMessage ?e" ?Q "''unmarshal protobuf: bad''" "\<lambda>_. False" "''t''"
        "NewGRPCEventBusServerWithConfig (\<lambda>_. None) 0 exBusConfig"]
    by (simp add: server_Publish_def)
qed

end
