(* ===== verification/Bus_Client.thy ===== *)
theory Bus_Client
  imports Bus_Serializer
begin

text \<open>
  The two ends of a subscription over gRPC (\<^verbatim>\<open>src/pkg/eventbus/grpc.go\<close>): the loop of the server that sends the events of a channel on a
  stream, the loop of the client that reads the stream, reconnects and hands the events to a channel of its own, the
  table of cancel functions of a client, and its health. What the network does is a list of
  observations, one per turn of the client's loop.
\<close>

section \<open>The server's stream\<close>

text \<open>
  What the stream loop of \<^verbatim>\<open>grpcServer.Subscribe\<close> sends for the events it takes from the channel: one that cannot be
  serialized is passed over; a failing send ends the stream (\<open>sendOk\<close> gives the outcome of each send).
\<close>

fun streamLoop :: "('e \<Rightarrow> string + 'b) \<Rightarrow> ('b \<Rightarrow> bool) \<Rightarrow> 'e list \<Rightarrow> 'b list" where
  "streamLoop serialize sendOk [] = []"
| "streamLoop serialize sendOk (e # es) =
     (case serialize e of
        Inl err \<Rightarrow> streamLoop serialize sendOk es
      | Inr bytes \<Rightarrow> if sendOk bytes then bytes # streamLoop serialize sendOk es else [])"

section \<open>The client's loop\<close>

datatype 'b observed =
    SubscribeOk
  | SubscribeFailed
  | Received 'b
  | StreamEOF
  | StreamBroken
  | CtxDone

record 'e subscription =
  su_streaming :: bool
  su_retry :: nat
  su_delivered :: "'e list"
  su_waits :: "duration list"
  su_ended :: bool

definition newSubscription :: "'e subscription" where
  "newSubscription = \<lparr>su_streaming = False, su_retry = 0, su_delivered = [], su_waits = [], su_ended = False\<rparr>"

text \<open>\<^verbatim>\<open>retry++\<close>, the wait, and back to the start of the outer loop\<close>

definition retryLater :: "'e subscription \<Rightarrow> 'e subscription" where
  "retryLater s = s\<lparr>su_streaming := False, su_retry := su_retry s + 1, su_waits := su_waits s @ [subBackoff (su_retry s + 1)]\<rparr>"

text \<open>
  One turn. The return of the goroutine closes its channel; observations that a phase cannot make (a message while no stream
  is open) change nothing.
\<close>

fun clientTurn :: "('b \<Rightarrow> string + 'e) \<Rightarrow> 'b observed \<Rightarrow> 'e subscription \<Rightarrow> 'e subscription" where
  "clientTurn deserialize obs s =
     (if su_ended s then s
      else case obs of
        CtxDone \<Rightarrow> s\<lparr>su_ended := True\<rparr>
      | SubscribeOk \<Rightarrow> (if su_streaming s then s else s\<lparr>su_streaming := True\<rparr>)
      | SubscribeFailed \<Rightarrow> (if su_streaming s then s else retryLater s)
      | StreamEOF \<Rightarrow> (if su_streaming s then s\<lparr>su_ended := True\<rparr> else s)
      | StreamBroken \<Rightarrow> (if su_streaming s then retryLater s else s)
      | Received bytes \<Rightarrow>
          (if \<not> su_streaming s then s
           else case deserialize bytes of
                  Inl err \<Rightarrow> s
                | Inr event \<Rightarrow> s\<lparr>su_retry := 0, su_delivered := su_delivered s @ [event]\<rparr>))"

declare clientTurn.simps [simp del]

definition subscribeViaGRPC :: "('b \<Rightarrow> string + 'e) \<Rightarrow> 'b observed list \<Rightarrow> 'e subscription \<Rightarrow> 'e subscription" where
  "subscribeViaGRPC deserialize obs s = fold (clientTurn deserialize) obs s"

lemma subscribe_Nil [simp]: "subscribeViaGRPC des [] s = s"
  by (simp add: subscribeViaGRPC_def)

lemma subscribe_Cons [simp]: "subscribeViaGRPC des (x # obs) s = subscribeViaGRPC des obs (clientTurn des x s)"
  by (simp add: subscribeViaGRPC_def)

lemma subscribe_append: "subscribeViaGRPC des (xs @ ys) s = subscribeViaGRPC des ys (subscribeViaGRPC des xs s)"
  by (simp add: subscribeViaGRPC_def)

lemma ended_stays: "su_ended s \<Longrightarrow> subscribeViaGRPC des obs s = s"
  by (induction obs) (simp_all add: clientTurn.simps)

text \<open>The messages of an open stream.\<close>

lemma received_all:
  assumes "\<forall>b \<in> set bs. des b = Inr (f b)" "su_streaming s" "\<not> su_ended s"
  shows "subscribeViaGRPC des (map Received bs) s
    = s\<lparr>su_retry := (if bs = [] then su_retry s else 0), su_delivered := su_delivered s @ map f bs\<rparr>"
  using assms by (induction bs arbitrary: s) (simp_all add: clientTurn.simps)

text \<open>Failed connection attempts in a row.\<close>

lemma failures_wait:
  assumes "\<not> su_streaming s" "\<not> su_ended s"
  shows "subscribeViaGRPC des (replicate n SubscribeFailed) s
    = s\<lparr>su_retry := su_retry s + n, su_waits := su_waits s @ map (\<lambda>i. subBackoff (su_retry s + i + 1)) [0..<n]\<rparr>"
  using assms by (induction n arbitrary: s) (simp_all add: clientTurn.simps retryLater_def upt_conv_Cons map_Suc_upt [symmetric] comp_def del: upt_Suc)

lemma received_keeps:
  assumes "su_streaming s" "\<not> su_ended s"
  shows "su_streaming (subscribeViaGRPC des (map Received bs) s) \<and> \<not> su_ended (subscribeViaGRPC des (map Received bs) s)
    \<and> su_waits (subscribeViaGRPC des (map Received bs) s) = su_waits s"
  using assms by (induction bs arbitrary: s) (simp_all add: clientTurn.simps split: sum.splits)

section \<open>Both ends together\<close>

lemma streamLoop_sends:
  "streamLoop ser (\<lambda>_. True) es = concat (map (\<lambda>e. case ser e of Inl _ \<Rightarrow> [] | Inr b \<Rightarrow> [b]) es)"
  by (induction es) (auto split: sum.splits)

context serializer
begin

definition sendable :: "Event \<Rightarrow> bool" where
  "sendable e \<longleftrightarrow> (case ser e of Inl _ \<Rightarrow> False | Inr _ \<Rightarrow> True)"

lemma stream_decodes:
  "map des (streamLoop ser (\<lambda>_. True) es) = map (\<lambda>e. Inr (kept e)) (filter sendable es)"
  by (induction es) (auto simp: sendable_def roundtrip split: sum.splits)

text \<open>Over an undisturbed stream the client gets exactly what can be sent, in order.\<close>

lemma stream_end_to_end:
  assumes "su_streaming s" "\<not> su_ended s"
  shows "su_delivered (subscribeViaGRPC des (map Received (streamLoop ser (\<lambda>_. True) es)) s)
    = su_delivered s @ map kept (filter sendable es)"
proof -
  let ?f = "\<lambda>b. case des b of Inl _ \<Rightarrow> undefined | Inr e \<Rightarrow> e"
  have m: "map des (streamLoop ser (\<lambda>_. True) es) = map (\<lambda>e. Inr (kept e)) (filter sendable es)" by (rule stream_decodes)
  have "des b \<in> set (map des (streamLoop ser (\<lambda>_. True) es))" if "b \<in> set (streamLoop ser (\<lambda>_. True) es)" for b
    using that by simp
  then have d: "\<forall>b \<in> set (streamLoop ser (\<lambda>_. True) es). des b = Inr (?f b)" unfolding m by (force split: sum.splits)
  have "map ?f (streamLoop ser (\<lambda>_. True) es) = map (\<lambda>r. case r of Inl _ \<Rightarrow> undefined | Inr e \<Rightarrow> e) (map des (streamLoop ser (\<lambda>_. True) es))"
    by simp
  also have "\<dots> = map kept (filter sendable es)" unfolding m by simp
  finally show ?thesis using received_all [OF d assms] by simp
qed

end

section \<open>Claims\<close>

lemma serializer_proto: "proto_ok P \<Longrightarrow> serializer (Serialize typeName P) (Deserialize P) transported"
  by unfold_locales (rule serialize_roundtrip)



section \<open>Cancelling subscriptions\<close>

text \<open>
  The client's table of cancel functions, one per topic. A subscription's context is a child of the client's: it is done when either
  was cancelled.
\<close>

record GRPCClient =
  cl_ctx :: nat
  cl_next :: nat
  cl_done :: "nat list"
  cl_subCancel :: "(string \<times> nat) list"

definition ctxDone :: "GRPCClient \<Rightarrow> nat \<Rightarrow> bool" where
  "ctxDone b c \<longleftrightarrow> c \<in> set (cl_done b) \<or> cl_ctx b \<in> set (cl_done b)"

definition client_Subscribe :: "string \<Rightarrow> GRPCClient \<Rightarrow> nat \<times> GRPCClient" where
  "client_Subscribe topic b =
     (cl_next b, b\<lparr>cl_next := cl_next b + 1, cl_subCancel := alist_put topic (cl_next b) (cl_subCancel b)\<rparr>)"

text \<open>The deferred delete when a goroutine of \<^verbatim>\<open>subscribeViaGRPC\<close> ends.\<close>

definition client_subscriptionEnd :: "string \<Rightarrow> GRPCClient \<Rightarrow> GRPCClient" where
  "client_subscriptionEnd topic b = b\<lparr>cl_subCancel := filter (\<lambda>kv. fst kv \<noteq> topic) (cl_subCancel b)\<rparr>"

definition client_Unsubscribe :: "string \<Rightarrow> GRPCClient \<Rightarrow> GRPCClient" where
  "client_Unsubscribe topic b =
     (case map_of (cl_subCancel b) topic of
        None \<Rightarrow> b
      | Some c \<Rightarrow> b\<lparr>cl_done := c # cl_done b, cl_subCancel := filter (\<lambda>kv. fst kv \<noteq> topic) (cl_subCancel b)\<rparr>)"

definition client_Close :: "GRPCClient \<Rightarrow> GRPCClient" where
  "client_Close b = b\<lparr>cl_done := map snd (cl_subCancel b) @ cl_ctx b # cl_done b, cl_subCancel := []\<rparr>"

text \<open>\<open>ready\<close> is the state of the connection, if there is one.\<close>

definition Bus_Health :: "(bool \<times> string) option \<Rightarrow> string option" where
  "Bus_Health conn =
     (case conn of None \<Rightarrow> None | Some (ready, state) \<Rightarrow> if ready then None else Some (''connection not ready: '' @ state))"

text \<open>Contexts in use are older than the next one.\<close>

definition client_inv :: "GRPCClient \<Rightarrow> bool" where
  "client_inv b \<longleftrightarrow> cl_ctx b < cl_next b \<and> (\<forall>c \<in> set (cl_done b) \<union> snd ` set (cl_subCancel b). c < cl_next b)"

lemma values_alist_put: "snd ` set (alist_put k v xs) \<subseteq> insert v (snd ` set xs)"
  by (induction xs) auto

lemma client_inv_steps:
  assumes "client_inv b"
  shows "client_inv (snd (client_Subscribe topic b))" "client_inv (client_Unsubscribe topic b)" "client_inv (client_Close b)"
    "client_inv (client_subscriptionEnd topic b)"
proof -
  have "c < cl_next b + 1" if "c \<in> snd ` set (alist_put topic (cl_next b) (cl_subCancel b))" for c
    using subsetD [OF values_alist_put that] assms by (auto simp: client_inv_def intro: less_SucI)
  then show "client_inv (snd (client_Subscribe topic b))"
    using assms by (auto simp: client_inv_def client_Subscribe_def intro: less_SucI)
  show "client_inv (client_Unsubscribe topic b)"
  proof (cases "map_of (cl_subCancel b) topic")
    case (Some c)
    then have "c \<in> snd ` set (cl_subCancel b)" by (force dest: map_of_SomeD)
    then have "c < cl_next b" using assms by (simp add: client_inv_def)
    then show ?thesis using assms Some by (auto simp: client_inv_def client_Unsubscribe_def)
  qed (use assms in \<open>simp add: client_Unsubscribe_def\<close>)
qed (use assms in \<open>auto simp: client_inv_def client_Close_def client_subscriptionEnd_def\<close>)

text \<open>
  Unsubscribing from a topic ends the last subscription to it only: the table holds one cancel function per topic, so a second
  subscription hides the first, which ends no sooner than the client is closed.
\<close>

theorem second_subscription_hides_first:
  assumes inv: "client_inv b" and live: "\<not> ctxDone b (cl_ctx b)"
    and c1: "client_Subscribe topic b = (c1, b1)" and c2: "client_Subscribe topic b1 = (c2, b2)"
  shows "ctxDone (client_Unsubscribe topic b1) c1
     \<and> ctxDone (client_Unsubscribe topic b2) c2 \<and> \<not> ctxDone (client_Unsubscribe topic b2) c1
     \<and> client_Unsubscribe topic (client_Unsubscribe topic b2) = client_Unsubscribe topic b2
     \<and> ctxDone (client_Close b2) c1"
proof -
  have "map_of (cl_subCancel b1) topic = Some c1" "map_of (cl_subCancel b2) topic = Some c2"
    using c1 c2 by (auto simp: client_Subscribe_def map_of_alist_put)
  moreover have "c1 \<noteq> cl_ctx b" "c2 \<noteq> cl_ctx b" "c2 \<noteq> c1" "c1 \<notin> set (cl_done b)" "cl_done b2 = cl_done b" "cl_ctx b2 = cl_ctx b"
      "cl_ctx b1 = cl_ctx b" "cl_done b1 = cl_done b" "cl_ctx b \<notin> set (cl_done b)"
    using c1 c2 inv live by (auto simp: client_Subscribe_def client_inv_def ctxDone_def)
  moreover have "map_of (filter (\<lambda>kv. fst kv \<noteq> topic) m) topic = None" for m :: "(string \<times> nat) list"
    by (auto simp: map_of_eq_None_iff)
  ultimately show ?thesis by (simp add: client_Unsubscribe_def client_Close_def ctxDone_def)
qed

theorem second_subscription_hides_first_witness:
  "\<not> ctxDone (client_Unsubscribe ''t'' \<lparr>cl_ctx = 0, cl_next = 3, cl_done = [], cl_subCancel = [(''t'', 2)]\<rparr>) 1"
  using second_subscription_hides_first [of "\<lparr>cl_ctx = 0, cl_next = 1, cl_done = [], cl_subCancel = []\<rparr>" "''t''"]
  by (simp add: client_inv_def ctxDone_def client_Subscribe_def client_Unsubscribe_def)

end
