(* ===== verification/Bus_Factory.thy ===== *)
theory Bus_Factory
  imports Bus_Client
begin

text \<open>
  The factory of event buses (\<^verbatim>\<open>src/pkg/eventbus/factory.go\<close>) and the two registrations (\<^verbatim>\<open>grpc.go\<close>, \<^verbatim>\<open>noop_eventbus.go\<close>). The TOML
  library is a record of parameters: reading the type of a configuration text, reading a whole gRPC configuration, and
  writing a map as text.
\<close>

datatype bus_config = CfgGRPC GRPCConfig | CfgNoop

datatype 'e event_bus = BusGRPC "'e GRPCEventBus" | BusNoop

record 'e EventBusFactory =
  bf_parsers :: "string \<rightharpoonup> (string \<Rightarrow> string + bus_config)"
  bf_creators :: "string \<rightharpoonup> (bus_config \<Rightarrow> string + 'e event_bus)"
  bf_validators :: "string \<rightharpoonup> (bus_config \<Rightarrow> string option)"

record toml =
  toml_Type :: "string \<Rightarrow> string + string"
  toml_GRPC :: "string \<Rightarrow> string + GRPCConfig"
  toml_Marshal :: "gomap \<Rightarrow> string + string"

definition emptyFactory :: "'e EventBusFactory" where
  "emptyFactory = \<lparr>bf_parsers = Map.empty, bf_creators = Map.empty, bf_validators = Map.empty\<rparr>"

definition BusFactory_Register ::
  "string \<Rightarrow> (string \<Rightarrow> string + bus_config) \<Rightarrow> (bus_config \<Rightarrow> string option) \<Rightarrow> (bus_config \<Rightarrow> string + 'e event_bus)
     \<Rightarrow> 'e EventBusFactory \<Rightarrow> 'e EventBusFactory" where
  "BusFactory_Register typeName parser validator creator f =
     f\<lparr>bf_parsers := (bf_parsers f)(typeName \<mapsto> parser), bf_validators := (bf_validators f)(typeName \<mapsto> validator),
       bf_creators := (bf_creators f)(typeName \<mapsto> creator)\<rparr>"

text \<open>The part that both ways of creating share: validation and creation.\<close>

definition validateAndCreate :: "'e EventBusFactory \<Rightarrow> string \<Rightarrow> bus_config \<Rightarrow> string + 'e event_bus" where
  "validateAndCreate f ebType cfg =
     (case (case bf_validators f ebType of None \<Rightarrow> None | Some validator \<Rightarrow> validator cfg) of
        Some err \<Rightarrow> Inl (''validate config: '' @ err)
      | None \<Rightarrow>
          (case bf_creators f ebType of
             None \<Rightarrow> Inl (''no creator for type: '' @ ebType)
           | Some creator \<Rightarrow> creator cfg))"

definition BusFactory_Create :: "toml \<Rightarrow> 'e EventBusFactory \<Rightarrow> string \<Rightarrow> string + 'e event_bus" where
  "BusFactory_Create T f configStr =
     (case toml_Type T configStr of
        Inl err \<Rightarrow> Inl (''parse config type: '' @ err)
      | Inr ebType \<Rightarrow>
          if ebType = '''' then Inl ''config type is required''
          else case bf_parsers f ebType of
            None \<Rightarrow> Inl (''unknown eventbus type: '' @ ebType)
          | Some parser \<Rightarrow>
              (case parser configStr of
                 Inl err \<Rightarrow> Inl (''parse config: '' @ err)
               | Inr cfg \<Rightarrow> validateAndCreate f ebType cfg))"

definition BusFactory_CreateWithMap :: "toml \<Rightarrow> 'e EventBusFactory \<Rightarrow> gomap \<Rightarrow> string + 'e event_bus" where
  "BusFactory_CreateWithMap T f config =
     (case map_of config ''type'' of
        Some (VString ebType) \<Rightarrow>
          if ebType = '''' then Inl ''config type is required''
          else (case bf_parsers f ebType of
            None \<Rightarrow> Inl (''unknown eventbus type: '' @ ebType)
          | Some parser \<Rightarrow>
              (case toml_Marshal T config of
                 Inl err \<Rightarrow> Inl (''marshal config: '' @ err)
               | Inr configStr \<Rightarrow>
                   (case parser configStr of
                      Inl err \<Rightarrow> Inl (''parse config: '' @ err)
                    | Inr cfg \<Rightarrow> validateAndCreate f ebType cfg)))
      | _ \<Rightarrow> Inl ''config type is required'')"

section \<open>The registrations\<close>

definition ParseGRPCConfig :: "toml \<Rightarrow> string \<Rightarrow> string + bus_config" where
  "ParseGRPCConfig T configStr = map_sum id CfgGRPC (toml_GRPC T configStr)"

fun ValidateGRPCConfig :: "bus_config \<Rightarrow> string option" where
  "ValidateGRPCConfig (CfgGRPC cfg) = (if gc_Address cfg = '''' then Some ''address is required'' else None)"
| "ValidateGRPCConfig CfgNoop = Some ''invalid config type''"

fun createGRPC :: "(string \<Rightarrow> duration option) \<Rightarrow> nat \<Rightarrow> bus_config \<Rightarrow> string + 'e event_bus" where
  "createGRPC parse ctx (CfgGRPC cfg) = Inr (BusGRPC (NewGRPCEventBusServerWithConfig parse ctx cfg))"
| "createGRPC parse ctx CfgNoop = Inl ''invalid config type''"

definition ParseNoopConfig :: "string \<Rightarrow> string + bus_config" where
  "ParseNoopConfig configStr = Inr CfgNoop"

fun ValidateNoopConfig :: "bus_config \<Rightarrow> string option" where
  "ValidateNoopConfig CfgNoop = None"
| "ValidateNoopConfig (CfgGRPC cfg) = Some ''invalid config type''"

definition grpc_init :: "toml \<Rightarrow> (string \<Rightarrow> duration option) \<Rightarrow> nat \<Rightarrow> 'e EventBusFactory \<Rightarrow> 'e EventBusFactory" where
  "grpc_init T parse ctx = BusFactory_Register ''grpc'' (ParseGRPCConfig T) ValidateGRPCConfig (createGRPC parse ctx)"

definition noop_init :: "'e EventBusFactory \<Rightarrow> 'e EventBusFactory" where
  "noop_init = BusFactory_Register ''noop'' ParseNoopConfig ValidateNoopConfig (\<lambda>cfg. Inr BusNoop)"

text \<open>The factory after both \<^verbatim>\<open>init\<close> functions.\<close>

definition busFactory :: "toml \<Rightarrow> (string \<Rightarrow> duration option) \<Rightarrow> nat \<Rightarrow> 'e EventBusFactory" where
  "busFactory T parse ctx = noop_init (grpc_init T parse ctx emptyFactory)"

lemmas busFactory_defs = busFactory_def noop_init_def grpc_init_def BusFactory_Register_def emptyFactory_def
  ParseGRPCConfig_def ParseNoopConfig_def validateAndCreate_def

text \<open>The order of the two registrations does not matter.\<close>

lemma init_order: "grpc_init T parse ctx (noop_init f) = noop_init (grpc_init T parse ctx f)"
  by (simp add: busFactory_defs fun_upd_twist)

lemma createWithMap_Create:
  assumes "map_of config ''type'' = Some (VString ebType)" "toml_Marshal T config = Inr text" "toml_Type T text = Inr ebType"
  shows "BusFactory_CreateWithMap T f config = BusFactory_Create T f text"
  using assms by (auto simp: BusFactory_CreateWithMap_def BusFactory_Create_def split: option.splits)

text \<open>
  Claim C38. A created gRPC bus works from the start: whatever configuration text the factory accepts for the type grpc, its address is
  set, the bus has no subscriber, buffers of at least one event, and a state in which every publication neither
  panics nor blocks.
\<close>

theorem created_bus_ready:
  assumes "BusFactory_Create T (busFactory T parse ctx) text = Inr (BusGRPC b)"
  shows "gb_address b \<noteq> '''' \<and> subsOf b t = [] \<and> gb_subscriberBufferSize b > 0 \<and> bus_inv b
     \<and> toml_Type T text = Inr ''grpc''"
proof -
  obtain ty where ty: "toml_Type T text = Inr ty" using assms by (auto simp: BusFactory_Create_def split: sum.splits)
  have g: "ty = ''grpc''"
    using assms ty by (auto simp: BusFactory_Create_def busFactory_defs split: if_splits option.splits)
  show ?thesis
  proof (cases "toml_GRPC T text")
    case (Inl err)
    then show ?thesis using assms ty g by (simp add: BusFactory_Create_def busFactory_defs)
  next
    case (Inr cfg)
    then have addr: "gc_Address cfg \<noteq> ''''" and b: "b = NewGRPCEventBusServerWithConfig parse ctx cfg"
      using assms ty g by (simp_all add: BusFactory_Create_def busFactory_defs split: if_splits)
    have "gb_address b = gc_Address cfg" "gb_subscriberBufferSize b > 0" by (simp_all add: b NewGRPCEventBusServerWithConfig_def)
    then show ?thesis using ty g addr by (simp add: b new_bus_inv)
  qed
qed

definition exToml :: toml where
  "exToml = \<lparr>toml_Type = Inr, toml_GRPC = (\<lambda>_. Inr exBusConfig), toml_Marshal = (\<lambda>_. Inr ''grpc'')\<rparr>"

theorem created_bus_ready_witness: "bus_inv (NewGRPCEventBusServerWithConfig (\<lambda>_. None) 0 exBusConfig :: nat GRPCEventBus)"
  using created_bus_ready [of exToml "\<lambda>_. None" 0 "''grpc''" "NewGRPCEventBusServerWithConfig (\<lambda>_. None) 0 exBusConfig :: nat GRPCEventBus" "[]"]
  by (simp add: BusFactory_Create_def busFactory_defs exToml_def exBusConfig_def)

end
