(* ===== verification/Go_Heap.thy ===== *)
theory Go_Heap
  imports Nuts_Prelude
begin

text \<open>
  The binary heap of Go's \<^verbatim>\<open>container/heap\<close>, over a slice whose \<^verbatim>\<open>Less\<close> compares an integer key: \<open>up\<close>, \<open>down\<close>,
  \<open>Init\<close>, \<open>Push\<close> and \<open>Pop\<close> as the library runs them, and the proof that they keep the heap order
  and the multiset of elements.
\<close>

definition swap :: "nat \<Rightarrow> nat \<Rightarrow> 'a list \<Rightarrow> 'a list" where
  "swap i j h = h[i := h ! j, j := h ! i]"

definition par :: "nat \<Rightarrow> nat" where
  "par i = (i - 1) div 2"

text \<open>The smaller child of \<open>i\<close> among the first \<open>n\<close> elements.\<close>

definition minChild :: "('a \<Rightarrow> int) \<Rightarrow> 'a list \<Rightarrow> nat \<Rightarrow> nat \<Rightarrow> nat" where
  "minChild key h i n =
     (let j1 = 2 * i + 1; j2 = j1 + 1
      in if j2 < n \<and> key (h ! j2) < key (h ! j1) then j2 else j1)"

function heap_down :: "('a \<Rightarrow> int) \<Rightarrow> 'a list \<Rightarrow> nat \<Rightarrow> nat \<Rightarrow> 'a list" where
  "heap_down key h i n =
     (if 2 * i + 1 \<ge> n then h
      else let j = minChild key h i n
           in if \<not> key (h ! j) < key (h ! i) then h else heap_down key (swap i j h) j n)"
  by auto
termination
  by (relation "measure (\<lambda>(key, h, i, n). n - i)") (auto simp: minChild_def Let_def)

function heap_up :: "('a \<Rightarrow> int) \<Rightarrow> 'a list \<Rightarrow> nat \<Rightarrow> 'a list" where
  "heap_up key h j =
     (if par j = j \<or> \<not> key (h ! j) < key (h ! par j) then h else heap_up key (swap (par j) j h) (par j))"
  by auto
termination
  by (relation "measure (\<lambda>(key, h, j). j)") (auto simp: par_def)

declare heap_down.simps [simp del] heap_up.simps [simp del]

definition heap_Init :: "('a \<Rightarrow> int) \<Rightarrow> 'a list \<Rightarrow> 'a list" where
  "heap_Init key h = fold (\<lambda>i h. heap_down key h i (length h)) (rev [0..<length h div 2]) h"

definition heap_Push :: "('a \<Rightarrow> int) \<Rightarrow> 'a \<Rightarrow> 'a list \<Rightarrow> 'a list" where
  "heap_Push key x h = heap_up key (h @ [x]) (length h)"

text \<open>\<^verbatim>\<open>Pop\<close> of a heap that is not empty: the minimum and the rest.\<close>

definition heap_Pop :: "('a \<Rightarrow> int) \<Rightarrow> 'a list \<Rightarrow> 'a \<times> 'a list" where
  "heap_Pop key h =
     (let n = length h - 1; h' = heap_down key (swap 0 n h) 0 n
      in (h' ! n, take n h'))"

section \<open>Heap order\<close>

definition heap_from :: "('a \<Rightarrow> int) \<Rightarrow> nat \<Rightarrow> nat \<Rightarrow> 'a list \<Rightarrow> bool" where
  "heap_from key k n h \<longleftrightarrow> (\<forall>m. 0 < m \<and> m < n \<and> k \<le> par m \<longrightarrow> key (h ! par m) \<le> key (h ! m))"

definition is_heap :: "('a \<Rightarrow> int) \<Rightarrow> 'a list \<Rightarrow> bool" where
  "is_heap key h \<longleftrightarrow> heap_from key 0 (length h) h"

lemma length_swap [simp]: "length (swap i j h) = length h"
  by (simp add: swap_def)

lemma nth_swap: "i < length h \<Longrightarrow> j < length h \<Longrightarrow>
    swap i j h ! m = (if m = j then h ! i else if m = i then h ! j else h ! m)"
  by (auto simp: swap_def nth_list_update)

lemma mset_swap: "i < length h \<Longrightarrow> j < length h \<Longrightarrow> mset (swap i j h) = mset h"
  unfolding swap_def by (rule mset_swap)

lemma par_less: "0 < m \<Longrightarrow> par m < m"
  by (auto simp: par_def)

lemma par_children: "0 < m \<Longrightarrow> par m = i \<longleftrightarrow> m = 2 * i + 1 \<or> m = 2 * i + 2"
  by (auto simp: par_def)

lemma minChild_props:
  assumes "2 * i + 1 < n"
  shows "minChild key h i n < n" "i < minChild key h i n" "par (minChild key h i n) = i"
    "0 < m \<Longrightarrow> m < n \<Longrightarrow> par m = i \<Longrightarrow> key (h ! minChild key h i n) \<le> key (h ! m)"
proof -
  show "minChild key h i n < n" "i < minChild key h i n" "par (minChild key h i n) = i"
    using assms by (auto simp: minChild_def Let_def par_def)
  assume "0 < m" "m < n" "par m = i"
  then have "m = 2 * i + 1 \<or> m = 2 * i + 2" by (simp add: par_children)
  with \<open>m < n\<close> show "key (h ! minChild key h i n) \<le> key (h ! m)" by (auto simp: minChild_def Let_def)
qed

lemma heap_down_frame:
  "n \<le> length h \<Longrightarrow> length (heap_down key h i n) = length h \<and> mset (heap_down key h i n) = mset h
     \<and> (\<forall>m \<ge> n. heap_down key h i n ! m = h ! m) \<and> (\<forall>m < i. heap_down key h i n ! m = h ! m)"
proof (induction key h i n rule: heap_down.induct)
  case (1 key h i n)
  show ?case
  proof (cases "2 * i + 1 < n \<and> key (h ! minChild key h i n) < key (h ! i)")
    case True
    let ?j = "minChild key h i n"
    have j: "?j < n" "i < ?j" using minChild_props True by blast+
    then have b: "i < length h" "?j < length h" using "1.prems" by auto
    have "heap_down key h i n = heap_down key (swap i ?j h) ?j n"
      using True by (subst heap_down.simps) (simp add: Let_def)
    moreover have "length (heap_down key (swap i ?j h) ?j n) = length (swap i ?j h)
      \<and> mset (heap_down key (swap i ?j h) ?j n) = mset (swap i ?j h)
      \<and> (\<forall>m \<ge> n. heap_down key (swap i ?j h) ?j n ! m = swap i ?j h ! m)
      \<and> (\<forall>m < ?j. heap_down key (swap i ?j h) ?j n ! m = swap i ?j h ! m)"
      using "1.IH" True "1.prems" by simp
    ultimately show ?thesis using j b by (auto simp: mset_swap nth_swap)
  next
    case False
    then have "heap_down key h i n = h" by (subst heap_down.simps) (auto simp: Let_def)
    then show ?thesis by simp
  qed
qed

lemma heap_down_heap:
  assumes "n \<le> length h"
    and "\<And>m. 0 < m \<Longrightarrow> m < n \<Longrightarrow> k \<le> par m \<Longrightarrow> par m \<noteq> i \<Longrightarrow> key (h ! par m) \<le> key (h ! m)"
    and "\<And>m. 0 < i \<Longrightarrow> k \<le> par i \<Longrightarrow> 0 < m \<Longrightarrow> m < n \<Longrightarrow> par m = i \<Longrightarrow> key (h ! par i) \<le> key (h ! m)"
    and "k \<le> i"
  shows "heap_from key k n (heap_down key h i n)"
  using assms
proof (induction key h i n rule: heap_down.induct)
  case (1 key h i n)
  show ?case
  proof (cases "2 * i + 1 < n \<and> key (h ! minChild key h i n) < key (h ! i)")
    case True
    let ?j = "minChild key h i n"
    have j: "?j < n" "i < ?j" "par ?j = i"
      and jm: "\<And>m. 0 < m \<Longrightarrow> m < n \<Longrightarrow> par m = i \<Longrightarrow> key (h ! ?j) \<le> key (h ! m)"
      using minChild_props True by blast+
    then have b: "i < length h" "?j < length h" using "1.prems"(1) by auto
    note sw = nth_swap [OF b]
    have IH1: "key (swap i ?j h ! par m) \<le> key (swap i ?j h ! m)"
      if "0 < m" "m < n" "k \<le> par m" "par m \<noteq> ?j" for m
    proof (cases "par m = i")
      case True
      then show ?thesis using sw j(2) jm [OF that(1,2) True] \<open>2 * i + 1 < n \<and> _\<close> par_less [OF that(1)] by auto
    next
      case False
      show ?thesis
      proof (cases "m = i")
        case True
        then show ?thesis using sw that "1.prems"(3) [of ?j] j par_less [OF that(1)] by auto
      next
        case F: False
        have "m \<noteq> ?j" using False j(3) by auto
        then show ?thesis using sw that False F "1.prems"(2) [OF that(1-3) False] by auto
      qed
    qed
    have IH2: "key (swap i ?j h ! par ?j) \<le> key (swap i ?j h ! m)"
      if "0 < m" "m < n" "par m = ?j" for m
    proof -
      have "m \<noteq> ?j" "m \<noteq> i" using par_less [OF that(1)] that(3) j(2) by auto
      then show ?thesis using sw j(2,3) that "1.prems"(2) [OF that(1,2)] "1.prems"(4) by auto
    qed
    have "heap_down key h i n = heap_down key (swap i ?j h) ?j n"
      using True by (subst heap_down.simps) (simp add: Let_def)
    moreover have "heap_from key k n (heap_down key (swap i ?j h) ?j n)"
      by (rule "1.IH") (use True "1.prems"(1,4) IH1 IH2 j(2) in auto)
    ultimately show ?thesis by simp
  next
    case False
    then have d: "heap_down key h i n = h" by (subst heap_down.simps) (auto simp: Let_def)
    have "key (h ! i) \<le> key (h ! m)" if "0 < m" "m < n" "par m = i" for m
    proof -
      have "2 * i + 1 < n" using that par_children by auto
      with False minChild_props(4) [OF this that] show ?thesis by (metis linorder_not_less order_trans)
    qed
    with d "1.prems"(2) show ?thesis by (auto simp: heap_from_def)
  qed
qed

lemma heap_up_correct:
  assumes "j < length h"
    and "\<And>m. 0 < m \<Longrightarrow> m < length h \<Longrightarrow> m \<noteq> j \<Longrightarrow> key (h ! par m) \<le> key (h ! m)"
    and "\<And>m. 0 < j \<Longrightarrow> 0 < m \<Longrightarrow> m < length h \<Longrightarrow> par m = j \<Longrightarrow> key (h ! par j) \<le> key (h ! m)"
  shows "is_heap key (heap_up key h j) \<and> mset (heap_up key h j) = mset h"
  using assms
proof (induction key h j rule: heap_up.induct)
  case (1 key h j)
  show ?case
  proof (cases "par j = j \<or> \<not> key (h ! j) < key (h ! par j)")
    case True
    then have u: "heap_up key h j = h" by (subst heap_up.simps) simp
    have "key (h ! par m) \<le> key (h ! m)" if "0 < m" "m < length h" for m
      using that "1.prems"(2) True par_less [OF that(1)] by (cases "m = j") auto
    with u show ?thesis by (simp add: is_heap_def heap_from_def)
  next
    case False
    let ?i = "par j"
    have j0: "0 < j" using False by (cases "j = 0") (auto simp: par_def)
    have i: "?i < j" using par_less [OF j0] .
    have b: "?i < length h" "j < length h" using "1.prems"(1) i by auto
    note sw = nth_swap [OF b]
    have IH1: "key (swap ?i j h ! par m) \<le> key (swap ?i j h ! m)"
      if "0 < m" "m < length h" "m \<noteq> ?i" for m
    proof (cases "m = j")
      case True
      then show ?thesis using sw i False by auto
    next
      case F: False
      then show ?thesis
        using sw that F False "1.prems"(2) [OF that(1,2) F] "1.prems"(3) [OF j0 that(1,2)] i
        by (cases "par m = j"; cases "par m = ?i") auto
    qed
    have IH2: "key (swap ?i j h ! par ?i) \<le> key (swap ?i j h ! m)"
      if "0 < ?i" "0 < m" "m < length h" "par m = ?i" for m
    proof -
      have pi: "par ?i < ?i" using par_less that(1) by blast
      have "key (h ! par ?i) \<le> key (h ! ?i)" using "1.prems"(2) [of ?i] that(1) b i by auto
      moreover have "m \<noteq> j \<Longrightarrow> key (h ! ?i) \<le> key (h ! m)" using "1.prems"(2) [OF that(2,3)] that(4) by simp
      moreover have "m \<noteq> ?i" using par_less [OF that(2)] that(4) by auto
      ultimately show ?thesis using sw pi i by auto
    qed
    have "heap_up key h j = heap_up key (swap ?i j h) ?i" using False by (subst heap_up.simps) simp
    moreover have "is_heap key (heap_up key (swap ?i j h) ?i) \<and> mset (heap_up key (swap ?i j h) ?i) = mset (swap ?i j h)"
      by (rule "1.IH") (use False b IH1 IH2 in auto)
    ultimately show ?thesis using b by (simp add: mset_swap)
  qed
qed

section \<open>The operations\<close>

lemma heap_Push_correct:
  "is_heap key h \<Longrightarrow> is_heap key (heap_Push key x h) \<and> mset (heap_Push key x h) = add_mset x (mset h)"
proof -
  assume h: "is_heap key h"
  have "key ((h @ [x]) ! par m) \<le> key ((h @ [x]) ! m)" if "0 < m" "m < length (h @ [x])" "m \<noteq> length h" for m
    using h that par_less [OF that(1)] by (auto simp: is_heap_def heap_from_def nth_append)
  moreover have "par m \<noteq> length h" if "0 < m" "m < length (h @ [x])" for m
    using par_less [OF that(1)] that(2) by auto
  ultimately show ?thesis
    using heap_up_correct [of "length h" "h @ [x]" key] by (simp add: heap_Push_def)
qed

lemma heap_Pop_correct:
  assumes "is_heap key h" "h \<noteq> []"
  shows "fst (heap_Pop key h) = h ! 0" "is_heap key (snd (heap_Pop key h))"
    "add_mset (h ! 0) (mset (snd (heap_Pop key h))) = mset h"
proof -
  let ?n = "length h - 1"
  let ?s = "swap 0 ?n h"
  let ?d = "heap_down key ?s 0 ?n"
  have b: "0 < length h" "?n < length h" using assms(2) by auto
  note fr = heap_down_frame [of ?n ?s key 0, simplified]
  have last: "?d ! ?n = h ! 0" using fr b by (simp add: nth_swap)
  have hp: "heap_from key 0 ?n ?d"
  proof (rule heap_down_heap)
    fix m assume m: "0 < m" "m < ?n" "par m \<noteq> 0"
    then show "key (?s ! par m) \<le> key (?s ! m)"
      using assms(1) b par_less [OF m(1)] by (auto simp: nth_swap is_heap_def heap_from_def)
  qed auto
  show "fst (heap_Pop key h) = h ! 0" using last by (simp add: heap_Pop_def Let_def)
  have "heap_from key 0 ?n (take ?n ?d)"
    using hp by (auto simp: heap_from_def) (metis less_trans nth_take par_less)
  then show "is_heap key (snd (heap_Pop key h))" using fr by (simp add: heap_Pop_def Let_def is_heap_def)
  define d where "d = ?d"
  have ld: "length d = Suc ?n" "d ! ?n = h ! 0" using fr b last by (simp_all add: d_def)
  have "d = take ?n d @ [d ! ?n]" using ld(1) by (metis lessI order_refl take_Suc_conv_app_nth take_all)
  then have "mset d = mset (take ?n d @ [h ! 0])" unfolding ld(2) by (rule arg_cong)
  then have "mset ?d = add_mset (h ! 0) (mset (take ?n ?d))" unfolding d_def by simp
  then show "add_mset (h ! 0) (mset (snd (heap_Pop key h))) = mset h"
    using fr b by (simp add: heap_Pop_def Let_def mset_swap)
qed

lemma heap_Init_correct: "is_heap key (heap_Init key h) \<and> mset (heap_Init key h) = mset h"
proof -
  have "n \<le> length h div 2 \<Longrightarrow> heap_from key n (length h) g \<Longrightarrow> length g = length h \<Longrightarrow>
      is_heap key (fold (\<lambda>i h. heap_down key h i (length h)) (rev [0..<n]) g)
      \<and> mset (fold (\<lambda>i h. heap_down key h i (length h)) (rev [0..<n]) g) = mset g" for n g
  proof (induction n arbitrary: g)
    case 0
    then show ?case by (simp add: is_heap_def)
  next
    case (Suc n)
    have fr: "length (heap_down key g n (length h)) = length h" "mset (heap_down key g n (length h)) = mset g"
      using heap_down_frame [of "length h" g key n] Suc.prems(3) by simp_all
    have "heap_from key n (length h) (heap_down key g n (length h))"
    proof (rule heap_down_heap)
      show "key (g ! par m) \<le> key (g ! m)" if "0 < m" "m < length h" "n \<le> par m" "par m \<noteq> n" for m
        using Suc.prems(2) that by (simp add: heap_from_def)
      show "key (g ! par n) \<le> key (g ! m)" if "0 < n" "n \<le> par n" for m
        using that par_less [of n] by simp
    qed (use Suc.prems(3) in simp_all)
    from Suc.IH [OF _ this fr(1)] Suc.prems fr show ?case by simp
  qed
  moreover have "heap_from key (length h div 2) (length h) h"
    by (auto simp: heap_from_def par_def)
  ultimately show ?thesis by (simp add: heap_Init_def)
qed

lemma heap_root_min:
  assumes "is_heap key h" "m < length h" shows "key (h ! 0) \<le> key (h ! m)"
  using assms(2)
proof (induction m rule: less_induct)
  case (less m)
  show ?case
  proof (cases "m = 0")
    case False
    then have "key (h ! 0) \<le> key (h ! par m)" using less par_less [of m] by simp
    also have "\<dots> \<le> key (h ! m)" using assms(1) less.prems False by (simp add: is_heap_def heap_from_def)
    finally show ?thesis .
  qed simp
qed

end
