(* ===== verification/Task_Model.thy ===== *)
theory Task_Model
  imports Nuts_Prelude
begin

text \<open>
  The task data of \<^verbatim>\<open>src/pkg/task/interface.go\<close>: tasks, their transition history, results and
  list filters, and the JSON documents under which the store keeps them. A document is a tree;
  the struct tags of the source (field names and \<^verbatim>\<open>omitempty\<close>) are what
  \<open>marshal_task\<close> and \<open>unmarshal_task\<close> model.
\<close>

section \<open>Tasks\<close>

type_synonym TaskState = string

abbreviation TaskStatePending :: TaskState where
  "TaskStatePending \<equiv> ''pending''"

record StateTransitionRecord =
  rec_From :: TaskState
  rec_To :: TaskState
  rec_Timestamp :: gotime
  rec_TriggeredBy :: string
  rec_Reason :: string
  rec_Attempt :: int

record TaskResult =
  res_Success :: bool
  res_Output :: string
  res_Error :: string
  res_ExitCode :: int
  res_Duration :: int

text \<open>A nil metadata map and an empty one read the same; both are \<^term>\<open>Map.empty\<close>.\<close>

record Task =
  t_ID :: string
  t_TraceID :: string
  t_Name :: string
  t_Description :: string
  t_Priority :: int
  t_Version :: int
  t_RetryCount :: int
  t_State :: TaskState
  t_Result :: "TaskResult option"
  t_Metadata :: "string \<rightharpoonup> string"
  t_CreatedAt :: gotime
  t_UpdatedAt :: gotime
  t_StartedAt :: "gotime option"
  t_CompletedAt :: "gotime option"
  t_StateHistory :: "StateTransitionRecord list"
  t_StateUpdatedAt :: gotime
  t_TimeoutAt :: "gotime option"
  t_ArchiveEligible :: bool
  t_ArchivedAt :: "gotime option"

record TaskFilter =
  f_State :: TaskState
  f_Priority :: "int option"
  f_CreatedAfter :: "gotime option"
  f_CreatedBefore :: "gotime option"
  f_Limit :: int
  f_Offset :: int
  f_IncludeArchived :: bool

definition emptyFilter :: TaskFilter where
  "emptyFilter = \<lparr>f_State = '''', f_Priority = None, f_CreatedAfter = None,
     f_CreatedBefore = None, f_Limit = 0, f_Offset = 0, f_IncludeArchived = False\<rparr>"

definition matchFilter :: "Task \<Rightarrow> TaskFilter \<Rightarrow> bool" where
  "matchFilter task flt =
     (if \<not> f_IncludeArchived flt \<and> t_ArchivedAt task \<noteq> None then False
      else if f_State flt \<noteq> '''' \<and> t_State task \<noteq> f_State flt then False
      else if (case f_Priority flt of None \<Rightarrow> False | Some p \<Rightarrow> t_Priority task \<noteq> p) then False
      else if (case f_CreatedAfter flt of None \<Rightarrow> False
               | Some a \<Rightarrow> before (t_CreatedAt task) a) then False
      else if (case f_CreatedBefore flt of None \<Rightarrow> False
               | Some b \<Rightarrow> after (t_CreatedAt task) b) then False
      else True)"

section \<open>Documents\<close>

text \<open>
  The documents \<^verbatim>\<open>encoding/json\<close> reads and writes, as trees. \<^term>\<open>JTime\<close> is the RFC 3339
  rendering of an instant. An object is a partial map: JSON gives the order of its members no
  meaning.
\<close>

datatype json =
    JNull
  | JBool bool
  | JNum int
  | JStr string
  | JTime gotime
  | JArr "json list"
  | JObj "string \<Rightarrow> json option"

datatype json_error = BadField string | NotAnObject

definition obj :: "(string \<times> json option) list \<Rightarrow> json" where
  "obj fs = JObj (\<lambda>k. case map_of fs k of Some v \<Rightarrow> v | None \<Rightarrow> None)"

definition omitempty :: "'a \<Rightarrow> ('a \<Rightarrow> json) \<Rightarrow> 'a \<Rightarrow> json option" where
  "omitempty zero f v = (if v = zero then None else Some (f v))"

definition omitnil :: "('a \<Rightarrow> json) \<Rightarrow> 'a option \<Rightarrow> json option" where
  "omitnil f v = map_option f v"

definition marshal_record :: "StateTransitionRecord \<Rightarrow> json" where
  "marshal_record r = obj
     [(''from'', Some (JStr (rec_From r))),
      (''to'', Some (JStr (rec_To r))),
      (''timestamp'', Some (JTime (rec_Timestamp r))),
      (''triggered_by'', Some (JStr (rec_TriggeredBy r))),
      (''reason'', omitempty '''' JStr (rec_Reason r)),
      (''attempt'', Some (JNum (rec_Attempt r)))]"

definition marshal_result :: "TaskResult \<Rightarrow> json" where
  "marshal_result r = obj
     [(''success'', Some (JBool (res_Success r))),
      (''output'', omitempty '''' JStr (res_Output r)),
      (''error'', omitempty '''' JStr (res_Error r)),
      (''exit_code'', omitempty 0 JNum (res_ExitCode r)),
      (''duration'', omitempty 0 JNum (res_Duration r))]"

definition marshal_task :: "Task \<Rightarrow> json" where
  "marshal_task t = obj
     [(''id'', Some (JStr (t_ID t))),
      (''trace_id'', omitempty '''' JStr (t_TraceID t)),
      (''name'', Some (JStr (t_Name t))),
      (''description'', Some (JStr (t_Description t))),
      (''priority'', Some (JNum (t_Priority t))),
      (''version'', Some (JNum (t_Version t))),
      (''retry_count'', Some (JNum (t_RetryCount t))),
      (''state'', Some (JStr (t_State t))),
      (''result'', omitnil marshal_result (t_Result t)),
      (''metadata'', Some (JObj (\<lambda>k. map_option JStr (t_Metadata t k)))),
      (''created_at'', Some (JTime (t_CreatedAt t))),
      (''updated_at'', Some (JTime (t_UpdatedAt t))),
      (''started_at'', omitnil JTime (t_StartedAt t)),
      (''completed_at'', omitnil JTime (t_CompletedAt t)),
      (''state_history'', omitempty [] (\<lambda>h. JArr (map marshal_record h)) (t_StateHistory t)),
      (''state_updated_at'', Some (JTime (t_StateUpdatedAt t))),
      (''timeout_at'', omitnil JTime (t_TimeoutAt t)),
      (''archive_eligible'', Some (JBool (t_ArchiveEligible t))),
      (''archived_at'', omitnil JTime (t_ArchivedAt t))]"

text \<open>
  Decoding: an absent member leaves the zero value, \<^verbatim>\<open>null\<close> does too, and a member of another
  kind is an error. A metadata member that is not a string makes the decoding fail; which
  members are strings is asked through \<open>str_members\<close>.
\<close>

definition dec :: "(string \<rightharpoonup> json) \<Rightarrow> string \<Rightarrow> 'a \<Rightarrow> (json \<Rightarrow> json_error + 'a) \<Rightarrow> json_error + 'a" where
  "dec m k zero f =
     (case m k of None \<Rightarrow> Inr zero | Some JNull \<Rightarrow> Inr zero | Some v \<Rightarrow> f v)"

definition as_str :: "string \<Rightarrow> json \<Rightarrow> json_error + string" where
  "as_str k v = (case v of JStr s \<Rightarrow> Inr s | _ \<Rightarrow> Inl (BadField k))"

definition as_num :: "string \<Rightarrow> json \<Rightarrow> json_error + int" where
  "as_num k v = (case v of JNum n \<Rightarrow> Inr n | _ \<Rightarrow> Inl (BadField k))"

definition as_bool :: "string \<Rightarrow> json \<Rightarrow> json_error + bool" where
  "as_bool k v = (case v of JBool b \<Rightarrow> Inr b | _ \<Rightarrow> Inl (BadField k))"

definition as_time :: "string \<Rightarrow> json \<Rightarrow> json_error + gotime" where
  "as_time k v = (case v of JTime t \<Rightarrow> Inr t | _ \<Rightarrow> Inl (BadField k))"

definition as_some :: "('e + 'a) \<Rightarrow> 'e + 'a option" where
  "as_some r = bindE r (\<lambda>v. Inr (Some v))"

definition as_list :: "string \<Rightarrow> (json \<Rightarrow> json_error + 'a) \<Rightarrow> json \<Rightarrow> json_error + 'a list" where
  "as_list k f v = (case v of JArr vs \<Rightarrow> traverseE f vs | _ \<Rightarrow> Inl (BadField k))"

definition str_members :: "(string \<rightharpoonup> json) \<Rightarrow> bool" where
  "str_members m \<longleftrightarrow> (\<forall>v \<in> ran m. \<exists>s. v = JStr s)"

definition as_strmap :: "string \<Rightarrow> json \<Rightarrow> json_error + (string \<rightharpoonup> string)" where
  "as_strmap k v =
     (case v of
        JObj m \<Rightarrow>
          if str_members m
          then Inr (\<lambda>j. case m j of Some (JStr s) \<Rightarrow> Some s | _ \<Rightarrow> None)
          else Inl (BadField k)
      | _ \<Rightarrow> Inl (BadField k))"

definition unmarshal_record :: "json \<Rightarrow> json_error + StateTransitionRecord" where
  "unmarshal_record v =
     (case v of JObj m \<Rightarrow>
        bindE (dec m ''from'' '''' (as_str ''from'')) (\<lambda>fr.
        bindE (dec m ''to'' '''' (as_str ''to'')) (\<lambda>to.
        bindE (dec m ''timestamp'' 0 (as_time ''timestamp'')) (\<lambda>ts.
        bindE (dec m ''triggered_by'' '''' (as_str ''triggered_by'')) (\<lambda>by.
        bindE (dec m ''reason'' '''' (as_str ''reason'')) (\<lambda>re.
        bindE (dec m ''attempt'' 0 (as_num ''attempt'')) (\<lambda>at.
        Inr \<lparr>rec_From = fr, rec_To = to, rec_Timestamp = ts, rec_TriggeredBy = by,
             rec_Reason = re, rec_Attempt = at\<rparr>))))))
      | _ \<Rightarrow> Inl NotAnObject)"

definition unmarshal_result :: "json \<Rightarrow> json_error + TaskResult" where
  "unmarshal_result v =
     (case v of JObj m \<Rightarrow>
        bindE (dec m ''success'' False (as_bool ''success'')) (\<lambda>su.
        bindE (dec m ''output'' '''' (as_str ''output'')) (\<lambda>ou.
        bindE (dec m ''error'' '''' (as_str ''error'')) (\<lambda>er.
        bindE (dec m ''exit_code'' 0 (as_num ''exit_code'')) (\<lambda>ex.
        bindE (dec m ''duration'' 0 (as_num ''duration'')) (\<lambda>du.
        Inr \<lparr>res_Success = su, res_Output = ou, res_Error = er, res_ExitCode = ex,
             res_Duration = du\<rparr>)))))
      | _ \<Rightarrow> Inl NotAnObject)"

definition unmarshal_task :: "json \<Rightarrow> json_error + Task" where
  "unmarshal_task v =
     (case v of JObj m \<Rightarrow>
        bindE (dec m ''id'' '''' (as_str ''id'')) (\<lambda>id.
        bindE (dec m ''trace_id'' '''' (as_str ''trace_id'')) (\<lambda>tr.
        bindE (dec m ''name'' '''' (as_str ''name'')) (\<lambda>nm.
        bindE (dec m ''description'' '''' (as_str ''description'')) (\<lambda>ds.
        bindE (dec m ''priority'' 0 (as_num ''priority'')) (\<lambda>pr.
        bindE (dec m ''version'' 0 (as_num ''version'')) (\<lambda>ve.
        bindE (dec m ''retry_count'' 0 (as_num ''retry_count'')) (\<lambda>rc.
        bindE (dec m ''state'' '''' (as_str ''state'')) (\<lambda>st.
        bindE (dec m ''result'' None (\<lambda>x. as_some (unmarshal_result x))) (\<lambda>re.
        bindE (dec m ''metadata'' Map.empty (as_strmap ''metadata'')) (\<lambda>me.
        bindE (dec m ''created_at'' 0 (as_time ''created_at'')) (\<lambda>ca.
        bindE (dec m ''updated_at'' 0 (as_time ''updated_at'')) (\<lambda>ua.
        bindE (dec m ''started_at'' None (\<lambda>x. as_some (as_time ''started_at'' x))) (\<lambda>sa.
        bindE (dec m ''completed_at'' None (\<lambda>x. as_some (as_time ''completed_at'' x))) (\<lambda>co.
        bindE (dec m ''state_history'' [] (as_list ''state_history'' unmarshal_record)) (\<lambda>hi.
        bindE (dec m ''state_updated_at'' 0 (as_time ''state_updated_at'')) (\<lambda>su.
        bindE (dec m ''timeout_at'' None (\<lambda>x. as_some (as_time ''timeout_at'' x))) (\<lambda>ti.
        bindE (dec m ''archive_eligible'' False (as_bool ''archive_eligible'')) (\<lambda>ae.
        bindE (dec m ''archived_at'' None (\<lambda>x. as_some (as_time ''archived_at'' x))) (\<lambda>aa.
        Inr \<lparr>t_ID = id, t_TraceID = tr, t_Name = nm, t_Description = ds, t_Priority = pr,
             t_Version = ve, t_RetryCount = rc, t_State = st, t_Result = re, t_Metadata = me,
             t_CreatedAt = ca, t_UpdatedAt = ua, t_StartedAt = sa, t_CompletedAt = co,
             t_StateHistory = hi, t_StateUpdatedAt = su, t_TimeoutAt = ti,
             t_ArchiveEligible = ae, t_ArchivedAt = aa\<rparr>)))))))))))))))))))
      | _ \<Rightarrow> Inl NotAnObject)"

section \<open>The round trip\<close>

text \<open>
  One lemma per kind of member: what \<open>dec\<close> reads of a member the encoder wrote or left out.
\<close>

lemma dec_members [simp]:
  "m k = Some (JStr s) \<Longrightarrow> dec m k z (as_str k) = Inr s"
  "m k = Some (JNum n) \<Longrightarrow> dec m k zn (as_num k) = Inr n"
  "m k = Some (JBool b) \<Longrightarrow> dec m k zb (as_bool k) = Inr b"
  "m k = Some (JTime t) \<Longrightarrow> dec m k zt (as_time k) = Inr t"
  "m k = omitempty '''' JStr s \<Longrightarrow> dec m k '''' (as_str k) = Inr s"
  "m k = omitempty 0 JNum n \<Longrightarrow> dec m k 0 (as_num k) = Inr n"
  "m k = omitnil JTime u \<Longrightarrow> dec m k None (\<lambda>x. as_some (as_time k x)) = Inr u"
  by (auto simp: dec_def as_str_def as_num_def as_bool_def as_time_def as_some_def
      omitempty_def omitnil_def split: option.splits)

lemma dec_strmap [simp]:
  assumes "m k = Some (JObj (\<lambda>j. map_option JStr (f j)))"
  shows "dec m k z (as_strmap k) = Inr f"
proof -
  have "str_members (\<lambda>j. map_option JStr (f j))"
    by (auto simp: str_members_def ran_def)
  moreover have "(\<lambda>j. case map_option JStr (f j) of Some (JStr s) \<Rightarrow> Some s | _ \<Rightarrow> None) = f"
    by (auto simp: fun_eq_iff split: option.split)
  ultimately show ?thesis using assms by (simp add: dec_def as_strmap_def)
qed

lemma roundtrip_record [simp]: "unmarshal_record (marshal_record r) = Inr r"
  by (simp add: unmarshal_record_def marshal_record_def obj_def)

lemma roundtrip_result [simp]: "unmarshal_result (marshal_result r) = Inr r"
  by (simp add: unmarshal_result_def marshal_result_def obj_def)

lemma dec_value: "m k = Some v \<Longrightarrow> v \<noteq> JNull \<Longrightarrow> dec m k z f = f v"
  by (cases v) (simp_all add: dec_def)

lemma marshal_result_not_null: "marshal_result r \<noteq> JNull"
  by (simp add: marshal_result_def obj_def)

lemma dec_result [simp]:
  assumes "m k = omitnil marshal_result u"
  shows "dec m k None (\<lambda>x. as_some (unmarshal_result x)) = Inr u"
proof (cases u)
  case None
  with assms show ?thesis by (simp add: dec_def omitnil_def)
next
  case (Some r)
  with assms have "m k = Some (marshal_result r)" by (simp add: omitnil_def)
  then show ?thesis
    by (simp add: dec_value [OF _ marshal_result_not_null] as_some_def Some)
qed

lemma dec_history [simp]:
  "m k = omitempty [] (\<lambda>h. JArr (map marshal_record h)) h \<Longrightarrow>
     dec m k [] (as_list k unmarshal_record) = Inr h"
  by (auto simp: dec_def omitempty_def as_list_def)

lemma roundtrip_task [simp]: "unmarshal_task (marshal_task t) = Inr t"
  by (simp add: unmarshal_task_def marshal_task_def obj_def)

lemma marshal_task_inj [simp]: "marshal_task t = marshal_task u \<longleftrightarrow> t = u"
  by (metis Inr_inject roundtrip_task)

section \<open>Filters\<close>

lemma matchFilter_iff:
  "matchFilter t f \<longleftrightarrow>
     (f_IncludeArchived f \<or> t_ArchivedAt t = None)
   \<and> (f_State f = '''' \<or> t_State t = f_State f)
   \<and> (\<forall>p. f_Priority f = Some p \<longrightarrow> t_Priority t = p)
   \<and> (\<forall>a. f_CreatedAfter f = Some a \<longrightarrow> a \<le> t_CreatedAt t)
   \<and> (\<forall>b. f_CreatedBefore f = Some b \<longrightarrow> t_CreatedAt t \<le> b)"
  by (auto simp: matchFilter_def go_simps split: option.splits)

lemma matchFilter_empty [simp]: "matchFilter t emptyFilter \<longleftrightarrow> t_ArchivedAt t = None"
  by (simp add: matchFilter_iff emptyFilter_def)

end
