(* ===== verification/Task_Store.thy ===== *)
theory Task_Store
  imports Nuts_DB Task_Model
begin

text \<open>
  The task store (\<^verbatim>\<open>src/pkg/task/engine_store.go\<close>): tasks as JSON documents under
  \<^verbatim>\<open>task:<id>\<close> keys of a key-value database, plus the in-memory index from a state to the
  unarchived tasks in that state, newest first. Each operation runs under the per-task lock of
  the source and is one definition here; an operation that fails leaves the store as it was.
\<close>

section \<open>State and operations\<close>

datatype store_error =
    TaskIDRequired
  | GetTask string db_error
  | UnmarshalTask string
  | DBFailure db_error
  | GetExisting store_error
  | VersionConflict string int int
  | ListTasks db_error
  | IndexOutOfRange int

record indexEntry =
  ie_id :: string
  ie_createdAt :: gotime

type_synonym state_index = "TaskState \<rightharpoonup> indexEntry list"

record 'd engineTaskStore =
  ets_db :: 'd
  ets_prefix :: string
  maxStateHistory :: int
  stateIndex :: state_index

definition idx_entries :: "state_index \<Rightarrow> TaskState \<Rightarrow> indexEntry list" where
  "idx_entries idx st = (case idx st of None \<Rightarrow> [] | Some es \<Rightarrow> es)"

definition addToStateIndex ::
  "'d engineTaskStore \<Rightarrow> string \<Rightarrow> TaskState \<Rightarrow> gotime \<Rightarrow> 'd engineTaskStore" where
  "addToStateIndex s tid state createdAt =
     (let entry = \<lparr>ie_id = tid, ie_createdAt = createdAt\<rparr>;
          entries = idx_entries (stateIndex s) state;
          pos = go_search (\<lambda>i. \<not> after (ie_createdAt (entries ! i)) createdAt) 0 (length entries)
      in s\<lparr>stateIndex := (stateIndex s)(state \<mapsto> insert_at pos entry entries)\<rparr>)"

definition removeFromStateIndex ::
  "'d engineTaskStore \<Rightarrow> string \<Rightarrow> TaskState \<Rightarrow> 'd engineTaskStore" where
  "removeFromStateIndex s tid state =
     (case stateIndex s state of
        None \<Rightarrow> s
      | Some entries \<Rightarrow>
          (let entries' = remove_first (\<lambda>e. ie_id e = tid) entries
           in s\<lparr>stateIndex :=
                 (if entries' = [] then (stateIndex s)(state := None)
                  else (stateIndex s)(state \<mapsto> entries'))\<rparr>))"

definition moveInStateIndex ::
  "'d engineTaskStore \<Rightarrow> string \<Rightarrow> TaskState \<Rightarrow> TaskState \<Rightarrow> gotime \<Rightarrow> 'd engineTaskStore" where
  "moveInStateIndex s tid oldState newState createdAt =
     (if oldState = newState then s
      else addToStateIndex (removeFromStateIndex s tid oldState) tid newState createdAt)"

definition getLocked ::
  "('d, json) DB \<Rightarrow> 'd engineTaskStore \<Rightarrow> string \<Rightarrow> store_error + Task" where
  "getLocked B s tid =
     (case db_get B (ets_db s) (ets_prefix s @ tid) of
        Inl e \<Rightarrow> Inl (GetTask tid e)
      | Inr doc \<Rightarrow> mapErr (\<lambda>_. UnmarshalTask tid) (unmarshal_task doc))"

text \<open>\<^verbatim>\<open>Get\<close> has the body of \<open>getLocked\<close>, without the lock.\<close>

definition Store_Get ::
  "('d, json) DB \<Rightarrow> 'd engineTaskStore \<Rightarrow> string \<Rightarrow> store_error + Task" where
  "Store_Get B s tid =
     (case db_get B (ets_db s) (ets_prefix s @ tid) of
        Inl e \<Rightarrow> Inl (GetTask tid e)
      | Inr doc \<Rightarrow> mapErr (\<lambda>_. UnmarshalTask tid) (unmarshal_task doc))"

definition putLocked ::
  "('d, json) DB \<Rightarrow> 'd engineTaskStore \<Rightarrow> Task \<Rightarrow> store_error + Task \<times> 'd engineTaskStore" where
  "putLocked B s task =
     (let task = task\<lparr>t_Version := t_Version task + 1\<rparr>
      in bindE (mapErr DBFailure (db_set B (ets_db s) (ets_prefix s @ t_ID task) (marshal_task task)))
           (\<lambda>d. Inr (task, s\<lparr>ets_db := d\<rparr>)))"

text \<open>\<^verbatim>\<open>Create\<close> fills in the defaults; \<open>now\<close> is its reading of the clock.\<close>

definition create_defaults :: "gotime \<Rightarrow> Task \<Rightarrow> Task" where
  "create_defaults now task =
     task\<lparr>t_CreatedAt := (if isZero (t_CreatedAt task) then now else t_CreatedAt task),
          t_UpdatedAt := (if isZero (t_UpdatedAt task) then now else t_UpdatedAt task),
          t_StateUpdatedAt := (if isZero (t_StateUpdatedAt task) then now else t_StateUpdatedAt task),
          t_State := (if t_State task = '''' then TaskStatePending else t_State task)\<rparr>"

definition Create ::
  "('d, json) DB \<Rightarrow> gotime \<Rightarrow> 'd engineTaskStore \<Rightarrow> Task \<Rightarrow> store_error + Task \<times> 'd engineTaskStore" where
  "Create B now s task =
     (if t_ID task = '''' then Inl TaskIDRequired
      else let task = create_defaults now task
           in bindE (mapErr DBFailure (db_set B (ets_db s) (ets_prefix s @ t_ID task) (marshal_task task)))
                (\<lambda>d. Inr (task, addToStateIndex (s\<lparr>ets_db := d\<rparr>) (t_ID task) (t_State task)
                                  (t_CreatedAt task))))"

text \<open>What a listing loop reads under one key: unreadable documents are skipped.\<close>

definition readKey :: "('d, json) DB \<Rightarrow> 'd \<Rightarrow> string \<Rightarrow> Task option" where
  "readKey B d key =
     (case db_get B d key of
        Inl _ \<Rightarrow> None
      | Inr doc \<Rightarrow> (case unmarshal_task doc of Inl _ \<Rightarrow> None | Inr t \<Rightarrow> Some t))"

definition rebuildStateIndex :: "('d, json) DB \<Rightarrow> 'd engineTaskStore \<Rightarrow> 'd engineTaskStore" where
  "rebuildStateIndex B s =
     (case db_list B (ets_db s) (ets_prefix s) of
        Inl _ \<Rightarrow> s
      | Inr keys \<Rightarrow>
          fold (\<lambda>key s. case readKey B (ets_db s) key of
                           None \<Rightarrow> s
                         | Some task \<Rightarrow>
                             if t_ArchivedAt task = None
                             then addToStateIndex s (t_ID task) (t_State task) (t_CreatedAt task)
                             else s) keys s)"

definition NewTaskStore :: "('d, json) DB \<Rightarrow> 'd \<Rightarrow> int \<Rightarrow> 'd engineTaskStore" where
  "NewTaskStore B database maxHist =
     rebuildStateIndex B
       \<lparr>ets_db = database, ets_prefix = ''task:'', maxStateHistory = maxHist,
        stateIndex = Map.empty\<rparr>"

definition Update ::
  "('d, json) DB \<Rightarrow> gotime \<Rightarrow> 'd engineTaskStore \<Rightarrow> Task \<Rightarrow> store_error + Task \<times> 'd engineTaskStore" where
  "Update B now s task =
     bindE (mapErr GetExisting (getLocked B s (t_ID task))) (\<lambda>existing.
     if t_Version task \<noteq> t_Version existing
     then Inl (VersionConflict (t_ID task) (t_Version existing) (t_Version task))
     else bindE (putLocked B s (task\<lparr>t_UpdatedAt := now\<rparr>)) (\<lambda>(task, s).
          Inr (task, if t_ArchivedAt task \<noteq> None \<and> t_ArchivedAt existing = None
                     then removeFromStateIndex s (t_ID task) (t_State existing) else s)))"

definition Delete ::
  "('d, json) DB \<Rightarrow> 'd engineTaskStore \<Rightarrow> string \<Rightarrow> store_error + 'd engineTaskStore" where
  "Delete B s tid =
     (case getLocked B s tid of
        Inl _ \<Rightarrow> bindE (mapErr DBFailure (db_delete B (ets_db s) (ets_prefix s @ tid)))
                    (\<lambda>d. Inr (s\<lparr>ets_db := d\<rparr>))
      | Inr task \<Rightarrow> bindE (mapErr DBFailure (db_delete B (ets_db s) (ets_prefix s @ tid)))
                    (\<lambda>d. Inr (removeFromStateIndex (s\<lparr>ets_db := d\<rparr>) tid (t_State task))))"

text \<open>
  \<^verbatim>\<open>listByState\<close>: the page is cut out of the index first and the filter is applied to the tasks
  of the page. A negative offset indexes the slice out of range.
\<close>

definition listByState ::
  "('d, json) DB \<Rightarrow> 'd engineTaskStore \<Rightarrow> TaskFilter \<Rightarrow> store_error + Task list" where
  "listByState B s flt =
     (let entries = idx_entries (stateIndex s) (f_State flt);
          total = int (length entries);
          start = f_Offset flt
      in if start > total then Inr []
         else let end = (if f_Limit flt > 0 \<and> start + f_Limit flt < total
                         then start + f_Limit flt else total)
              in if start < 0 then Inl (IndexOutOfRange start)
                 else let pageIDs = map ie_id (take (nat (end - start)) (drop (nat start) entries))
                      in Inr (filter (\<lambda>t. matchFilter t flt)
                               (List.map_filter (\<lambda>tid. readKey B (ets_db s) (ets_prefix s @ tid))
                                 pageIDs)))"

definition paginate :: "int \<Rightarrow> int \<Rightarrow> 'a list \<Rightarrow> 'a list" where
  "paginate offset limit xs =
     (if offset > 0 \<and> offset \<ge> int (length xs) then []
      else let xs = (if offset > 0 then drop (nat offset) xs else xs)
           in if limit > 0 \<and> limit < int (length xs) then take (nat limit) xs else xs)"

definition Store_List ::
  "('d, json) DB \<Rightarrow> (Task \<Rightarrow> nat) \<Rightarrow> 'd engineTaskStore \<Rightarrow> TaskFilter \<Rightarrow> store_error + Task list" where
  "Store_List B tie s flt =
     (if f_State flt \<noteq> '''' then listByState B s flt
      else bindE (mapErr ListTasks (db_list B (ets_db s) (ets_prefix s))) (\<lambda>keys.
           let tasks = filter (\<lambda>t. matchFilter t flt) (List.map_filter (readKey B (ets_db s)) keys)
           in Inr (paginate (f_Offset flt) (f_Limit flt)
                     (go_sort_slice tie (\<lambda>t. - t_CreatedAt t) tasks))))"

definition Count ::
  "('d, json) DB \<Rightarrow> (Task \<Rightarrow> nat) \<Rightarrow> 'd engineTaskStore \<Rightarrow> TaskFilter \<Rightarrow> store_error + int" where
  "Count B tie s flt =
     (if f_State flt \<noteq> '''' \<and> \<not> f_IncludeArchived flt \<and> f_Priority flt = None
          \<and> f_CreatedAfter flt = None \<and> f_CreatedBefore flt = None
      then Inr (int (length (idx_entries (stateIndex s) (f_State flt))))
      else bindE (Store_List B tie s flt) (\<lambda>tasks. Inr (int (length tasks))))"

text \<open>The history append shared by the three state changes, with its cap.\<close>

definition appendHistory :: "int \<Rightarrow> StateTransitionRecord list \<Rightarrow> StateTransitionRecord
    \<Rightarrow> StateTransitionRecord list" where
  "appendHistory maxHist hist r =
     (let h = hist @ [r]
      in if maxHist > 0 \<and> int (length h) > maxHist then keep_last (nat maxHist) h else h)"

definition nextAttempt :: "StateTransitionRecord list \<Rightarrow> TaskState \<Rightarrow> int" where
  "nextAttempt hist state =
     (if hist \<noteq> [] \<and> rec_To (last hist) = state then rec_Attempt (last hist) + 1 else 1)"

definition UpdateState ::
  "('d, json) DB \<Rightarrow> gotime \<Rightarrow> 'd engineTaskStore \<Rightarrow> string \<Rightarrow> TaskState
     \<Rightarrow> store_error + Task \<times> 'd engineTaskStore" where
  "UpdateState B now s tid state =
     bindE (getLocked B s tid) (\<lambda>task.
     let oldState = t_State task;
         transition = \<lparr>rec_From = oldState, rec_To = state, rec_Timestamp = now,
                       rec_TriggeredBy = ''system'', rec_Reason = '''', rec_Attempt = 1\<rparr>
     in bindE (putLocked B s
                 (task\<lparr>t_StateHistory :=
                         appendHistory (maxStateHistory s) (t_StateHistory task) transition,
                       t_State := state, t_StateUpdatedAt := now, t_UpdatedAt := now\<rparr>))
          (\<lambda>(task, s). Inr (task, moveInStateIndex s tid oldState state (t_CreatedAt task))))"

definition UpdateStateWithRecord ::
  "('d, json) DB \<Rightarrow> gotime \<Rightarrow> 'd engineTaskStore \<Rightarrow> string \<Rightarrow> TaskState \<Rightarrow> string \<Rightarrow> string
     \<Rightarrow> store_error + Task \<times> 'd engineTaskStore" where
  "UpdateStateWithRecord B now s tid state triggeredBy reason =
     bindE (getLocked B s tid) (\<lambda>task.
     let oldState = t_State task;
         attempt = nextAttempt (t_StateHistory task) state;
         record = \<lparr>rec_From = oldState, rec_To = state, rec_Timestamp = now,
                   rec_TriggeredBy = triggeredBy, rec_Reason = reason, rec_Attempt = attempt\<rparr>
     in bindE (putLocked B s
                 (task\<lparr>t_StateHistory :=
                         appendHistory (maxStateHistory s) (t_StateHistory task) record,
                       t_State := state, t_StateUpdatedAt := now, t_UpdatedAt := now\<rparr>))
          (\<lambda>(task, s). Inr (task, moveInStateIndex s tid oldState state (t_CreatedAt task))))"

text \<open>
  \<^verbatim>\<open>postCommit\<close> acts on the world \<^typ>\<open>'w\<close> outside the store (the event log and the event bus);
  its error is logged and dropped.
\<close>

type_synonym 'w post_commit = "'w \<Rightarrow> string option \<times> 'w"

definition runPostCommit :: "'w post_commit option \<Rightarrow> 'w \<Rightarrow> 'w" where
  "runPostCommit pc w = (case pc of None \<Rightarrow> w | Some f \<Rightarrow> snd (f w))"

definition applyTransition ::
  "int \<Rightarrow> gotime \<Rightarrow> TaskState \<Rightarrow> string \<Rightarrow> string \<Rightarrow> gotime option \<Rightarrow> bool \<Rightarrow> bool
     \<Rightarrow> gotime option \<Rightarrow> int option \<Rightarrow> Task \<Rightarrow> Task" where
  "applyTransition maxHist now newState triggeredBy reason setArchivedAt clearArchived clearTimeout
     setTimeoutAt setRetryCount task =
     (let record = \<lparr>rec_From = t_State task, rec_To = newState, rec_Timestamp = now,
                    rec_TriggeredBy = triggeredBy, rec_Reason = reason,
                    rec_Attempt = nextAttempt (t_StateHistory task) newState\<rparr>
      in task\<lparr>t_StateHistory := appendHistory maxHist (t_StateHistory task) record,
              t_State := newState, t_StateUpdatedAt := now, t_UpdatedAt := now,
              t_ArchivedAt := (case setArchivedAt of Some a \<Rightarrow> Some a
                               | None \<Rightarrow> if clearArchived then None else t_ArchivedAt task),
              t_RetryCount := (case setRetryCount of Some n \<Rightarrow> n | None \<Rightarrow> t_RetryCount task),
              t_TimeoutAt := (case setTimeoutAt of Some u \<Rightarrow> Some u
                              | None \<Rightarrow> if clearTimeout then None else t_TimeoutAt task)\<rparr>)"

definition TransitionState ::
  "('d, json) DB \<Rightarrow> gotime \<Rightarrow> 'd engineTaskStore \<Rightarrow> string \<Rightarrow> TaskState \<Rightarrow> string \<Rightarrow> string
     \<Rightarrow> gotime option \<Rightarrow> bool \<Rightarrow> bool \<Rightarrow> gotime option \<Rightarrow> int option
     \<Rightarrow> 'w post_commit option \<Rightarrow> 'w \<Rightarrow> store_error + Task \<times> 'd engineTaskStore \<times> 'w" where
  "TransitionState B now s tid newState triggeredBy reason setArchivedAt clearArchived clearTimeout
     setTimeoutAt setRetryCount postCommit w =
     bindE (getLocked B s tid) (\<lambda>task.
     bindE (putLocked B s
              (applyTransition (maxStateHistory s) now newState triggeredBy reason setArchivedAt
                 clearArchived clearTimeout setTimeoutAt setRetryCount task))
       (\<lambda>(task', s').
          let w' = runPostCommit postCommit w;
              s'' = moveInStateIndex s' tid (t_State task) newState (t_CreatedAt task')
          in Inr (task', if setArchivedAt \<noteq> None then removeFromStateIndex s'' tid newState else s'',
                  w')))"

definition GetStateHistory ::
  "('d, json) DB \<Rightarrow> 'd engineTaskStore \<Rightarrow> string \<Rightarrow> store_error + StateTransitionRecord list" where
  "GetStateHistory B s tid = bindE (getLocked B s tid) (\<lambda>task. Inr (t_StateHistory task))"

definition UpdateResult ::
  "('d, json) DB \<Rightarrow> gotime \<Rightarrow> 'd engineTaskStore \<Rightarrow> string \<Rightarrow> TaskResult option
     \<Rightarrow> store_error + Task \<times> 'd engineTaskStore" where
  "UpdateResult B now s tid result =
     bindE (getLocked B s tid) (\<lambda>task.
       putLocked B s (task\<lparr>t_Result := result, t_UpdatedAt := now\<rparr>))"

end
