(* ===== verification/Task_Store_Inv.thy ===== *)
theory Task_Store_Inv
  imports Task_Store
begin

text \<open>
  Correctness of the task store: the index invariant and its preservation, what each operation
  does to the stored tasks, and the agreement of the indexed listing with a scan. The lemmas are
  proved over any backend that satisfies the laws of \<open>kv_db\<close> and then read off for the
  in-memory backend.
\<close>

section \<open>The index as a relation to the stored tasks\<close>

definition task_at :: "('d \<Rightarrow> string \<Rightarrow> json option) \<Rightarrow> 'd engineTaskStore \<Rightarrow> string \<Rightarrow> Task option" where
  "task_at vw s tid =
     (case vw (ets_db s) (ets_prefix s @ tid) of
        None \<Rightarrow> None
      | Some doc \<Rightarrow> (case unmarshal_task doc of Inl _ \<Rightarrow> None | Inr t \<Rightarrow> Some t))"

text \<open>
  \<open>indexed T X st e\<close>: entry \<open>e\<close> belongs in the list of state \<open>st\<close>, for stored tasks \<open>T\<close> and
  with the ids of \<open>X\<close> left out. \<open>idx_rel T idx X\<close>: the index holds exactly these entries, each
  list without duplicates, newest first and never empty.
\<close>

definition indexed :: "(string \<rightharpoonup> Task) \<Rightarrow> string set \<Rightarrow> TaskState \<Rightarrow> indexEntry \<Rightarrow> bool" where
  "indexed T X st e \<longleftrightarrow>
     ie_id e \<notin> X
   \<and> (case T (ie_id e) of
        None \<Rightarrow> False
      | Some t \<Rightarrow> t_State t = st \<and> t_ArchivedAt t = None \<and> t_CreatedAt t = ie_createdAt e)"

definition idx_list_ok :: "indexEntry list \<Rightarrow> bool" where
  "idx_list_ok es \<longleftrightarrow> distinct (map ie_id es) \<and> sorted (map (\<lambda>e. - ie_createdAt e) es)"

definition idx_rel :: "(string \<rightharpoonup> Task) \<Rightarrow> state_index \<Rightarrow> string set \<Rightarrow> bool" where
  "idx_rel T idx X \<longleftrightarrow>
     (\<forall>st. idx_list_ok (idx_entries idx st) \<and> idx st \<noteq> Some []
         \<and> (\<forall>e. e \<in> set (idx_entries idx st) \<longleftrightarrow> indexed T X st e))"

lemma idx_entries_upd [simp]:
  "idx_entries (idx(st \<mapsto> es)) st' = (if st' = st then es else idx_entries idx st')"
  "idx_entries (idx(st := None)) st' = (if st' = st then [] else idx_entries idx st')"
  "idx_entries Map.empty st' = []"
  by (auto simp: idx_entries_def)

lemma neg_sorted_iff: "sorted (map (\<lambda>e. - ie_createdAt e) es) \<longleftrightarrow>
    (\<forall>i j. i < j \<and> j < length es \<longrightarrow> ie_createdAt (es ! j) \<le> ie_createdAt (es ! i))"
  by (auto simp: sorted_iff_nth_mono_less)

lemma idx_rel_change:
  assumes "idx_rel T idx X"
    and "\<And>st' e. st' \<noteq> st \<Longrightarrow> indexed T' X' st' e \<longleftrightarrow> indexed T X st' e"
    and "\<And>st'. st' \<noteq> st \<Longrightarrow> idx' st' = idx st'"
    and "idx_list_ok (idx_entries idx' st)" and "idx' st \<noteq> Some []"
    and "\<And>e. e \<in> set (idx_entries idx' st) \<longleftrightarrow> indexed T' X' st e"
  shows "idx_rel T' idx' X'"
  unfolding idx_rel_def
proof
  fix st'
  show "idx_list_ok (idx_entries idx' st') \<and> idx' st' \<noteq> Some []
      \<and> (\<forall>e. e \<in> set (idx_entries idx' st') \<longleftrightarrow> indexed T' X' st' e)"
  proof (cases "st' = st")
    case True
    with assms(4-6) show ?thesis by simp
  next
    case False
    then have "idx_entries idx' st' = idx_entries idx st'"
      using assms(3) by (simp add: idx_entries_def)
    with False assms(1-3) show ?thesis by (simp add: idx_rel_def)
  qed
qed

text \<open>The binary search puts the new entry where the list stays newest first.\<close>

lemma sorted_insert_search:
  fixes x :: indexEntry
  assumes s: "sorted (map (\<lambda>e. - ie_createdAt e) es)"
  defines "pos \<equiv> go_search (\<lambda>i. \<not> after (ie_createdAt (es ! i)) (ie_createdAt x)) 0 (length es)"
  shows "sorted (map (\<lambda>e. - ie_createdAt e) (insert_at pos x es))"
proof -
  have "0 \<le> pos \<and> pos \<le> length es
       \<and> (\<forall>k. 0 \<le> k \<and> k < pos \<longrightarrow> \<not> (\<not> after (ie_createdAt (es ! k)) (ie_createdAt x)))
       \<and> (\<forall>k. pos \<le> k \<and> k < length es \<longrightarrow> \<not> after (ie_createdAt (es ! k)) (ie_createdAt x))"
    unfolding pos_def
  proof (rule go_search_least)
    show "\<not> after (ie_createdAt (es ! b)) (ie_createdAt x)"
      if "0 \<le> a" "a \<le> b" "b < length es" "\<not> after (ie_createdAt (es ! a)) (ie_createdAt x)" for a b
    proof (cases "a = b")
      case False
      then have "ie_createdAt (es ! b) \<le> ie_createdAt (es ! a)"
        using s that by (simp add: neg_sorted_iff)
      with that show ?thesis by (simp add: after_def)
    qed (use that in simp)
  qed simp
  then have lo: "\<forall>e \<in> set (take pos es). ie_createdAt x < ie_createdAt e"
    and hi: "\<forall>e \<in> set (drop pos es). ie_createdAt e \<le> ie_createdAt x"
    by (auto simp: in_set_conv_nth after_def not_less not_le)
  have "sorted (map (\<lambda>e. - ie_createdAt e) (take pos es) @ map (\<lambda>e. - ie_createdAt e) (drop pos es))"
    using s by (simp flip: map_append)
  with lo hi show ?thesis
    by (auto simp: insert_at_def sorted_append less_imp_le intro: order_trans)
qed

lemma addToStateIndex_frame [simp]:
  "ets_db (addToStateIndex s tid st c) = ets_db s"
  "ets_prefix (addToStateIndex s tid st c) = ets_prefix s"
  "maxStateHistory (addToStateIndex s tid st c) = maxStateHistory s"
  by (simp_all add: addToStateIndex_def Let_def)

lemma removeFromStateIndex_frame [simp]:
  "ets_db (removeFromStateIndex s tid st) = ets_db s"
  "ets_prefix (removeFromStateIndex s tid st) = ets_prefix s"
  "maxStateHistory (removeFromStateIndex s tid st) = maxStateHistory s"
  by (simp_all add: removeFromStateIndex_def Let_def split: option.splits)

lemma moveInStateIndex_frame [simp]:
  "ets_db (moveInStateIndex s tid st st' c) = ets_db s"
  "ets_prefix (moveInStateIndex s tid st st' c) = ets_prefix s"
  "maxStateHistory (moveInStateIndex s tid st st' c) = maxStateHistory s"
  by (simp_all add: moveInStateIndex_def)

lemma task_at_index [simp]:
  "task_at vw (s\<lparr>stateIndex := i\<rparr>) = task_at vw s"
  "task_at vw (addToStateIndex s tid st c) = task_at vw s"
  "task_at vw (removeFromStateIndex s tid st) = task_at vw s"
  "task_at vw (moveInStateIndex s tid st st' c) = task_at vw s"
  by (simp_all add: task_at_def fun_eq_iff)

text \<open>Adding the entry of a left-out task that is stored and unarchived completes the index.\<close>

lemma idx_rel_add:
  assumes r: "idx_rel T (stateIndex s) (insert tid X)" and x: "tid \<notin> X"
    and t: "T tid = Some t" "t_ArchivedAt t = None" "t_State t = st" "t_CreatedAt t = c"
  shows "idx_rel T (stateIndex (addToStateIndex s tid st c)) X"
proof -
  let ?e = "\<lparr>ie_id = tid, ie_createdAt = c\<rparr>"
  let ?es = "idx_entries (stateIndex s) st"
  let ?pos = "go_search (\<lambda>i. \<not> after (ie_createdAt (?es ! i)) c) 0 (length ?es)"
  have mem: "e \<in> set (idx_entries (stateIndex s) st') \<longleftrightarrow> indexed T (insert tid X) st' e" for st' e
    using r by (simp add: idx_rel_def)
  have ok: "idx_list_ok (idx_entries (stateIndex s) st')" for st'
    using r by (simp add: idx_rel_def)
  have new: "tid \<notin> ie_id ` set ?es"
    using mem [of _ st] by (auto simp: indexed_def)
  have "distinct (map ie_id (insert_at ?pos ?e ?es))"
  proof -
    have "mset (map ie_id (insert_at ?pos ?e ?es)) = mset (tid # map ie_id ?es)" by simp
    then show ?thesis
      using new ok [of st] by (metis distinct.simps(2) idx_list_ok_def list.set_map mset_eq_imp_distinct_iff)
  qed
  moreover have "sorted (map (\<lambda>e. - ie_createdAt e) (insert_at ?pos ?e ?es))"
    using sorted_insert_search [of ?es ?e] ok [of st] by (simp add: idx_list_ok_def)
  moreover have "e \<in> insert ?e (set ?es) \<longleftrightarrow> indexed T X st e" for e
  proof (cases "ie_id e = tid")
    case True
    then have "e \<notin> set ?es" using new by auto
    moreover have "indexed T X st e \<longleftrightarrow> ie_createdAt e = c"
      using True t x by (auto simp: indexed_def)
    ultimately show ?thesis using True by (cases e) auto
  next
    case False
    then show ?thesis using mem [of e st] by (auto simp: indexed_def)
  qed
  moreover have "indexed T X st' e \<longleftrightarrow> indexed T (insert tid X) st' e" if "st' \<noteq> st" for st' e
    using that t by (auto simp: indexed_def split: option.splits)
  ultimately show ?thesis
    by (intro idx_rel_change [OF r, where st = st])
      (simp_all add: addToStateIndex_def Let_def idx_list_ok_def)
qed

text \<open>Removing a task from the list of its state leaves it out of the index.\<close>

lemma idx_rel_remove:
  assumes r: "idx_rel T (stateIndex s) X"
    and t: "\<And>t. T tid = Some t \<Longrightarrow> tid \<notin> X \<Longrightarrow> t_ArchivedAt t = None \<Longrightarrow> t_State t = st"
  shows "idx_rel T (stateIndex (removeFromStateIndex s tid st)) (insert tid X)"
proof -
  let ?es = "idx_entries (stateIndex s) st"
  have mem: "e \<in> set (idx_entries (stateIndex s) st') \<longleftrightarrow> indexed T X st' e" for st' e
    using r by (simp add: idx_rel_def)
  have ok: "idx_list_ok (idx_entries (stateIndex s) st')" for st'
    using r by (simp add: idx_rel_def)
  have other: "indexed T X st' e \<longleftrightarrow> indexed T (insert tid X) st' e" if "st' \<noteq> st" for st' e
    using that t by (auto simp: indexed_def split: option.splits)
  have same: "e \<in> set ?es \<and> ie_id e \<noteq> tid \<longleftrightarrow> indexed T (insert tid X) st e" for e
    using mem [of e st] by (auto simp: indexed_def)
  show ?thesis
  proof (cases "stateIndex s st")
    case None
    then have "?es = []" by (simp add: idx_entries_def)
    with None other same ok [of st] show ?thesis
      by (intro idx_rel_change [OF r, where st = st]) (auto simp: removeFromStateIndex_def)
  next
    case (Some es)
    then have es: "?es = es" by (simp add: idx_entries_def)
    have "remove_first (\<lambda>e. ie_id e = tid) es = filter (\<lambda>e. ie_id e \<noteq> tid) es"
      using ok [of st] es by (intro remove_first_key) (simp add: idx_list_ok_def)
    moreover have "idx_list_ok (filter (\<lambda>e. ie_id e \<noteq> tid) es)"
      using ok [of st] es
      by (auto simp: idx_list_ok_def distinct_map_filter sorted_filter)
    ultimately show ?thesis
      using Some es other same
      by (intro idx_rel_change [OF r, where st = st])
        (auto simp: removeFromStateIndex_def Let_def idx_entries_def idx_list_ok_def filter_empty_conv)
  qed
qed

lemma idx_rel_drop:
  "idx_rel T idx (insert tid X) \<Longrightarrow> tid \<notin> X \<Longrightarrow>
     (\<And>t. T tid = Some t \<Longrightarrow> t_ArchivedAt t \<noteq> None) \<Longrightarrow> idx_rel T idx X"
  by (auto simp: idx_rel_def indexed_def split: option.splits)

lemma idx_rel_leave_out:
  "idx_rel T idx X \<Longrightarrow> (\<And>t. T tid = Some t \<Longrightarrow> t_ArchivedAt t \<noteq> None) \<Longrightarrow> idx_rel T idx (insert tid X)"
  by (auto simp: idx_rel_def indexed_def split: option.splits)

lemma idx_rel_upd:
  "idx_rel (T(tid := u)) idx (insert tid X) \<longleftrightarrow> idx_rel T idx (insert tid X)"
  by (auto simp: idx_rel_def indexed_def)

lemma idx_rel_refresh:
  "idx_rel T idx X \<Longrightarrow> T tid = Some t \<Longrightarrow> t_State u = t_State t \<Longrightarrow> t_ArchivedAt u = t_ArchivedAt t \<Longrightarrow>
     t_CreatedAt u = t_CreatedAt t \<Longrightarrow> idx_rel (T(tid \<mapsto> u)) idx X"
  by (auto simp: idx_rel_def indexed_def)

section \<open>The store invariant\<close>

text \<open>
  Every document under the prefix is the encoding of a task stored under its own id, and the
  index lists exactly the unarchived tasks.
\<close>

definition docs_ok :: "('d \<Rightarrow> string \<Rightarrow> json option) \<Rightarrow> 'd engineTaskStore \<Rightarrow> bool" where
  "docs_ok vw s \<longleftrightarrow>
     (\<forall>tid doc. vw (ets_db s) (ets_prefix s @ tid) = Some doc \<longrightarrow>
        (\<exists>t. doc = marshal_task t \<and> t_ID t = tid))"

definition store_inv ::
  "('d \<Rightarrow> string \<Rightarrow> json option) \<Rightarrow> ('d \<Rightarrow> bool) \<Rightarrow> 'd engineTaskStore \<Rightarrow> bool" where
  "store_inv vw ok s \<longleftrightarrow>
     ok (ets_db s) \<and> docs_ok vw s \<and> idx_rel (task_at vw s) (stateIndex s) {}"

text \<open>
  When a transition keeps the index right: it archives the task, or it keeps the state and does
  not revive an archived task, or it changes the state of a task that ends up unarchived.
\<close>

definition transition_indexable :: "Task \<Rightarrow> TaskState \<Rightarrow> gotime option \<Rightarrow> bool \<Rightarrow> bool" where
  "transition_indexable t newState setArchivedAt clearArchived \<longleftrightarrow>
     setArchivedAt \<noteq> None
   \<or> (if newState = t_State t then clearArchived \<longrightarrow> t_ArchivedAt t = None
      else clearArchived \<or> t_ArchivedAt t = None)"

lemma applyTransition_frame [simp]:
  "t_ID (applyTransition m now st by re sa ca ct su sr t) = t_ID t"
  "t_CreatedAt (applyTransition m now st by re sa ca ct su sr t) = t_CreatedAt t"
  "t_Version (applyTransition m now st by re sa ca ct su sr t) = t_Version t"
  "t_State (applyTransition m now st by re sa ca ct su sr t) = st"
  "t_Metadata (applyTransition m now st by re sa ca ct su sr t) = t_Metadata t"
  "t_ArchivedAt (applyTransition m now st by re sa ca ct su sr t) =
     (case sa of Some a \<Rightarrow> Some a | None \<Rightarrow> if ca then None else t_ArchivedAt t)"
  by (simp_all add: applyTransition_def Let_def)

lemma docs_ok_index [simp]:
  "docs_ok vw (s\<lparr>stateIndex := i\<rparr>) = docs_ok vw s"
  "docs_ok vw (addToStateIndex s tid st c) = docs_ok vw s"
  "docs_ok vw (removeFromStateIndex s tid st) = docs_ok vw s"
  "docs_ok vw (moveInStateIndex s tid st st' c) = docs_ok vw s"
  by (simp_all add: docs_ok_def)

lemma task_at_marshal:
  "vw (ets_db s) (ets_prefix s @ tid) = Some (marshal_task t) \<Longrightarrow> task_at vw s tid = Some t"
  by (simp add: task_at_def)

lemma docs_ok_ID: "docs_ok vw s \<Longrightarrow> task_at vw s tid = Some t \<Longrightarrow> t_ID t = tid"
  by (fastforce simp: docs_ok_def task_at_def split: option.splits sum.splits)

locale task_db = kv_db B view db_ok
  for B :: "('d, json) DB" and view :: "'d \<Rightarrow> string \<Rightarrow> json option" and db_ok :: "'d \<Rightarrow> bool"
begin

lemma getLocked_iff:
  "db_ok (ets_db s) \<Longrightarrow> getLocked B s tid = Inr t \<longleftrightarrow> task_at view s tid = Some t"
  using get_Some [of "ets_db s" "ets_prefix s @ tid"] get_None [of "ets_db s" "ets_prefix s @ tid"]
  by (cases "view (ets_db s) (ets_prefix s @ tid)")
    (auto simp: getLocked_def task_at_def mapErr_def split: sum.splits)

lemma getLocked_None:
  "db_ok (ets_db s) \<Longrightarrow> task_at view s tid = None \<Longrightarrow> \<exists>e. getLocked B s tid = Inl e"
  using getLocked_iff [of s tid] by (cases "getLocked B s tid") auto

lemma Store_Get_eq: "Store_Get B s tid = getLocked B s tid"
  by (simp add: Store_Get_def getLocked_def)

lemma readKey_task: "db_ok (ets_db s) \<Longrightarrow> readKey B (ets_db s) (ets_prefix s @ tid) = task_at view s tid"
  using get_Some [of "ets_db s" "ets_prefix s @ tid"] get_None [of "ets_db s" "ets_prefix s @ tid"]
  by (cases "view (ets_db s) (ets_prefix s @ tid)") (auto simp: readKey_def task_at_def)

lemma set_task:
  assumes "db_ok (ets_db s)"
    and "db_set B (ets_db s) (ets_prefix s @ t_ID t) (marshal_task t) = Inr d"
  shows set_task_ok: "db_ok d"
    and set_task_docs: "docs_ok view s \<Longrightarrow> docs_ok view (s\<lparr>ets_db := d\<rparr>)"
    and set_task_at: "task_at view (s\<lparr>ets_db := d\<rparr>) = (task_at view s)(t_ID t \<mapsto> t)"
  using set_ok [OF assms] set_view [OF assms]
  by (auto simp: docs_ok_def task_at_def fun_eq_iff)

lemma putLocked_Inr:
  assumes "db_ok (ets_db s)" and "putLocked B s t = Inr (t', s')"
  shows "t' = t\<lparr>t_Version := t_Version t + 1\<rparr>"
    and "\<exists>d. s' = s\<lparr>ets_db := d\<rparr> \<and> db_ok d"
    and "docs_ok view s \<Longrightarrow> docs_ok view s'"
    and "task_at view s' = (task_at view s)(t_ID t \<mapsto> t')"
proof -
  let ?t = "t\<lparr>t_Version := t_Version t + 1\<rparr>"
  obtain d where d: "db_set B (ets_db s) (ets_prefix s @ t_ID ?t) (marshal_task ?t) = Inr d"
    and eq: "t' = ?t" "s' = s\<lparr>ets_db := d\<rparr>"
    using assms(2) by (auto simp: putLocked_def Let_def bindE_eq_Inr)
  note set = set_task [OF assms(1) d]
  show "t' = ?t" by (fact eq)
  show "\<exists>d. s' = s\<lparr>ets_db := d\<rparr> \<and> db_ok d" using set eq by auto
  show "docs_ok view s \<Longrightarrow> docs_ok view s'" using set eq by simp
  show "task_at view s' = (task_at view s)(t_ID t \<mapsto> t')" using set(3) eq by simp
qed

text \<open>
  A write that changes the state of a task, followed by the index update the source performs.
\<close>

lemma state_change_unarchived:
  assumes inv: "store_inv view db_ok s" and t: "task_at view s tid = Some t"
    and put: "putLocked B s u = Inr (u', s')"
    and u: "t_ID u = tid" "t_CreatedAt u = t_CreatedAt t" "t_ArchivedAt u = None"
    and ch: "t_State u \<noteq> t_State t \<or> t_ArchivedAt t = None"
  shows "store_inv view db_ok (moveInStateIndex s' tid (t_State t) (t_State u) (t_CreatedAt u'))"
proof -
  have ok: "db_ok (ets_db s)" and docs: "docs_ok view s"
    and idx: "idx_rel (task_at view s) (stateIndex s) {}"
    using inv by (auto simp: store_inv_def)
  note p = putLocked_Inr [OF ok put]
  have u': "t_State u' = t_State u" "t_CreatedAt u' = t_CreatedAt t" "t_ArchivedAt u' = None"
    using p(1) u by simp_all
  have s': "stateIndex s' = stateIndex s" "db_ok (ets_db s')" using p(2) by auto
  have "idx_rel (task_at view s')
          (stateIndex (moveInStateIndex s' tid (t_State t) (t_State u) (t_CreatedAt u'))) {}"
  proof (cases "t_State u = t_State t")
    case True
    then have "idx_rel ((task_at view s)(tid \<mapsto> u')) (stateIndex s) {}"
      using ch u u' t by (intro idx_rel_refresh [OF idx t]) auto
    with True show ?thesis using p(4) s' u by (simp add: moveInStateIndex_def)
  next
    case False
    have "idx_rel (task_at view s) (stateIndex (removeFromStateIndex s' tid (t_State t))) {tid}"
      using idx_rel_remove [of "task_at view s" s' "{}" tid "t_State t"] idx s' t by simp
    then have "idx_rel (task_at view s') (stateIndex (removeFromStateIndex s' tid (t_State t))) {tid}"
      using p(4) u by (simp add: idx_rel_upd)
    from idx_rel_add [OF this] False show ?thesis
      using p(4) u u' by (simp add: moveInStateIndex_def)
  qed
  with s' p(3) docs show ?thesis by (simp add: store_inv_def)
qed

lemma state_change_archived:
  assumes inv: "store_inv view db_ok s" and t: "task_at view s tid = Some t"
    and put: "putLocked B s u = Inr (u', s')"
    and u: "t_ID u = tid" "t_CreatedAt u = t_CreatedAt t" "t_ArchivedAt u \<noteq> None"
  shows "store_inv view db_ok
     (removeFromStateIndex (moveInStateIndex s' tid (t_State t) (t_State u) (t_CreatedAt u'))
        tid (t_State u))"
proof -
  have ok: "db_ok (ets_db s)" and docs: "docs_ok view s"
    and idx: "idx_rel (task_at view s) (stateIndex s) {}"
    using inv by (auto simp: store_inv_def)
  note p = putLocked_Inr [OF ok put]
  have s': "stateIndex s' = stateIndex s" "db_ok (ets_db s')" using p(2) by auto
  let ?m = "moveInStateIndex s' tid (t_State t) (t_State u) (t_CreatedAt u')"
  let ?u = "u'\<lparr>t_ArchivedAt := None\<rparr>"
  have "idx_rel (task_at view s) (stateIndex (removeFromStateIndex ?m tid (t_State u))) {tid}"
  proof (cases "t_State u = t_State t")
    case True
    then show ?thesis
      using idx_rel_remove [of "task_at view s" s' "{}" tid "t_State u"] idx s' t
      by (simp add: moveInStateIndex_def)
  next
    case False
    have "idx_rel (task_at view s) (stateIndex (removeFromStateIndex s' tid (t_State t))) {tid}"
      using idx_rel_remove [of "task_at view s" s' "{}" tid "t_State t"] idx s' t by simp
    then have "idx_rel ((task_at view s)(tid \<mapsto> ?u))
        (stateIndex (removeFromStateIndex s' tid (t_State t))) {tid}"
      by (simp add: idx_rel_upd)
    from idx_rel_add [OF this] have "idx_rel ((task_at view s)(tid \<mapsto> ?u)) (stateIndex ?m) {}"
      using False p(1) u by (simp add: moveInStateIndex_def)
    then have "idx_rel ((task_at view s)(tid \<mapsto> ?u))
        (stateIndex (removeFromStateIndex ?m tid (t_State u))) {tid}"
      using p(1) by (intro idx_rel_remove) auto
    then show ?thesis by (simp add: idx_rel_upd)
  qed
  then have "idx_rel (task_at view s') (stateIndex (removeFromStateIndex ?m tid (t_State u))) {tid}"
    using p(4) u by (simp add: idx_rel_upd)
  then have "idx_rel (task_at view s') (stateIndex (removeFromStateIndex ?m tid (t_State u))) {}"
    by (rule idx_rel_drop) (use p u in auto)
  with s' p(3) docs show ?thesis by (simp add: store_inv_def)
qed

end

end
