(* ===== verification/Task_Store_Ops.thy ===== *)
theory Task_Store_Ops
  imports Task_Store_Inv
begin

text \<open>
  What each operation of the task store does, branch by branch, over any backend with the laws of
  \<open>kv_db\<close>; and the listing routines against their specification.
\<close>

lemma appendHistory_last: "last (appendHistory m h r) = r"
  by (simp add: appendHistory_def Let_def)

lemma appendHistory_bound: "0 < m \<Longrightarrow> int (length (appendHistory m h r)) \<le> max m (int (length h))"
  by (auto simp: appendHistory_def Let_def)

lemma appendHistory_neq_Nil [simp]: "appendHistory m h r \<noteq> []"
  by (auto simp: appendHistory_def Let_def)

context task_db
begin

section \<open>State changes\<close>

lemma TransitionState_Inr:
  assumes ok: "db_ok (ets_db s)"
    and r: "TransitionState B now s tid st by re sa ca ct su sr pc w = Inr (t', s', w')"
  obtains t s1 where "task_at view s tid = Some t"
    and "putLocked B s (applyTransition (maxStateHistory s) now st by re sa ca ct su sr t) = Inr (t', s1)"
    and "s' = (let s2 = moveInStateIndex s1 tid (t_State t) st (t_CreatedAt t')
               in if sa \<noteq> None then removeFromStateIndex s2 tid st else s2)"
    and "w' = runPostCommit pc w"
  using r getLocked_iff [OF ok]
  by (auto simp: TransitionState_def bindE_eq_Inr Let_def split: if_splits)

lemma TransitionState_effect:
  assumes inv: "store_inv view db_ok s"
    and r: "TransitionState B now s tid st by re sa ca ct su sr pc w = Inr (t', s', w')"
  shows "\<exists>t. task_at view s tid = Some t
       \<and> t' = (applyTransition (maxStateHistory s) now st by re sa ca ct su sr t)\<lparr>t_Version := t_Version t + 1\<rparr>
       \<and> task_at view s' = (task_at view s)(tid \<mapsto> t')
       \<and> w' = runPostCommit pc w"
proof -
  have ok: "db_ok (ets_db s)" and docs: "docs_ok view s" using inv by (auto simp: store_inv_def)
  from r show ?thesis
  proof (rule TransitionState_Inr [OF ok])
    fix t s1
    assume t: "task_at view s tid = Some t"
      and put: "putLocked B s (applyTransition (maxStateHistory s) now st by re sa ca ct su sr t) = Inr (t', s1)"
      and s': "s' = (let s2 = moveInStateIndex s1 tid (t_State t) st (t_CreatedAt t')
               in if sa \<noteq> None then removeFromStateIndex s2 tid st else s2)"
      and w': "w' = runPostCommit pc w"
    note p = putLocked_Inr [OF ok put]
    have "t_ID t = tid" using docs t by (rule docs_ok_ID)
    with p(1) p(4) s' t w' show ?thesis by (auto simp: Let_def)
  qed
qed

lemma TransitionState_inv:
  assumes inv: "store_inv view db_ok s"
    and r: "TransitionState B now s tid st by re sa ca ct su sr pc w = Inr (t', s', w')"
    and c: "\<And>t. task_at view s tid = Some t \<Longrightarrow> transition_indexable t st sa ca"
  shows "store_inv view db_ok s'"
proof -
  have ok: "db_ok (ets_db s)" and docs: "docs_ok view s"
    and idx: "idx_rel (task_at view s) (stateIndex s) {}"
    using inv by (auto simp: store_inv_def)
  from r show ?thesis
  proof (rule TransitionState_Inr [OF ok])
    fix t s1
    let ?u = "applyTransition (maxStateHistory s) now st by re sa ca ct su sr t"
    assume t: "task_at view s tid = Some t"
      and put: "putLocked B s ?u = Inr (t', s1)"
      and s': "s' = (let s2 = moveInStateIndex s1 tid (t_State t) st (t_CreatedAt t')
               in if sa \<noteq> None then removeFromStateIndex s2 tid st else s2)"
    have ID: "t_ID t = tid" using docs t by (rule docs_ok_ID)
    note p = putLocked_Inr [OF ok put]
    show ?thesis
    proof (cases sa)
      case (Some a)
      then show ?thesis
        using state_change_archived [OF inv t put] s' ID by (simp add: Let_def)
    next
      case sa: None
      show ?thesis
      proof (cases "t_ArchivedAt ?u = None \<and> (st \<noteq> t_State t \<or> t_ArchivedAt t = None)")
        case True
        then show ?thesis
          using state_change_unarchived [OF inv t put] s' sa ID by (simp add: Let_def)
      next
        case False
        with c [OF t] sa have same: "st = t_State t" "t_ArchivedAt ?u = t_ArchivedAt t"
          by (auto simp: transition_indexable_def split: if_splits)
        have "idx_rel ((task_at view s)(tid \<mapsto> t')) (stateIndex s) {}"
          by (rule idx_rel_refresh [OF idx t]) (use p(1) same in auto)
        with same s' sa p ID docs show ?thesis
          by (auto simp: store_inv_def moveInStateIndex_def)
      qed
    qed
  qed
qed

lemma UpdateStateWithRecord_effect:
  assumes inv: "store_inv view db_ok s"
    and r: "UpdateStateWithRecord B now s tid st by re = Inr (t', s')"
  shows "\<exists>t. task_at view s tid = Some t \<and> t_State t' = st \<and> t_ID t' = tid
       \<and> t_ArchivedAt t' = t_ArchivedAt t \<and> t_CreatedAt t' = t_CreatedAt t
       \<and> t_Version t' = t_Version t + 1 \<and> t_Metadata t' = t_Metadata t
       \<and> t_TraceID t' = t_TraceID t \<and> t_RetryCount t' = t_RetryCount t
       \<and> t_StateHistory t' = appendHistory (maxStateHistory s) (t_StateHistory t)
            \<lparr>rec_From = t_State t, rec_To = st, rec_Timestamp = now, rec_TriggeredBy = by,
             rec_Reason = re, rec_Attempt = nextAttempt (t_StateHistory t) st\<rparr>
       \<and> task_at view s' = (task_at view s)(tid \<mapsto> t')
       \<and> (t_ArchivedAt t = None \<longrightarrow> store_inv view db_ok s')"
proof -
  have ok: "db_ok (ets_db s)" and docs: "docs_ok view s" using inv by (auto simp: store_inv_def)
  obtain t s1 where t: "task_at view s tid = Some t"
    and put: "putLocked B s
        (t\<lparr>t_StateHistory := appendHistory (maxStateHistory s) (t_StateHistory t)
              \<lparr>rec_From = t_State t, rec_To = st, rec_Timestamp = now, rec_TriggeredBy = by,
               rec_Reason = re, rec_Attempt = nextAttempt (t_StateHistory t) st\<rparr>,
           t_State := st, t_StateUpdatedAt := now, t_UpdatedAt := now\<rparr>) = Inr (t', s1)"
    and s': "s' = moveInStateIndex s1 tid (t_State t) st (t_CreatedAt t')"
    using r getLocked_iff [OF ok]
    by (auto simp: UpdateStateWithRecord_def bindE_eq_Inr Let_def)
  have ID: "t_ID t = tid" using docs t by (rule docs_ok_ID)
  note p = putLocked_Inr [OF ok put]
  have "t_ArchivedAt t = None \<Longrightarrow> store_inv view db_ok s'"
    using state_change_unarchived [OF inv t put] s' ID by simp
  with p(1) p(4) s' ID t show ?thesis by auto
qed

lemma UpdateState_effect:
  assumes inv: "store_inv view db_ok s"
    and r: "UpdateState B now s tid st = Inr (t', s')"
  shows "\<exists>t. task_at view s tid = Some t \<and> t_State t' = st
       \<and> task_at view s' = (task_at view s)(tid \<mapsto> t')
       \<and> (t_ArchivedAt t = None \<longrightarrow> store_inv view db_ok s')"
proof -
  have ok: "db_ok (ets_db s)" and docs: "docs_ok view s" using inv by (auto simp: store_inv_def)
  obtain t s1 where t: "task_at view s tid = Some t"
    and put: "putLocked B s
        (t\<lparr>t_StateHistory := appendHistory (maxStateHistory s) (t_StateHistory t)
              \<lparr>rec_From = t_State t, rec_To = st, rec_Timestamp = now, rec_TriggeredBy = ''system'',
               rec_Reason = '''', rec_Attempt = 1\<rparr>,
           t_State := st, t_StateUpdatedAt := now, t_UpdatedAt := now\<rparr>) = Inr (t', s1)"
    and s': "s' = moveInStateIndex s1 tid (t_State t) st (t_CreatedAt t')"
    using r getLocked_iff [OF ok] by (auto simp: UpdateState_def bindE_eq_Inr Let_def)
  have ID: "t_ID t = tid" using docs t by (rule docs_ok_ID)
  note p = putLocked_Inr [OF ok put]
  have "t_ArchivedAt t = None \<Longrightarrow> store_inv view db_ok s'"
    using state_change_unarchived [OF inv t put] s' ID by simp
  with p(1) p(4) s' ID t show ?thesis by auto
qed

section \<open>Creation, replacement, deletion\<close>

lemma Create_effect:
  assumes inv: "store_inv view db_ok s" and r: "Create B now s task = Inr (t', s')"
  shows "t' = create_defaults now task \<and> t_ID task \<noteq> ''''
       \<and> task_at view s' = (task_at view s)(t_ID task \<mapsto> t')"
proof -
  have ok: "db_ok (ets_db s)" using inv by (simp add: store_inv_def)
  obtain d where d: "db_set B (ets_db s) (ets_prefix s @ t_ID t') (marshal_task t') = Inr d"
    and eq: "t' = create_defaults now task" "t_ID task \<noteq> ''''"
      "s' = addToStateIndex (s\<lparr>ets_db := d\<rparr>) (t_ID t') (t_State t') (t_CreatedAt t')"
    using r by (auto simp: Create_def Let_def bindE_eq_Inr split: if_splits)
  have "t_ID t' = t_ID task" using eq(1) by (simp add: create_defaults_def)
  with set_task_at [OF ok d] eq show ?thesis by simp
qed

lemma Create_inv:
  assumes inv: "store_inv view db_ok s" and r: "Create B now s task = Inr (t', s')"
    and new: "task_at view s (t_ID task) = None" and arch: "t_ArchivedAt task = None"
  shows "store_inv view db_ok s'"
proof -
  have ok: "db_ok (ets_db s)" and docs: "docs_ok view s"
    and idx: "idx_rel (task_at view s) (stateIndex s) {}"
    using inv by (auto simp: store_inv_def)
  obtain d where d: "db_set B (ets_db s) (ets_prefix s @ t_ID t') (marshal_task t') = Inr d"
    and eq: "t' = create_defaults now task"
      "s' = addToStateIndex (s\<lparr>ets_db := d\<rparr>) (t_ID t') (t_State t') (t_CreatedAt t')"
    using r by (auto simp: Create_def Let_def bindE_eq_Inr split: if_splits)
  have t': "t_ID t' = t_ID task" "t_ArchivedAt t' = None"
    using eq(1) arch by (simp_all add: create_defaults_def)
  have "idx_rel (task_at view s) (stateIndex s) {t_ID t'}"
    using idx by (rule idx_rel_leave_out) (use new t' in simp)
  then have "idx_rel (task_at view (s\<lparr>ets_db := d\<rparr>)) (stateIndex (s\<lparr>ets_db := d\<rparr>)) {t_ID t'}"
    using set_task_at [OF ok d] by (simp add: idx_rel_upd)
  from idx_rel_add [OF this _ _ _ refl refl, of t'] have "idx_rel (task_at view s') (stateIndex s') {}"
    using set_task_at [OF ok d] eq(2) t' by simp
  with set_task [OF ok d] docs eq show ?thesis by (simp add: store_inv_def)
qed

lemma putLocked_inv_same:
  assumes inv: "store_inv view db_ok s" and t: "task_at view s tid = Some t"
    and put: "putLocked B s u = Inr (u', s')"
    and u: "t_ID u = tid" "t_CreatedAt u = t_CreatedAt t" "t_State u = t_State t"
      "t_ArchivedAt u = t_ArchivedAt t"
  shows "store_inv view db_ok s' \<and> task_at view s' = (task_at view s)(tid \<mapsto> u')"
proof -
  have ok: "db_ok (ets_db s)" and docs: "docs_ok view s"
    and idx: "idx_rel (task_at view s) (stateIndex s) {}"
    using inv by (auto simp: store_inv_def)
  note p = putLocked_Inr [OF ok put]
  have "idx_rel ((task_at view s)(tid \<mapsto> u')) (stateIndex s) {}"
    by (rule idx_rel_refresh [OF idx t]) (use p(1) u in auto)
  with p docs u show ?thesis by (auto simp: store_inv_def)
qed

lemma UpdateResult_effect:
  assumes inv: "store_inv view db_ok s" and r: "UpdateResult B now s tid res = Inr (t', s')"
  shows "store_inv view db_ok s' \<and> t_Result t' = res \<and> task_at view s' = (task_at view s)(tid \<mapsto> t')"
proof -
  have ok: "db_ok (ets_db s)" and docs: "docs_ok view s" using inv by (auto simp: store_inv_def)
  obtain t where t: "task_at view s tid = Some t"
    and put: "putLocked B s (t\<lparr>t_Result := res, t_UpdatedAt := now\<rparr>) = Inr (t', s')"
    using r getLocked_iff [OF ok] by (auto simp: UpdateResult_def bindE_eq_Inr)
  have "t_ID t = tid" using docs t by (rule docs_ok_ID)
  with putLocked_inv_same [OF inv t put] putLocked_Inr(1) [OF ok put] show ?thesis by simp
qed

lemma Delete_effect:
  assumes inv: "store_inv view db_ok s" and r: "Delete B s tid = Inr s'"
  shows "store_inv view db_ok s' \<and> task_at view s' = (task_at view s)(tid := None)"
proof -
  have ok: "db_ok (ets_db s)" and docs: "docs_ok view s"
    and idx: "idx_rel (task_at view s) (stateIndex s) {}"
    using inv by (auto simp: store_inv_def)
  obtain d where d: "db_delete B (ets_db s) (ets_prefix s @ tid) = Inr d"
    and s': "s' = (case task_at view s tid of None \<Rightarrow> s\<lparr>ets_db := d\<rparr>
               | Some t \<Rightarrow> removeFromStateIndex (s\<lparr>ets_db := d\<rparr>) tid (t_State t))"
  proof (cases "task_at view s tid")
    case None
    then obtain e where "getLocked B s tid = Inl e" using getLocked_None [OF ok] by blast
    with r None that show ?thesis by (auto simp: Delete_def bindE_eq_Inr)
  next
    case (Some t)
    then have "getLocked B s tid = Inr t" using getLocked_iff [OF ok] by simp
    with r Some that show ?thesis by (auto simp: Delete_def bindE_eq_Inr)
  qed
  have at: "task_at view (s\<lparr>ets_db := d\<rparr>) = (task_at view s)(tid := None)"
    using delete_view [OF ok d] by (auto simp: task_at_def fun_eq_iff)
  have "docs_ok view (s\<lparr>ets_db := d\<rparr>)"
    using docs delete_view [OF ok d] by (auto simp: docs_ok_def)
  moreover have "idx_rel (task_at view s) (stateIndex s') {tid}"
  proof (cases "task_at view s tid")
    case None
    with s' have "stateIndex s' = stateIndex s" by simp
    then show ?thesis using idx None by (intro idx_rel_leave_out) simp_all
  next
    case (Some t)
    then show ?thesis
      using idx_rel_remove [of "task_at view s" "s\<lparr>ets_db := d\<rparr>" "{}" tid "t_State t"] idx s' by simp
  qed
  then have "idx_rel ((task_at view s)(tid := None)) (stateIndex s') {}"
    by (intro idx_rel_drop [of _ _ tid "{}"]) (simp_all add: idx_rel_upd)
  ultimately show ?thesis
    using at delete_ok [OF ok d] s' by (auto simp: store_inv_def split: option.splits)
qed

text \<open>
  \<^verbatim>\<open>Update\<close> succeeds only on the current version, and it raises the version, so a second writer
  holding the same version is refused.
\<close>

lemma Update_Inr:
  assumes ok: "db_ok (ets_db s)" and r: "Update B now s task = Inr (t', s')"
  shows "\<exists>old s1. task_at view s (t_ID task) = Some old \<and> t_Version task = t_Version old
       \<and> putLocked B s (task\<lparr>t_UpdatedAt := now\<rparr>) = Inr (t', s1)
       \<and> s' = (if t_ArchivedAt task \<noteq> None \<and> t_ArchivedAt old = None
               then removeFromStateIndex s1 (t_ID task) (t_State old) else s1)"
proof -
  obtain old s1 where g: "getLocked B s (t_ID task) = Inr old" "t_Version task = t_Version old"
    and put: "putLocked B s (task\<lparr>t_UpdatedAt := now\<rparr>) = Inr (t', s1)"
    and s': "s' = (if t_ArchivedAt t' \<noteq> None \<and> t_ArchivedAt old = None
               then removeFromStateIndex s1 (t_ID t') (t_State old) else s1)"
  proof -
    obtain old where g: "getLocked B s (t_ID task) = Inr old"
      and r': "(if t_Version task \<noteq> t_Version old
                then Inl (VersionConflict (t_ID task) (t_Version old) (t_Version task))
                else bindE (putLocked B s (task\<lparr>t_UpdatedAt := now\<rparr>)) (\<lambda>(task, s).
                  Inr (task, if t_ArchivedAt task \<noteq> None \<and> t_ArchivedAt old = None
                     then removeFromStateIndex s (t_ID task) (t_State old) else s))) = Inr (t', s')"
      using r by (auto simp: Update_def bindE_eq_Inr)
    then have v: "t_Version task = t_Version old" by (meson Inl_Inr_False)
    from r' v obtain s1 where "putLocked B s (task\<lparr>t_UpdatedAt := now\<rparr>) = Inr (t', s1)"
      and "s' = (if t_ArchivedAt t' \<noteq> None \<and> t_ArchivedAt old = None
               then removeFromStateIndex s1 (t_ID t') (t_State old) else s1)"
      by (simp add: bindE_eq_Inr) blast
    with g v show ?thesis by (rule that)
  qed
  have "t_ArchivedAt t' = t_ArchivedAt task" "t_ID t' = t_ID task"
    using putLocked_Inr(1) [OF ok put] by simp_all
  with g put s' show ?thesis using getLocked_iff [OF ok] by auto
qed

lemma Update_effect:
  assumes ok: "db_ok (ets_db s)" and r: "Update B now s task = Inr (t', s')"
  shows "task_at view s' = (task_at view s)(t_ID task \<mapsto> t') \<and> t_Version t' = t_Version task + 1
       \<and> t' = task\<lparr>t_UpdatedAt := now, t_Version := t_Version task + 1\<rparr> \<and> db_ok (ets_db s')"
proof -
  obtain old :: Task and s1 where put: "putLocked B s (task\<lparr>t_UpdatedAt := now\<rparr>) = Inr (t', s1)"
    and s': "s' = (if t_ArchivedAt task \<noteq> None \<and> t_ArchivedAt old = None
               then removeFromStateIndex s1 (t_ID task) (t_State old) else s1)"
    using Update_Inr [OF assms] by (elim exE conjE) (rule that, assumption+)
  show ?thesis using putLocked_Inr [OF ok put] s' by auto
qed

lemma Update_stale:
  assumes ok: "db_ok (ets_db s)" and r: "Update B now s task = Inr (t', s')"
    and same: "t_ID stale = t_ID task" "t_Version stale = t_Version task"
  shows "Update B now' s' stale =
           Inl (VersionConflict (t_ID task) (t_Version task + 1) (t_Version task))"
proof -
  note e = Update_effect [OF ok r]
  then have "getLocked B s' (t_ID stale) = Inr t'" using same getLocked_iff by simp
  then show ?thesis using e same by (simp add: Update_def)
qed

lemma Update_inv:
  assumes inv: "store_inv view db_ok s" and r: "Update B now s task = Inr (t', s')"
    and old: "task_at view s (t_ID task) = Some old"
    and keep: "t_State task = t_State old" "t_CreatedAt task = t_CreatedAt old"
    and arch: "t_ArchivedAt old \<noteq> None \<Longrightarrow> t_ArchivedAt task \<noteq> None"
  shows "store_inv view db_ok s'"
proof -
  have ok: "db_ok (ets_db s)" and docs: "docs_ok view s" using inv by (auto simp: store_inv_def)
  obtain s1 where put: "putLocked B s (task\<lparr>t_UpdatedAt := now\<rparr>) = Inr (t', s1)"
    and s': "s' = (if t_ArchivedAt task \<noteq> None \<and> t_ArchivedAt old = None
               then removeFromStateIndex s1 (t_ID task) (t_State old) else s1)"
    using Update_Inr [OF ok r] old by auto
  have fld: "t_ID (task\<lparr>t_UpdatedAt := now\<rparr>) = t_ID task" by simp
  show ?thesis
  proof (cases "t_ArchivedAt task = None")
    case True
    with arch have "t_ArchivedAt old = None" by blast
    with True state_change_unarchived [OF inv old put fld] keep s' show ?thesis
      by (simp add: moveInStateIndex_def)
  next
    case False
    have "store_inv view db_ok (removeFromStateIndex s1 (t_ID task) (t_State old))"
      using False state_change_archived [OF inv old put fld] keep by (simp add: moveInStateIndex_def)
    moreover have "store_inv view db_ok s1" if "t_ArchivedAt old \<noteq> None"
    proof -
      note p = putLocked_Inr [OF ok put]
      have "idx_rel (task_at view s) (stateIndex s) {t_ID task}"
        using inv that old by (auto simp: store_inv_def intro!: idx_rel_leave_out)
      then have "idx_rel (task_at view s1) (stateIndex s) {}"
        using p(1) p(4) False by (intro idx_rel_drop [of _ _ "t_ID task" "{}"]) (auto simp: idx_rel_upd)
      with p docs show ?thesis by (auto simp: store_inv_def)
    qed
    ultimately show ?thesis using s' False by auto
  qed
qed

end

end
