(* ===== verification/Task_Store_List.thy ===== *)
theory Task_Store_List
  imports Task_Store_Ops
begin

text \<open>
  The listing side of the task store: the index rebuilt at start-up is right, the listing by state
  reads the same tasks a scan of the database finds, and the counting shortcut agrees with it.
\<close>

lemma map_filter_map: "List.map_filter f (map g xs) = List.map_filter (\<lambda>x. f (g x)) xs"
  by (induction xs) (auto simp: List.map_filter_simps split: option.split)

lemma distinct_map_filter_inj:
  "distinct xs \<Longrightarrow> (\<And>x x' y. x \<in> set xs \<Longrightarrow> x' \<in> set xs \<Longrightarrow> f x = Some y \<Longrightarrow> f x' = Some y \<Longrightarrow> x = x')
     \<Longrightarrow> distinct (List.map_filter f xs)"
proof (induction xs)
  case (Cons x xs)
  then have "distinct (List.map_filter f xs)" by simp
  with Cons.prems show ?case
    by (cases "f x") (auto simp: List.map_filter_simps set_map_filter_iff)
qed (simp add: List.map_filter_simps)

lemma matchFilter_ids:
  "matchFilter t (flt\<lparr>f_State := '''', f_IncludeArchived := False\<rparr>) \<and> t_State t = f_State flt \<longleftrightarrow>
   matchFilter t (flt\<lparr>f_IncludeArchived := False\<rparr>)" if "f_State flt \<noteq> ''''"
  using that by (auto simp: matchFilter_iff)

context task_db
begin

section \<open>Rebuilding the index\<close>

lemma rebuild_fold:
  assumes ok: "db_ok (ets_db s)" and docs: "docs_ok view s"
    and "distinct tids" and "idx_rel (task_at view s) (stateIndex s) (set tids)"
  shows "\<exists>i. fold (\<lambda>key s. case readKey B (ets_db s) key of
                     None \<Rightarrow> s
                   | Some task \<Rightarrow>
                       if t_ArchivedAt task = None
                       then addToStateIndex s (t_ID task) (t_State task) (t_CreatedAt task)
                       else s) (map (\<lambda>tid. ets_prefix s @ tid) tids) s = s\<lparr>stateIndex := i\<rparr>
           \<and> idx_rel (task_at view s) i {}"
  using assms
proof (induction tids arbitrary: s)
  case Nil
  then show ?case by (auto intro!: exI [of _ "stateIndex s"])
next
  case (Cons tid tids)
  let ?T = "task_at view s"
  define s1 where "s1 = (case ?T tid of None \<Rightarrow> s
      | Some task \<Rightarrow> if t_ArchivedAt task = None
                     then addToStateIndex s (t_ID task) (t_State task) (t_CreatedAt task) else s)"
  have fr: "ets_db s1 = ets_db s" "ets_prefix s1 = ets_prefix s" "task_at view s1 = ?T"
      "docs_ok view s1" "\<exists>i. s1 = s\<lparr>stateIndex := i\<rparr>"
    using Cons.prems(2)
    by (auto simp: s1_def split: option.split intro!: exI [of _ "stateIndex s1"]
        simp: addToStateIndex_def Let_def)
  have "idx_rel ?T (stateIndex s1) (set tids)"
  proof (cases "\<exists>t. ?T tid = Some t \<and> t_ArchivedAt t = None")
    case True
    then obtain t where t: "?T tid = Some t" "t_ArchivedAt t = None" by blast
    have "t_ID t = tid" using Cons.prems(2) t(1) by (rule docs_ok_ID)
    with t Cons.prems idx_rel_add [of ?T s tid "set tids" t] show ?thesis
      by (simp add: s1_def)
  next
    case False
    then have "s1 = s" by (auto simp: s1_def split: option.split)
    with False Cons.prems show ?thesis by (auto intro: idx_rel_drop)
  qed
  then have "\<exists>i. fold (\<lambda>key s. case readKey B (ets_db s) key of
                     None \<Rightarrow> s
                   | Some task \<Rightarrow>
                       if t_ArchivedAt task = None
                       then addToStateIndex s (t_ID task) (t_State task) (t_CreatedAt task)
                       else s) (map (\<lambda>tid. ets_prefix s1 @ tid) tids) s1 = s1\<lparr>stateIndex := i\<rparr>
           \<and> idx_rel (task_at view s1) i {}"
    using Cons.IH [of s1] Cons.prems fr by simp
  moreover have "readKey B (ets_db s) (ets_prefix s @ tid) = ?T tid"
    using Cons.prems(1) by (rule readKey_task)
  ultimately show ?case using fr by (auto simp: s1_def)
qed

lemma idx_rel_empty: "(\<And>tid. T tid \<noteq> None \<Longrightarrow> tid \<in> X) \<Longrightarrow> idx_rel T Map.empty X"
  by (auto simp: idx_rel_def indexed_def idx_list_ok_def split: option.splits)

lemma keys_as_tids:
  assumes ok: "db_ok (ets_db s)" and l: "db_list B (ets_db s) (ets_prefix s) = Inr keys"
  obtains tids where "keys = map (\<lambda>tid. ets_prefix s @ tid) tids" "distinct tids"
    "set tids = {tid. view (ets_db s) (ets_prefix s @ tid) \<noteq> None}"
proof
  let ?tids = "map (drop (length (ets_prefix s))) keys"
  have pre: "\<exists>tid. key = ets_prefix s @ tid" if "key \<in> set keys" for key
    using that list_set [OF ok l] by (auto simp: prefix_def)
  then have "(\<lambda>key. ets_prefix s @ drop (length (ets_prefix s)) key) key = key" if "key \<in> set keys" for key
    using that by force
  then show eq: "keys = map (\<lambda>tid. ets_prefix s @ tid) ?tids"
    by (simp add: map_idI comp_def)
  show "distinct ?tids" using list_distinct [OF ok l] eq distinct_map by metis
  show "set ?tids = {tid. view (ets_db s) (ets_prefix s @ tid) \<noteq> None}"
  proof (intro set_eqI iffI)
    fix tid assume "tid \<in> set ?tids"
    then show "tid \<in> {tid. view (ets_db s) (ets_prefix s @ tid) \<noteq> None}"
      using list_set [OF ok l] by (auto simp: prefix_def)
  next
    fix tid assume "tid \<in> {tid. view (ets_db s) (ets_prefix s @ tid) \<noteq> None}"
    then have "ets_prefix s @ tid \<in> set keys" using list_set [OF ok l] by simp
    then have "drop (length (ets_prefix s)) (ets_prefix s @ tid) \<in> set ?tids"
      by (simp only: list.set_map) (rule imageI)
    then show "tid \<in> set ?tids" by simp
  qed
qed

lemma rebuild_inv:
  assumes ok: "db_ok (ets_db s)" and docs: "docs_ok view s"
    and l: "db_list B (ets_db s) (ets_prefix s) = Inr keys" and e: "stateIndex s = Map.empty"
  shows "store_inv view db_ok (rebuildStateIndex B s) \<and> ets_db (rebuildStateIndex B s) = ets_db s"
proof (rule keys_as_tids [OF ok l])
  fix tids
  assume keys: "keys = map (\<lambda>tid. ets_prefix s @ tid) tids" and d: "distinct tids"
    and set: "set tids = {tid. view (ets_db s) (ets_prefix s @ tid) \<noteq> None}"
  have "idx_rel (task_at view s) (stateIndex s) (set tids)"
    unfolding e by (rule idx_rel_empty) (auto simp: set task_at_def split: option.splits)
  from rebuild_fold [OF ok docs d this] obtain i where
    "rebuildStateIndex B s = s\<lparr>stateIndex := i\<rparr>" "idx_rel (task_at view s) i {}"
    using l keys by (auto simp: rebuildStateIndex_def)
  with ok docs show ?thesis by (simp add: store_inv_def)
qed

section \<open>Listing by state\<close>

abbreviation entry_task :: "'d engineTaskStore \<Rightarrow> indexEntry \<Rightarrow> Task" where
  "entry_task s e \<equiv> the (task_at view s (ie_id e))"

lemma entry_stored:
  assumes "store_inv view db_ok s" and "e \<in> set (idx_entries (stateIndex s) st)"
  shows "task_at view s (ie_id e) = Some (entry_task s e)" and "t_State (entry_task s e) = st"
    and "t_ArchivedAt (entry_task s e) = None" and "t_CreatedAt (entry_task s e) = ie_createdAt e"
    and "t_ID (entry_task s e) = ie_id e"
proof -
  have "indexed (task_at view s) {} st e"
    using assms by (auto simp: store_inv_def idx_rel_def)
  then obtain t where t: "task_at view s (ie_id e) = Some t" "t_State t = st"
    "t_ArchivedAt t = None" "t_CreatedAt t = ie_createdAt e"
    by (auto simp: indexed_def split: option.splits)
  have "t_ID t = ie_id e" using assms t(1) by (auto simp: store_inv_def intro: docs_ok_ID)
  with t show "task_at view s (ie_id e) = Some (entry_task s e)" "t_State (entry_task s e) = st"
    "t_ArchivedAt (entry_task s e) = None" "t_CreatedAt (entry_task s e) = ie_createdAt e"
    "t_ID (entry_task s e) = ie_id e" by simp_all
qed

lemma state_tasks:
  fixes st :: TaskState
  assumes inv: "store_inv view db_ok s"
  defines "ts \<equiv> map (entry_task s) (idx_entries (stateIndex s) st)"
  shows "distinct ts" and "sorted (map (\<lambda>t. - t_CreatedAt t) ts)"
    and "t \<in> set ts \<longleftrightarrow> (\<exists>tid. task_at view s tid = Some t) \<and> t_State t = st \<and> t_ArchivedAt t = None"
proof -
  let ?es = "idx_entries (stateIndex s) st"
  note st = entry_stored [OF inv, of _ st]
  have ok: "idx_list_ok ?es" and mem: "\<And>e. e \<in> set ?es \<longleftrightarrow> indexed (task_at view s) {} st e"
    using inv by (auto simp: store_inv_def idx_rel_def)
  have "map t_ID ts = map ie_id ?es" using st(5) by (simp add: ts_def)
  then show "distinct ts" using ok by (metis distinct_map idx_list_ok_def)
  have "map (\<lambda>t. - t_CreatedAt t) ts = map (\<lambda>e. - ie_createdAt e) ?es" using st(4) by (simp add: ts_def)
  then show "sorted (map (\<lambda>t. - t_CreatedAt t) ts)" using ok by (metis idx_list_ok_def)
  show "t \<in> set ts \<longleftrightarrow> (\<exists>tid. task_at view s tid = Some t) \<and> t_State t = st \<and> t_ArchivedAt t = None"
  proof
    assume "t \<in> set ts"
    then show "(\<exists>tid. task_at view s tid = Some t) \<and> t_State t = st \<and> t_ArchivedAt t = None"
      using st by (auto simp: ts_def)
  next
    assume "(\<exists>tid. task_at view s tid = Some t) \<and> t_State t = st \<and> t_ArchivedAt t = None"
    then obtain tid where t: "task_at view s tid = Some t" "t_State t = st" "t_ArchivedAt t = None"
      by blast
    let ?e = "\<lparr>ie_id = tid, ie_createdAt = t_CreatedAt t\<rparr>"
    have "?e \<in> set ?es" using t by (simp add: mem indexed_def)
    then have "entry_task s ?e \<in> set ts" unfolding ts_def list.set_map by (rule imageI)
    then show "t \<in> set ts" using t by simp
  qed
qed

text \<open>The page is cut before the filter runs, over every unarchived task of the state.\<close>

lemma listByState_page:
  assumes inv: "store_inv view db_ok s" and off: "0 \<le> f_Offset flt"
  shows "listByState B s flt =
    Inr (filter (\<lambda>t. matchFilter t flt)
      (let ts = map (entry_task s) (idx_entries (stateIndex s) (f_State flt));
           rest = drop (nat (f_Offset flt)) ts
       in if f_Limit flt > 0 then take (nat (f_Limit flt)) rest else rest))"
proof -
  let ?es = "idx_entries (stateIndex s) (f_State flt)"
  have ok: "db_ok (ets_db s)" using inv by (simp add: store_inv_def)
  have read: "List.map_filter (\<lambda>tid. readKey B (ets_db s) (ets_prefix s @ tid)) (map ie_id es) =
      map (entry_task s) es" if "set es \<subseteq> set ?es" for es
    unfolding readKey_task [OF ok] map_filter_map
    using that by (intro map_filter_total) (auto intro: entry_stored(1) [OF inv])
  have sub: "set (take n (drop m ?es)) \<subseteq> set ?es" for n m
    by (meson set_drop_subset set_take_subset subset_trans)
  show ?thesis
  proof (cases "f_Offset flt > int (length ?es)")
    case True
    then have "drop (nat (f_Offset flt)) ?es = []" by simp
    with True show ?thesis by (auto simp: listByState_def Let_def drop_map)
  next
    case False
    have cut: "take (nat ((if f_Limit flt > 0 \<and> f_Offset flt + f_Limit flt < int (length ?es)
           then f_Offset flt + f_Limit flt else int (length ?es)) - f_Offset flt)) (drop (nat (f_Offset flt)) ?es)
         = (if f_Limit flt > 0 then take (nat (f_Limit flt)) (drop (nat (f_Offset flt)) ?es)
            else drop (nat (f_Offset flt)) ?es)"
    proof (cases "f_Limit flt > 0 \<and> f_Offset flt + f_Limit flt < int (length ?es)")
      case True
      then show ?thesis by simp
    next
      case no: False
      have n: "nat (int (length ?es) - f_Offset flt) = length (drop (nat (f_Offset flt)) ?es)"
        using off by (simp add: nat_diff_distrib')
      have "take (nat (f_Limit flt)) (drop (nat (f_Offset flt)) ?es) = drop (nat (f_Offset flt)) ?es"
        if "f_Limit flt > 0" using no that by (intro take_all) auto
      with no n show ?thesis by auto
    qed
    have "listByState B s flt = Inr (filter (\<lambda>t. matchFilter t flt)
        (map (entry_task s) (take (nat ((if f_Limit flt > 0 \<and> f_Offset flt + f_Limit flt < int (length ?es)
           then f_Offset flt + f_Limit flt else int (length ?es)) - f_Offset flt)) (drop (nat (f_Offset flt)) ?es))))"
      using False off read [OF sub] by (auto simp: listByState_def Let_def)
    then show ?thesis unfolding cut by (simp add: Let_def drop_map take_map)
  qed
qed

text \<open>
  Without paging the listing by state is the scan restricted to the state, newest first. It never
  contains an archived task, whatever the filter says.
\<close>

lemma listByState_all:
  assumes inv: "store_inv view db_ok s" and "f_Offset flt = 0" "f_Limit flt \<le> 0" "f_State flt \<noteq> ''''"
  shows "\<exists>ts. listByState B s flt = Inr ts \<and> distinct ts \<and> sorted (map (\<lambda>t. - t_CreatedAt t) ts)
      \<and> (\<forall>t. t \<in> set ts \<longleftrightarrow> (\<exists>tid. task_at view s tid = Some t)
            \<and> matchFilter t (flt\<lparr>f_IncludeArchived := False\<rparr>))"
proof -
  let ?ts = "map (entry_task s) (idx_entries (stateIndex s) (f_State flt))"
  note st = state_tasks [OF inv, where st = "f_State flt"]
  have "listByState B s flt = Inr (filter (\<lambda>t. matchFilter t flt) ?ts)"
    using assms listByState_page [OF inv, of flt] by (simp add: Let_def)
  moreover have "sorted (map (\<lambda>t. - t_CreatedAt t) (filter (\<lambda>t. matchFilter t flt) ?ts))"
    using st(2) by (rule sorted_filter)
  moreover have "t \<in> set (filter (\<lambda>t. matchFilter t flt) ?ts) \<longleftrightarrow>
      (\<exists>tid. task_at view s tid = Some t) \<and> matchFilter t (flt\<lparr>f_IncludeArchived := False\<rparr>)" for t
    using st(3) [of t] assms by (auto simp: matchFilter_iff)
  ultimately show ?thesis using st(1) by (intro exI conjI allI) auto
qed

lemma scan_tasks:
  assumes inv: "store_inv view db_ok s"
    and l: "db_list B (ets_db s) (ets_prefix s) = Inr keys"
  defines "ts \<equiv> List.map_filter (readKey B (ets_db s)) keys"
  shows "distinct ts" and "t \<in> set ts \<longleftrightarrow> (\<exists>tid. task_at view s tid = Some t)"
proof -
  have ok: "db_ok (ets_db s)" and docs: "docs_ok view s" using inv by (auto simp: store_inv_def)
  obtain tids where keys: "keys = map (\<lambda>tid. ets_prefix s @ tid) tids" and d: "distinct tids"
    and set: "set tids = {tid. view (ets_db s) (ets_prefix s @ tid) \<noteq> None}"
    by (rule keys_as_tids [OF ok l])
  have rd: "readKey B (ets_db s) (ets_prefix s @ tid) = task_at view s tid" for tid
    using ok by (rule readKey_task)
  have inj: "x = x'" if "x \<in> set keys" "x' \<in> set keys" "readKey B (ets_db s) x = Some y"
    "readKey B (ets_db s) x' = Some y" for x x' y
    using that keys rd by auto (metis docs_ok_ID [OF docs])
  show "distinct ts"
    unfolding ts_def by (rule distinct_map_filter_inj [OF list_distinct [OF ok l] inj])
  show "t \<in> set ts \<longleftrightarrow> (\<exists>tid. task_at view s tid = Some t)"
    unfolding ts_def set_map_filter_iff
    by (auto simp: keys rd set task_at_def split: option.splits)
qed

lemma listByState_scan:
  assumes inv: "store_inv view db_ok s"
    and "f_Offset flt = 0" "f_Limit flt \<le> 0" "f_State flt \<noteq> ''''" "\<not> f_IncludeArchived flt"
    and scan: "Store_List B tie s (flt\<lparr>f_State := ''''\<rparr>) = Inr us"
  shows "\<exists>ts. Store_List B tie' s flt = Inr ts
       \<and> mset ts = mset (filter (\<lambda>t. t_State t = f_State flt) us)
       \<and> sorted (map (\<lambda>t. - t_CreatedAt t) ts) \<and> sorted (map (\<lambda>t. - t_CreatedAt t) us)"
proof -
  from listByState_all [OF inv assms(2-4)] obtain ts where
    ts: "listByState B s flt = Inr ts" "distinct ts" "sorted (map (\<lambda>t. - t_CreatedAt t) ts)"
      "\<And>t. t \<in> set ts \<longleftrightarrow> (\<exists>tid. task_at view s tid = Some t)
            \<and> matchFilter t (flt\<lparr>f_IncludeArchived := False\<rparr>)" by blast
  from scan assms(2,3) obtain keys where l: "db_list B (ets_db s) (ets_prefix s) = Inr keys"
    and us: "us = go_sort_slice tie (\<lambda>t. - t_CreatedAt t)
        (filter (\<lambda>t. matchFilter t (flt\<lparr>f_State := ''''\<rparr>)) (List.map_filter (readKey B (ets_db s)) keys))"
    by (auto simp: Store_List_def bindE_eq_Inr paginate_def Let_def)
  note sc = scan_tasks [OF inv l]
  have "mset us = mset (filter (\<lambda>t. matchFilter t (flt\<lparr>f_State := ''''\<rparr>))
      (List.map_filter (readKey B (ets_db s)) keys))"
    unfolding us by simp
  then have dus: "distinct us" using sc(1) by (metis distinct_filter mset_eq_imp_distinct_iff)
  have "set ts = set (filter (\<lambda>t. t_State t = f_State flt) us)"
    using ts(4) sc(2) assms(4,5) unfolding us by (auto simp: matchFilter_iff)
  then have "mset ts = mset (filter (\<lambda>t. t_State t = f_State flt) us)"
    using ts(2) dus by (metis distinct_filter set_eq_iff_mset_eq_distinct)
  moreover have "sorted (map (\<lambda>t. - t_CreatedAt t) us)" unfolding us by simp
  ultimately show ?thesis using ts(1,3) assms(4) by (auto simp: Store_List_def)
qed

text \<open>The shortcut of \<^verbatim>\<open>Count\<close> is the length of the unpaged listing.\<close>

lemma Count_shortcut:
  assumes inv: "store_inv view db_ok s"
    and "f_State flt \<noteq> ''''" "\<not> f_IncludeArchived flt" "f_Priority flt = None"
      "f_CreatedAfter flt = None" "f_CreatedBefore flt = None"
  shows "\<exists>ts. Store_List B tie s (flt\<lparr>f_Offset := 0, f_Limit := 0\<rparr>) = Inr ts
       \<and> Count B tie s flt = Inr (int (length ts))"
proof -
  let ?f = "flt\<lparr>f_Offset := 0, f_Limit := 0\<rparr>"
  let ?ts = "map (entry_task s) (idx_entries (stateIndex s) (f_State flt))"
  have "matchFilter t ?f" if "t \<in> set ?ts" for t
    using that state_tasks(3) [OF inv, where st = "f_State flt" and t = t] assms by (auto simp: matchFilter_iff)
  then have "filter (\<lambda>t. matchFilter t ?f) ?ts = ?ts" by (simp add: filter_True)
  moreover have "listByState B s ?f = Inr (filter (\<lambda>t. matchFilter t ?f) ?ts)"
    using listByState_page [OF inv, of ?f] by (simp add: Let_def)
  ultimately show ?thesis using assms by (simp add: Store_List_def Count_def)
qed

end

section \<open>The store on the in-memory backend\<close>

interpretation ms: task_db "memoryDB rank" mem_view mem_ok
  by unfold_locales

abbreviation mem_inv :: "json MemoryDB engineTaskStore \<Rightarrow> bool" where
  "mem_inv \<equiv> store_inv mem_view mem_ok"

abbreviation mem_task :: "json MemoryDB engineTaskStore \<Rightarrow> string \<Rightarrow> Task option" where
  "mem_task \<equiv> task_at mem_view"

lemma mem_list_total: "\<exists>keys. db_list (memoryDB rank) d p = Inr keys"
  by (simp add: memoryDB_simps)

lemma mem_put_total: "\<exists>t' s'. putLocked (memoryDB rank) s t = Inr (t', s')"
  by (simp add: putLocked_def memoryDB_simps Let_def)

end
