(* ===== verification/SM_Config.thy ===== *)
theory SM_Config
  imports Nuts_Values
begin

text \<open>
  The state machine configuration (\<^verbatim>\<open>src/pkg/task/sm_factory.go\<close>): its records, the two queries
  the engine asks of it, and its loading from the decoded configuration file.
\<close>

record StateConfig =
  sc_Description :: string
  sc_AutoRetry :: bool
  sc_MaxRetries :: int
  sc_RetryToState :: string

record TransitionConfig =
  tc_From :: string
  tc_To :: string
  tc_Allowed :: bool

record StateMachineConfig =
  smc_Name :: string
  smc_InitialState :: string
  smc_TerminalStates :: "string list"
  smc_States :: "(string \<times> StateConfig) list"
  smc_Transitions :: "TransitionConfig list"
  smc_PayloadBuilder :: string
  smc_MaxProcessTime :: string

fun isTerminalLoop :: "string list \<Rightarrow> string \<Rightarrow> bool" where
  "isTerminalLoop [] state = False"
| "isTerminalLoop (terminal # rest) state = (if terminal = state then True else isTerminalLoop rest state)"

definition IsTerminalState :: "StateMachineConfig \<Rightarrow> string \<Rightarrow> bool" where
  "IsTerminalState cfg state = isTerminalLoop (smc_TerminalStates cfg) state"

fun isAllowedLoop :: "TransitionConfig list \<Rightarrow> string \<Rightarrow> string \<Rightarrow> bool" where
  "isAllowedLoop [] from to = False"
| "isAllowedLoop (t # ts) from to =
     (if tc_From t = from \<and> tc_To t = to \<and> tc_Allowed t then True else isAllowedLoop ts from to)"

definition IsTransitionAllowed :: "StateMachineConfig \<Rightarrow> string \<Rightarrow> string \<Rightarrow> bool" where
  "IsTransitionAllowed cfg from to = isAllowedLoop (smc_Transitions cfg) from to"

lemma isTerminalLoop_iff: "isTerminalLoop ts st \<longleftrightarrow> st \<in> set ts"
  by (induction ts) auto

lemma isAllowedLoop_iff:
  "isAllowedLoop ts from to \<longleftrightarrow> (\<exists>t \<in> set ts. tc_From t = from \<and> tc_To t = to \<and> tc_Allowed t)"
  by (induction ts) auto

lemma IsTerminalState_iff: "IsTerminalState cfg st \<longleftrightarrow> st \<in> set (smc_TerminalStates cfg)"
  by (simp add: IsTerminalState_def isTerminalLoop_iff)

lemma IsTransitionAllowed_iff:
  "IsTransitionAllowed cfg from to \<longleftrightarrow>
     (\<exists>t \<in> set (smc_Transitions cfg). tc_From t = from \<and> tc_To t = to \<and> tc_Allowed t)"
  by (simp add: IsTransitionAllowed_def isAllowedLoop_iff)

section \<open>Loading\<close>

definition defaultStateMachineConfig :: StateMachineConfig where
  "defaultStateMachineConfig =
     \<lparr>smc_Name = ''task_lifecycle'', smc_InitialState = ''pending'',
      smc_TerminalStates = [''completed''],
      smc_States =
        [(''pending'', \<lparr>sc_Description = '''', sc_AutoRetry = False, sc_MaxRetries = 0,
                       sc_RetryToState = ''''\<rparr>),
         (''completed'', \<lparr>sc_Description = '''', sc_AutoRetry = False, sc_MaxRetries = 0,
                         sc_RetryToState = ''''\<rparr>)],
      smc_Transitions = [\<lparr>tc_From = ''pending'', tc_To = ''completed'', tc_Allowed = True\<rparr>],
      smc_PayloadBuilder = '''', smc_MaxProcessTime = ''''\<rparr>"

definition loadStates :: "gomap \<Rightarrow> (string \<times> StateConfig) list" where
  "loadStates smMap =
     (case map_of smMap ''states'' of
        Some (VMap statesMap) \<Rightarrow>
          List.map_filter (\<lambda>(name, cfg). case cfg of
             VMap stateCfg \<Rightarrow>
               Some (name, \<lparr>sc_Description = getStringFromMap stateCfg ''description'' '''',
                           sc_AutoRetry = getBoolFromMap stateCfg ''auto_retry'' False,
                           sc_MaxRetries = getIntFromMap stateCfg ''max_retries'' 0,
                           sc_RetryToState = getStringFromMap stateCfg ''retry_to_state'' ''''\<rparr>)
           | _ \<Rightarrow> None) statesMap
      | _ \<Rightarrow> [])"

definition loadTransitions :: "gomap \<Rightarrow> TransitionConfig list" where
  "loadTransitions smMap =
     (case map_of smMap ''transitions'' of
        Some (VSlice ts) \<Rightarrow>
          List.map_filter (\<lambda>t. case t of
             VMap tMap \<Rightarrow>
               (let transition = \<lparr>tc_From = getStringFromMap tMap ''from'' '''',
                                  tc_To = getStringFromMap tMap ''to'' '''',
                                  tc_Allowed = getBoolFromMap tMap ''allowed'' True\<rparr>
                in if tc_From transition \<noteq> '''' \<and> tc_To transition \<noteq> ''''
                   then Some transition else None)
           | _ \<Rightarrow> None) ts
      | _ \<Rightarrow> [])"

text \<open>\<^verbatim>\<open>LoadStateMachineConfig\<close>: the argument is \<^verbatim>\<open>cfg.GetMap("statemachine")\<close>, nil when absent.\<close>

definition LoadStateMachineConfig :: "gomap option \<Rightarrow> StateMachineConfig" where
  "LoadStateMachineConfig smMapOpt =
     (case smMapOpt of
        None \<Rightarrow> defaultStateMachineConfig
      | Some smMap \<Rightarrow>
          \<lparr>smc_Name = getStringFromMap smMap ''name'' ''task_lifecycle'',
           smc_InitialState = getStringFromMap smMap ''initial_state'' ''pending'',
           smc_TerminalStates = getStringSliceFromMap smMap ''terminal_states'',
           smc_States = loadStates smMap,
           smc_Transitions = loadTransitions smMap,
           smc_PayloadBuilder = getStringFromMap smMap ''payload_builder'' ''default'',
           smc_MaxProcessTime = ''''\<rparr>)"

text \<open>A loaded transition names both of its ends.\<close>

lemma loadTransitions_named:
  "t \<in> set (loadTransitions m) \<Longrightarrow> tc_From t \<noteq> '''' \<and> tc_To t \<noteq> ''''"
  by (auto simp: loadTransitions_def List.map_filter_def Let_def
      split: option.splits govalue.splits if_splits)

section \<open>Example configurations\<close>

definition exampleState :: StateConfig where
  "exampleState = \<lparr>sc_Description = [], sc_AutoRetry = False, sc_MaxRetries = 0, sc_RetryToState = ''''\<rparr>"

definition exampleConfig :: "string list \<Rightarrow> (string \<times> string) list \<Rightarrow> StateMachineConfig" where
  "exampleConfig ss ts =
     \<lparr>smc_Name = ''example'', smc_InitialState = ''a'', smc_TerminalStates = [''t''],
      smc_States = map (\<lambda>s. (s, exampleState)) ss,
      smc_Transitions = map (\<lambda>(a, b). \<lparr>tc_From = a, tc_To = b, tc_Allowed = True\<rparr>) ts,
      smc_PayloadBuilder = [], smc_MaxProcessTime = []\<rparr>"

definition diamond :: StateMachineConfig where
  "diamond = exampleConfig [''a'', ''b'', ''c'', ''t''] [(''a'',''b''), (''a'',''c''), (''b'',''t''), (''c'',''t'')]"

end
