(* ===== verification/Payload_Builder.thy ===== *)
theory Payload_Builder
  imports Nuts_Event
begin

text \<open>
  The payload builders of \<^verbatim>\<open>src/pkg/task/payload_builder.go\<close>: they turn the triggering event into the
  string parameters of a task. The library's renderings that are not plain decimal or boolean
  (\<^verbatim>\<open>FormatFloat\<close>, \<^verbatim>\<open>%v\<close> of a composite value, RFC 3339) are fields of a \<open>gofmt\<close> parameter.
\<close>

record gofmt =
  fmt_float :: "rat \<Rightarrow> string"
  fmt_v :: "govalue \<Rightarrow> string"
  fmt_rfc3339 :: "gotime \<Rightarrow> string"

text \<open>\<^verbatim>\<open>Time.Unix()\<close>: seconds since 1970, where the instant 0 is the first of January of year 1.\<close>

definition unixSeconds :: "gotime \<Rightarrow> int" where
  "unixSeconds t = t div second - 62135596800"

definition formatBool :: "bool \<Rightarrow> string" where
  "formatBool b = (if b then ''true'' else ''false'')"

definition stringValue :: "gofmt \<Rightarrow> govalue \<Rightarrow> string" where
  "stringValue F v =
     (case v of
        VString s \<Rightarrow> s
      | VInt64 n \<Rightarrow> show_int n
      | VFloat q \<Rightarrow> fmt_float F q
      | VBool b \<Rightarrow> formatBool b
      | _ \<Rightarrow> fmt_v F v)"

definition toStringMap :: "gofmt \<Rightarrow> gomap \<Rightarrow> (string \<rightharpoonup> string)" where
  "toStringMap F m = (\<lambda>k. map_option (stringValue F) (map_of m k))"

text \<open>A builder as the factory holds it; \<open>now\<close> is the clock reading of the timestamp builder.\<close>

type_synonym build_fun = "gofmt \<Rightarrow> gotime \<Rightarrow> Event option \<Rightarrow> string \<Rightarrow> string + (string \<rightharpoonup> string)"

record PayloadBuilder =
  pb_Name :: string
  pb_Build :: build_fun

definition Default_Build :: build_fun where
  "Default_Build F now event state =
     (case event of None \<Rightarrow> Inr Map.empty | Some e \<Rightarrow> Inr (toStringMap F (ToPayloadMap e)))"

definition copyField :: "Event \<Rightarrow> string \<Rightarrow> string \<Rightarrow> (string \<rightharpoonup> string) \<Rightarrow> (string \<rightharpoonup> string)" where
  "copyField e key param params =
     (case GetField e key of Some (VString s) \<Rightarrow> params(param \<mapsto> s) | _ \<Rightarrow> params)"

definition Container_Build :: build_fun where
  "Container_Build F now event state =
     (case event of
        None \<Rightarrow> Inr Map.empty
      | Some e \<Rightarrow>
          Inr (copyField e ''pod_id'' ''pod_id''
              (copyField e ''pod_uid'' ''pod_uid''
              (copyField e ''pod_namespace'' ''namespace''
              (copyField e ''pod_name'' ''container_name'' Map.empty)))))"

definition NRIEvent_Build :: build_fun where
  "NRIEvent_Build F now event state =
     (case event of
        None \<Rightarrow> Inr Map.empty
      | Some e \<Rightarrow>
          Inr ((toStringMap F (ToPayloadMap e))
                 (''event_type'' \<mapsto> ev_Type e, ''event_source'' \<mapsto> ev_Source e, ''event_id'' \<mapsto> ev_ID e)))"

definition Timestamp_Build :: build_fun where
  "Timestamp_Build F now event state =
     (case event of
        None \<Rightarrow> Inr [''timestamp'' \<mapsto> show_int (unixSeconds now), ''timestamp_human'' \<mapsto> fmt_rfc3339 F now]
      | Some e \<Rightarrow>
          Inr ((toStringMap F (ToPayloadMap e))
                 (''timestamp'' \<mapsto> show_int (unixSeconds now),
                  ''timestamp_human'' \<mapsto> fmt_rfc3339 F now,
                  ''event_timestamp'' \<mapsto> show_int (unixSeconds (ev_Timestamp e)),
                  ''event_timestamp_human'' \<mapsto> fmt_rfc3339 F (ev_Timestamp e))))"

definition DefaultPayloadBuilder :: PayloadBuilder where
  "DefaultPayloadBuilder = \<lparr>pb_Name = ''default'', pb_Build = Default_Build\<rparr>"

definition ContainerPayloadBuilder :: PayloadBuilder where
  "ContainerPayloadBuilder = \<lparr>pb_Name = ''container'', pb_Build = Container_Build\<rparr>"

definition NRIEventPayloadBuilder :: PayloadBuilder where
  "NRIEventPayloadBuilder = \<lparr>pb_Name = ''nri'', pb_Build = NRIEvent_Build\<rparr>"

definition TimestampPayloadBuilder :: PayloadBuilder where
  "TimestampPayloadBuilder = \<lparr>pb_Name = ''timestamp'', pb_Build = Timestamp_Build\<rparr>"

section \<open>The factory\<close>

type_synonym PayloadBuilderFactory = "string \<rightharpoonup> PayloadBuilder"

datatype builder_error = AlreadyRegistered string | BuilderNotFound string

definition PBFactory_Register ::
  "PayloadBuilderFactory \<Rightarrow> PayloadBuilder \<Rightarrow> builder_error + PayloadBuilderFactory" where
  "PBFactory_Register f b =
     (if f (pb_Name b) \<noteq> None then Inl (AlreadyRegistered (pb_Name b)) else Inr (f(pb_Name b \<mapsto> b)))"

definition PBFactory_Get :: "PayloadBuilderFactory \<Rightarrow> string \<Rightarrow> builder_error + PayloadBuilder" where
  "PBFactory_Get f name =
     (case f name of None \<Rightarrow> Inl (BuilderNotFound name) | Some b \<Rightarrow> Inr b)"

definition NewPayloadBuilderFactory :: "builder_error + PayloadBuilderFactory" where
  "NewPayloadBuilderFactory =
     bindE (PBFactory_Register Map.empty DefaultPayloadBuilder) (\<lambda>f.
     bindE (PBFactory_Register f ContainerPayloadBuilder) (\<lambda>f.
     bindE (PBFactory_Register f NRIEventPayloadBuilder) (\<lambda>f.
     PBFactory_Register f TimestampPayloadBuilder)))"

lemmas builder_defs = DefaultPayloadBuilder_def ContainerPayloadBuilder_def NRIEventPayloadBuilder_def
  TimestampPayloadBuilder_def

text \<open>The constructor of the factory registers four builders and cannot panic.\<close>

lemma NewPayloadBuilderFactory_Inr:
  "NewPayloadBuilderFactory =
     Inr [''default'' \<mapsto> DefaultPayloadBuilder, ''container'' \<mapsto> ContainerPayloadBuilder,
          ''nri'' \<mapsto> NRIEventPayloadBuilder, ''timestamp'' \<mapsto> TimestampPayloadBuilder]"
  by (simp add: NewPayloadBuilderFactory_def PBFactory_Register_def builder_defs)

text \<open>Every registered builder is found under its own name, and no registration replaces another.\<close>

lemma PBFactory_Get_Register:
  "PBFactory_Register f b = Inr f' \<Longrightarrow>
     PBFactory_Get f' name = (if name = pb_Name b then Inr b else PBFactory_Get f name)"
  by (auto simp: PBFactory_Register_def PBFactory_Get_def split: if_splits)

text \<open>The four builders of the package never fail.\<close>

lemma standard_builders_total:
  "b \<in> {DefaultPayloadBuilder, ContainerPayloadBuilder, NRIEventPayloadBuilder, TimestampPayloadBuilder}
     \<Longrightarrow> \<exists>m. pb_Build b F now ev st = Inr m"
  by (auto simp: builder_defs Default_Build_def Container_Build_def NRIEvent_Build_def
      Timestamp_Build_def split: option.split)

text \<open>
  The NRI builder's own keys win over payload entries of the same name, and every other
  key of the parameters is the rendering of the event field of that name.
\<close>

lemma NRIEvent_Build_keys:
  assumes "ev_TypedPayload e = Some tp" "readable tp key"
  shows "\<exists>m. NRIEvent_Build F now (Some e) st = Inr m
     \<and> m key = (if key = ''event_type'' then Some (ev_Type e)
                else if key = ''event_source'' then Some (ev_Source e)
                else if key = ''event_id'' then Some (ev_ID e)
                else map_option (stringValue F) (GetField e key))"
  using typed_views_agree [OF assms] by (simp add: NRIEvent_Build_def toStringMap_def)

end
