(* ===== verification/Eventlog_Model.thy ===== *)
theory Eventlog_Model
  imports Nuts_Values
begin

text \<open>
  The records of the event log (\<^verbatim>\<open>src/pkg/eventlog/interface.go\<close>): entries, query filters and trace
  timelines. A stage is its string.
\<close>

type_synonym Stage = string

abbreviation StageDataSource :: Stage where "StageDataSource \<equiv> ''datasource''"
abbreviation StagePolicyMatch :: Stage where "StagePolicyMatch \<equiv> ''policy_match''"
abbreviation StageTaskCreate :: Stage where "StageTaskCreate \<equiv> ''task_create''"
abbreviation StageTaskState :: Stage where "StageTaskState \<equiv> ''task_state''"
abbreviation StageCommand :: Stage where "StageCommand \<equiv> ''command''"
abbreviation StageTimeout :: Stage where "StageTimeout \<equiv> ''timeout''"
abbreviation StageArchive :: Stage where "StageArchive \<equiv> ''archive''"

record EventLogEntry =
  le_ID :: string
  le_TraceID :: string
  le_EventID :: string
  le_Stage :: Stage
  le_EventType :: string
  le_Topic :: string
  le_Source :: string
  le_Timestamp :: gotime
  le_TaskID :: string
  le_OldState :: string
  le_NewState :: string
  le_ComponentName :: string
  le_Success :: "bool option"
  le_Message :: string
  le_Payload :: "gomap option"

definition emptyEntry :: EventLogEntry where
  "emptyEntry = \<lparr>le_ID = '''', le_TraceID = '''', le_EventID = '''', le_Stage = '''', le_EventType = '''',
     le_Topic = '''', le_Source = '''', le_Timestamp = 0, le_TaskID = '''', le_OldState = '''',
     le_NewState = '''', le_ComponentName = '''', le_Success = None, le_Message = '''', le_Payload = None\<rparr>"

record LogFilter =
  lf_TraceID :: string
  lf_TaskID :: string
  lf_Stage :: Stage
  lf_Source :: string
  lf_StartTime :: "gotime option"
  lf_EndTime :: "gotime option"
  lf_Limit :: int
  lf_Offset :: int

record TaskSummary =
  ts_ID :: string
  ts_State :: string
  ts_CreatedAt :: gotime
  ts_UpdatedAt :: gotime

record TraceTimeline =
  tl_TraceID :: string
  tl_Entries :: "EventLogEntry list"
  tl_Tasks :: "TaskSummary list"
  tl_Duration :: duration

end
