(* ===== verification/SM_Engine.thy ===== *)
theory SM_Engine
  imports Task_Store_List SM_Config Payload_Builder Nuts_Common Eventlog_Model
begin

text \<open>
  The state machine engine (\<^verbatim>\<open>src/pkg/task/state_machine_engine.go\<close>). The store is the one of
  \<^verbatim>\<open>Task_Store\<close>; the event log and the event bus act on a world \<^typ>\<open>'w\<close> through the functions of an
  \<open>outputs\<close> record, absent when the engine has none; the metrics recorder is the list of the calls
  made to it (\<^verbatim>\<open>src/pkg/common/metrics.go\<close>).
\<close>

datatype metric =
    TaskCreated
  | TaskStateTransition string string
  | TaskTimeout
  | TaskRetry
  | TaskArchived
  | TaskDeleted
  | TaskError

type_synonym MetricsRecorder = "metric list"

definition note_metric :: "metric \<Rightarrow> MetricsRecorder option \<Rightarrow> MetricsRecorder option" where
  "note_metric m r = map_option (\<lambda>ms. ms @ [m]) r"

record TaskSpec =
  spec_ID :: string
  spec_Name :: string
  spec_Description :: string
  spec_Priority :: int
  spec_Metadata :: "(string \<rightharpoonup> string) option"
  spec_Event :: "Event option"

record CommandResult =
  cr_Success :: bool
  cr_Message :: string
  cr_Data :: "gomap option"

record ComponentInfo =
  ci_Name :: string
  ci_Version :: string
  ci_State :: string

record TransitionCommand =
  cmd_TaskID :: string
  cmd_CurrentState :: TaskState
  cmd_TargetState :: TaskState
  cmd_Result :: "CommandResult option"
  cmd_ComponentInfo :: ComponentInfo
  cmd_SetRetryCount :: "int option"
  cmd_SetTimeoutAt :: "gotime option"

record 'd StateMachineEngine =
  sme_store :: "'d engineTaskStore"
  sme_config :: StateMachineConfig
  sme_builders :: PayloadBuilderFactory
  sme_metrics :: "MetricsRecorder option"

record 'w outputs =
  out_append :: "(EventLogEntry \<Rightarrow> 'w \<Rightarrow> 'w) option"
  out_publish :: "(string \<Rightarrow> Event \<Rightarrow> 'w \<Rightarrow> string option \<times> 'w) option"

datatype base_error = StoreError store_error | BuildError string

type_synonym engine_error = "base_error goerror"

section \<open>CreateTask\<close>

text \<open>
  The metadata of the new task: the map of the specification, extended by the builder's parameters.
  (The Go code writes them into the caller's map, which the task then shares.)
\<close>

definition taskMetadata ::
  "gofmt \<Rightarrow> gotime \<Rightarrow> StateMachineConfig \<Rightarrow> PayloadBuilderFactory \<Rightarrow> TaskSpec
     \<Rightarrow> engine_error + (string \<rightharpoonup> string)" where
  "taskMetadata F now cfg builders spec =
     (let metadata = (case spec_Metadata spec of None \<Rightarrow> Map.empty | Some m \<Rightarrow> m)
      in case spec_Event spec of
           None \<Rightarrow> Inr metadata
         | Some e \<Rightarrow>
             (let builderName = (if smc_PayloadBuilder cfg = '''' then ''default'' else smc_PayloadBuilder cfg);
                  builder = (case PBFactory_Get builders builderName of
                               Inl _ \<Rightarrow> DefaultPayloadBuilder | Inr b \<Rightarrow> b)
              in bindE (mapErr (\<lambda>e. Wrapped ''build payload'' (Plain (BuildError e)))
                          (pb_Build builder F now (Some e) (smc_InitialState cfg)))
                   (\<lambda>built. Inr (metadata ++ built))))"

definition newTask :: "TaskSpec \<Rightarrow> (string \<rightharpoonup> string) \<Rightarrow> Task" where
  "newTask spec metadata =
     \<lparr>t_ID = spec_ID spec,
      t_TraceID = (case metadata ''trace_id'' of Some s \<Rightarrow> s | None \<Rightarrow> ''''),
      t_Name = spec_Name spec, t_Description = spec_Description spec, t_Priority = spec_Priority spec,
      t_Version = 0, t_RetryCount = 0, t_State = '''', t_Result = None, t_Metadata = metadata,
      t_CreatedAt = 0, t_UpdatedAt = 0, t_StartedAt = None, t_CompletedAt = None,
      t_StateHistory = [], t_StateUpdatedAt = 0, t_TimeoutAt = None, t_ArchiveEligible = False,
      t_ArchivedAt = None\<rparr>"

text \<open>\<open>now1\<close>, \<open>now2\<close> and \<open>now3\<close>: the clock as the builder, \<^verbatim>\<open>Create\<close> and the state update read it.\<close>

definition CreateTask ::
  "('d, json) DB \<Rightarrow> gofmt \<Rightarrow> gotime \<Rightarrow> gotime \<Rightarrow> gotime \<Rightarrow> 'd StateMachineEngine \<Rightarrow> TaskSpec
     \<Rightarrow> (engine_error + Task) \<times> 'd StateMachineEngine" where
  "CreateTask B F now1 now2 now3 e spec =
     (case taskMetadata F now1 (sme_config e) (sme_builders e) spec of
        Inl err \<Rightarrow> (Inl err, e)
      | Inr metadata \<Rightarrow>
          (case Create B now2 (sme_store e) (newTask spec metadata) of
             Inl err \<Rightarrow> (Inl (Wrapped ''store task'' (Plain (StoreError err))), e)
           | Inr (task, s) \<Rightarrow>
               (let e = e\<lparr>sme_store := s\<rparr>
                in case UpdateStateWithRecord B now3 s (t_ID task) (smc_InitialState (sme_config e))
                          ''system'' ''task created'' of
                     Inl err \<Rightarrow> (Inl (Wrapped ''set initial state'' (Plain (StoreError err))), e)
                   | Inr (_, s) \<Rightarrow>
                       (let e = e\<lparr>sme_store := s\<rparr>
                        in case Store_Get B s (t_ID task) of
                             Inl err \<Rightarrow> (Inl (Wrapped ''get task'' (Plain (StoreError err))), e)
                           | Inr task \<Rightarrow>
                               (Inr task, e\<lparr>sme_metrics := note_metric TaskCreated (sme_metrics e)\<rparr>)))))"

section \<open>HandleTransitionCommand\<close>

text \<open>
  The handler first reads the task and checks the command against it, without holding the lock of
  the task; only then it calls \<^verbatim>\<open>TransitionState\<close>, which locks. The two halves are two definitions,
  so that commands can be interleaved between them.
\<close>

datatype decision = AlreadyThere Task | Proceed Task

definition checkCommand ::
  "('d, json) DB \<Rightarrow> 'd StateMachineEngine \<Rightarrow> TransitionCommand \<Rightarrow> engine_error + decision" where
  "checkCommand B e cmd =
     (case Store_Get B (sme_store e) (cmd_TaskID cmd) of
        Inl err \<Rightarrow> Inl (WrapError CodeTaskNotFound (Plain (StoreError err)) ''get task'')
      | Inr task \<Rightarrow>
          if t_State task = cmd_TargetState cmd then Inr (AlreadyThere task)
          else if t_State task \<noteq> cmd_CurrentState cmd
          then Inl (NewAppError CodeTaskStateMismatch
                      (''expected '' @ cmd_CurrentState cmd @ '', got '' @ t_State task))
          else if \<not> IsTransitionAllowed (sme_config e) (cmd_CurrentState cmd) (cmd_TargetState cmd)
          then Inl (NewAppError CodeTaskTransitionDenied
                      (cmd_CurrentState cmd @ '' -> '' @ cmd_TargetState cmd))
          else Inr (Proceed task))"

record stamps =
  st_eventID :: string
  st_eventTime :: gotime
  st_now :: gotime
  st_logID :: string
  st_logTime :: gotime
  st_storeTime :: gotime

definition stateTopic :: "TransitionCommand \<Rightarrow> string" where
  "stateTopic cmd = ''task.state_changed_'' @ cmd_TargetState cmd"

definition metaString :: "(string \<rightharpoonup> string) \<Rightarrow> string \<Rightarrow> string" where
  "metaString m k = (case m k of Some s \<Rightarrow> s | None \<Rightarrow> '''')"

text \<open>
  The extensions of the published event are the metadata without the three keys that have their
  own field; \<open>keys\<close> lists the metadata keys in the runtime's order.
\<close>

definition stateEvent :: "stamps \<Rightarrow> gocontext option \<Rightarrow> string list \<Rightarrow> Task \<Rightarrow> TransitionCommand \<Rightarrow> Event" where
  "stateEvent st ctx keys task cmd =
     (WithContext (NewEvent (st_eventID st) (st_eventTime st) ''task.state_changed'' (stateTopic cmd)
                     ''state-machine-engine'') ctx)
     \<lparr>ev_TypedPayload := Some (Event_Task (Some
        \<lparr>tsk_TaskId = cmd_TaskID cmd, tsk_OldState = cmd_CurrentState cmd,
         tsk_NewState = cmd_TargetState cmd, tsk_CurrentState = '''', tsk_TargetState = '''',
         tsk_Timestamp = 0, tsk_PolicyId = metaString (t_Metadata task) ''policy_id'',
         tsk_TriggerEventType = metaString (t_Metadata task) ''trigger_event_type'',
         tsk_TriggerEventId = metaString (t_Metadata task) ''trigger_event_id'',
         tsk_Extensions = Some (List.map_filter (\<lambda>k.
            if k \<noteq> ''policy_id'' \<and> k \<noteq> ''trigger_event_type'' \<and> k \<noteq> ''trigger_event_id''
            then map_option (\<lambda>v. (k, v)) (t_Metadata task k) else None) keys)\<rparr>))\<rparr>"

definition stateLogEntry :: "stamps \<Rightarrow> gocontext option \<Rightarrow> TransitionCommand \<Rightarrow> EventLogEntry" where
  "stateLogEntry st ctx cmd =
     emptyEntry\<lparr>le_ID := st_logID st, le_TraceID := TraceIDFromContext ctx, le_Stage := StageTaskState,
       le_EventType := ''TaskStateChanged'', le_Topic := stateTopic cmd,
       le_Source := ''state-machine-engine'', le_Timestamp := st_logTime st,
       le_TaskID := cmd_TaskID cmd, le_OldState := cmd_CurrentState cmd,
       le_NewState := cmd_TargetState cmd\<rparr>"

definition statePostCommit :: "'w outputs \<Rightarrow> EventLogEntry \<Rightarrow> string \<Rightarrow> Event \<Rightarrow> 'w post_commit" where
  "statePostCommit out entry topic event w =
     (let w = (case out_append out of None \<Rightarrow> w | Some app \<Rightarrow> app entry w)
      in case out_publish out of None \<Rightarrow> (None, w) | Some pub \<Rightarrow> pub topic event w)"

definition triggeredBy :: "TransitionCommand \<Rightarrow> string" where
  "triggeredBy cmd =
     (if ci_Name (cmd_ComponentInfo cmd) \<noteq> '''' then ci_Name (cmd_ComponentInfo cmd) else ''system'')"

definition transitionReason :: "TransitionCommand \<Rightarrow> string" where
  "transitionReason cmd =
     (case cmd_Result cmd of
        Some r \<Rightarrow> if cr_Message r \<noteq> '''' then cr_Message r else ''state transition command''
      | None \<Rightarrow> ''state transition command'')"

definition commitCommand ::
  "('d, json) DB \<Rightarrow> 'w outputs \<Rightarrow> gocontext option \<Rightarrow> stamps \<Rightarrow> string list \<Rightarrow> 'd StateMachineEngine
     \<Rightarrow> Task \<Rightarrow> TransitionCommand \<Rightarrow> 'w \<Rightarrow> engine_error option \<times> 'd StateMachineEngine \<times> 'w" where
  "commitCommand B out ctx st keys e task cmd w =
     (let now = st_now st;
          isTerminal = IsTerminalState (sme_config e) (cmd_TargetState cmd);
          setArchivedAt = (if isTerminal then Some now else None);
          clearArchived = (\<not> isTerminal \<and> t_ArchivedAt task \<noteq> None);
          setTimeoutAt = cmd_SetTimeoutAt cmd;
          clearTimeout = (cmd_SetTimeoutAt cmd = None \<and> \<not> isTerminal
             \<and> (case t_TimeoutAt task of Some u \<Rightarrow> before u now | None \<Rightarrow> False));
          postCommit = statePostCommit out (stateLogEntry st ctx cmd) (stateTopic cmd)
             (stateEvent st ctx keys task cmd)
      in case TransitionState B (st_storeTime st) (sme_store e) (cmd_TaskID cmd) (cmd_TargetState cmd)
                (triggeredBy cmd) (transitionReason cmd) setArchivedAt clearArchived clearTimeout
                setTimeoutAt (cmd_SetRetryCount cmd) (Some postCommit) w of
           Inl err \<Rightarrow>
             (Some (Wrapped ''transition state'' (Plain (StoreError err))),
              e\<lparr>sme_metrics := note_metric TaskError (sme_metrics e)\<rparr>, w)
         | Inr (_, s, w) \<Rightarrow>
             (let m = sme_metrics e;
                  m = (if setArchivedAt \<noteq> None then note_metric TaskArchived m
                       else if clearArchived then note_metric TaskRetry m else m);
                  m = note_metric (TaskStateTransition (cmd_CurrentState cmd) (cmd_TargetState cmd)) m
              in (None, e\<lparr>sme_store := s, sme_metrics := m\<rparr>, w)))"

definition updateRetryCount ::
  "('d, json) DB \<Rightarrow> stamps \<Rightarrow> 'd StateMachineEngine \<Rightarrow> Task \<Rightarrow> TransitionCommand
     \<Rightarrow> engine_error option \<times> 'd StateMachineEngine" where
  "updateRetryCount B st e task cmd =
     (if cmd_SetRetryCount cmd = None then (None, e)
      else case TransitionState B (st_storeTime st) (sme_store e) (cmd_TaskID cmd) (t_State task)
                  ''system'' ''retry count update'' None False False None (cmd_SetRetryCount cmd)
                  (None :: unit post_commit option) () of
             Inl err \<Rightarrow> (Some (Wrapped ''update retry count'' (Plain (StoreError err))), e)
           | Inr (_, s, _) \<Rightarrow> (None, e\<lparr>sme_store := s\<rparr>))"

definition actOnDecision ::
  "('d, json) DB \<Rightarrow> 'w outputs \<Rightarrow> gocontext option \<Rightarrow> stamps \<Rightarrow> string list \<Rightarrow> 'd StateMachineEngine
     \<Rightarrow> engine_error + decision \<Rightarrow> TransitionCommand \<Rightarrow> 'w
     \<Rightarrow> engine_error option \<times> 'd StateMachineEngine \<times> 'w" where
  "actOnDecision B out ctx st keys e d cmd w =
     (case d of
        Inl err \<Rightarrow> (Some err, e, w)
      | Inr (AlreadyThere task) \<Rightarrow>
          (let r = updateRetryCount B st e task cmd in (fst r, snd r, w))
      | Inr (Proceed task) \<Rightarrow> commitCommand B out ctx st keys e task cmd w)"

definition HandleTransitionCommand ::
  "('d, json) DB \<Rightarrow> 'w outputs \<Rightarrow> gocontext option \<Rightarrow> stamps \<Rightarrow> string list \<Rightarrow> 'd StateMachineEngine
     \<Rightarrow> TransitionCommand \<Rightarrow> 'w \<Rightarrow> engine_error option \<times> 'd StateMachineEngine \<times> 'w" where
  "HandleTransitionCommand B out ctx st keys e cmd w =
     actOnDecision B out ctx st keys e (checkCommand B e cmd) cmd w"

definition GetTaskState :: "('d, json) DB \<Rightarrow> 'd StateMachineEngine \<Rightarrow> string \<Rightarrow> engine_error + TaskState" where
  "GetTaskState B e taskID =
     (case Store_Get B (sme_store e) taskID of
        Inl err \<Rightarrow> Inl (Wrapped ''get task'' (Plain (StoreError err)))
      | Inr task \<Rightarrow> Inr (t_State task))"

definition GetTaskHistory ::
  "('d, json) DB \<Rightarrow> 'd StateMachineEngine \<Rightarrow> string \<Rightarrow> store_error + StateTransitionRecord list" where
  "GetTaskHistory B e taskID = GetStateHistory B (sme_store e) taskID"

end
