(* ===== verification/SM_Engine_Props.thy ===== *)
theory SM_Engine_Props
  imports SM_Engine
begin

text \<open>
  What the state machine engine guarantees: each command either performs one allowed transition,
  recorded and published once, or is refused without a trace; and, over every sequence of
  operations, the state index stays exact and the history of a task is a path of the
  configuration.
\<close>

section \<open>The effect of a transition on a task\<close>

definition commitTask :: "StateMachineConfig \<Rightarrow> int \<Rightarrow> stamps \<Rightarrow> Task \<Rightarrow> TransitionCommand \<Rightarrow> Task" where
  "commitTask cfg maxHist st t cmd =
     t\<lparr>t_StateHistory := appendHistory maxHist (t_StateHistory t)
          \<lparr>rec_From = t_State t, rec_To = cmd_TargetState cmd, rec_Timestamp = st_storeTime st,
           rec_TriggeredBy = triggeredBy cmd, rec_Reason = transitionReason cmd,
           rec_Attempt = nextAttempt (t_StateHistory t) (cmd_TargetState cmd)\<rparr>,
       t_State := cmd_TargetState cmd, t_StateUpdatedAt := st_storeTime st,
       t_UpdatedAt := st_storeTime st,
       t_ArchivedAt := (if IsTerminalState cfg (cmd_TargetState cmd) then Some (st_now st) else None),
       t_RetryCount := (case cmd_SetRetryCount cmd of Some n \<Rightarrow> n | None \<Rightarrow> t_RetryCount t),
       t_TimeoutAt := (case cmd_SetTimeoutAt cmd of Some u \<Rightarrow> Some u
          | None \<Rightarrow> if \<not> IsTerminalState cfg (cmd_TargetState cmd) \<and>
                       (case t_TimeoutAt t of Some u \<Rightarrow> u < st_now st | None \<Rightarrow> False)
                    then None else t_TimeoutAt t),
       t_Version := t_Version t + 1\<rparr>"

context task_db
begin

lemma commit_effect:
  assumes inv: "store_inv view db_ok (sme_store e)"
    and t: "task_at view (sme_store e) (cmd_TaskID cmd) = Some t"
    and ne: "t_State t \<noteq> cmd_TargetState cmd"
    and r: "commitCommand B out ctx st keys e t cmd w = (None, e', w')"
  shows "store_inv view db_ok (sme_store e') \<and> sme_config e' = sme_config e
    \<and> sme_builders e' = sme_builders e
    \<and> task_at view (sme_store e') =
        (task_at view (sme_store e))(cmd_TaskID cmd \<mapsto> commitTask (sme_config e) (maxStateHistory (sme_store e)) st t cmd)
    \<and> w' = snd (statePostCommit out (stateLogEntry st ctx cmd) (stateTopic cmd)
               (stateEvent st ctx keys t cmd) w)"
proof -
  let ?sa = "if IsTerminalState (sme_config e) (cmd_TargetState cmd) then Some (st_now st) else None"
  let ?ca = "\<not> IsTerminalState (sme_config e) (cmd_TargetState cmd) \<and> t_ArchivedAt t \<noteq> None"
  let ?ct = "cmd_SetTimeoutAt cmd = None \<and> \<not> IsTerminalState (sme_config e) (cmd_TargetState cmd)
     \<and> (case t_TimeoutAt t of Some u \<Rightarrow> before u (st_now st) | None \<Rightarrow> False)"
  let ?pc = "statePostCommit out (stateLogEntry st ctx cmd) (stateTopic cmd) (stateEvent st ctx keys t cmd)"
  obtain t' s' where ts: "TransitionState B (st_storeTime st) (sme_store e) (cmd_TaskID cmd)
      (cmd_TargetState cmd) (triggeredBy cmd) (transitionReason cmd) ?sa ?ca ?ct
      (cmd_SetTimeoutAt cmd) (cmd_SetRetryCount cmd) (Some ?pc) w = Inr (t', s', w')"
    and e': "sme_store e' = s'" "sme_config e' = sme_config e" "sme_builders e' = sme_builders e"
    using r by (auto simp: commitCommand_def Let_def split: sum.splits)
  have "store_inv view db_ok s'"
    by (rule TransitionState_inv [OF inv ts]) (use t ne in \<open>auto simp: transition_indexable_def\<close>)
  moreover have "t' = commitTask (sme_config e) (maxStateHistory (sme_store e)) st t cmd"
    "task_at view s' = (task_at view (sme_store e))(cmd_TaskID cmd \<mapsto> t')" "w' = runPostCommit (Some ?pc) w"
    using TransitionState_effect [OF inv ts] t
    by (auto simp: commitTask_def applyTransition_def Let_def before_def split: option.splits)
  ultimately show ?thesis using e' by (simp add: runPostCommit_def)
qed

lemma retry_effect:
  assumes inv: "store_inv view db_ok (sme_store e)"
    and t: "task_at view (sme_store e) (cmd_TaskID cmd) = Some t"
    and r: "updateRetryCount B st e t cmd = (None, e')" and c: "cmd_SetRetryCount cmd = Some n"
  shows "store_inv view db_ok (sme_store e') \<and> sme_config e' = sme_config e
    \<and> (\<exists>t'. task_at view (sme_store e') = (task_at view (sme_store e))(cmd_TaskID cmd \<mapsto> t')
        \<and> t_State t' = t_State t \<and> t_ArchivedAt t' = t_ArchivedAt t \<and> t_RetryCount t' = n
        \<and> t_TimeoutAt t' = t_TimeoutAt t
        \<and> t_StateHistory t' = appendHistory (maxStateHistory (sme_store e)) (t_StateHistory t)
            \<lparr>rec_From = t_State t, rec_To = t_State t, rec_Timestamp = st_storeTime st,
             rec_TriggeredBy = ''system'', rec_Reason = ''retry count update'',
             rec_Attempt = nextAttempt (t_StateHistory t) (t_State t)\<rparr>)"
proof -
  obtain t' s' w' where ts: "TransitionState B (st_storeTime st) (sme_store e) (cmd_TaskID cmd) (t_State t)
      ''system'' ''retry count update'' None False False None (Some n) (None :: unit post_commit option) ()
        = Inr (t', s', w')"
    and e': "sme_store e' = s'" "sme_config e' = sme_config e"
    using r c by (auto simp: updateRetryCount_def split: sum.splits)
  have "store_inv view db_ok s'"
    by (rule TransitionState_inv [OF inv ts]) (use t in \<open>auto simp: transition_indexable_def\<close>)
  with TransitionState_effect [OF inv ts] t e' show ?thesis
    by (auto simp: applyTransition_def Let_def)
qed

lemma create_effect:
  assumes inv: "store_inv view db_ok (sme_store e)"
    and new: "task_at view (sme_store e) (spec_ID spec) = None"
    and r: "CreateTask B F n1 n2 n3 e spec = (Inr t, e')"
  shows "store_inv view db_ok (sme_store e') \<and> sme_config e' = sme_config e
    \<and> sme_builders e' = sme_builders e \<and> spec_ID spec \<noteq> ''''
    \<and> task_at view (sme_store e') = (task_at view (sme_store e))(spec_ID spec \<mapsto> t)
    \<and> t_ID t = spec_ID spec \<and> t_State t = smc_InitialState (sme_config e) \<and> t_ArchivedAt t = None
    \<and> t_RetryCount t = 0 \<and> t_TraceID t = metaString (t_Metadata t) ''trace_id''
    \<and> taskMetadata F n1 (sme_config e) (sme_builders e) spec = Inr (t_Metadata t)
    \<and> t_StateHistory t = appendHistory (maxStateHistory (sme_store e)) []
        \<lparr>rec_From = TaskStatePending, rec_To = smc_InitialState (sme_config e), rec_Timestamp = n3,
         rec_TriggeredBy = ''system'', rec_Reason = ''task created'', rec_Attempt = 1\<rparr>"
proof -
  obtain md t1 s1 t2 s2 where md: "taskMetadata F n1 (sme_config e) (sme_builders e) spec = Inr md"
    and c: "Create B n2 (sme_store e) (newTask spec md) = Inr (t1, s1)"
    and u: "UpdateStateWithRecord B n3 s1 (t_ID t1) (smc_InitialState (sme_config e)) ''system'' ''task created'' = Inr (t2, s2)"
    and g: "Store_Get B s2 (t_ID t1) = Inr t" and e': "sme_store e' = s2" "sme_config e' = sme_config e"
      "sme_builders e' = sme_builders e"
    using r by (auto simp: CreateTask_def Let_def split: sum.splits prod.splits)
  note ce = Create_effect [OF inv c]
  have inv1: "store_inv view db_ok s1"
    by (rule Create_inv [OF inv c]) (use new in \<open>simp_all add: newTask_def\<close>)
  have id1: "t_ID t1 = spec_ID spec" using ce by (simp add: create_defaults_def newTask_def)
  have m1: "maxStateHistory s1 = maxStateHistory (sme_store e)"
    using c by (auto simp: Create_def Let_def bindE_eq_Inr split: if_splits)
  obtain t0 where ue: "task_at view s1 (spec_ID spec) = Some t0" "t_State t2 = smc_InitialState (sme_config e)"
      "t_ID t2 = spec_ID spec" "t_ArchivedAt t2 = t_ArchivedAt t0" "t_RetryCount t2 = t_RetryCount t0"
      "t_TraceID t2 = t_TraceID t0" "t_Metadata t2 = t_Metadata t0"
      "t_StateHistory t2 = appendHistory (maxStateHistory s1) (t_StateHistory t0)
            \<lparr>rec_From = t_State t0, rec_To = smc_InitialState (sme_config e), rec_Timestamp = n3,
             rec_TriggeredBy = ''system'', rec_Reason = ''task created'',
             rec_Attempt = nextAttempt (t_StateHistory t0) (smc_InitialState (sme_config e))\<rparr>"
      "task_at view s2 = (task_at view s1)(spec_ID spec \<mapsto> t2)"
      "t_ArchivedAt t0 = None \<longrightarrow> store_inv view db_ok s2"
    using UpdateStateWithRecord_effect [OF inv1 u] id1 by auto
  have t0: "t0 = create_defaults n2 (newTask spec md)"
    using ue(1) ce by (simp add: newTask_def)
  then have inv2: "store_inv view db_ok s2" using ue(10) by (simp add: create_defaults_def newTask_def)
  have "t = t2" using g ue(9) id1 inv2 by (simp add: Store_Get_eq getLocked_iff store_inv_def)
  then show ?thesis using ue t0 ce e' inv2 md m1
    by (simp add: create_defaults_def newTask_def metaString_def nextAttempt_def)
qed

end
section \<open>Commands on the in-memory backend\<close>

type_synonym mem_engine = "json MemoryDB StateMachineEngine"

lemma mem_transition_total:
  assumes "mem_ok (ets_db s)" "mem_task s tid = Some t"
  shows "\<exists>t' s' w'. TransitionState (memoryDB rank) now s tid st by re sa ca ct su sr pc w = Inr (t', s', w')"
proof -
  have "getLocked (memoryDB rank) s tid = Inr t" using ms.getLocked_iff assms by blast
  moreover obtain t1 s1 where "putLocked (memoryDB rank) s
      (applyTransition (maxStateHistory s) now st by re sa ca ct su sr t) = Inr (t1, s1)"
    using mem_put_total by blast
  ultimately show ?thesis by (simp add: TransitionState_def Let_def)
qed

lemma mem_transition_not_Inl:
  assumes "mem_ok (ets_db s)" "mem_task s tid = Some t"
  shows "TransitionState (memoryDB rank) now s tid st by re sa ca ct su sr pc w \<noteq> Inl err"
  using mem_transition_total [OF assms] by (metis Inl_Inr_False)

lemma mem_get:
  assumes "mem_inv s"
  shows "mem_task s tid = Some t \<Longrightarrow> Store_Get (memoryDB rank) s tid = Inr t"
    and "mem_task s tid = None \<Longrightarrow> \<exists>err. Store_Get (memoryDB rank) s tid = Inl err"
  using assms ms.getLocked_iff ms.getLocked_None unfolding ms.Store_Get_eq store_inv_def by blast+

lemma mem_commit_total:
  assumes "mem_inv (sme_store e)" "mem_task (sme_store e) (cmd_TaskID cmd) = Some t"
  shows "\<exists>e' w'. commitCommand (memoryDB rank) out ctx st keys e u cmd w = (None, e', w')"
proof -
  have ok: "mem_ok (ets_db (sme_store e))" using assms(1) by (simp add: store_inv_def)
  show ?thesis
    unfolding commitCommand_def Let_def
    by (auto simp: mem_transition_not_Inl [OF ok assms(2)] split: sum.split)
qed

lemma mem_retry_total:
  assumes "mem_inv (sme_store e)" "mem_task (sme_store e) (cmd_TaskID cmd) = Some t"
  shows "\<exists>e'. updateRetryCount (memoryDB rank) st e u cmd = (None, e')"
proof -
  have ok: "mem_ok (ets_db (sme_store e))" using assms(1) by (simp add: store_inv_def)
  show ?thesis
    unfolding updateRetryCount_def
    by (auto simp: mem_transition_not_Inl [OF ok assms(2)] split: sum.split)
qed

lemma mem_check:
  assumes "mem_inv (sme_store e)" "mem_task (sme_store e) (cmd_TaskID cmd) = Some t"
  shows "checkCommand (memoryDB rank) e cmd =
    (if t_State t = cmd_TargetState cmd then Inr (AlreadyThere t)
     else if t_State t \<noteq> cmd_CurrentState cmd
     then Inl (NewAppError CodeTaskStateMismatch
                 (''expected '' @ cmd_CurrentState cmd @ '', got '' @ t_State t))
     else if \<not> IsTransitionAllowed (sme_config e) (cmd_CurrentState cmd) (cmd_TargetState cmd)
     then Inl (NewAppError CodeTaskTransitionDenied (cmd_CurrentState cmd @ '' -> '' @ cmd_TargetState cmd))
     else Inr (Proceed t))"
  using mem_get(1) [OF assms] by (simp add: checkCommand_def)

lemma mem_command_commits:
  fixes e :: mem_engine
  assumes "mem_inv (sme_store e)" "mem_task (sme_store e) (cmd_TaskID cmd) = Some t"
    and "t_State t = cmd_CurrentState cmd" "cmd_CurrentState cmd \<noteq> cmd_TargetState cmd"
    and "IsTransitionAllowed (sme_config e) (cmd_CurrentState cmd) (cmd_TargetState cmd)"
  shows "\<exists>e'. HandleTransitionCommand (memoryDB rank) out ctx st keys e cmd w =
       (None, e', snd (statePostCommit out (stateLogEntry st ctx cmd) (stateTopic cmd)
                         (stateEvent st ctx keys t cmd) w))
     \<and> mem_inv (sme_store e') \<and> sme_config e' = sme_config e
     \<and> mem_task (sme_store e') = (mem_task (sme_store e))
         (cmd_TaskID cmd \<mapsto> commitTask (sme_config e) (maxStateHistory (sme_store e)) st t cmd)"
proof -
  have d: "checkCommand (memoryDB rank) e cmd = Inr (Proceed t)"
    using mem_check [OF assms(1,2)] assms(3-5) by simp
  obtain e' w' where c: "commitCommand (memoryDB rank) out ctx st keys e t cmd w = (None, e', w')"
    using mem_commit_total [OF assms(1,2), of rank out ctx st keys t w] by auto
  have ne: "t_State t \<noteq> cmd_TargetState cmd" using assms(3,4) by simp
  from ms.commit_effect [OF assms(1,2) ne c] show ?thesis
    by (simp add: HandleTransitionCommand_def actOnDecision_def d c)
qed

text \<open>
  Claim C1. A command for a stored task in the command's current state, towards a different state
  that the configuration allows, always succeeds, and does exactly this: the task gets the target
  state, a history record of the change, the next version, the archive mark exactly when the
  target is terminal, and the requested retry count and timeout; every other task is untouched;
  the event log and the bus are told once; and the state index is again exact.
\<close>

theorem HandleTransitionCommand_commits:
  fixes e :: mem_engine
  assumes "mem_inv (sme_store e)" "mem_task (sme_store e) (cmd_TaskID cmd) = Some t"
    and "t_State t = cmd_CurrentState cmd" "cmd_CurrentState cmd \<noteq> cmd_TargetState cmd"
    and "IsTransitionAllowed (sme_config e) (cmd_CurrentState cmd) (cmd_TargetState cmd)"
  shows "\<exists>e'. HandleTransitionCommand (memoryDB rank) out ctx st keys e cmd w =
       (None, e', snd (statePostCommit out (stateLogEntry st ctx cmd) (stateTopic cmd)
                         (stateEvent st ctx keys t cmd) w))
     \<and> mem_inv (sme_store e') \<and> sme_config e' = sme_config e
     \<and> mem_task (sme_store e') = (mem_task (sme_store e))
         (cmd_TaskID cmd \<mapsto> commitTask (sme_config e) (maxStateHistory (sme_store e)) st t cmd)"
  using assms by (rule mem_command_commits)

text \<open>
  Claim C3. A command that cannot be carried out is refused with the documented code and changes
  nothing, neither the store nor the metrics nor the outside world: 3000 for an unknown task, 3004
  when the task is in neither the current nor the target state of the command, 3005 when the
  configuration does not allow the transition; and a command whose target is already reached,
  without a retry count, succeeds without any effect.
\<close>

theorem HandleTransitionCommand_refuses:
  fixes e :: mem_engine
  assumes "mem_inv (sme_store e)"
  shows "(mem_task (sme_store e) (cmd_TaskID cmd) = None \<longrightarrow>
       (\<exists>err. HandleTransitionCommand (memoryDB rank) out ctx st keys e cmd w = (Some err, e, w)
          \<and> GetErrorCode err = CodeTaskNotFound))
   \<and> (\<forall>t. mem_task (sme_store e) (cmd_TaskID cmd) = Some t \<longrightarrow>
       (t_State t \<noteq> cmd_TargetState cmd \<and> t_State t \<noteq> cmd_CurrentState cmd \<longrightarrow>
         (\<exists>err. HandleTransitionCommand (memoryDB rank) out ctx st keys e cmd w = (Some err, e, w)
            \<and> GetErrorCode err = CodeTaskStateMismatch))
     \<and> (t_State t \<noteq> cmd_TargetState cmd \<and> t_State t = cmd_CurrentState cmd
          \<and> \<not> IsTransitionAllowed (sme_config e) (cmd_CurrentState cmd) (cmd_TargetState cmd) \<longrightarrow>
         (\<exists>err. HandleTransitionCommand (memoryDB rank) out ctx st keys e cmd w = (Some err, e, w)
            \<and> GetErrorCode err = CodeTaskTransitionDenied))
     \<and> (t_State t = cmd_TargetState cmd \<and> cmd_SetRetryCount cmd = None \<longrightarrow>
         HandleTransitionCommand (memoryDB rank) out ctx st keys e cmd w = (None, e, w)))"
proof -
  have "\<exists>err. HandleTransitionCommand (memoryDB rank) out ctx st keys e cmd w = (Some err, e, w)
      \<and> GetErrorCode err = CodeTaskNotFound" if n: "mem_task (sme_store e) (cmd_TaskID cmd) = None"
    using mem_get(2) [OF assms n, of rank]
    by (auto simp: HandleTransitionCommand_def actOnDecision_def checkCommand_def)
  moreover have "(t_State t \<noteq> cmd_TargetState cmd \<and> t_State t \<noteq> cmd_CurrentState cmd \<longrightarrow>
         (\<exists>err. HandleTransitionCommand (memoryDB rank) out ctx st keys e cmd w = (Some err, e, w)
            \<and> GetErrorCode err = CodeTaskStateMismatch))
     \<and> (t_State t \<noteq> cmd_TargetState cmd \<and> t_State t = cmd_CurrentState cmd
          \<and> \<not> IsTransitionAllowed (sme_config e) (cmd_CurrentState cmd) (cmd_TargetState cmd) \<longrightarrow>
         (\<exists>err. HandleTransitionCommand (memoryDB rank) out ctx st keys e cmd w = (Some err, e, w)
            \<and> GetErrorCode err = CodeTaskTransitionDenied))
     \<and> (t_State t = cmd_TargetState cmd \<and> cmd_SetRetryCount cmd = None \<longrightarrow>
         HandleTransitionCommand (memoryDB rank) out ctx st keys e cmd w = (None, e, w))"
    if t: "mem_task (sme_store e) (cmd_TaskID cmd) = Some t" for t
    using mem_check [OF assms t, of rank]
    by (auto simp: HandleTransitionCommand_def actOnDecision_def updateRetryCount_def Let_def)
  ultimately show ?thesis by blast
qed

section \<open>Creation on the in-memory backend\<close>

lemma mem_Create_total: "t_ID t \<noteq> '''' \<Longrightarrow> \<exists>t' s'. Create (memoryDB rank) now s t = Inr (t', s')"
  by (simp add: Create_def memoryDB_simps Let_def)

lemma mem_create_total:
  fixes e :: mem_engine
  assumes inv: "mem_inv (sme_store e)" and spec: "spec_ID spec \<noteq> ''''"
    and new: "mem_task (sme_store e) (spec_ID spec) = None"
    and md: "taskMetadata F n1 (sme_config e) (sme_builders e) spec = Inr md"
  shows "\<exists>t e'. CreateTask (memoryDB rank) F n1 n2 n3 e spec = (Inr t, e')"
proof -
  obtain t1 s1 where c: "Create (memoryDB rank) n2 (sme_store e) (newTask spec md) = Inr (t1, s1)"
    using mem_Create_total [of "newTask spec md" rank n2 "sme_store e"] spec by (auto simp: newTask_def)
  have inv1: "mem_inv s1"
    by (rule ms.Create_inv [OF inv c]) (use new in \<open>simp_all add: newTask_def\<close>)
  have at1: "mem_task s1 (t_ID t1) = Some t1"
    using ms.Create_effect [OF inv c] by (simp add: create_defaults_def)
  then have "getLocked (memoryDB rank) s1 (t_ID t1) = Inr t1"
    using inv1 ms.getLocked_iff by (simp add: store_inv_def)
  moreover obtain t2 s2 where "UpdateStateWithRecord (memoryDB rank) n3 s1 (t_ID t1)
      (smc_InitialState (sme_config e)) ''system'' ''task created'' = Inr (t2, s2)"
    using calculation by (simp add: UpdateStateWithRecord_def putLocked_def memoryDB_simps Let_def)
  moreover from this have "mem_inv s2 \<and> mem_task s2 (t_ID t1) = Some t2"
    using ms.UpdateStateWithRecord_effect [OF inv1] at1 ms.Create_effect [OF inv c]
    by (force simp: create_defaults_def newTask_def)
  ultimately show ?thesis using md c mem_get(1) [of s2 "t_ID t1" t2]
    by (simp add: CreateTask_def Let_def)
qed

text \<open>
  \<^verbatim>\<open>CreateTask\<close> with a fresh identifier and a payload that can be built always succeeds and
  returns the stored task: in the initial state of the configuration, not archived, with no
  retries, the metadata of the specification overridden by the builder's parameters, its trace id
  taken from the metadata, and one history record; no other task changes and the state index stays
  exact.
\<close>

theorem CreateTask_creates:
  fixes e :: mem_engine
  assumes "mem_inv (sme_store e)" "spec_ID spec \<noteq> ''''"
    and "mem_task (sme_store e) (spec_ID spec) = None"
    and "taskMetadata F n1 (sme_config e) (sme_builders e) spec = Inr md"
  shows "\<exists>t e'. CreateTask (memoryDB rank) F n1 n2 n3 e spec = (Inr t, e')
     \<and> mem_inv (sme_store e') \<and> mem_task (sme_store e') = (mem_task (sme_store e))(spec_ID spec \<mapsto> t)
     \<and> t_State t = smc_InitialState (sme_config e) \<and> t_ArchivedAt t = None \<and> t_RetryCount t = 0
     \<and> t_Metadata t = md \<and> t_TraceID t = metaString md ''trace_id''
     \<and> t_StateHistory t = appendHistory (maxStateHistory (sme_store e)) []
        \<lparr>rec_From = TaskStatePending, rec_To = smc_InitialState (sme_config e), rec_Timestamp = n3,
         rec_TriggeredBy = ''system'', rec_Reason = ''task created'', rec_Attempt = 1\<rparr>"
proof -
  obtain t e' where c: "CreateTask (memoryDB rank) F n1 n2 n3 e spec = (Inr t, e')"
    using mem_create_total [OF assms] by blast
  from ms.create_effect [OF assms(1,3) c] assms(4) c show ?thesis by auto
qed

section \<open>Reachable engines\<close>

text \<open>
  \<open>linked\<close>: each record starts where the previous one ended. \<open>recordOk\<close>: a record is an allowed
  transition, a retry count update in place, or the record of the creation.
\<close>

fun linked :: "StateTransitionRecord list \<Rightarrow> bool" where
  "linked [] = True"
| "linked [r] = True"
| "linked (r # q # rs) = (rec_To r = rec_From q \<and> linked (q # rs))"

definition recordOk :: "StateMachineConfig \<Rightarrow> StateTransitionRecord \<Rightarrow> bool" where
  "recordOk cfg r \<longleftrightarrow> IsTransitionAllowed cfg (rec_From r) (rec_To r) \<or> rec_From r = rec_To r
     \<or> rec_From r = TaskStatePending \<and> rec_To r = smc_InitialState cfg"

definition taskOk :: "StateMachineConfig \<Rightarrow> Task \<Rightarrow> bool" where
  "taskOk cfg t \<longleftrightarrow> t_StateHistory t \<noteq> [] \<and> rec_To (last (t_StateHistory t)) = t_State t
     \<and> linked (t_StateHistory t) \<and> (\<forall>r \<in> set (t_StateHistory t). recordOk cfg r)
     \<and> (t_ArchivedAt t \<noteq> None \<longrightarrow> IsTerminalState cfg (t_State t))
     \<and> (IsTerminalState cfg (t_State t) \<and> \<not> IsTerminalState cfg (smc_InitialState cfg)
          \<longrightarrow> t_ArchivedAt t \<noteq> None)
     \<and> (t_State t = smc_InitialState cfg \<or> (\<exists>s. IsTransitionAllowed cfg s (t_State t)))"

definition engineInv :: "mem_engine \<Rightarrow> bool" where
  "engineInv e \<longleftrightarrow> mem_inv (sme_store e)
     \<and> (\<forall>tid t. mem_task (sme_store e) tid = Some t \<longrightarrow> taskOk (sme_config e) t)"

text \<open>
  One operation of the engine, or a deletion by the archive cleaner. Identifiers of new tasks are
  fresh, as the generated ones are.
\<close>

inductive engine_step :: "mem_engine \<Rightarrow> mem_engine \<Rightarrow> bool" where
  create: "mem_task (sme_store e) (spec_ID spec) = None \<Longrightarrow>
     CreateTask (memoryDB rank) F n1 n2 n3 e spec = (r, e') \<Longrightarrow> engine_step e e'"
| command: "HandleTransitionCommand (memoryDB rank) out ctx st keys e cmd (w :: unit) = (r, e', w') \<Longrightarrow>
     engine_step e e'"
| delete: "Delete (memoryDB rank) (sme_store e) tid = Inr s \<Longrightarrow> engine_step e (e\<lparr>sme_store := s\<rparr>)"

definition newEngine :: "(string \<Rightarrow> nat) \<Rightarrow> StateMachineConfig \<Rightarrow> int \<Rightarrow> PayloadBuilderFactory \<Rightarrow> mem_engine" where
  "newEngine rank cfg maxHist builders =
     \<lparr>sme_store = NewTaskStore (memoryDB rank) NewMemoryDB maxHist, sme_config = cfg,
      sme_builders = builders, sme_metrics = None\<rparr>"

lemma linked_append:
  "linked (h @ [r]) \<longleftrightarrow> linked h \<and> (h \<noteq> [] \<longrightarrow> rec_To (last h) = rec_From r)"
  by (induction h rule: linked.induct) auto

lemma linked_drop: "linked h \<Longrightarrow> linked (drop n h)"
proof (induction h arbitrary: n rule: linked.induct)
  case (2 r)
  then show ?case by (cases n) auto
next
  case (3 r q rs)
  then show ?case by (cases n) auto
qed simp

lemma appendHistory_cases: "\<exists>n. appendHistory m h r = drop n (h @ [r])"
proof (cases "0 < m \<and> int (length (h @ [r])) > m")
  case True
  then show ?thesis
    by (intro exI [of _ "length (h @ [r]) - nat m"]) (simp add: appendHistory_def Let_def keep_last_def)
next
  case False
  then show ?thesis by (intro exI [of _ 0]) (auto simp: appendHistory_def Let_def)
qed

lemma appendHistory_linked:
  assumes "linked h" "h \<noteq> [] \<Longrightarrow> rec_To (last h) = rec_From r"
  shows "linked (appendHistory m h r)"
  using appendHistory_cases [of m h r] linked_append [of h r] linked_drop [of "h @ [r]"] assms by auto

lemma appendHistory_set: "set (appendHistory m h r) \<subseteq> insert r (set h)"
  using appendHistory_cases [of m h r] set_drop_subset [of _ "h @ [r]"] by fastforce

lemma appendHistory_Nil [simp]: "appendHistory m [] r = [r]"
  by (auto simp: appendHistory_def Let_def)

lemma taskOk_append:
  assumes ok: "taskOk cfg t" and h: "t_StateHistory t' = appendHistory m (t_StateHistory t) r"
    and r: "rec_From r = t_State t" "rec_To r = t_State t'" "recordOk cfg r"
    and a: "t_ArchivedAt t' \<noteq> None \<Longrightarrow> IsTerminalState cfg (t_State t')"
      "IsTerminalState cfg (t_State t') \<Longrightarrow> \<not> IsTerminalState cfg (smc_InitialState cfg) \<Longrightarrow> t_ArchivedAt t' \<noteq> None"
      "t_State t' = smc_InitialState cfg \<or> (\<exists>s. IsTransitionAllowed cfg s (t_State t'))"
  shows "taskOk cfg t'"
  unfolding taskOk_def h
  using ok r a appendHistory_last [of m "t_StateHistory t" r] appendHistory_set [of m "t_StateHistory t" r]
    appendHistory_linked [of "t_StateHistory t" r m]
  by (auto simp: taskOk_def)

lemma taskOk_commit:
  assumes "taskOk cfg t" "IsTransitionAllowed cfg (t_State t) (cmd_TargetState cmd)"
  shows "taskOk cfg (commitTask cfg m st t cmd)"
  by (rule taskOk_append [OF assms(1)]) (use assms(2) in \<open>auto simp: commitTask_def recordOk_def split: if_splits\<close>)

lemma engineInv_command:
  assumes inv: "engineInv e"
    and r: "HandleTransitionCommand (memoryDB rank) out ctx st keys e cmd w = (r, e', w')"
  shows "engineInv e'"
proof -
  have mi: "mem_inv (sme_store e)" using inv by (simp add: engineInv_def)
  show ?thesis
  proof (cases "mem_task (sme_store e) (cmd_TaskID cmd)")
    case None
    obtain err where "Store_Get (memoryDB rank) (sme_store e) (cmd_TaskID cmd) = Inl err"
      using mem_get(2) [OF mi None] by blast
    with r inv show ?thesis by (simp add: HandleTransitionCommand_def actOnDecision_def checkCommand_def)
  next
    case (Some t)
    have tok: "taskOk (sme_config e) t" using inv Some by (simp add: engineInv_def)
    consider (same) "checkCommand (memoryDB rank) e cmd = Inr (AlreadyThere t)"
      | (go) "checkCommand (memoryDB rank) e cmd = Inr (Proceed t)" "t_State t \<noteq> cmd_TargetState cmd"
          "IsTransitionAllowed (sme_config e) (t_State t) (cmd_TargetState cmd)"
      | (no) "\<exists>err. checkCommand (memoryDB rank) e cmd = Inl err"
      using mem_check [OF mi Some, of rank] by (auto split: if_splits)
    then show ?thesis
    proof cases
      case same
      then have u: "updateRetryCount (memoryDB rank) st e t cmd = (r, e')"
        using r by (auto simp: HandleTransitionCommand_def actOnDecision_def Let_def prod_eq_iff)
      show ?thesis
      proof (cases "cmd_SetRetryCount cmd")
        case None
        with u inv show ?thesis by (simp add: updateRetryCount_def)
      next
        case (Some n)
        have rn: "r = None" using mem_retry_total [OF mi \<open>mem_task _ _ = Some t\<close>, of rank st t] u by auto
        obtain t' where e': "mem_inv (sme_store e')" "sme_config e' = sme_config e"
          "mem_task (sme_store e') = (mem_task (sme_store e))(cmd_TaskID cmd \<mapsto> t')"
          and s: "t_State t' = t_State t" "t_ArchivedAt t' = t_ArchivedAt t"
          and h: "t_StateHistory t' = appendHistory (maxStateHistory (sme_store e)) (t_StateHistory t)
            \<lparr>rec_From = t_State t, rec_To = t_State t, rec_Timestamp = st_storeTime st,
             rec_TriggeredBy = ''system'', rec_Reason = ''retry count update'',
             rec_Attempt = nextAttempt (t_StateHistory t) (t_State t)\<rparr>"
          using ms.retry_effect [OF mi \<open>mem_task _ _ = Some t\<close> u [unfolded rn] Some] by auto
        have "taskOk (sme_config e) t'"
          by (rule taskOk_append [OF tok h]) (use tok s in \<open>auto simp: recordOk_def taskOk_def\<close>)
        with e' inv show ?thesis by (auto simp: engineInv_def)
      qed
    next
      case go
      then have c: "commitCommand (memoryDB rank) out ctx st keys e t cmd w = (r, e', w')"
        using r by (simp add: HandleTransitionCommand_def actOnDecision_def)
      moreover have "r = None" using mem_commit_total [OF mi Some, of rank out ctx st keys t w] c by auto
      ultimately have "commitCommand (memoryDB rank) out ctx st keys e t cmd w = (None, e', w')" by simp
      from ms.commit_effect [OF mi Some go(2) this] inv taskOk_commit [OF tok go(3)] show ?thesis
        by (auto simp: engineInv_def)
    next
      case no
      with r inv show ?thesis by (auto simp: HandleTransitionCommand_def actOnDecision_def)
    qed
  qed
qed

lemma engineInv_create:
  assumes inv: "engineInv e" and new: "mem_task (sme_store e) (spec_ID spec) = None"
    and r: "CreateTask (memoryDB rank) F n1 n2 n3 e spec = (r, e')"
  shows "engineInv e'"
proof (cases "spec_ID spec \<noteq> '''' \<and> (\<exists>md. taskMetadata F n1 (sme_config e) (sme_builders e) spec = Inr md)")
  case True
  have mi: "mem_inv (sme_store e)" using inv by (simp add: engineInv_def)
  obtain t where c: "CreateTask (memoryDB rank) F n1 n2 n3 e spec = (Inr t, e')"
    using True mem_create_total [OF mi _ new, of F n1 _ rank n2 n3] r by auto
  have "taskOk (sme_config e) t"
    using ms.create_effect [OF mi new c] by (auto simp: taskOk_def recordOk_def)
  with ms.create_effect [OF mi new c] inv show ?thesis by (auto simp: engineInv_def)
next
  case False
  then have "e' = e" using r
    by (auto simp: CreateTask_def Create_def newTask_def split: sum.splits)
  with inv show ?thesis by simp
qed

lemma engineInv_step: "engine_step e e' \<Longrightarrow> engineInv e \<Longrightarrow> engineInv e'"
proof (induction rule: engine_step.induct)
  case (create e spec rank F n1 n2 n3 r e')
  then show ?case using engineInv_create by blast
next
  case (command rank out ctx st keys e cmd w r e' w')
  show ?case by (rule engineInv_command [OF command(2,1)])
next
  case (delete rank e tid s)
  then have "mem_inv (sme_store e)" by (simp add: engineInv_def)
  from ms.Delete_effect [OF this delete(1)] delete(2) show ?case
    by (auto simp: engineInv_def split: if_splits)
qed

lemma newEngine_inv: "engineInv (newEngine rank cfg m b)"
proof -
  let ?s = "\<lparr>ets_db = NewMemoryDB, ets_prefix = ''task:'', maxStateHistory = m, stateIndex = Map.empty\<rparr>
    :: json MemoryDB engineTaskStore"
  have d: "docs_ok mem_view ?s" by (simp add: docs_ok_def mem_view_def NewMemoryDB_def)
  obtain ks where l: "db_list (memoryDB rank) (ets_db ?s) (ets_prefix ?s) = Inr ks"
    using mem_list_total by blast
  from ms.rebuild_inv [OF _ d l] have i: "mem_inv (rebuildStateIndex (memoryDB rank) ?s)"
    and db: "ets_db (rebuildStateIndex (memoryDB rank) ?s) = NewMemoryDB" by simp_all
  then have "mem_task (rebuildStateIndex (memoryDB rank) ?s) tid = None" for tid
    by (simp add: task_at_def mem_view_def NewMemoryDB_def)
  with i show ?thesis by (simp add: engineInv_def newEngine_def NewTaskStore_def)
qed

lemma config_kept:
  "CreateTask B F n1 n2 n3 e spec = (r, e') \<Longrightarrow> sme_config e' = sme_config e"
  "HandleTransitionCommand B out ctx st keys e cmd w = (q, e', w') \<Longrightarrow> sme_config e' = sme_config e"
proof -
  have "sme_config (snd (CreateTask B F n1 n2 n3 e spec)) = sme_config e"
    by (simp add: CreateTask_def Let_def split: sum.split prod.split)
  then show "CreateTask B F n1 n2 n3 e spec = (r, e') \<Longrightarrow> sme_config e' = sme_config e" by simp
  have "sme_config (snd (updateRetryCount B st e t cmd)) = sme_config e"
    "sme_config (fst (snd (commitCommand B out ctx st keys e t cmd w))) = sme_config e" for t
    by (simp_all add: updateRetryCount_def commitCommand_def Let_def split: sum.split prod.split)
  then have "sme_config (fst (snd (HandleTransitionCommand B out ctx st keys e cmd w))) = sme_config e"
    by (simp add: HandleTransitionCommand_def actOnDecision_def Let_def split: sum.split decision.split)
  then show "HandleTransitionCommand B out ctx st keys e cmd w = (q, e', w') \<Longrightarrow> sme_config e' = sme_config e"
    by simp
qed

lemma config_step: "engine_step e e' \<Longrightarrow> sme_config e' = sme_config e"
  by (induction rule: engine_step.induct) (auto dest: config_kept)

lemma reachable_inv: "engine_step\<^sup>*\<^sup>* (newEngine rank cfg m b) e \<Longrightarrow> engineInv e \<and> sme_config e = cfg"
proof (induction rule: rtranclp_induct)
  case base
  show ?case using newEngine_inv by (simp add: newEngine_def)
next
  case (step e e')
  then show ?case using engineInv_step config_step by simp
qed

text \<open>
  Over every sequence of task creations with fresh identifiers, transition commands and
  deletions, starting from the empty store, successful or not: the state index holds exactly the
  unarchived tasks of each state, newest first; the history of every task is a chain of records
  that ends in its current state, each an allowed transition, an update in place or the creation;
  and a task is archived only in a terminal state, and always there unless the initial state itself
  is terminal.
\<close>

theorem engine_reachable_ok:
  assumes "engine_step\<^sup>*\<^sup>* (newEngine rank cfg m b) e"
  shows "mem_inv (sme_store e) \<and> (\<forall>tid t. mem_task (sme_store e) tid = Some t \<longrightarrow> taskOk cfg t)"
  using reachable_inv [OF assms] by (auto simp: engineInv_def)

section \<open>Interleaved commands\<close>

context task_db
begin

lemma commit_stale:
  assumes inv: "store_inv view db_ok (sme_store e)"
    and r: "commitCommand B out ctx st keys e u cmd w = (None, e', w')"
    and t: "task_at view (sme_store e) (cmd_TaskID cmd) = Some t"
  shows "\<exists>t'. task_at view (sme_store e') (cmd_TaskID cmd) = Some t' \<and> t_State t' = cmd_TargetState cmd
     \<and> t_ArchivedAt t' = (if IsTerminalState (sme_config e) (cmd_TargetState cmd) then Some (st_now st)
          else if t_ArchivedAt u \<noteq> None then None else t_ArchivedAt t)
     \<and> rec_From (last (t_StateHistory t')) = t_State t
     \<and> rec_To (last (t_StateHistory t')) = cmd_TargetState cmd"
proof -
  let ?sa = "if IsTerminalState (sme_config e) (cmd_TargetState cmd) then Some (st_now st) else None"
  let ?ca = "\<not> IsTerminalState (sme_config e) (cmd_TargetState cmd) \<and> t_ArchivedAt u \<noteq> None"
  let ?ct = "cmd_SetTimeoutAt cmd = None \<and> \<not> IsTerminalState (sme_config e) (cmd_TargetState cmd)
     \<and> (case t_TimeoutAt u of Some u \<Rightarrow> before u (st_now st) | None \<Rightarrow> False)"
  let ?pc = "statePostCommit out (stateLogEntry st ctx cmd) (stateTopic cmd) (stateEvent st ctx keys u cmd)"
  obtain t' s' where ts: "TransitionState B (st_storeTime st) (sme_store e) (cmd_TaskID cmd)
      (cmd_TargetState cmd) (triggeredBy cmd) (transitionReason cmd) ?sa ?ca ?ct
      (cmd_SetTimeoutAt cmd) (cmd_SetRetryCount cmd) (Some ?pc) w = Inr (t', s', w')"
    and e': "sme_store e' = s'"
    using r by (auto simp: commitCommand_def Let_def split: sum.splits)
  from TransitionState_effect [OF inv ts] t e' show ?thesis
    by (auto simp: applyTransition_def Let_def appendHistory_last)
qed

end

text \<open>
  Claim C36. The check of a command is not atomic with its commit. When two commands for one task are
  both checked before either commits, both commit: the task makes the step from the first target to
  the second one whether the configuration allows it or not, while the same commands one after the
  other end with a state mismatch for the second. If the first target is terminal and the second is
  not, the task stays archived in a non-terminal state.
\<close>

theorem interleaved_commands:
  fixes e :: mem_engine
  assumes "mem_inv (sme_store e)" "mem_task (sme_store e) tid = Some t" "t_State t = a" "t_ArchivedAt t = None"
    and "cmd_TaskID c1 = tid" "cmd_CurrentState c1 = a" "cmd_TargetState c1 = b"
    and "cmd_TaskID c2 = tid" "cmd_CurrentState c2 = a" "cmd_TargetState c2 = c"
    and "a \<noteq> b" "a \<noteq> c" "b \<noteq> c"
    and "IsTransitionAllowed (sme_config e) a b" "IsTransitionAllowed (sme_config e) a c"
  shows "checkCommand (memoryDB rank) e c1 = Inr (Proceed t)
    \<and> checkCommand (memoryDB rank) e c2 = Inr (Proceed t)
    \<and> (\<exists>e1 w1 e2 w2 t2 err.
          actOnDecision (memoryDB rank) out ctx st1 keys e (Inr (Proceed t)) c1 w = (None, e1, w1)
        \<and> actOnDecision (memoryDB rank) out ctx st2 keys e1 (Inr (Proceed t)) c2 w1 = (None, e2, w2)
        \<and> mem_task (sme_store e2) tid = Some t2 \<and> t_State t2 = c
        \<and> rec_From (last (t_StateHistory t2)) = b \<and> rec_To (last (t_StateHistory t2)) = c
        \<and> (IsTerminalState (sme_config e) b \<and> \<not> IsTerminalState (sme_config e) c \<longrightarrow> t_ArchivedAt t2 \<noteq> None)
        \<and> HandleTransitionCommand (memoryDB rank) out ctx st2 keys e1 c2 w1 = (Some err, e1, w1)
        \<and> GetErrorCode err = CodeTaskStateMismatch)"
proof -
  have d: "checkCommand (memoryDB rank) e c1 = Inr (Proceed t)" "checkCommand (memoryDB rank) e c2 = Inr (Proceed t)"
    using mem_check [of e c1 t] mem_check [of e c2 t] assms by simp_all
  have t1: "mem_task (sme_store e) (cmd_TaskID c1) = Some t" using assms(2,5) by simp
  obtain e1 w1 where c1: "commitCommand (memoryDB rank) out ctx st1 keys e t c1 w = (None, e1, w1)"
    using mem_commit_total [OF assms(1) t1, of rank out ctx st1 keys t w] by auto
  let ?u = "commitTask (sme_config e) (maxStateHistory (sme_store e)) st1 t c1"
  have e1: "mem_inv (sme_store e1)" "sme_config e1 = sme_config e" "mem_task (sme_store e1) tid = Some ?u"
    using ms.commit_effect [OF assms(1) t1 _ c1] assms(3,5,7,11) by auto
  have u: "mem_task (sme_store e1) (cmd_TaskID c2) = Some ?u" using e1(3) assms(8) by simp
  have us: "t_State ?u = b" "IsTerminalState (sme_config e) b \<longrightarrow> t_ArchivedAt ?u \<noteq> None"
    using assms(7) by (simp_all add: commitTask_def)
  obtain e2 w2 where c2: "commitCommand (memoryDB rank) out ctx st2 keys e1 t c2 w1 = (None, e2, w2)"
    using mem_commit_total [OF e1(1) u, of rank out ctx st2 keys t w1] by auto
  obtain t2 where t2: "mem_task (sme_store e2) tid = Some t2" "t_State t2 = c"
    "rec_From (last (t_StateHistory t2)) = b" "rec_To (last (t_StateHistory t2)) = c"
    "\<not> IsTerminalState (sme_config e) c \<longrightarrow> t_ArchivedAt t2 = t_ArchivedAt ?u"
    using ms.commit_stale [OF e1(1) c2 u] assms(4,8,10) e1(2) us(1) by auto
  have "\<exists>err. HandleTransitionCommand (memoryDB rank) out ctx st2 keys e1 c2 w1 = (Some err, e1, w1)
      \<and> GetErrorCode err = CodeTaskStateMismatch"
    using mem_check [OF e1(1) u, of rank] us(1) assms(9,10,11,13)
    by (auto simp: HandleTransitionCommand_def actOnDecision_def)
  with d c1 c2 t2 us(2) show ?thesis by (auto simp: actOnDecision_def)
qed

section \<open>An example engine\<close>

definition exampleSpec :: TaskSpec where
  "exampleSpec = \<lparr>spec_ID = ''x'', spec_Name = ''job'', spec_Description = [], spec_Priority = 1,
     spec_Metadata = Some [''trace_id'' \<mapsto> ''tr1''], spec_Event = None\<rparr>"

definition exampleFmt :: gofmt where
  "exampleFmt = \<lparr>fmt_float = (\<lambda>_. []), fmt_v = (\<lambda>_. []), fmt_rfc3339 = (\<lambda>_. [])\<rparr>"

definition emptyEngine :: mem_engine where
  "emptyEngine = newEngine length diamond 10 Map.empty"

definition exampleEngine :: mem_engine where
  "exampleEngine = snd (CreateTask (memoryDB length) exampleFmt 1 2 3 emptyEngine exampleSpec)"

definition exampleTask :: Task where
  "exampleTask = the (mem_task (sme_store exampleEngine) ''x'')"

definition moveCmd :: "string \<Rightarrow> TransitionCommand" where
  "moveCmd target = \<lparr>cmd_TaskID = ''x'', cmd_CurrentState = ''a'', cmd_TargetState = target, cmd_Result = None,
     cmd_ComponentInfo = \<lparr>ci_Name = ''comp'', ci_Version = [], ci_State = []\<rparr>,
     cmd_SetRetryCount = None, cmd_SetTimeoutAt = None\<rparr>"

definition exampleStamps :: stamps where
  "exampleStamps = \<lparr>st_eventID = ''e1'', st_eventTime = 5, st_now = 6, st_logID = ''l1'', st_logTime = 7,
     st_storeTime = 8\<rparr>"

definition busOnly :: "Event list outputs" where
  "busOnly = \<lparr>out_append = None, out_publish = Some (\<lambda>topic e w. (None, w @ [e]))\<rparr>"

lemma emptyEngine_facts:
  "mem_inv (sme_store emptyEngine)" "mem_task (sme_store emptyEngine) tid = None" "sme_config emptyEngine = diamond"
proof -
  have "data (ets_db (sme_store emptyEngine)) = []"
    by (simp add: emptyEngine_def newEngine_def NewTaskStore_def rebuildStateIndex_def memoryDB_simps NewMemoryDB_def)
  then show "mem_task (sme_store emptyEngine) tid = None" by (simp add: task_at_def mem_view_def)
  show "mem_inv (sme_store emptyEngine)" "sme_config emptyEngine = diamond"
    using newEngine_inv [of length diamond 10 Map.empty] by (simp_all add: emptyEngine_def engineInv_def newEngine_def)
qed

lemma exampleSpec_metadata:
  "taskMetadata exampleFmt 1 cfg builders exampleSpec = Inr [''trace_id'' \<mapsto> ''tr1'']"
  by (simp add: taskMetadata_def exampleSpec_def)

lemma exampleEngine_facts:
  "mem_inv (sme_store exampleEngine)" "sme_config exampleEngine = diamond"
  "mem_task (sme_store exampleEngine) ''x'' = Some exampleTask" "t_State exampleTask = ''a''"
  "t_ArchivedAt exampleTask = None" "mem_task (sme_store exampleEngine) ''y'' = None"
proof -
  have i: "spec_ID exampleSpec = ''x''" by (simp add: exampleSpec_def)
  obtain t e' where c: "CreateTask (memoryDB length) exampleFmt 1 2 3 emptyEngine exampleSpec = (Inr t, e')"
    using mem_create_total [OF emptyEngine_facts(1) _ emptyEngine_facts(2) exampleSpec_metadata, of length 2 3] i by auto
  have "exampleEngine = e'" by (simp add: exampleEngine_def c)
  with ms.create_effect [OF emptyEngine_facts(1,2) c] emptyEngine_facts(2,3) i
  show "mem_inv (sme_store exampleEngine)" "sme_config exampleEngine = diamond"
    "mem_task (sme_store exampleEngine) ''x'' = Some exampleTask" "t_State exampleTask = ''a''"
    "t_ArchivedAt exampleTask = None" "mem_task (sme_store exampleEngine) ''y'' = None"
    by (auto simp: exampleTask_def diamond_def exampleConfig_def)
qed

lemma moveCmd_simps [simp]:
  "cmd_TaskID (moveCmd b) = ''x''" "cmd_CurrentState (moveCmd b) = ''a''" "cmd_TargetState (moveCmd b) = b"
  "cmd_SetRetryCount (moveCmd b) = None"
  by (simp_all add: moveCmd_def)

lemma diamond_allowed:
  "IsTransitionAllowed diamond ''a'' ''b''" "IsTransitionAllowed diamond ''a'' ''c''"
  "\<not> IsTransitionAllowed diamond ''b'' ''c''" "\<not> IsTransitionAllowed diamond ''a'' ''t''"
  by (simp_all add: diamond_def exampleConfig_def IsTransitionAllowed_def)

theorem HandleTransitionCommand_commits_witness:
  "\<exists>e'. HandleTransitionCommand (memoryDB length) busOnly None exampleStamps [] exampleEngine (moveCmd ''b'') []
      = (None, e', [stateEvent exampleStamps None [] exampleTask (moveCmd ''b'')])
    \<and> mem_inv (sme_store e')"
  using HandleTransitionCommand_commits [of exampleEngine "moveCmd ''b''" exampleTask length busOnly None
      exampleStamps "[]" "[]"] exampleEngine_facts diamond_allowed
  by (auto simp: statePostCommit_def busOnly_def Let_def)

theorem HandleTransitionCommand_refuses_witness:
  "\<exists>err. HandleTransitionCommand (memoryDB length) busOnly None exampleStamps [] exampleEngine (moveCmd ''t'') []
      = (Some err, exampleEngine, []) \<and> GetErrorCode err = CodeTaskTransitionDenied"
  using HandleTransitionCommand_refuses [OF exampleEngine_facts(1), of "moveCmd ''t''" length busOnly None
      exampleStamps "[]" "[]"] exampleEngine_facts diamond_allowed
  by auto

theorem CreateTask_creates_witness:
  "\<exists>t e'. CreateTask (memoryDB length) exampleFmt 1 2 3 emptyEngine exampleSpec = (Inr t, e')
     \<and> t_State t = ''a'' \<and> t_TraceID t = ''tr1''"
  using CreateTask_creates [OF emptyEngine_facts(1) _ emptyEngine_facts(2) exampleSpec_metadata, of length 2 3]
  by (auto simp: emptyEngine_facts exampleSpec_def diamond_def exampleConfig_def metaString_def)

theorem engine_reachable_ok_witness:
  "mem_task (sme_store exampleEngine) ''x'' = Some exampleTask \<and> taskOk diamond exampleTask"
proof -
  have "engine_step emptyEngine exampleEngine"
    using engine_step.create [OF emptyEngine_facts(2), of length exampleFmt 1 2 3 exampleSpec]
    by (metis exampleEngine_def prod.collapse)
  then have "engine_step\<^sup>*\<^sup>* (newEngine length diamond 10 Map.empty) exampleEngine"
    unfolding emptyEngine_def by (rule r_into_rtranclp)
  from engine_reachable_ok [OF this] exampleEngine_facts(3) show ?thesis by simp
qed

theorem interleaved_commands_witness:
  "\<exists>e1 w1 e2 w2 t2.
      actOnDecision (memoryDB length) busOnly None exampleStamps [] exampleEngine (Inr (Proceed exampleTask))
        (moveCmd ''b'') [] = (None, e1, w1)
    \<and> actOnDecision (memoryDB length) busOnly None exampleStamps [] e1 (Inr (Proceed exampleTask))
        (moveCmd ''c'') w1 = (None, e2, w2)
    \<and> mem_task (sme_store e2) ''x'' = Some t2 \<and> rec_From (last (t_StateHistory t2)) = ''b''
    \<and> rec_To (last (t_StateHistory t2)) = ''c'' \<and> \<not> IsTransitionAllowed diamond ''b'' ''c''"
  using interleaved_commands [of exampleEngine "''x''" exampleTask "''a''" "moveCmd ''b''" "''b''"
      "moveCmd ''c''" "''c''" length busOnly None exampleStamps "[]" "[]" exampleStamps]
    exampleEngine_facts diamond_allowed
  by auto

end
