(* ===== verification/Task_Store_Props.thy ===== *)
theory Task_Store_Props
  imports SM_Engine_Props
begin

text \<open>
  The guarantees of the task store that its clients rely on, stated for the in-memory backend.
\<close>

abbreviation exampleStore :: "json MemoryDB engineTaskStore" where
  "exampleStore \<equiv> sme_store exampleEngine"

lemma rebuild_frame:
  "ets_prefix (rebuildStateIndex B s) = ets_prefix s \<and> maxStateHistory (rebuildStateIndex B s) = maxStateHistory s"
proof -
  have "ets_prefix (fold (\<lambda>key s. case readKey B (ets_db s) key of None \<Rightarrow> s
      | Some task \<Rightarrow> if t_ArchivedAt task = None
          then addToStateIndex s (t_ID task) (t_State task) (t_CreatedAt task) else s) keys s) = ets_prefix s
    \<and> maxStateHistory (fold (\<lambda>key s. case readKey B (ets_db s) key of None \<Rightarrow> s
      | Some task \<Rightarrow> if t_ArchivedAt task = None
          then addToStateIndex s (t_ID task) (t_State task) (t_CreatedAt task) else s) keys s) = maxStateHistory s"
    for keys and s :: "'a engineTaskStore"
    by (induction keys arbitrary: s) (auto split: option.split)
  then show ?thesis by (simp add: rebuildStateIndex_def split: sum.split)
qed

lemma store_frame:
  "Create B now s t = Inr (t', s') \<Longrightarrow> ets_prefix s' = ets_prefix s \<and> maxStateHistory s' = maxStateHistory s"
  "UpdateStateWithRecord B now s tid st by re = Inr (t', s') \<Longrightarrow>
     ets_prefix s' = ets_prefix s \<and> maxStateHistory s' = maxStateHistory s"
  by (auto simp: Create_def UpdateStateWithRecord_def putLocked_def Let_def bindE_eq_Inr split: if_splits)

lemma CreateTask_frame:
  "ets_prefix (sme_store (snd (CreateTask B F n1 n2 n3 e spec))) = ets_prefix (sme_store e)
   \<and> maxStateHistory (sme_store (snd (CreateTask B F n1 n2 n3 e spec))) = maxStateHistory (sme_store e)"
  by (auto simp: CreateTask_def Let_def store_frame split: sum.split prod.split)

lemma exampleStore_frame: "ets_prefix exampleStore = ''task:''" "maxStateHistory exampleStore = 10"
  by (simp_all add: exampleEngine_def CreateTask_frame emptyEngine_def newEngine_def NewTaskStore_def rebuild_frame)



definition pendingFilter :: TaskFilter where
  "pendingFilter = emptyFilter\<lparr>f_State := ''a''\<rparr>"


text \<open>
  Pages of a state listing cut the full listing: without further filters, offset and limit
  return exactly that stretch of the unpaged result, so consecutive pages neither skip nor repeat a
  task.
\<close>

theorem list_by_state_pages:
  assumes "mem_inv s" "f_State flt \<noteq> ''''" "f_Priority flt = None" "f_CreatedAfter flt = None"
    "f_CreatedBefore flt = None" "0 \<le> f_Offset flt" "0 < f_Limit flt"
  shows "\<exists>ts. Store_List (memoryDB rank) tie s (flt\<lparr>f_Offset := 0, f_Limit := 0\<rparr>) = Inr ts
     \<and> Store_List (memoryDB rank) tie s flt = Inr (take (nat (f_Limit flt)) (drop (nat (f_Offset flt)) ts))"
proof -
  let ?ts = "map (ms.entry_task s) (idx_entries (stateIndex s) (f_State flt))"
  have m: "matchFilter t flt" "matchFilter t (flt\<lparr>f_Offset := 0, f_Limit := 0\<rparr>)" if "t \<in> set ?ts" for t
    using that ms.state_tasks(3) [OF assms(1), where st = "f_State flt" and t = t] assms
    by (auto simp: matchFilter_iff)
  have "set (take (nat (f_Limit flt)) (drop (nat (f_Offset flt)) ?ts)) \<subseteq> set ?ts"
    by (meson order_trans set_drop_subset set_take_subset)
  then have f: "filter (\<lambda>t. matchFilter t flt) (take (nat (f_Limit flt)) (drop (nat (f_Offset flt)) ?ts))
      = take (nat (f_Limit flt)) (drop (nat (f_Offset flt)) ?ts)"
    using m(1) by (intro filter_True) blast
  have g: "filter (\<lambda>t. matchFilter t (flt\<lparr>f_Offset := 0, f_Limit := 0\<rparr>)) ?ts = ?ts"
    using m(2) by (intro filter_True) blast
  show ?thesis
    using ms.listByState_page [OF assms(1), of flt rank] f assms(2,6,7)
      ms.listByState_page [OF assms(1), of "flt\<lparr>f_Offset := 0, f_Limit := 0\<rparr>" rank] g
    by (simp add: Store_List_def Let_def)
qed

theorem list_by_state_pages_witness:
  "\<exists>ts. Store_List (memoryDB length) (\<lambda>_. 0) exampleStore pendingFilter = Inr ts
     \<and> Store_List (memoryDB length) (\<lambda>_. 0) exampleStore (pendingFilter\<lparr>f_Limit := 1\<rparr>) = Inr (take 1 ts)"
  using list_by_state_pages [OF exampleEngine_facts(1), of "pendingFilter\<lparr>f_Limit := 1\<rparr>" length "\<lambda>_. 0"]
  by (simp add: pendingFilter_def emptyFilter_def)

text \<open>
  The shortcut of \<^verbatim>\<open>Count\<close> through the state index returns the length of the corresponding
  unpaged listing.
\<close>

theorem count_agrees_with_list:
  assumes "mem_inv s" "f_State flt \<noteq> ''''" "\<not> f_IncludeArchived flt" "f_Priority flt = None"
    "f_CreatedAfter flt = None" "f_CreatedBefore flt = None"
  shows "\<exists>ts. Store_List (memoryDB rank) tie s (flt\<lparr>f_Offset := 0, f_Limit := 0\<rparr>) = Inr ts
     \<and> Count (memoryDB rank) tie s flt = Inr (int (length ts))"
  using ms.Count_shortcut [OF assms] .

theorem count_agrees_with_list_witness:
  "\<exists>ts. Store_List (memoryDB length) (\<lambda>_. 0) exampleStore pendingFilter = Inr ts
     \<and> Count (memoryDB length) (\<lambda>_. 0) exampleStore pendingFilter = Inr (int (length ts))"
  using count_agrees_with_list [OF exampleEngine_facts(1), of pendingFilter length "\<lambda>_. 0"]
  by (simp add: pendingFilter_def emptyFilter_def)

text \<open>
  Claim C28. Optimistic locking: of two updates that start from the same version of a task, the second
  one is rejected with a version conflict naming the stored and the stale version, and leaves the
  first one's result in place.
\<close>

theorem update_version_conflict:
  assumes "mem_ok (ets_db s)" "Update (memoryDB rank) now s task = Inr (t', s')"
    and "t_ID stale = t_ID task" "t_Version stale = t_Version task"
  shows "mem_task s' (t_ID task) = Some t' \<and> t_Version t' = t_Version task + 1
     \<and> Update (memoryDB rank) now' s' stale =
         Inl (VersionConflict (t_ID task) (t_Version task + 1) (t_Version task))"
  using ms.Update_effect [OF assms(1,2)] ms.Update_stale [OF assms] by simp

theorem update_version_conflict_witness:
  "\<exists>t' s'. Update (memoryDB length) 9 exampleStore exampleTask = Inr (t', s')
     \<and> (\<exists>v v'. Update (memoryDB length) 10 s' exampleTask = Inl (VersionConflict ''x'' v v'))"
proof -
  have ok: "mem_ok (ets_db exampleStore)" "t_ID exampleTask = ''x''"
    using exampleEngine_facts(1,3) docs_ok_ID by (auto simp: store_inv_def)
  have "getLocked (memoryDB length) exampleStore ''x'' = Inr exampleTask"
    using ok(1) exampleEngine_facts(3) ms.getLocked_iff by blast
  then obtain t' s' where u: "Update (memoryDB length) 9 exampleStore exampleTask = Inr (t', s')"
    by (simp add: Update_def ok(2) putLocked_def memoryDB_simps Let_def)
  from update_version_conflict [OF ok(1) u refl refl, of 10] u ok(2) show ?thesis by auto
qed

lemma reopen_store:
  assumes "mem_inv s" "ets_prefix s = ''task:''"
  shows "mem_inv (NewTaskStore (memoryDB rank) (ets_db s) m)" "mem_task (NewTaskStore (memoryDB rank) (ets_db s) m) = mem_task s"
proof -
  let ?s = "\<lparr>ets_db = ets_db s, ets_prefix = ''task:'', maxStateHistory = m, stateIndex = Map.empty\<rparr>"
  have d: "docs_ok mem_view ?s" using assms by (simp add: store_inv_def docs_ok_def)
  obtain ks where l: "db_list (memoryDB rank) (ets_db ?s) (ets_prefix ?s) = Inr ks" using mem_list_total by blast
  have "mem_ok (ets_db ?s)" using assms(1) by (simp add: store_inv_def)
  note r = ms.rebuild_inv [OF this d l]
  show "mem_inv (NewTaskStore (memoryDB rank) (ets_db s) m)" "mem_task (NewTaskStore (memoryDB rank) (ets_db s) m) = mem_task s"
    using r rebuild_frame [of "memoryDB rank" ?s] assms(2) by (simp_all add: NewTaskStore_def task_at_def fun_eq_iff)
qed

text \<open>
  Restarting on the same database restores the store: the index that \<^verbatim>\<open>NewTaskStore\<close> rebuilds
  is exact again, with the same tasks, whatever was in the index before.
\<close>

theorem restart_restores_index:
  assumes "mem_inv s" "ets_prefix s = ''task:''"
  shows "mem_inv (NewTaskStore (memoryDB rank) (ets_db s) m)
     \<and> mem_task (NewTaskStore (memoryDB rank) (ets_db s) m) = mem_task s"
  using reopen_store [OF assms] by simp

theorem restart_restores_index_witness:
  "mem_inv (NewTaskStore (memoryDB length) (ets_db exampleStore) 10)
   \<and> mem_task (NewTaskStore (memoryDB length) (ets_db exampleStore) 10) ''x'' = Some exampleTask"
  using restart_restores_index [OF exampleEngine_facts(1) exampleStore_frame(1), of length 10]
    exampleEngine_facts(3) by simp

text \<open>
  The state history stays bounded: with a positive limit, a transition never leaves more
  than the limit of records (or what there already was, when the limit was lowered), and the newest
  record is the transition itself.
\<close>

theorem transition_history_bounded:
  assumes "mem_inv s"
    and "TransitionState (memoryDB rank) now s tid st by re sa ca ct su sr pc w = Inr (t', s', w')"
    and "mem_task s tid = Some t" "0 < maxStateHistory s"
  shows "int (length (t_StateHistory t')) \<le> max (maxStateHistory s) (int (length (t_StateHistory t)))
     \<and> rec_To (last (t_StateHistory t')) = st \<and> rec_From (last (t_StateHistory t')) = t_State t
     \<and> mem_task s' = (mem_task s)(tid \<mapsto> t')"
  using ms.TransitionState_effect [OF assms(1,2)] assms(3,4) appendHistory_bound appendHistory_last
  by (auto simp: applyTransition_def Let_def)

theorem transition_history_bounded_witness:
  "\<exists>t' s' w'. TransitionState (memoryDB length) 9 exampleStore ''x'' ''b'' ''c'' [] None False False None None
      (None :: unit post_commit option) () = Inr (t', s', w') \<and> rec_To (last (t_StateHistory t')) = ''b''"
proof -
  have ok: "mem_ok (ets_db exampleStore)" using exampleEngine_facts(1) by (simp add: store_inv_def)
  obtain t' s' w' where ts: "TransitionState (memoryDB length) 9 exampleStore ''x'' ''b'' ''c'' [] None False False
      None None (None :: unit post_commit option) () = Inr (t', s', w')"
    using mem_transition_total [OF ok exampleEngine_facts(3), of length 9 "''b''" "''c''" "[]" None False False
        None None "None :: unit post_commit option" "()"] by auto
  moreover have "0 < maxStateHistory exampleStore" by (simp add: exampleStore_frame)
  ultimately show ?thesis
    using transition_history_bounded [OF exampleEngine_facts(1) ts exampleEngine_facts(3)] by blast
qed

text \<open>
  \<^verbatim>\<open>Create\<close> does not look for an existing task: creating the same identifier twice replaces
  the stored task but enters it twice in the state index, so that listing and counting see two
  tasks where one is stored.
\<close>

theorem create_twice_duplicates_index:
  "let t = newTask exampleSpec Map.empty; s = NewTaskStore (memoryDB length) NewMemoryDB 10
   in case Create (memoryDB length) 1 s t of
        Inl _ \<Rightarrow> False
      | Inr (_, s1) \<Rightarrow>
          (case Create (memoryDB length) 2 s1 t of
             Inl _ \<Rightarrow> False
           | Inr (_, s2) \<Rightarrow>
               length (data (ets_db s2)) = 1
             \<and> Count (memoryDB length) (\<lambda>_. 0) s2 (emptyFilter\<lparr>f_State := ''pending''\<rparr>) = Inr 2)"
  by (simp add: Let_def NewTaskStore_def rebuildStateIndex_def memoryDB_simps NewMemoryDB_def Create_def
      newTask_def exampleSpec_def create_defaults_def addToStateIndex_def idx_entries_def insert_at_def
      Count_def emptyFilter_def isZero_def)

end
