(* ===== verification/Timeout_Checker.thy ===== *)
theory Timeout_Checker
  imports Go_Heap Task_Store_Props
begin

text \<open>
  The timeout checker (\<^verbatim>\<open>src/pkg/task/timeout_checker.go\<close>): a heap of deadlines, rebuilt from the store
  when it is stale, empty or every few checks, from which each check pops the expired entries and
  reports the tasks that are really overdue. The callback may change the store and push new
  entries, so it maps the pair of the checker and the rest of the world \<^typ>\<open>'x\<close>; the loop that calls it
  is a partial function, \<^term>\<open>None\<close> meaning that it never ends.
\<close>

record heapEntry =
  he_deadline :: gotime
  he_taskID :: string

record TimeoutChecker =
  toc_checkInterval :: duration
  toc_metrics :: "MetricsRecorder option"
  toc_heap :: "heapEntry list"
  toc_heapStale :: bool
  toc_ticksSinceRebuild :: int
  toc_rebuildInterval :: int

type_synonym 'x TimeoutCallback = "string \<Rightarrow> TaskState \<Rightarrow> TimeoutChecker \<times> 'x \<Rightarrow> TimeoutChecker \<times> 'x"

definition NewTimeoutChecker :: "duration \<Rightarrow> int \<Rightarrow> TimeoutChecker" where
  "NewTimeoutChecker interval rebuildInterval =
     \<lparr>toc_checkInterval = (if interval = 0 then 30 * second else interval), toc_metrics = None,
      toc_heap = [], toc_heapStale = True, toc_ticksSinceRebuild = 0,
      toc_rebuildInterval = (if rebuildInterval \<le> 0 then 5 else rebuildInterval)\<rparr>"

definition isTaskTimeout :: "Task \<Rightarrow> gotime \<Rightarrow> bool" where
  "isTaskTimeout task now \<longleftrightarrow> (case t_TimeoutAt task of None \<Rightarrow> False | Some u \<Rightarrow> after now u)"

definition Checker_Push :: "TimeoutChecker \<Rightarrow> string \<Rightarrow> gotime \<Rightarrow> TimeoutChecker" where
  "Checker_Push c taskID deadline =
     c\<lparr>toc_heap := heap_Push he_deadline \<lparr>he_deadline = deadline, he_taskID = taskID\<rparr> (toc_heap c)\<rparr>"

definition rebuildEntries :: "gotime \<Rightarrow> Task list \<Rightarrow> heapEntry list" where
  "rebuildEntries now tasks =
     List.map_filter (\<lambda>task. case t_TimeoutAt task of
        None \<Rightarrow> None
      | Some u \<Rightarrow> Some \<lparr>he_deadline = (if before u now then now else u), he_taskID = t_ID task\<rparr>) tasks"

definition rebuildHeap ::
  "('d, json) DB \<Rightarrow> (Task \<Rightarrow> nat) \<Rightarrow> gotime \<Rightarrow> 'd engineTaskStore \<Rightarrow> TimeoutChecker \<Rightarrow> TimeoutChecker" where
  "rebuildHeap B tie now s c =
     (case Store_List B tie s (emptyFilter\<lparr>f_IncludeArchived := False\<rparr>) of
        Inl _ \<Rightarrow> c
      | Inr tasks \<Rightarrow>
          c\<lparr>toc_heap := heap_Init he_deadline (rebuildEntries now tasks), toc_heapStale := False\<rparr>)"

text \<open>\<open>get\<close> reads a task from the store inside \<^typ>\<open>'x\<close>; \<^term>\<open>None\<close> when the read fails.\<close>

partial_function (option) popExpired ::
  "('x \<Rightarrow> string \<Rightarrow> Task option) \<Rightarrow> 'x TimeoutCallback option \<Rightarrow> gotime \<Rightarrow> TimeoutChecker \<times> 'x
     \<Rightarrow> (TimeoutChecker \<times> 'x) option" where
  "popExpired get cb now cx =
     (if toc_heap (fst cx) = [] then Some cx
      else if after (he_deadline (toc_heap (fst cx) ! 0)) now then Some cx
      else (case get (snd cx) (he_taskID (toc_heap (fst cx) ! 0)) of
              None \<Rightarrow> popExpired get cb now
                ((fst cx)\<lparr>toc_heap := snd (heap_Pop he_deadline (toc_heap (fst cx)))\<rparr>, snd cx)
            | Some task \<Rightarrow>
                if \<not> isTaskTimeout task now
                then popExpired get cb now
                  ((fst cx)\<lparr>toc_heap := snd (heap_Pop he_deadline (toc_heap (fst cx)))\<rparr>, snd cx)
                else popExpired get cb now
                  ((case cb of None \<Rightarrow> (\<lambda>cx. cx) | Some f \<Rightarrow> f (t_ID task) (t_State task))
                     ((fst cx)\<lparr>toc_heap := snd (heap_Pop he_deadline (toc_heap (fst cx))),
                              toc_metrics := note_metric TaskTimeout (toc_metrics (fst cx))\<rparr>, snd cx))))"

definition nextWake :: "TimeoutChecker \<Rightarrow> gotime \<Rightarrow> duration" where
  "nextWake c now =
     (let w = (if toc_heap c \<noteq> []
               then let d = he_deadline (toc_heap c ! 0) - now in if d < 0 then 0 else d
               else toc_checkInterval c)
      in if w < 100 * millisecond then 100 * millisecond else w)"

definition needsRebuild :: "TimeoutChecker \<Rightarrow> bool" where
  "needsRebuild c \<longleftrightarrow> toc_heapStale c \<or> toc_heap c = [] \<or> toc_ticksSinceRebuild c + 1 \<ge> toc_rebuildInterval c"

text \<open>\<open>now0\<close> and \<open>now\<close>: the clock as the rebuild and the check read it.\<close>

definition checkTimeoutsAndGetNextWake ::
  "('d, json) DB \<Rightarrow> (Task \<Rightarrow> nat) \<Rightarrow> ('x \<Rightarrow> 'd engineTaskStore) \<Rightarrow> 'x TimeoutCallback option
     \<Rightarrow> gotime \<Rightarrow> gotime \<Rightarrow> TimeoutChecker \<Rightarrow> 'x \<Rightarrow> (duration \<times> TimeoutChecker \<times> 'x) option" where
  "checkTimeoutsAndGetNextWake B tie store cb now0 now c x =
     (let c1 = (if needsRebuild c
                then (rebuildHeap B tie now0 (store x) c)\<lparr>toc_ticksSinceRebuild := 0\<rparr>
                else c\<lparr>toc_ticksSinceRebuild := toc_ticksSinceRebuild c + 1\<rparr>)
      in case popExpired (\<lambda>x tid. case Store_Get B (store x) tid of Inl _ \<Rightarrow> None | Inr t \<Rightarrow> Some t)
                cb now (c1, x) of
           None \<Rightarrow> None
         | Some (c2, x2) \<Rightarrow> Some (nextWake c2 now, c2, x2))"

definition GetTaskTimeout :: "('d, json) DB \<Rightarrow> 'd engineTaskStore \<Rightarrow> string \<Rightarrow> store_error + gotime option" where
  "GetTaskTimeout B s taskID = bindE (Store_Get B s taskID) (\<lambda>task. Inr (t_TimeoutAt task))"

section \<open>The queue interface\<close>

text \<open>What the checker relies on: the top is an element with the least key, popping removes it.\<close>

locale min_queue =
  fixes key :: "'a \<Rightarrow> int" and top :: "'q \<Rightarrow> 'a option" and pop :: "'q \<Rightarrow> 'q"
    and elems :: "'q \<Rightarrow> 'a multiset" and ok :: "'q \<Rightarrow> bool"
  assumes top_None: "ok q \<Longrightarrow> top q = None \<longleftrightarrow> elems q = {#}"
    and top_in: "ok q \<Longrightarrow> top q = Some x \<Longrightarrow> x \<in># elems q"
    and top_min: "ok q \<Longrightarrow> top q = Some x \<Longrightarrow> y \<in># elems q \<Longrightarrow> key x \<le> key y"
    and pop_ok: "ok q \<Longrightarrow> top q = Some x \<Longrightarrow> ok (pop q)"
    and pop_elems: "ok q \<Longrightarrow> top q = Some x \<Longrightarrow> elems q = add_mset x (elems (pop q))"
begin

definition due :: "int \<Rightarrow> 'q \<Rightarrow> 'a multiset" where
  "due now q = filter_mset (\<lambda>x. key x \<le> now) (elems q)"

lemma due_none: "ok q \<Longrightarrow> top q = Some x \<Longrightarrow> now < key x \<Longrightarrow> due now q = {#}"
  using top_min by (fastforce simp: due_def)

lemma due_empty: "ok q \<Longrightarrow> top q = None \<Longrightarrow> due now q = {#}"
  by (simp add: due_def top_None)

lemma due_pop: "ok q \<Longrightarrow> top q = Some x \<Longrightarrow> key x \<le> now \<Longrightarrow> due now q = add_mset x (due now (pop q))"
  by (simp add: due_def pop_elems)

lemma rest_pop: "ok q \<Longrightarrow> top q = Some x \<Longrightarrow> key x \<le> now \<Longrightarrow>
    filter_mset (\<lambda>x. now < key x) (elems (pop q)) = filter_mset (\<lambda>x. now < key x) (elems q)"
  by (simp add: pop_elems)

end

definition heapTop :: "heapEntry list \<Rightarrow> heapEntry option" where
  "heapTop h = (if h = [] then None else Some (h ! 0))"

abbreviation heapRest :: "heapEntry list \<Rightarrow> heapEntry list" where
  "heapRest h \<equiv> snd (heap_Pop he_deadline h)"

interpretation hq: min_queue he_deadline heapTop heapRest mset "is_heap he_deadline"
proof
  fix q x y
  assume q: "is_heap he_deadline q" and t: "heapTop q = Some x"
  then have x: "q \<noteq> []" "x = q ! 0" by (auto simp: heapTop_def split: if_splits)
  then show "x \<in># mset q" by simp
  show "is_heap he_deadline (heapRest q)" using heap_Pop_correct(2) [OF q x(1)] .
  show "mset q = add_mset x (mset (heapRest q))" using heap_Pop_correct(3) [OF q x(1)] x(2) by simp
  assume "y \<in># mset q"
  then obtain m where "m < length q" "y = q ! m" by (auto simp: in_set_conv_nth)
  then show "he_deadline x \<le> he_deadline y" using heap_root_min [OF q] x(2) by simp
qed (auto simp: heapTop_def)

section \<open>The popping loop\<close>

text \<open>
  A callback that keeps the heap order and adds no entry that is already due lets the loop end.
\<close>

definition callback_ok :: "gotime \<Rightarrow> 'x TimeoutCallback \<Rightarrow> bool" where
  "callback_ok now f \<longleftrightarrow>
     (\<forall>tid st c x c' x'. is_heap he_deadline (toc_heap c) \<and> f tid st (c, x) = (c', x') \<longrightarrow>
        is_heap he_deadline (toc_heap c') \<and> size (hq.due now (toc_heap c')) \<le> size (hq.due now (toc_heap c)))"

lemma popExpired_stop:
  assumes "heapTop (toc_heap c) = None \<or> (\<exists>e. heapTop (toc_heap c) = Some e \<and> now < he_deadline e)"
  shows "popExpired get cb now (c, x) = Some (c, x)"
  using assms by (subst popExpired.simps) (auto simp: heapTop_def go_simps split: if_splits)

lemma popExpired_next:
  assumes "heapTop (toc_heap c) = Some e" "he_deadline e \<le> now"
  shows "popExpired get cb now (c, x) = popExpired get cb now
    (let c1 = c\<lparr>toc_heap := heapRest (toc_heap c)\<rparr>
     in case get x (he_taskID e) of
          None \<Rightarrow> (c1, x)
        | Some task \<Rightarrow>
            if \<not> isTaskTimeout task now then (c1, x)
            else (case cb of None \<Rightarrow> (\<lambda>cx. cx) | Some f \<Rightarrow> f (t_ID task) (t_State task))
                   (c1\<lparr>toc_metrics := note_metric TaskTimeout (toc_metrics c)\<rparr>, x))"
  using assms by (subst popExpired.simps) (auto simp: heapTop_def go_simps Let_def split: if_splits option.split)

lemma popExpired_cases:
  obtains (stop) "heapTop h = None \<or> (\<exists>e. heapTop h = Some e \<and> (now :: int) < he_deadline e)"
  | (pop) e where "heapTop h = Some e" "he_deadline e \<le> now"
  by (cases "heapTop h") (auto simp: not_less [symmetric])

lemma due_stop:
  "is_heap he_deadline h \<Longrightarrow> heapTop h = None \<or> (\<exists>e. heapTop h = Some e \<and> now < he_deadline e) \<Longrightarrow>
     hq.due now h = {#}"
  using hq.due_none hq.due_empty by blast

lemma popExpired_returns:
  assumes "is_heap he_deadline (toc_heap c)" and cb: "\<And>f. cb = Some f \<Longrightarrow> callback_ok now f"
  shows "\<exists>c' x'. popExpired get cb now (c, x) = Some (c', x') \<and> is_heap he_deadline (toc_heap c')
    \<and> hq.due now (toc_heap c') = {#}"
  using assms(1)
proof (induction "size (hq.due now (toc_heap c))" arbitrary: c x rule: less_induct)
  case less
  show ?case
  proof (cases rule: popExpired_cases [of "toc_heap c" now])
    case stop
    with due_stop [OF less.prems stop] popExpired_stop [OF stop, of get cb x] less.prems show ?thesis by auto
  next
    case (pop e)
    let ?c1 = "c\<lparr>toc_heap := heapRest (toc_heap c)\<rparr>"
    have h1: "is_heap he_deadline (toc_heap ?c1)" using hq.pop_ok [OF less.prems pop(1)] by simp
    have s1: "size (hq.due now (toc_heap ?c1)) < size (hq.due now (toc_heap c))"
      using hq.due_pop [OF less.prems pop] by simp
    show ?thesis
    proof (cases "\<exists>task. get x (he_taskID e) = Some task \<and> isTaskTimeout task now \<and> cb \<noteq> None")
      case True
      then obtain task f where t: "get x (he_taskID e) = Some task" "isTaskTimeout task now" "cb = Some f" by auto
      obtain c2 x2 where f: "f (t_ID task) (t_State task)
          (?c1\<lparr>toc_metrics := note_metric TaskTimeout (toc_metrics c)\<rparr>, x) = (c2, x2)" by fastforce
      have "is_heap he_deadline (toc_heap (?c1\<lparr>toc_metrics := note_metric TaskTimeout (toc_metrics c)\<rparr>))"
        using h1 by simp
      with cb [OF t(3)] f have "is_heap he_deadline (toc_heap c2)"
        "size (hq.due now (toc_heap c2)) \<le> size (hq.due now (toc_heap (?c1\<lparr>toc_metrics := note_metric TaskTimeout (toc_metrics c)\<rparr>)))"
        unfolding callback_ok_def by blast+
      then have "is_heap he_deadline (toc_heap c2)" "size (hq.due now (toc_heap c2)) < size (hq.due now (toc_heap c))"
        using s1 by simp_all
      from less.hyps [OF this(2,1), of x2] show ?thesis
        using t f by (simp add: popExpired_next [OF pop] Let_def)
    next
      case False
      then have "(let c1 = ?c1
         in case get x (he_taskID e) of None \<Rightarrow> (c1, x)
            | Some task \<Rightarrow> if \<not> isTaskTimeout task now then (c1, x)
                else (case cb of None \<Rightarrow> (\<lambda>cx. cx) | Some f \<Rightarrow> f (t_ID task) (t_State task))
                   (c1\<lparr>toc_metrics := note_metric TaskTimeout (toc_metrics c)\<rparr>, x))
         \<in> {(?c1, x), (?c1\<lparr>toc_metrics := note_metric TaskTimeout (toc_metrics c)\<rparr>, x)}"
        by (auto simp: Let_def split: option.split)
      then show ?thesis
        using less.hyps [of ?c1 x] less.hyps [of "?c1\<lparr>toc_metrics := note_metric TaskTimeout (toc_metrics c)\<rparr>" x]
          h1 s1 by (auto simp: popExpired_next [OF pop])
    qed
  qed
qed

section \<open>What one check reports\<close>

text \<open>A callback that only records its calls, beside a store \<^typ>\<open>'s\<close> it leaves alone.\<close>

definition recordTimeout :: "('s \<times> (string \<times> TaskState) list) TimeoutCallback" where
  "recordTimeout tid st cx = (fst cx, (fst (snd cx), snd (snd cx) @ [(tid, st)]))"

definition overdue :: "(string \<Rightarrow> Task option) \<Rightarrow> gotime \<Rightarrow> heapEntry \<Rightarrow> bool" where
  "overdue tasks now e \<longleftrightarrow> (case tasks (he_taskID e) of None \<Rightarrow> False | Some t \<Rightarrow> isTaskTimeout t now)"

lemma recordTimeout_ok: "callback_ok now recordTimeout"
  by (simp add: callback_ok_def recordTimeout_def)

lemma popExpired_records:
  assumes "is_heap he_deadline (toc_heap c)"
    and ids: "\<And>tid t. get s tid = Some t \<Longrightarrow> t_ID t = tid"
  shows "\<exists>c' lg'. popExpired (\<lambda>x. get (fst x)) (Some recordTimeout) now (c, (s, lg)) = Some (c', (s, lg'))
    \<and> is_heap he_deadline (toc_heap c') \<and> toc_checkInterval c' = toc_checkInterval c
    \<and> mset (toc_heap c') = filter_mset (\<lambda>e. now < he_deadline e) (mset (toc_heap c))
    \<and> mset (map fst lg') = mset (map fst lg)
        + image_mset he_taskID (filter_mset (overdue (get s) now) (hq.due now (toc_heap c)))"
  using assms(1)
proof (induction "size (hq.due now (toc_heap c))" arbitrary: c lg rule: less_induct)
  case less
  show ?case
  proof (cases rule: popExpired_cases [of "toc_heap c" now])
    case stop
    have d: "hq.due now (toc_heap c) = {#}" using due_stop [OF less.prems stop] .
    then have "filter_mset (\<lambda>e. now < he_deadline e) (mset (toc_heap c)) = mset (toc_heap c)"
      by (auto simp: hq.due_def filter_mset_eq_conv)
    then show ?thesis using popExpired_stop [OF stop, of "\<lambda>x. get (fst x)" "Some recordTimeout" "(s, lg)"]
        less.prems d by auto
  next
    case (pop e)
    let ?c1 = "c\<lparr>toc_heap := heapRest (toc_heap c)\<rparr>"
    let ?c2 = "?c1\<lparr>toc_metrics := note_metric TaskTimeout (toc_metrics c)\<rparr>"
    have h1: "is_heap he_deadline (toc_heap ?c1)" using hq.pop_ok [OF less.prems pop(1)] by simp
    have d1: "hq.due now (toc_heap c) = add_mset e (hq.due now (toc_heap ?c1))"
      using hq.due_pop [OF less.prems pop] by simp
    then have s1: "size (hq.due now (toc_heap ?c1)) < size (hq.due now (toc_heap c))" by simp
    have r1: "filter_mset (\<lambda>e. now < he_deadline e) (mset (toc_heap ?c1)) =
        filter_mset (\<lambda>e. now < he_deadline e) (mset (toc_heap c))"
      using hq.rest_pop [OF less.prems pop] by simp
    show ?thesis
    proof (cases "overdue (get s) now e")
      case True
      then obtain t where t: "get s (he_taskID e) = Some t" "isTaskTimeout t now"
        by (auto simp: overdue_def split: option.splits)
      have n: "popExpired (\<lambda>x. get (fst x)) (Some recordTimeout) now (c, (s, lg)) =
          popExpired (\<lambda>x. get (fst x)) (Some recordTimeout) now (?c2, (s, lg @ [(t_ID t, t_State t)]))"
        using t by (subst popExpired_next [OF pop]) (simp add: recordTimeout_def Let_def)
      show ?thesis
        using less.hyps [of ?c2 "lg @ [(t_ID t, t_State t)]"] h1 s1 d1 r1 True ids [OF t(1)]
        unfolding n by auto
    next
      case False
      have n: "popExpired (\<lambda>x. get (fst x)) (Some recordTimeout) now (c, (s, lg)) =
          popExpired (\<lambda>x. get (fst x)) (Some recordTimeout) now (?c1, (s, lg))"
        using False by (subst popExpired_next [OF pop]) (auto simp: overdue_def Let_def split: option.splits)
      show ?thesis using less.hyps [of ?c1 lg] h1 s1 d1 r1 False unfolding n by auto
    qed
  qed
qed

section \<open>A check on the in-memory backend\<close>

lemma scan_unarchived:
  assumes "mem_inv s"
  obtains tasks where "Store_List (memoryDB rank) tie s (emptyFilter\<lparr>f_IncludeArchived := False\<rparr>) = Inr tasks"
    and "distinct (map t_ID tasks)"
    and "\<And>t. t \<in> set tasks \<longleftrightarrow> mem_task s (t_ID t) = Some t \<and> t_ArchivedAt t = None"
proof -
  obtain keys where l: "db_list (memoryDB rank) (ets_db s) (ets_prefix s) = Inr keys"
    using mem_list_total by blast
  let ?all = "List.map_filter (readKey (memoryDB rank) (ets_db s)) keys"
  let ?f = "emptyFilter\<lparr>f_IncludeArchived := False\<rparr>"
  let ?ts = "go_sort_slice tie (\<lambda>t. - t_CreatedAt t) (filter (\<lambda>t. matchFilter t ?f) ?all)"
  have sc: "distinct ?all" "\<And>t. t \<in> set ?all \<longleftrightarrow> (\<exists>tid. mem_task s tid = Some t)"
    using ms.scan_tasks [OF assms l] by auto
  have id: "mem_task s tid = Some t \<Longrightarrow> t_ID t = tid" for tid t
    using assms docs_ok_ID by (auto simp: store_inv_def)
  have sc2: "t \<in> set ?all \<longleftrightarrow> mem_task s (t_ID t) = Some t" for t using sc(2) id by metis
  have mem: "t \<in> set ?ts \<longleftrightarrow> mem_task s (t_ID t) = Some t \<and> t_ArchivedAt t = None" for t
    using sc2 [of t] by (auto simp: matchFilter_iff emptyFilter_def)
  have "mset ?ts = mset (filter (\<lambda>t. matchFilter t ?f) ?all)" by simp
  then have "distinct ?ts" using sc(1) by (metis distinct_filter mset_eq_imp_distinct_iff)
  moreover have "inj_on t_ID (set ?ts)"
  proof (rule inj_onI)
    fix t u assume t: "t \<in> set ?ts" and u: "u \<in> set ?ts" and tu: "t_ID t = t_ID u"
    have "mem_task s (t_ID t) = Some t" "mem_task s (t_ID u) = Some u"
      using t u unfolding mem by blast+
    then show "t = u" using tu by (metis option.inject)
  qed
  ultimately have "distinct (map t_ID ?ts)" by (simp only: distinct_map simp_thms)
  moreover have "Store_List (memoryDB rank) tie s ?f = Inr ?ts"
    using l by (simp add: Store_List_def emptyFilter_def paginate_def)
  ultimately show ?thesis using that [OF _ _ mem] by blast
qed

definition storeGet :: "(string \<Rightarrow> nat) \<Rightarrow> json MemoryDB engineTaskStore \<Rightarrow> string \<Rightarrow> Task option" where
  "storeGet rank s tid = (case Store_Get (memoryDB rank) s tid of Inl _ \<Rightarrow> None | Inr t \<Rightarrow> Some t)"

lemma storeGet_mem: "mem_inv s \<Longrightarrow> storeGet rank s = mem_task s"
proof
  fix tid assume "mem_inv s"
  then have ok: "mem_ok (ets_db s)" by (simp add: store_inv_def)
  show "storeGet rank s tid = mem_task s tid"
  proof (cases "mem_task s tid")
    case None
    then obtain err where "Store_Get (memoryDB rank) s tid = Inl err"
      using ms.getLocked_None [OF ok, of tid rank] unfolding ms.Store_Get_eq by blast
    with None show ?thesis by (simp add: storeGet_def)
  next
    case (Some t)
    then have "Store_Get (memoryDB rank) s tid = Inr t"
      using ms.getLocked_iff [OF ok, of rank tid t] unfolding ms.Store_Get_eq by blast
    with Some show ?thesis by (simp add: storeGet_def)
  qed
qed

lemma rebuildEntries_ids:
  "image_mset he_taskID (mset (rebuildEntries now0 ts)) = mset (map t_ID (filter (\<lambda>t. t_TimeoutAt t \<noteq> None) ts))"
  by (induction ts) (auto simp: rebuildEntries_def List.map_filter_def split: option.splits)

lemma rebuildEntries_in:
  "e \<in> set (rebuildEntries now0 ts) \<longleftrightarrow>
     (\<exists>t \<in> set ts. \<exists>u. t_TimeoutAt t = Some u \<and> e = \<lparr>he_deadline = max u now0, he_taskID = t_ID t\<rparr>)"
proof -
  have "(if before u now0 then now0 else u) = max u now0" for u by (simp add: before_def max_def)
  then have "(case t_TimeoutAt t of None \<Rightarrow> None
      | Some u \<Rightarrow> Some \<lparr>he_deadline = (if before u now0 then now0 else u), he_taskID = t_ID t\<rparr>) = Some e \<longleftrightarrow>
      (\<exists>u. t_TimeoutAt t = Some u \<and> e = \<lparr>he_deadline = max u now0, he_taskID = t_ID t\<rparr>)" for t
    by (auto split: option.split)
  note eq = this
  show ?thesis unfolding rebuildEntries_def set_map_filter_iff by (simp only: eq)
qed

lemma rebuild_effect:
  assumes "mem_inv s"
  obtains tasks where "toc_heap (rebuildHeap (memoryDB rank) tie now0 s c) = heap_Init he_deadline (rebuildEntries now0 tasks)"
    and "toc_checkInterval (rebuildHeap (memoryDB rank) tie now0 s c) = toc_checkInterval c"
    and "distinct (map t_ID tasks)"
    and "\<And>t. t \<in> set tasks \<longleftrightarrow> mem_task s (t_ID t) = Some t \<and> t_ArchivedAt t = None"
proof -
  obtain tasks where l: "Store_List (memoryDB rank) tie s (emptyFilter\<lparr>f_IncludeArchived := False\<rparr>) = Inr tasks"
    and d: "distinct (map t_ID tasks)"
    and m: "\<And>t. t \<in> set tasks \<longleftrightarrow> mem_task s (t_ID t) = Some t \<and> t_ArchivedAt t = None"
    using scan_unarchived [OF assms] by metis
  show ?thesis by (rule that [OF _ _ d m]) (simp_all add: rebuildHeap_def l)
qed

lemma distinct_submset:
  assumes "mset xs \<subseteq># mset ys" "distinct ys" shows "distinct xs"
proof -
  have "count (mset xs) a \<le> 1" for a
    using mset_subset_eq_count [OF assms(1), of a] assms(2)
    by (metis distinct_count_atmost_1 le_trans le_refl less_one linorder_not_less zero_le)
  then have "count (mset xs) a = (if a \<in> set xs then 1 else 0)" for a
    by (metis One_nat_def Suc_leI antisym count_eq_zero_iff gr_zeroI set_mset_mset)
  then show ?thesis by (simp only: distinct_count_atmost_1 simp_thms)
qed

lemma rebuild_due_ids:
  assumes tasks: "distinct (map t_ID tasks)"
      "\<And>t. t \<in> set tasks \<longleftrightarrow> mem_task s (t_ID t) = Some t \<and> t_ArchivedAt t = None"
    and h: "mset h = mset (rebuildEntries now0 tasks)" and now: "now0 \<le> now"
  defines "ids \<equiv> image_mset he_taskID (filter_mset (overdue (mem_task s) now) (hq.due now h))"
  shows "ids \<subseteq># mset (map t_ID tasks)"
    and "tid \<in># ids \<longleftrightarrow> (\<exists>t u. mem_task s tid = Some t \<and> t_ID t = tid \<and> t_ArchivedAt t = None
           \<and> t_TimeoutAt t = Some u \<and> u < now)"
proof -
  have "ids \<subseteq># image_mset he_taskID (mset (rebuildEntries now0 tasks))"
    unfolding ids_def h [symmetric] hq.due_def
    by (intro image_mset_subseteq_mono) (metis multiset_filter_subset subset_mset.order_trans)
  also have "\<dots> \<subseteq># mset (map t_ID tasks)"
    unfolding rebuildEntries_ids mset_map mset_filter by (intro image_mset_subseteq_mono) simp
  finally show "ids \<subseteq># mset (map t_ID tasks)" .
  have "tid \<in># ids \<longleftrightarrow> (\<exists>e \<in> set (rebuildEntries now0 tasks). he_deadline e \<le> now
      \<and> overdue (mem_task s) now e \<and> he_taskID e = tid)"
    unfolding ids_def hq.due_def h by auto
  also have "\<dots> \<longleftrightarrow> (\<exists>t u. mem_task s tid = Some t \<and> t_ID t = tid \<and> t_ArchivedAt t = None
           \<and> t_TimeoutAt t = Some u \<and> u < now)"
    (is "?L \<longleftrightarrow> ?R")
  proof
    assume ?L
    then obtain t u where "t \<in> set tasks" "t_TimeoutAt t = Some u" "tid = t_ID t"
      "overdue (mem_task s) now \<lparr>he_deadline = max u now0, he_taskID = t_ID t\<rparr>"
      unfolding rebuildEntries_in Bex_def by auto
    then show ?R using tasks(2) [of t] by (auto simp: overdue_def isTaskTimeout_def after_def)
  next
    assume ?R
    then obtain t u where t: "mem_task s tid = Some t" "t_ID t = tid" "t_ArchivedAt t = None"
      "t_TimeoutAt t = Some u" "u < now" by auto
    then have "\<lparr>he_deadline = max u now0, he_taskID = tid\<rparr> \<in> set (rebuildEntries now0 tasks)"
      using tasks(2) [of t] unfolding rebuildEntries_in by auto
    moreover have "overdue (mem_task s) now \<lparr>he_deadline = max u now0, he_taskID = tid\<rparr>"
      using t by (simp add: overdue_def isTaskTimeout_def after_def)
    ultimately show ?L using t(5) now by force
  qed
  finally show "tid \<in># ids \<longleftrightarrow> (\<exists>t u. mem_task s tid = Some t \<and> t_ID t = tid \<and> t_ArchivedAt t = None
           \<and> t_TimeoutAt t = Some u \<and> u < now)" .
qed

section \<open>Properties\<close>

lemma nextWake_bounds:
  assumes "is_heap he_deadline (toc_heap c)"
  shows "100 * millisecond \<le> nextWake c now"
    and "e \<in> set (toc_heap c) \<Longrightarrow> nextWake c now \<le> max (100 * millisecond) (he_deadline e - now)"
proof -
  show "100 * millisecond \<le> nextWake c now" by (simp add: nextWake_def Let_def)
  assume "e \<in> set (toc_heap c)"
  then obtain m where m: "m < length (toc_heap c)" "e = toc_heap c ! m" by (auto simp: in_set_conv_nth)
  then have "he_deadline (toc_heap c ! 0) \<le> he_deadline e" "toc_heap c \<noteq> []"
    using heap_root_min [OF assms] by auto
  then show "nextWake c now \<le> max (100 * millisecond) (he_deadline e - now)"
    by (auto simp: nextWake_def Let_def)
qed

text \<open>
  Claim C15. A check that rebuilds its heap misses no overdue task and reports no other: with a callback
  that records the calls, the reported identifiers are, each once, exactly those of the stored,
  unarchived tasks whose timeout lies strictly before the check; the check returns, and it sleeps
  at least 100 ms and not past any deadline that remains, beyond that minimum.
\<close>

theorem check_reports_overdue:
  assumes "mem_inv s" "needsRebuild c" "now0 \<le> now"
  shows "\<exists>wake c' lg. checkTimeoutsAndGetNextWake (memoryDB rank) tie fst (Some recordTimeout) now0 now c (s, [])
       = Some (wake, c', (s, lg))
     \<and> distinct (map fst lg)
     \<and> fst ` set lg = {tid. \<exists>t u. mem_task s tid = Some t \<and> t_ArchivedAt t = None \<and> t_TimeoutAt t = Some u \<and> u < now}
     \<and> 100 * millisecond \<le> wake
     \<and> (\<forall>e \<in> set (toc_heap c'). wake \<le> max (100 * millisecond) (he_deadline e - now))"
proof -
  define c1 where "c1 = (rebuildHeap (memoryDB rank) tie now0 s c)\<lparr>toc_ticksSinceRebuild := 0\<rparr>"
  obtain tasks where h: "toc_heap c1 = heap_Init he_deadline (rebuildEntries now0 tasks)"
    and d: "distinct (map t_ID tasks)"
    and m: "\<And>t. t \<in> set tasks \<longleftrightarrow> mem_task s (t_ID t) = Some t \<and> t_ArchivedAt t = None"
    using rebuild_effect [OF assms(1), of rank tie now0 c] unfolding c1_def by (metis TimeoutChecker.select_convs(3)
        TimeoutChecker.surjective TimeoutChecker.update_convs(5))
  have heap: "is_heap he_deadline (toc_heap c1)" "mset (toc_heap c1) = mset (rebuildEntries now0 tasks)"
    using heap_Init_correct [of he_deadline "rebuildEntries now0 tasks"] h by auto
  have ids: "t_ID t = tid" if "mem_task s tid = Some t" for tid t
    using assms(1) that docs_ok_ID by (auto simp: store_inv_def)
  have g: "storeGet rank s = mem_task s" using storeGet_mem [OF assms(1)] .
  obtain c2 lg where p: "popExpired (\<lambda>x. storeGet rank (fst x)) (Some recordTimeout) now (c1, (s, [])) = Some (c2, (s, lg))"
    and h2: "is_heap he_deadline (toc_heap c2)"
    and lg: "mset (map fst lg) = image_mset he_taskID (filter_mset (overdue (mem_task s) now) (hq.due now (toc_heap c1)))"
    using popExpired_records [of c1 "storeGet rank" s now "[]", OF heap(1)] ids unfolding g by auto
  note due = rebuild_due_ids [OF d m heap(2) assms(3)]
  have "distinct (map fst lg)" using distinct_submset [OF due(1) [folded lg] d] .
  moreover have "tid \<in> fst ` set lg \<longleftrightarrow>
      (\<exists>t u. mem_task s tid = Some t \<and> t_ArchivedAt t = None \<and> t_TimeoutAt t = Some u \<and> u < now)" for tid
  proof -
    have "tid \<in> fst ` set lg \<longleftrightarrow> tid \<in># mset (map fst lg)" by simp
    also have "\<dots> \<longleftrightarrow> (\<exists>t u. mem_task s tid = Some t \<and> t_ArchivedAt t = None \<and> t_TimeoutAt t = Some u \<and> u < now)"
      unfolding lg due(2) using ids by blast
    finally show ?thesis .
  qed
  then have "fst ` set lg = {tid. \<exists>t u. mem_task s tid = Some t \<and> t_ArchivedAt t = None \<and> t_TimeoutAt t = Some u \<and> u < now}"
    by blast
  moreover have "checkTimeoutsAndGetNextWake (memoryDB rank) tie fst (Some recordTimeout) now0 now c (s, [])
      = Some (nextWake c2 now, c2, (s, lg))"
    using p assms(2) by (simp add: checkTimeoutsAndGetNextWake_def c1_def storeGet_def [abs_def])
  ultimately show ?thesis using nextWake_bounds [OF h2] by blast
qed

definition timedEngine :: mem_engine where
  "timedEngine = fst (snd (HandleTransitionCommand (memoryDB length) busOnly None exampleStamps [] exampleEngine
     ((moveCmd ''b'')\<lparr>cmd_SetTimeoutAt := Some 4\<rparr>) []))"

lemma timedEngine_facts:
  "mem_inv (sme_store timedEngine)"
  "\<exists>t. mem_task (sme_store timedEngine) ''x'' = Some t \<and> t_State t = ''b'' \<and> t_ArchivedAt t = None
     \<and> t_TimeoutAt t = Some 4" "sme_config timedEngine = diamond"
proof -
  let ?cmd = "(moveCmd ''b'')\<lparr>cmd_SetTimeoutAt := Some 4\<rparr>"
  have nt: "\<not> IsTerminalState diamond ''b''" by (simp add: diamond_def exampleConfig_def IsTerminalState_iff)
  show "mem_inv (sme_store timedEngine)"
    "\<exists>t. mem_task (sme_store timedEngine) ''x'' = Some t \<and> t_State t = ''b'' \<and> t_ArchivedAt t = None
       \<and> t_TimeoutAt t = Some 4" "sme_config timedEngine = diamond"
    using mem_command_commits [of exampleEngine ?cmd exampleTask length busOnly None exampleStamps "[]" "[]"]
      exampleEngine_facts diamond_allowed nt
    by (auto simp: timedEngine_def commitTask_def)
qed

theorem check_reports_overdue_witness:
  "\<exists>wake c' lg. checkTimeoutsAndGetNextWake (memoryDB length) (\<lambda>_. 0) fst (Some recordTimeout) 8 9
       (NewTimeoutChecker 0 0) (sme_store timedEngine, []) = Some (wake, c', (sme_store timedEngine, lg))
     \<and> ''x'' \<in> fst ` set lg"
  using check_reports_overdue [OF timedEngine_facts(1), of "NewTimeoutChecker 0 0" 8 9 length "\<lambda>_. 0"]
    timedEngine_facts(2)
  by (auto simp: needsRebuild_def NewTimeoutChecker_def)

text \<open>
  The popping loop of a check ends whenever the callback keeps the heap order and pushes
  only entries that are not yet due; afterwards no due entry is left in the heap.
\<close>

theorem check_loop_terminates:
  assumes "is_heap he_deadline (toc_heap c)" "callback_ok now f"
  shows "\<exists>c' x'. popExpired get (Some f) now (c, x) = Some (c', x') \<and> is_heap he_deadline (toc_heap c')
     \<and> (\<forall>e \<in> set (toc_heap c'). now < he_deadline e)"
proof -
  obtain c' x' where "popExpired get (Some f) now (c, x) = Some (c', x')" "is_heap he_deadline (toc_heap c')"
    and "hq.due now (toc_heap c') = {#}"
    using popExpired_returns [OF assms(1), of "Some f" now get x] assms(2) by auto
  then show ?thesis by (auto simp: hq.due_def)
qed

lemma pushed_heap:
  "toc_heap (Checker_Push (NewTimeoutChecker 0 0) tid d) = [\<lparr>he_deadline = d, he_taskID = tid\<rparr>]"
  "is_heap he_deadline (toc_heap (Checker_Push (NewTimeoutChecker 0 0) tid d))"
  by (simp_all add: Checker_Push_def NewTimeoutChecker_def heap_Push_def heap_up.simps par_def is_heap_def heap_from_def)

theorem check_loop_terminates_witness:
  "\<exists>c' x'. popExpired (\<lambda>x. mem_task (fst x)) (Some recordTimeout) 9
      (Checker_Push (NewTimeoutChecker 0 0) ''x'' 4, (sme_store timedEngine, [])) = Some (c', x')"
proof -
  have "is_heap he_deadline (toc_heap (Checker_Push (NewTimeoutChecker 0 0) ''x'' 4))"
    by (rule pushed_heap(2))
  from check_loop_terminates [OF this recordTimeout_ok [of 9], of "\<lambda>x. mem_task (fst x)"] show ?thesis by blast
qed

text \<open>
  An entry that was pushed for a task is not withdrawn when the task ends, and the overdue
  test does not look at the archive mark: a due entry of an archived task whose timeout has passed
  is reported as a timeout.
\<close>

theorem check_reports_archived:
  assumes "is_heap he_deadline (toc_heap c)" "mem_inv s" "e \<in> set (toc_heap c)" "he_deadline e \<le> now"
    and "mem_task s (he_taskID e) = Some t" "t_ArchivedAt t \<noteq> None" "t_TimeoutAt t = Some u" "u < now"
  shows "\<exists>c' lg. popExpired (\<lambda>x. mem_task (fst x)) (Some recordTimeout) now (c, (s, [])) = Some (c', (s, lg))
     \<and> he_taskID e \<in> fst ` set lg"
proof -
  have ids: "t_ID t = tid" if "mem_task s tid = Some t" for tid t
    using assms(2) that docs_ok_ID by (auto simp: store_inv_def)
  obtain c' lg where p: "popExpired (\<lambda>x. mem_task (fst x)) (Some recordTimeout) now (c, (s, [])) = Some (c', (s, lg))"
    and lg: "mset (map fst lg) = image_mset he_taskID (filter_mset (overdue (mem_task s) now) (hq.due now (toc_heap c)))"
    using popExpired_records [of c mem_task s now "[]", OF assms(1) ids] by auto
  have "he_taskID e \<in># mset (map fst lg)"
    unfolding lg using assms by (auto simp: hq.due_def overdue_def isTaskTimeout_def after_def)
  then show ?thesis using p by auto
qed

definition finishedEngine :: mem_engine where
  "finishedEngine = fst (snd (HandleTransitionCommand (memoryDB length) busOnly None exampleStamps [] timedEngine
     ((moveCmd ''t'')\<lparr>cmd_CurrentState := ''b''\<rparr>) []))"

lemma finishedEngine_facts:
  "mem_inv (sme_store finishedEngine)"
  "\<exists>t. mem_task (sme_store finishedEngine) ''x'' = Some t \<and> t_ArchivedAt t = Some 6 \<and> t_TimeoutAt t = Some 4"
proof -
  let ?cmd = "(moveCmd ''t'')\<lparr>cmd_CurrentState := ''b''\<rparr>"
  obtain t where t: "mem_task (sme_store timedEngine) ''x'' = Some t" "t_State t = ''b''" "t_TimeoutAt t = Some 4"
    using timedEngine_facts(2) by auto
  have c: "IsTerminalState diamond ''t''" "IsTransitionAllowed diamond ''b'' ''t''" "cmd_SetTimeoutAt ?cmd = None"
    by (simp_all add: diamond_def exampleConfig_def IsTerminalState_iff IsTransitionAllowed_def moveCmd_def)
  show "mem_inv (sme_store finishedEngine)"
    "\<exists>t. mem_task (sme_store finishedEngine) ''x'' = Some t \<and> t_ArchivedAt t = Some 6 \<and> t_TimeoutAt t = Some 4"
    using mem_command_commits [of timedEngine ?cmd t length busOnly None exampleStamps "[]" "[]"]
      timedEngine_facts(1,3) t c
    by (auto simp: finishedEngine_def commitTask_def exampleStamps_def)
qed

theorem check_reports_archived_witness:
  "\<exists>c' lg. popExpired (\<lambda>x. mem_task (fst x)) (Some recordTimeout) 9
      (Checker_Push (NewTimeoutChecker 0 0) ''x'' 4, (sme_store finishedEngine, []))
        = Some (c', (sme_store finishedEngine, lg)) \<and> ''x'' \<in> fst ` set lg"
proof -
  have e: "\<lparr>he_deadline = 4, he_taskID = ''x''\<rparr> \<in> set (toc_heap (Checker_Push (NewTimeoutChecker 0 0) ''x'' 4))"
    by (simp add: pushed_heap)
  obtain t where "mem_task (sme_store finishedEngine) ''x'' = Some t" "t_ArchivedAt t \<noteq> None" "t_TimeoutAt t = Some 4"
    using finishedEngine_facts(2) by auto
  with check_reports_archived [OF pushed_heap(2) finishedEngine_facts(1) e, of 9 t 4] show ?thesis by simp
qed

end
