(* ===== verification/Archive_Cleaner.thy ===== *)
theory Archive_Cleaner
  imports Timeout_Checker
begin

text \<open>
  The archive cleaner (\<^verbatim>\<open>src/pkg/task/archive.go\<close>): one pass deletes the tasks archived longer ago than the
  retention period. The ticker that repeats the pass is not modelled.
\<close>

record ArchiveCleaner =
  ac_retention :: duration
  ac_interval :: duration
  ac_metrics :: "MetricsRecorder option"

definition NewArchiveCleaner :: "int \<Rightarrow> duration \<Rightarrow> ArchiveCleaner" where
  "NewArchiveCleaner retentionDays interval =
     \<lparr>ac_retention = retentionDays * 24 * 3600 * second, ac_interval = interval, ac_metrics = None\<rparr>"

definition expiredArchive :: "gotime \<Rightarrow> Task \<Rightarrow> bool" where
  "expiredArchive cutoff task \<longleftrightarrow> (case t_ArchivedAt task of None \<Rightarrow> False | Some a \<Rightarrow> before a cutoff)"

text \<open>The loop over the listed tasks; a failed deletion is logged and skipped.\<close>

fun cleanupLoop ::
  "('d, json) DB \<Rightarrow> gotime \<Rightarrow> Task list \<Rightarrow> 'd engineTaskStore \<Rightarrow> nat \<Rightarrow> 'd engineTaskStore \<times> nat" where
  "cleanupLoop B cutoff [] s deleted = (s, deleted)"
| "cleanupLoop B cutoff (task # tasks) s deleted =
     (if expiredArchive cutoff task
      then (case Delete B s (t_ID task) of
              Inl _ \<Rightarrow> cleanupLoop B cutoff tasks s deleted
            | Inr s' \<Rightarrow> cleanupLoop B cutoff tasks s' (deleted + 1))
      else cleanupLoop B cutoff tasks s deleted)"

definition cleanup ::
  "('d, json) DB \<Rightarrow> (Task \<Rightarrow> nat) \<Rightarrow> gotime \<Rightarrow> ArchiveCleaner \<Rightarrow> 'd engineTaskStore
     \<Rightarrow> ArchiveCleaner \<times> 'd engineTaskStore" where
  "cleanup B tie now c s =
     (let cutoff = now - ac_retention c
      in case Store_List B tie s (emptyFilter\<lparr>f_IncludeArchived := True\<rparr>) of
           Inl _ \<Rightarrow> (c, s)
         | Inr tasks \<Rightarrow>
             (let r = cleanupLoop B cutoff tasks s 0
              in (c\<lparr>ac_metrics := map_option (\<lambda>ms. ms @ replicate (snd r) TaskDeleted) (ac_metrics c)\<rparr>, fst r)))"

section \<open>One pass\<close>

lemma mem_Delete_total: "\<exists>s'. Delete (memoryDB rank) s tid = Inr s'"
  by (simp add: Delete_def memoryDB_simps split: sum.split)

lemma cleanupLoop_effect:
  assumes "mem_inv s"
  shows "\<exists>s'. cleanupLoop (memoryDB rank) cutoff tasks s n
       = (s', n + length (filter (expiredArchive cutoff) tasks))
     \<and> mem_inv s' \<and> mem_task s' = (mem_task s) |` (- t_ID ` set (filter (expiredArchive cutoff) tasks))"
  using assms
proof (induction tasks arbitrary: s n)
  case Nil
  then show ?case by simp
next
  case (Cons t tasks)
  show ?case
  proof (cases "expiredArchive cutoff t")
    case False
    with Cons show ?thesis by auto
  next
    case True
    obtain s1 where d: "Delete (memoryDB rank) s (t_ID t) = Inr s1" using mem_Delete_total by blast
    have s1: "mem_inv s1" "mem_task s1 = (mem_task s)(t_ID t := None)" using ms.Delete_effect [OF Cons.prems d] by auto
    obtain s' where "cleanupLoop (memoryDB rank) cutoff tasks s1 (n + 1)
       = (s', n + 1 + length (filter (expiredArchive cutoff) tasks))" "mem_inv s'"
       "mem_task s' = (mem_task s1) |` (- t_ID ` set (filter (expiredArchive cutoff) tasks))"
      using Cons.IH [OF s1(1), of "n + 1"] by auto
    then show ?thesis using True d s1(2) by (auto simp: restrict_map_def fun_eq_iff)
  qed
qed

lemma scan_all:
  assumes "mem_inv s"
  obtains tasks where "Store_List (memoryDB rank) tie s (emptyFilter\<lparr>f_IncludeArchived := True\<rparr>) = Inr tasks"
    and "\<And>t. t \<in> set tasks \<longleftrightarrow> (\<exists>tid. mem_task s tid = Some t)"
proof -
  obtain keys where l: "db_list (memoryDB rank) (ets_db s) (ets_prefix s) = Inr keys"
    using mem_list_total by blast
  let ?all = "List.map_filter (readKey (memoryDB rank) (ets_db s)) keys"
  let ?f = "emptyFilter\<lparr>f_IncludeArchived := True\<rparr>"
  have "matchFilter t ?f" for t by (simp add: matchFilter_iff emptyFilter_def)
  then have "Store_List (memoryDB rank) tie s ?f = Inr (go_sort_slice tie (\<lambda>t. - t_CreatedAt t) ?all)"
    using l by (simp add: Store_List_def paginate_def emptyFilter_def)
  moreover have "t \<in> set (go_sort_slice tie (\<lambda>t. - t_CreatedAt t) ?all) \<longleftrightarrow> (\<exists>tid. mem_task s tid = Some t)" for t
    using ms.scan_tasks(2) [OF assms l, of t] by simp
  ultimately show ?thesis using that by blast
qed

lemma cleanup_effect:
  assumes "mem_inv s"
  shows "\<exists>c' s'. cleanup (memoryDB rank) tie now c s = (c', s') \<and> mem_inv s'
     \<and> mem_task s' = (\<lambda>tid. case mem_task s tid of None \<Rightarrow> None
          | Some t \<Rightarrow> if expiredArchive (now - ac_retention c) t then None else Some t)"
proof -
  let ?cut = "now - ac_retention c"
  obtain tasks where l: "Store_List (memoryDB rank) tie s (emptyFilter\<lparr>f_IncludeArchived := True\<rparr>) = Inr tasks"
    and m: "\<And>t. t \<in> set tasks \<longleftrightarrow> (\<exists>tid. mem_task s tid = Some t)"
    using scan_all [OF assms] by metis
  have id: "mem_task s tid = Some t \<Longrightarrow> t_ID t = tid" for tid t
    using assms docs_ok_ID by (auto simp: store_inv_def)
  obtain s' n where r: "cleanupLoop (memoryDB rank) ?cut tasks s 0 = (s', n)" and s': "mem_inv s'"
    "mem_task s' = (mem_task s) |` (- t_ID ` set (filter (expiredArchive ?cut) tasks))"
    using cleanupLoop_effect [OF assms, of rank ?cut tasks 0] by auto
  have del: "tid \<in> t_ID ` set (filter (expiredArchive ?cut) tasks) \<longleftrightarrow> expiredArchive ?cut t"
    if "mem_task s tid = Some t" for tid t
    using that id m by (auto simp: image_iff)
  have "mem_task s' tid = (case mem_task s tid of None \<Rightarrow> None
      | Some t \<Rightarrow> if expiredArchive ?cut t then None else Some t)" for tid
    using del [of tid] unfolding s'(2) by (simp add: restrict_map_def split: option.split)
  then show ?thesis using l r s'(1) by (simp add: cleanup_def fun_eq_iff)
qed

text \<open>
  One pass of the archive cleaner removes exactly the tasks whose archive mark is older than
  the retention period: every other task, archived or not, stays as it was, the state index stays
  exact, and each deletion is counted once.
\<close>

theorem cleanup_removes_expired:
  assumes "mem_inv s"
  shows "\<exists>c' s'. cleanup (memoryDB rank) tie now c s = (c', s') \<and> mem_inv s'
     \<and> mem_task s' = (\<lambda>tid. case mem_task s tid of None \<Rightarrow> None
          | Some t \<Rightarrow> if expiredArchive (now - ac_retention c) t then None else Some t)"
  using assms by (rule cleanup_effect)

theorem cleanup_removes_expired_witness:
  "\<exists>c' s'. cleanup (memoryDB length) (\<lambda>_. 0) (10 * 24 * 3600 * second) (NewArchiveCleaner 7 1) (sme_store finishedEngine)
     = (c', s') \<and> mem_task s' ''x'' = None"
  using cleanup_removes_expired [OF finishedEngine_facts(1), of length "\<lambda>_. 0" "10 * 24 * 3600 * second"
      "NewArchiveCleaner 7 1"] finishedEngine_facts(2)
  by (auto simp: expiredArchive_def before_def NewArchiveCleaner_def)

end
