(* ===== verification/Core_Tasks.thy ===== *)
theory Core_Tasks
  imports Archive_Cleaner "HOL-Library.Word"
begin

unbundle bit_operations_syntax

text \<open>
  The task flow of the core (\<^verbatim>\<open>src/pkg/core/core.go\<close>): it creates a task for a matched policy, forwards the
  transition commands of the components to the state machine engine, and retries or archives tasks
  that time out. The core holds the engine (and through it the store), the number of occupied slots
  of the concurrency semaphore, and the world of event log and bus. The handlers act on the pair of
  the timeout checker and the core. Configuration strings, the parsing of durations
  (\<^verbatim>\<open>time.ParseDuration\<close>) and the outputs are fields of an environment; tracing spans only pass the
  context on.
\<close>

record ('d, 'w) Core =
  core_engine :: "'d StateMachineEngine"
  core_semUsed :: nat
  core_semCap :: nat
  core_world :: 'w

record 'w core_env =
  env_out :: "'w outputs"
  env_parseDuration :: "string \<Rightarrow> duration option"
  env_maxBackoffSeconds :: int
  env_defaultTimeout :: string

definition appendLog :: "'w outputs \<Rightarrow> EventLogEntry \<Rightarrow> 'w \<Rightarrow> 'w" where
  "appendLog out entry w = (case out_append out of None \<Rightarrow> w | Some app \<Rightarrow> app entry w)"

text \<open>\<^verbatim>\<open>select { case <-c.taskSem: default: }\<close>\<close>

definition releaseSlot :: "('d, 'w) Core \<Rightarrow> ('d, 'w) Core" where
  "releaseSlot c = c\<lparr>core_semUsed := core_semUsed c - 1\<rparr>"

section \<open>Transition commands from components\<close>

definition componentCommand :: "ComponentEventPayload \<Rightarrow> TransitionCommand" where
  "componentCommand p =
     \<lparr>cmd_TaskID = cmp_TaskId p, cmd_CurrentState = cmp_CurrentState p,
      cmd_TargetState = cmp_TargetState p,
      cmd_Result = Some \<lparr>cr_Success = cmp_Success p, cr_Message = cmp_Message p, cr_Data = None\<rparr>,
      cmd_ComponentInfo = \<lparr>ci_Name = cmp_ComponentName p, ci_Version = '''', ci_State = ''''\<rparr>,
      cmd_SetRetryCount = None, cmd_SetTimeoutAt = None\<rparr>"

definition commandLogEntry :: "string \<Rightarrow> gotime \<Rightarrow> string \<Rightarrow> ComponentEventPayload \<Rightarrow> EventLogEntry" where
  "commandLogEntry uuid now traceID p =
     emptyEntry\<lparr>le_ID := uuid, le_TraceID := traceID, le_Stage := StageCommand,
       le_EventType := ''StateTransitionCommand'', le_Source := cmp_ComponentName p,
       le_Timestamp := now, le_TaskID := cmp_TaskId p, le_OldState := cmp_CurrentState p,
       le_NewState := cmp_TargetState p, le_ComponentName := cmp_ComponentName p,
       le_Success := Some (cmp_Success p), le_Message := cmp_Message p\<rparr>"

definition handleTransitionCommand ::
  "('d, json) DB \<Rightarrow> 'w core_env \<Rightarrow> gocontext option \<Rightarrow> string \<Rightarrow> gotime \<Rightarrow> stamps \<Rightarrow> string list
     \<Rightarrow> Event \<Rightarrow> ('d, 'w) Core \<Rightarrow> ('d, 'w) Core" where
  "handleTransitionCommand B E ctx uuid now st keys event c =
     (case ev_TypedPayload event of
        Some (Event_Component (Some p)) \<Rightarrow>
          if cmp_TaskId p = '''' \<or> cmp_CurrentState p = '''' \<or> cmp_TargetState p = '''' then c
          else
            (let c = c\<lparr>core_world := appendLog (env_out E) (commandLogEntry uuid now (ev_TraceID event) p)
                         (core_world c)\<rparr>
             in case HandleTransitionCommand B (env_out E) ctx st keys (core_engine c)
                       (componentCommand p) (core_world c) of
                  (err, e, w) \<Rightarrow>
                    let c = c\<lparr>core_engine := e, core_world := w\<rparr>
                    in if err \<noteq> None then c
                       else if IsTerminalState (sme_config e) (cmp_TargetState p) then releaseSlot c
                       else c)
      | _ \<Rightarrow> c)"

section \<open>Timeouts\<close>

text \<open>A parse error yields the zero duration.\<close>

definition computeEffectiveTimeout :: "(string \<Rightarrow> duration option) \<Rightarrow> string \<Rightarrow> string \<Rightarrow> duration" where
  "computeEffectiveTimeout parse ruleTimeoutStr defaultTimeoutStr =
     (let defaultTimeout = (case parse defaultTimeoutStr of None \<Rightarrow> 0 | Some d \<Rightarrow> d);
          defaultTimeout = (if defaultTimeout \<le> 0 then 30 * 60 * second else defaultTimeout)
      in case parse ruleTimeoutStr of
           Some ruleTimeout \<Rightarrow>
             if ruleTimeout > 0 \<and> ruleTimeout < defaultTimeout then ruleTimeout else defaultTimeout
         | None \<Rightarrow> defaultTimeout)"

text \<open>
  \<^verbatim>\<open>1 << uint(retryCount)\<close> and the product with \<^verbatim>\<open>time.Second\<close> are 64-bit; a shift by 64 or more (also a
  negative count, converted to a large unsigned number) gives 0.
\<close>

definition backoff :: "int \<Rightarrow> int \<Rightarrow> duration" where
  "backoff maxBackoffSeconds retryCount =
     (let maxBackoff = (if maxBackoffSeconds \<le> 0 then 60 else maxBackoffSeconds);
          n = (if retryCount < 0 then 0 else sint (push_bit (nat retryCount) (1 :: 64 word)));
          n = (if n > maxBackoff then maxBackoff else n)
      in sint (word_of_int (n * second) :: 64 word))"

definition retryCommand :: "Task \<Rightarrow> string \<Rightarrow> int \<Rightarrow> gotime option \<Rightarrow> TransitionCommand" where
  "retryCommand tsk targetState newRetryCount newTimeout =
     \<lparr>cmd_TaskID = t_ID tsk, cmd_CurrentState = t_State tsk, cmd_TargetState = targetState,
      cmd_Result = Some \<lparr>cr_Success = True,
        cr_Message = ''retry #'' @ show_int newRetryCount @ '' after timeout'', cr_Data = None\<rparr>,
      cmd_ComponentInfo = \<lparr>ci_Name = ''timeout-handler'', ci_Version = '''', ci_State = ''''\<rparr>,
      cmd_SetRetryCount = Some newRetryCount, cmd_SetTimeoutAt = newTimeout\<rparr>"

text \<open>\<open>now1\<close> is the reading for the backoff, \<open>now2\<close> the one for the new timeout.\<close>

definition handleTaskRetry ::
  "('d, json) DB \<Rightarrow> 'w core_env \<Rightarrow> gocontext option \<Rightarrow> gotime \<Rightarrow> gotime \<Rightarrow> stamps \<Rightarrow> string list
     \<Rightarrow> Task \<Rightarrow> StateConfig \<Rightarrow> TimeoutChecker \<times> ('d, 'w) Core \<Rightarrow> TimeoutChecker \<times> ('d, 'w) Core" where
  "handleTaskRetry B E ctx now1 now2 st keys tsk stateCfg kc =
     (let c = snd kc; cfg = sme_config (core_engine c)
      in if after (t_StateUpdatedAt tsk + backoff (env_maxBackoffSeconds E) (t_RetryCount tsk)) now1 then kc
         else
           (let targetState = (if sc_RetryToState stateCfg = '''' then smc_InitialState cfg
                               else sc_RetryToState stateCfg);
                newRetryCount = t_RetryCount tsk + 1;
                effective = computeEffectiveTimeout (env_parseDuration E)
                  (metaString (t_Metadata tsk) ''policy_timeout'') (env_defaultTimeout E);
                newTimeout = (if effective > 0 then Some (now2 + effective) else None)
            in case HandleTransitionCommand B (env_out E) ctx st keys (core_engine c)
                      (retryCommand tsk targetState newRetryCount newTimeout) (core_world c) of
                 (err, e, w) \<Rightarrow>
                   let c = c\<lparr>core_engine := e, core_world := w\<rparr>
                   in if err \<noteq> None then (fst kc, c)
                      else (case newTimeout of
                              None \<Rightarrow> (fst kc, c)
                            | Some u \<Rightarrow> (Checker_Push (fst kc) (t_ID tsk) u, c))))"

definition archiveCommand :: "Task \<Rightarrow> string \<Rightarrow> TransitionCommand" where
  "archiveCommand tsk target =
     \<lparr>cmd_TaskID = t_ID tsk, cmd_CurrentState = t_State tsk, cmd_TargetState = target,
      cmd_Result = Some \<lparr>cr_Success = False,
        cr_Message = ''timeout in state '' @ t_State tsk @ '' after '' @ show_int (t_RetryCount tsk) @ '' retries'',
        cr_Data = None\<rparr>,
      cmd_ComponentInfo = \<lparr>ci_Name = ''timeout-handler'', ci_Version = '''', ci_State = ''''\<rparr>,
      cmd_SetRetryCount = None, cmd_SetTimeoutAt = None\<rparr>"

text \<open>The terminal states are tried in order until one transition succeeds.\<close>

fun tryTerminal ::
  "('d, json) DB \<Rightarrow> 'w core_env \<Rightarrow> gocontext option \<Rightarrow> stamps \<Rightarrow> string list \<Rightarrow> Task \<Rightarrow> string list
     \<Rightarrow> ('d, 'w) Core \<Rightarrow> bool \<times> ('d, 'w) Core" where
  "tryTerminal B E ctx st keys tsk [] c = (False, c)"
| "tryTerminal B E ctx st keys tsk (target # targets) c =
     (if IsTransitionAllowed (sme_config (core_engine c)) (t_State tsk) target
      then (case HandleTransitionCommand B (env_out E) ctx st keys (core_engine c)
                   (archiveCommand tsk target) (core_world c) of
              (err, e, w) \<Rightarrow>
                let c = c\<lparr>core_engine := e, core_world := w\<rparr>
                in if err \<noteq> None then tryTerminal B E ctx st keys tsk targets c else (True, c))
      else tryTerminal B E ctx st keys tsk targets c)"

definition timeoutResult :: "Task \<Rightarrow> TaskResult" where
  "timeoutResult tsk =
     \<lparr>res_Success = False, res_Output = '''',
      res_Error = ''task timed out in state '' @ t_State tsk @ '' after '' @ show_int (t_RetryCount tsk) @ '' retries'',
      res_ExitCode = 0, res_Duration = 0\<rparr>"

definition handleTaskArchive ::
  "('d, json) DB \<Rightarrow> 'w core_env \<Rightarrow> gocontext option \<Rightarrow> gotime \<Rightarrow> stamps \<Rightarrow> string list \<Rightarrow> Task
     \<Rightarrow> ('d, 'w) Core \<Rightarrow> ('d, 'w) Core" where
  "handleTaskArchive B E ctx now st keys tsk c =
     (case tryTerminal B E ctx st keys tsk (smc_TerminalStates (sme_config (core_engine c))) c of
        (transitioned, c) \<Rightarrow>
          if \<not> transitioned then c
          else
            (let e = core_engine c;
                 c = (case UpdateResult B now (sme_store e) (t_ID tsk) (Some (timeoutResult tsk)) of
                        Inl _ \<Rightarrow> c
                      | Inr (_, s) \<Rightarrow> c\<lparr>core_engine := e\<lparr>sme_store := s\<rparr>\<rparr>)
             in releaseSlot c))"

definition timeoutLogEntry ::
  "string \<Rightarrow> gotime \<Rightarrow> string \<Rightarrow> TaskState \<Rightarrow> Task \<Rightarrow> StateConfig \<Rightarrow> EventLogEntry" where
  "timeoutLogEntry uuid now taskID currentState tsk stateCfg =
     emptyEntry\<lparr>le_ID := uuid, le_TraceID := t_TraceID tsk, le_Stage := StageTimeout,
       le_EventType := ''TaskTimeout'', le_Source := ''timeout-handler'', le_Timestamp := now,
       le_TaskID := taskID, le_OldState := currentState,
       le_Message := ''timeout, auto_retry='' @ formatBool (sc_AutoRetry stateCfg)\<rparr>"

record timeout_stamps =
  to_logID :: string
  to_logTime :: gotime
  to_backoffTime :: gotime
  to_timeoutTime :: gotime
  to_resultTime :: gotime
  to_command :: stamps

definition handleTimeoutEvent ::
  "('d, json) DB \<Rightarrow> 'w core_env \<Rightarrow> gocontext option \<Rightarrow> timeout_stamps \<Rightarrow> string list
     \<Rightarrow> string \<Rightarrow> TaskState \<Rightarrow> TimeoutChecker \<times> ('d, 'w) Core \<Rightarrow> TimeoutChecker \<times> ('d, 'w) Core" where
  "handleTimeoutEvent B E ctx ts keys taskID currentState kc =
     (if taskID = '''' \<or> currentState = '''' then kc
      else case Store_Get B (sme_store (core_engine (snd kc))) taskID of
             Inl _ \<Rightarrow> kc
           | Inr tsk \<Rightarrow>
               if t_State tsk \<noteq> currentState then kc
               else (case map_of (smc_States (sme_config (core_engine (snd kc)))) (t_State tsk) of
                       None \<Rightarrow> kc
                     | Some stateCfg \<Rightarrow>
                         (let c = (snd kc)\<lparr>core_world := appendLog (env_out E)
                                (timeoutLogEntry (to_logID ts) (to_logTime ts) taskID currentState tsk stateCfg) (core_world (snd kc))\<rparr>
                          in if sc_AutoRetry stateCfg \<and> t_RetryCount tsk < sc_MaxRetries stateCfg
                             then handleTaskRetry B E ctx (to_backoffTime ts) (to_timeoutTime ts)
                                    (to_command ts) keys tsk stateCfg (fst kc, c)
                             else (fst kc, handleTaskArchive B E ctx (to_resultTime ts) (to_command ts)
                                             keys tsk c))))"

section \<open>Tasks for matched policies\<close>

text \<open>The clock readings and identifiers that one run of the handler draws.\<close>

record match_stamps =
  pm_taskID :: string
  pm_buildTime :: gotime
  pm_createTime :: gotime
  pm_initialTime :: gotime
  pm_log1 :: "string \<times> gotime"
  pm_timeoutBase :: gotime
  pm_updateTime :: gotime
  pm_event :: "string \<times> gotime"
  pm_log2 :: "string \<times> gotime"

definition matchMetadata :: "Event \<Rightarrow> (string \<rightharpoonup> string)" where
  "matchMetadata event =
     (let m = [''policy_id'' \<mapsto> GetPayloadString event ''policy_id'',
               ''trigger_event_type'' \<mapsto> GetPayloadString event ''trigger_event_type'',
               ''trigger_event_id'' \<mapsto> GetPayloadString event ''trigger_event_id''];
          timeout = GetPayloadString event ''policy_timeout'';
          m = (if timeout \<noteq> '''' then m(''policy_timeout'' \<mapsto> timeout) else m);
          m = (if ev_TraceID event \<noteq> '''' then m(''trace_id'' \<mapsto> ev_TraceID event) else m)
      in case ev_TypedPayload event of
           Some (Event_Policy (Some p)) \<Rightarrow>
             (case pol_Extensions p of None \<Rightarrow> m | Some ext \<Rightarrow> m ++ map_of ext)
         | _ \<Rightarrow> m)"

definition matchSpec :: "string \<Rightarrow> Event \<Rightarrow> TaskSpec" where
  "matchSpec taskID event =
     (let policyID = GetPayloadString event ''policy_id'';
          triggerEventType = GetPayloadString event ''trigger_event_type''
      in \<lparr>spec_ID = taskID, spec_Name = ''Task for policy '' @ policyID,
          spec_Description = ''Policy '' @ policyID @ '' triggered by '' @ triggerEventType,
          spec_Priority = 0, spec_Metadata = Some (matchMetadata event), spec_Event = Some event\<rparr>)"

definition createLogEntry :: "string \<times> gotime \<Rightarrow> string \<Rightarrow> Task \<Rightarrow> EventLogEntry" where
  "createLogEntry idt traceID t =
     emptyEntry\<lparr>le_ID := fst idt, le_TraceID := traceID, le_Stage := StageTaskCreate,
       le_EventType := ''TaskCreated'', le_Source := ''statemachine-engine'',
       le_Timestamp := snd idt, le_TaskID := t_ID t, le_NewState := t_State t\<rparr>"

definition initialStateLogEntry :: "string \<times> gotime \<Rightarrow> string \<Rightarrow> Task \<Rightarrow> EventLogEntry" where
  "initialStateLogEntry idt traceID t =
     emptyEntry\<lparr>le_ID := fst idt, le_TraceID := traceID, le_Stage := StageTaskState,
       le_EventType := ''TaskStateChanged'', le_Topic := ''task.state_changed_'' @ t_State t,
       le_Source := ''statemachine-engine'', le_Timestamp := snd idt, le_TaskID := t_ID t,
       le_NewState := t_State t\<rparr>"

text \<open>\<open>keys\<close> lists the metadata keys in the runtime's order.\<close>

definition initialStateEvent :: "string \<times> gotime \<Rightarrow> string list \<Rightarrow> Event \<Rightarrow> Task \<Rightarrow> Event" where
  "initialStateEvent idt keys event t =
     (WithContext (NewEvent (fst idt) (snd idt) ''TaskStateChanged'' (''task.state_changed_'' @ t_State t)
                     ''statemachine-engine'') (ev_Ctx event))
     \<lparr>ev_TypedPayload := Some (Event_Task (Some
        \<lparr>tsk_TaskId = t_ID t, tsk_OldState = '''', tsk_NewState = t_State t, tsk_CurrentState = '''',
         tsk_TargetState = '''', tsk_Timestamp = 0, tsk_PolicyId = GetPayloadString event ''policy_id'',
         tsk_TriggerEventType = metaString (t_Metadata t) ''trigger_event_type'',
         tsk_TriggerEventId = metaString (t_Metadata t) ''trigger_event_id'',
         tsk_Extensions = Some (List.map_filter (\<lambda>k.
            if k \<noteq> ''policy_id'' \<and> k \<noteq> ''trigger_event_type'' \<and> k \<noteq> ''trigger_event_id''
            then map_option (\<lambda>v. (k, v)) (t_Metadata t k) else None) keys)\<rparr>))\<rparr>"

text \<open>
  The handler waits for a free slot; while all are taken it does not run (\<^term>\<open>None\<close>). A publishing
  error is only logged.
\<close>

definition handlePolicyMatchedEvent ::
  "('d, json) DB \<Rightarrow> 'w core_env \<Rightarrow> gofmt \<Rightarrow> match_stamps \<Rightarrow> string list \<Rightarrow> Event
     \<Rightarrow> TimeoutChecker \<times> ('d, 'w) Core \<Rightarrow> (TimeoutChecker \<times> ('d, 'w) Core) option" where
  "handlePolicyMatchedEvent B E F ms keys event kc =
     (if core_semUsed (snd kc) \<ge> core_semCap (snd kc) then None
      else
        (let c = (snd kc)\<lparr>core_semUsed := core_semUsed (snd kc) + 1\<rparr>
         in case CreateTask B F (pm_buildTime ms) (pm_createTime ms) (pm_initialTime ms) (core_engine c)
                   (matchSpec (pm_taskID ms) event) of
              (Inl _, e) \<Rightarrow> Some (fst kc, releaseSlot (c\<lparr>core_engine := e\<rparr>))
            | (Inr t, e) \<Rightarrow>
                (let w = appendLog (env_out E) (createLogEntry (pm_log1 ms) (ev_TraceID event) t) (core_world c);
                     effective = computeEffectiveTimeout (env_parseDuration E)
                       (GetPayloadString event ''policy_timeout'') (env_defaultTimeout E);
                     timeoutAt = pm_timeoutBase ms + effective;
                     t = t\<lparr>t_TimeoutAt := Some timeoutAt\<rparr>;
                     (k, e) = (case Update B (pm_updateTime ms) (sme_store e) t of
                                 Inl _ \<Rightarrow> (fst kc, e)
                               | Inr (_, s) \<Rightarrow> (Checker_Push (fst kc) (t_ID t) timeoutAt, e\<lparr>sme_store := s\<rparr>));
                     w = appendLog (env_out E) (initialStateLogEntry (pm_log2 ms) (ev_TraceID event) t) w;
                     w = (case out_publish (env_out E) of None \<Rightarrow> w
                          | Some pub \<Rightarrow> snd (pub (''task.state_changed_'' @ t_State t)
                                            (initialStateEvent (pm_event ms) keys event t) w))
                 in Some (k, c\<lparr>core_engine := e, core_world := w\<rparr>))))"

section \<open>Start-up\<close>

text \<open>
  Tasks left in a terminal state without an archive mark are archived. \<open>now\<close> gives the two clock readings
  (for the mark and for the update) made for each listed task.
\<close>

fun recoverLoop ::
  "('d, json) DB \<Rightarrow> StateMachineConfig \<Rightarrow> (Task \<Rightarrow> gotime \<times> gotime) \<Rightarrow> Task list \<Rightarrow> 'd engineTaskStore
     \<Rightarrow> 'd engineTaskStore" where
  "recoverLoop B cfg now [] s = s"
| "recoverLoop B cfg now (t # ts) s =
     (if IsTerminalState cfg (t_State t) \<and> t_ArchivedAt t = None
      then (case Update B (snd (now t)) s (t\<lparr>t_ArchivedAt := Some (fst (now t))\<rparr>) of
              Inl _ \<Rightarrow> recoverLoop B cfg now ts s
            | Inr (_, s') \<Rightarrow> recoverLoop B cfg now ts s')
      else recoverLoop B cfg now ts s)"

definition recoverOrphanedTasks ::
  "('d, json) DB \<Rightarrow> (Task \<Rightarrow> nat) \<Rightarrow> (Task \<Rightarrow> gotime \<times> gotime) \<Rightarrow> 'd StateMachineEngine \<Rightarrow> 'd StateMachineEngine" where
  "recoverOrphanedTasks B tie now e =
     (case Store_List B tie (sme_store e) emptyFilter of
        Inl _ \<Rightarrow> e
      | Inr tasks \<Rightarrow> e\<lparr>sme_store := recoverLoop B (sme_config e) now tasks (sme_store e)\<rparr>)"

text \<open>The slots that \<^verbatim>\<open>initTaskScheduler\<close> occupies for the active tasks it finds.\<close>

definition restoreSlots :: "('d, json) DB \<Rightarrow> (Task \<Rightarrow> nat) \<Rightarrow> int \<Rightarrow> 'd engineTaskStore \<Rightarrow> nat \<times> nat" where
  "restoreSlots B tie maxConcurrent s =
     (let maxConcurrent = (if maxConcurrent \<le> 0 then 100 else maxConcurrent)
      in (case Count B tie s emptyFilter of
            Inl _ \<Rightarrow> 0
          | Inr activeTasks \<Rightarrow> nat (if activeTasks < maxConcurrent then activeTasks else maxConcurrent),
          nat maxConcurrent))"

end
