(* ===== verification/SM_Validator.thy ===== *)
theory SM_Validator
  imports SM_Config "HOL-Library.Finite_Map" "HOL-Library.List_Lexorder" "HOL-Library.Char_ord"
begin

text \<open>
  The configuration validator (\<^verbatim>\<open>src/pkg/task/sm_validator.go\<close>): the transition graph with the
  implicit retry edges, breadth-first reachability, the depth-first search for a terminal state,
  cycle detection, and \<^verbatim>\<open>Validate\<close>. Iteration over the state map takes the runtime's order as a
  rank.
\<close>

section \<open>Graphs\<close>

type_synonym graph = "(string, string list) fmap"

definition gsucc :: "graph \<Rightarrow> string \<Rightarrow> string list" where
  "gsucc g s = (case fmlookup g s of None \<Rightarrow> [] | Some ns \<Rightarrow> ns)"

definition addEdge :: "string \<Rightarrow> string \<Rightarrow> graph \<Rightarrow> graph" where
  "addEdge from to g = fmupd from (gsucc g from @ [to]) g"

definition edges :: "graph \<Rightarrow> (string \<times> string) set" where
  "edges g = {(a, b). b \<in> set (gsucc g a)}"

definition gnodes :: "graph \<Rightarrow> string set" where
  "gnodes g = fmdom' g \<union> (\<Union>s \<in> fmdom' g. set (gsucc g s))"

lemma finite_gnodes [simp]: "finite (gnodes g)"
  by (simp add: gnodes_def)

lemma gsucc_gnodes:
  assumes "n \<in> set (gsucc g s)"
  shows "n \<in> gnodes g"
proof (cases "fmlookup g s")
  case None
  with assms show ?thesis by (simp add: gsucc_def)
next
  case (Some ns)
  then have "s \<in> fmdom' g" by (rule fmdom'I)
  with assms show ?thesis by (auto simp: gnodes_def)
qed

lemma gsucc_outside: "s \<notin> gnodes g \<Longrightarrow> gsucc g s = []"
  by (auto simp: gnodes_def gsucc_def fmdom'_notI split: option.splits dest: fmdom'I)

lemma gsucc_addEdge: "gsucc (addEdge a b g) s = (if s = a then gsucc g a @ [b] else gsucc g s)"
  by (simp add: addEdge_def gsucc_def)

text \<open>The order that decreases in the two depth-first searches.\<close>

lemma lex_psubset: "A \<subset> B \<Longrightarrow> finite B \<Longrightarrow> ((A, i), (B, j)) \<in> finite_psubset <*lex*> less_than"
  by (simp add: finite_psubset_def)

lemma lex_subset:
  "A \<subseteq> B \<Longrightarrow> finite B \<Longrightarrow> i < j \<Longrightarrow> ((A, i), (B, j)) \<in> finite_psubset <*lex*> less_than"
  by (auto simp: finite_psubset_def)

section \<open>Reachability\<close>

text \<open>The inner loop over the successors of \<open>cur\<close>: new nodes are marked and queued.\<close>

fun bfsPush :: "string list \<Rightarrow> string list \<Rightarrow> string list \<Rightarrow> string list \<times> string list" where
  "bfsPush [] reachable queue = (reachable, queue)"
| "bfsPush (n # ns) reachable queue =
     (if n \<notin> set reachable then bfsPush ns (reachable @ [n]) (queue @ [n])
      else bfsPush ns reachable queue)"

lemma bfsPush_measure:
  assumes "set ns \<subseteq> gnodes g" and "bfsPush ns r q = (r', q')"
  shows "length q' + card (gnodes g - set r') = length q + card (gnodes g - set r)"
  using assms
proof (induction ns r q arbitrary: r' q' rule: bfsPush.induct)
  case (2 n ns r q)
  show ?case
  proof (cases "n \<in> set r")
    case False
    have "gnodes g - set (r @ [n]) = (gnodes g - set r) - {n}" by auto
    moreover have "n \<in> gnodes g - set r" using False "2.prems" by simp
    ultimately have "Suc (card (gnodes g - set (r @ [n]))) = card (gnodes g - set r)"
      by (metis card_Suc_Diff1 finite_Diff finite_gnodes)
    with False "2.IH"(1) [of r' q'] "2.prems" show ?thesis by simp
  qed (use 2 in auto)
qed auto

function bfs :: "graph \<Rightarrow> string list \<Rightarrow> string list \<Rightarrow> string list" where
  "bfs g [] reachable = reachable"
| "bfs g (cur # queue) reachable =
     (let r = bfsPush (gsucc g cur) reachable queue in bfs g (snd r) (fst r))"
  by pat_completeness auto
termination
proof (relation "measure (\<lambda>(g, q, r). length q + card (gnodes g - set r))")
  fix g cur queue reachable r
  assume r: "r = bfsPush (gsucc g cur) reachable queue"
  have "set (gsucc g cur) \<subseteq> gnodes g" by (auto intro: gsucc_gnodes)
  from bfsPush_measure [OF this, of reachable queue "fst r" "snd r"] r
  show "((g, snd r, fst r), g, cur # queue, reachable)
      \<in> measure (\<lambda>(g, q, r). length q + card (gnodes g - set r))" by simp
qed simp

definition reachableStates :: "string \<Rightarrow> graph \<Rightarrow> string list" where
  "reachableStates start g = bfs g [start] [start]"

section \<open>Reaching a terminal state\<close>

text \<open>
  \<^verbatim>\<open>canReachTerminal\<close>: the closure \<^verbatim>\<open>dfs\<close> with its shared \<^verbatim>\<open>visited\<close> map, folded over the successors
  still to try; \<open>path\<close> is the path to the node whose successors these are. The result is whether a
  terminal was found, the path, and the map.
\<close>

function crt :: "graph \<Rightarrow> string list \<Rightarrow> string list \<Rightarrow> string list \<Rightarrow> string list
    \<Rightarrow> bool \<times> string list \<times> string list" where
  "crt g terminals [] path visited = (False, path, visited)"
| "crt g terminals (s # ns) path visited =
     (if s \<in> set visited then crt g terminals ns path visited
      else if s \<in> set terminals then (True, path @ [s], visited)
      else let r = crt g terminals (gsucc g s) (path @ [s]) (s # visited)
           in if fst r then r else crt g terminals ns path (snd (snd r)))"
  by pat_completeness auto

lemma crt_visited_dom:
  "crt_dom (g, T, ns, path, vis) \<Longrightarrow> set vis \<subseteq> set (snd (snd (crt g T ns path vis)))"
proof (induction g T ns path vis rule: crt.pinduct)
  case (2 g T s ns path vis)
  let ?r = "crt g T (gsucc g s) (path @ [s]) (s # vis)"
  show ?case
  proof (cases "s \<in> set vis \<or> s \<in> set T")
    case True
    with 2 show ?thesis by (auto simp: crt.psimps(2) [OF "2.hyps"])
  next
    case False
    then have sub: "set (s # vis) \<subseteq> set (snd (snd ?r))" using "2.IH"(2) by simp
    have eq: "crt g T (s # ns) path vis = (if fst ?r then ?r else crt g T ns path (snd (snd ?r)))"
      using False by (simp add: crt.psimps(2) [OF "2.hyps"] Let_def)
    show ?thesis
    proof (cases "fst ?r")
      case True
      with eq sub show ?thesis by simp
    next
      case no: False
      with False have "set (snd (snd ?r)) \<subseteq> set (snd (snd (crt g T ns path (snd (snd ?r)))))"
        using "2.IH"(3) by simp
      with eq no sub show ?thesis by auto
    qed
  qed
qed (simp add: crt.psimps)

termination crt
proof (relation "inv_image (finite_psubset <*lex*> less_than)
    (\<lambda>(g, T, ns, path, vis). (gnodes g \<union> set ns - set vis, length ns))", goal_cases)
  case 1
  then show ?case by auto
next
  case (2 g T s ns path vis)
  have "gnodes g \<union> set ns - set vis \<subseteq> gnodes g \<union> set (s # ns) - set vis" by auto
  then show ?case by (simp only: in_inv_image prod.case) (rule lex_subset, simp_all)
next
  case (3 g T s ns path vis)
  have "gnodes g \<union> set (gsucc g s) - set (s # vis) \<subset> gnodes g \<union> set (s # ns) - set vis"
    using 3 by (auto dest: gsucc_gnodes)
  then show ?case by (simp only: in_inv_image prod.case) (rule lex_psubset, simp_all)
next
  case (4 g T s ns path vis r)
  then have "set (s # vis) \<subseteq> set (snd (snd r))" using crt_visited_dom by blast
  then have "gnodes g \<union> set ns - set (snd (snd r)) \<subset> gnodes g \<union> set (s # ns) - set vis"
    using 4 by auto
  then show ?case by (simp only: in_inv_image prod.case) (rule lex_psubset, simp_all)
qed

definition canReachTerminal :: "string \<Rightarrow> graph \<Rightarrow> string list \<Rightarrow> bool \<times> string list" where
  "canReachTerminal start g terminals =
     (let r = crt g terminals [start] [] []
      in if fst r then (True, fst (snd r)) else (False, [start]))"

section \<open>Cycles\<close>

datatype visitState = unvisited | visiting | visited

definition normalizeCycle :: "string list \<Rightarrow> string list" where
  "normalizeCycle cycle =
     (if cycle = [] then cycle
      else let minIdx = fold (\<lambda>i m. if cycle ! i < cycle ! m then i else m) [1..<length cycle] 0
           in map (\<lambda>i. cycle ! ((minIdx + i) mod length cycle)) [0..<length cycle])"

text \<open>The backward walk over the path stack, down to the node the back edge reaches.\<close>

fun cycleBack :: "string list \<Rightarrow> string \<Rightarrow> string list \<Rightarrow> string list" where
  "cycleBack [] nxt acc = acc"
| "cycleBack (s # rest) nxt acc = (if s = nxt then s # acc else cycleBack rest nxt (s # acc))"

text \<open>
  \<^verbatim>\<open>findCycles\<close>: the closure \<^verbatim>\<open>dfs\<close> over the successors still to look at, with the path stack, the
  visit states and the cycles found so far.
\<close>

function fcLoop :: "graph \<Rightarrow> string list \<Rightarrow> string list \<Rightarrow> (string \<Rightarrow> visitState) \<Rightarrow> string list list
    \<Rightarrow> (string \<Rightarrow> visitState) \<times> string list list" where
  "fcLoop g [] pathStack stateMap cycles = (stateMap, cycles)"
| "fcLoop g (n # ns) pathStack stateMap cycles =
     (case stateMap n of
        unvisited \<Rightarrow>
          let r = fcLoop g (gsucc g n) (pathStack @ [n]) (stateMap(n := visiting)) cycles
          in fcLoop g ns pathStack ((fst r)(n := visited)) (snd r)
      | visiting \<Rightarrow>
          fcLoop g ns pathStack stateMap
            (cycles @ [normalizeCycle (cycleBack (rev pathStack) n [])])
      | visited \<Rightarrow> fcLoop g ns pathStack stateMap cycles)"
  by pat_completeness auto

lemma fcLoop_unvisited_dom:
  "fcLoop_dom (g, ns, st, sm, cs) \<Longrightarrow>
     {x. fst (fcLoop g ns st sm cs) x = unvisited} \<subseteq> {x. sm x = unvisited}"
proof (induction g ns st sm cs rule: fcLoop.pinduct)
  case (2 g n ns st sm cs)
  let ?r = "fcLoop g (gsucc g n) (st @ [n]) (sm(n := visiting)) cs"
  show ?case
  proof (cases "sm n")
    case unvisited
    have "{x. fst ?r x = unvisited} \<subseteq> {x. (sm(n := visiting)) x = unvisited}"
      using "2.IH"(1) [OF unvisited] .
    moreover have "{x. fst (fcLoop g ns st ((fst ?r)(n := visited)) (snd ?r)) x = unvisited}
        \<subseteq> {x. ((fst ?r)(n := visited)) x = unvisited}"
      using "2.IH"(2) [OF unvisited refl] .
    ultimately show ?thesis using unvisited
      by (fastforce simp: fcLoop.psimps(2) [OF "2.hyps"] Let_def split: if_splits)
  qed (use 2 in \<open>auto simp: fcLoop.psimps(2) [OF "2.hyps"]\<close>)
qed (simp add: fcLoop.psimps)

termination fcLoop
proof (relation "inv_image (finite_psubset <*lex*> less_than)
    (\<lambda>(g, ns, st, sm, cs). ({x \<in> gnodes g \<union> set ns. sm x = unvisited}, length ns))", goal_cases)
  case 1
  then show ?case by auto
next
  case (2 g n ns st sm cs)
  have "{x \<in> gnodes g \<union> set (gsucc g n). (sm(n := visiting)) x = unvisited}
      \<subset> {x \<in> gnodes g \<union> set (n # ns). sm x = unvisited}"
    using 2 by (auto dest: gsucc_gnodes)
  then show ?case by (simp only: in_inv_image prod.case) (rule lex_psubset, simp_all)
next
  case (3 g n ns st sm cs r)
  then have "{x. fst r x = unvisited} \<subseteq> {x. (sm(n := visiting)) x = unvisited}"
    using fcLoop_unvisited_dom by blast
  then have "{x \<in> gnodes g \<union> set ns. ((fst r)(n := visited)) x = unvisited}
      \<subset> {x \<in> gnodes g \<union> set (n # ns). sm x = unvisited}"
    using 3 by (auto split: if_splits)
  then show ?case by (simp only: in_inv_image prod.case) (rule lex_psubset, simp_all)
next
  case (4 g n ns st sm cs)
  have "{x \<in> gnodes g \<union> set ns. sm x = unvisited} \<subseteq> {x \<in> gnodes g \<union> set (n # ns). sm x = unvisited}"
    by auto
  then show ?case by (simp only: in_inv_image prod.case) (rule lex_subset, simp_all)
next
  case (5 g n ns st sm cs)
  have "{x \<in> gnodes g \<union> set ns. sm x = unvisited} \<subseteq> {x \<in> gnodes g \<union> set (n # ns). sm x = unvisited}"
    by auto
  then show ?case by (simp only: in_inv_image prod.case) (rule lex_subset, simp_all)
qed

text \<open>\<^verbatim>\<open>fmt.Sprintf("%v", c)\<close> of a slice of strings.\<close>

fun joinSpace :: "string list \<Rightarrow> string" where
  "joinSpace [] = ''''"
| "joinSpace [s] = s"
| "joinSpace (s # t # ss) = s @ '' '' @ joinSpace (t # ss)"

definition sprintSlice :: "string list \<Rightarrow> string" where
  "sprintSlice c = ''['' @ joinSpace c @ '']''"

fun uniqueLoop :: "string list list \<Rightarrow> string list \<Rightarrow> string list list \<Rightarrow> string list list" where
  "uniqueLoop [] seen result = result"
| "uniqueLoop (c # cs) seen result =
     (let key = sprintSlice c
      in if key \<notin> set seen then uniqueLoop cs (key # seen) (result @ [c])
         else uniqueLoop cs seen result)"

definition uniqueCycles :: "string list list \<Rightarrow> string list list" where
  "uniqueCycles cycles = uniqueLoop cycles [] []"

definition findCycles :: "string \<Rightarrow> graph \<Rightarrow> string list list" where
  "findCycles start g = uniqueCycles (snd (fcLoop g [start] [] (\<lambda>_. unvisited) []))"

section \<open>Validate\<close>

datatype validate_error =
    InitialStateRequired
  | InitialStateUndefined string
  | TerminalStateRequired
  | TerminalStateUndefined string
  | TransitionFromUndefined string
  | TransitionToUndefined string
  | RetryTargetUndefined string string
  | Unreachable string
  | DeadEnd string "string list"
  | InfiniteLoop "string list"

definition defined :: "StateMachineConfig \<Rightarrow> string \<Rightarrow> bool" where
  "defined cfg s \<longleftrightarrow> map_of (smc_States cfg) s \<noteq> None"

fun checkTerminals :: "StateMachineConfig \<Rightarrow> string list \<Rightarrow> validate_error + unit" where
  "checkTerminals cfg [] = Inr ()"
| "checkTerminals cfg (s # ss) =
     (if \<not> defined cfg s then Inl (TerminalStateUndefined s) else checkTerminals cfg ss)"

fun buildGraph :: "StateMachineConfig \<Rightarrow> TransitionConfig list \<Rightarrow> graph \<Rightarrow> validate_error + graph" where
  "buildGraph cfg [] g = Inr g"
| "buildGraph cfg (t # ts) g =
     (if \<not> tc_Allowed t then buildGraph cfg ts g
      else if \<not> defined cfg (tc_From t) then Inl (TransitionFromUndefined (tc_From t))
      else if \<not> defined cfg (tc_To t) then Inl (TransitionToUndefined (tc_To t))
      else buildGraph cfg ts (addEdge (tc_From t) (tc_To t) g))"

definition retryTarget :: "StateMachineConfig \<Rightarrow> StateConfig \<Rightarrow> string" where
  "retryTarget cfg sc = (if sc_RetryToState sc = '''' then smc_InitialState cfg else sc_RetryToState sc)"

fun addRetryEdges :: "StateMachineConfig \<Rightarrow> string list \<Rightarrow> graph \<Rightarrow> validate_error + graph" where
  "addRetryEdges cfg [] g = Inr g"
| "addRetryEdges cfg (name # names) g =
     (case map_of (smc_States cfg) name of
        None \<Rightarrow> addRetryEdges cfg names g
      | Some stateCfg \<Rightarrow>
          if sc_AutoRetry stateCfg
          then let target = retryTarget cfg stateCfg
               in if \<not> defined cfg target then Inl (RetryTargetUndefined name target)
                  else addRetryEdges cfg names (if target \<noteq> name then addEdge name target g else g)
          else addRetryEdges cfg names g)"

fun checkReachable :: "StateMachineConfig \<Rightarrow> string list \<Rightarrow> string list \<Rightarrow> validate_error + unit" where
  "checkReachable cfg reachable [] = Inr ()"
| "checkReachable cfg reachable (name # names) =
     (if name \<notin> set reachable \<and> name \<noteq> smc_InitialState cfg then Inl (Unreachable name)
      else checkReachable cfg reachable names)"

fun checkDeadEnds :: "StateMachineConfig \<Rightarrow> graph \<Rightarrow> string list \<Rightarrow> validate_error + unit" where
  "checkDeadEnds cfg g [] = Inr ()"
| "checkDeadEnds cfg g (name # names) =
     (if name \<in> set (smc_TerminalStates cfg) then checkDeadEnds cfg g names
      else let r = canReachTerminal name g (smc_TerminalStates cfg)
           in if \<not> fst r then Inl (DeadEnd name (snd r)) else checkDeadEnds cfg g names)"

fun checkCycles :: "StateMachineConfig \<Rightarrow> string list list \<Rightarrow> validate_error + unit" where
  "checkCycles cfg [] = Inr ()"
| "checkCycles cfg (cycle # cycles) =
     (if list_all (\<lambda>s. s \<notin> set (smc_TerminalStates cfg)) cycle then Inl (InfiniteLoop cycle)
      else checkCycles cfg cycles)"

definition validateGraph :: "(string \<Rightarrow> nat) \<Rightarrow> StateMachineConfig \<Rightarrow> validate_error + graph" where
  "validateGraph rank cfg =
     bindE (buildGraph cfg (smc_Transitions cfg) fmempty)
       (addRetryEdges cfg (range_keys rank (map fst (smc_States cfg))))"

definition Validate :: "(string \<Rightarrow> nat) \<Rightarrow> StateMachineConfig \<Rightarrow> validate_error + unit" where
  "Validate rank cfg =
     (let names = range_keys rank (map fst (smc_States cfg))
      in if smc_InitialState cfg = '''' then Inl InitialStateRequired
         else if \<not> defined cfg (smc_InitialState cfg)
         then Inl (InitialStateUndefined (smc_InitialState cfg))
         else if smc_TerminalStates cfg = [] then Inl TerminalStateRequired
         else bindE (checkTerminals cfg (smc_TerminalStates cfg)) (\<lambda>_.
              bindE (validateGraph rank cfg) (\<lambda>g.
              bindE (checkReachable cfg (reachableStates (smc_InitialState cfg) g) names) (\<lambda>_.
              bindE (checkDeadEnds cfg g names) (\<lambda>_.
              checkCycles cfg (findCycles (smc_InitialState cfg) g))))))"

end
