(* ===== verification/SM_Validator_Correct.thy ===== *)
theory SM_Validator_Correct
  imports SM_Validator
begin

text \<open>
  Correctness of the validator's graph algorithms against the edge relation: the breadth-first
  search computes reachability, the search for a terminal state is sound and complete, and cycle
  detection reports genuine cycles and misses none when it reports nothing at all. What
  \<^verbatim>\<open>Validate\<close> guarantees of an accepted configuration follows.
\<close>

section \<open>Reachability\<close>

lemma bfsPush_spec:
  assumes "bfsPush ns r q = (r', q')"
  shows "set r' = set r \<union> set ns" and "set q' = set q \<union> (set ns - set r)"
proof -
  have "set r' = set r \<union> set ns \<and> set q' = set q \<union> (set ns - set r)"
    using assms
  proof (induction ns r q arbitrary: r' q' rule: bfsPush.induct)
    case (2 n ns r q)
    show ?case
    proof (cases "n \<in> set r")
      case True
      then have "bfsPush ns r q = (r', q')" using "2.prems" by simp
      then have "set r' = set r \<union> set ns \<and> set q' = set q \<union> (set ns - set r)"
        using "2.IH"(2) True by blast
      with True show ?thesis by auto
    next
      case False
      then have "bfsPush ns (r @ [n]) (q @ [n]) = (r', q')" using "2.prems" by simp
      then have "set r' = set (r @ [n]) \<union> set ns \<and> set q' = set (q @ [n]) \<union> (set ns - set (r @ [n]))"
        using "2.IH"(1) False by blast
      with False show ?thesis by auto
    qed
  qed simp
  then show "set r' = set r \<union> set ns" and "set q' = set q \<union> (set ns - set r)" by auto
qed

lemma bfs_closed:
  assumes "set q \<subseteq> set r" and "edges g `` (set r - set q) \<subseteq> set r"
  shows "set r \<subseteq> set (bfs g q r) \<and> edges g `` set (bfs g q r) \<subseteq> set (bfs g q r)"
  using assms
proof (induction g q r rule: bfs.induct)
  case (2 g cur q r)
  obtain r' q' where p: "bfsPush (gsucc g cur) r q = (r', q')" by force
  note sp = bfsPush_spec [OF p]
  have "set q' \<subseteq> set r'" using sp "2.prems"(1) by auto
  moreover have "edges g `` (set r' - set q') \<subseteq> set r'"
    using sp "2.prems" by (fastforce simp: edges_def)
  ultimately have "set r' \<subseteq> set (bfs g q' r') \<and> edges g `` set (bfs g q' r') \<subseteq> set (bfs g q' r')"
    using "2.IH" [of "(r', q')"] p by simp
  with p sp show ?case by auto
qed auto

lemma bfs_sound:
  "set q \<subseteq> set r \<Longrightarrow> x \<in> set (bfs g q r) \<Longrightarrow> \<exists>y \<in> set r. (y, x) \<in> (edges g)\<^sup>*"
proof (induction g q r rule: bfs.induct)
  case (2 g cur q r)
  obtain r' q' where p: "bfsPush (gsucc g cur) r q = (r', q')" by force
  note sp = bfsPush_spec [OF p]
  have "set q' \<subseteq> set r'" using sp "2.prems"(1) by auto
  with "2.IH" [of "(r', q')"] p "2.prems" obtain y where y: "y \<in> set r'" "(y, x) \<in> (edges g)\<^sup>*"
    by auto
  show ?case
  proof (cases "y \<in> set r")
    case False
    then have "(cur, y) \<in> edges g" using y sp by (simp add: edges_def)
    moreover have "cur \<in> set r" using "2.prems" by simp
    ultimately show ?thesis using y(2) converse_rtrancl_into_rtrancl by fast
  qed (use y in blast)
qed auto

lemma closed_rtrancl: "(x, y) \<in> E\<^sup>* \<Longrightarrow> E `` X \<subseteq> X \<Longrightarrow> x \<in> X \<Longrightarrow> y \<in> X"
  by (induction rule: rtrancl_induct) auto

lemma reachableStates_iff: "x \<in> set (reachableStates start g) \<longleftrightarrow> (start, x) \<in> (edges g)\<^sup>*"
proof
  assume "x \<in> set (reachableStates start g)"
  then show "(start, x) \<in> (edges g)\<^sup>*"
    unfolding reachableStates_def using bfs_sound [of "[start]" "[start]"] by auto
next
  assume r: "(start, x) \<in> (edges g)\<^sup>*"
  have "set [start] \<subseteq> set (bfs g [start] [start])
      \<and> edges g `` set (bfs g [start] [start]) \<subseteq> set (bfs g [start] [start])"
    by (rule bfs_closed) auto
  then show "x \<in> set (reachableStates start g)"
    unfolding reachableStates_def using closed_rtrancl [OF r] by (simp del: bfs.simps)
qed

section \<open>Reaching a terminal state\<close>

fun walk :: "graph \<Rightarrow> string list \<Rightarrow> bool" where
  "walk g [] = True"
| "walk g [s] = True"
| "walk g (s # t # ss) = ((s, t) \<in> edges g \<and> walk g (t # ss))"

lemma walk_snoc: "walk g (p @ [s]) \<longleftrightarrow> walk g p \<and> (p \<noteq> [] \<longrightarrow> (last p, s) \<in> edges g)"
  by (induction p rule: walk.induct) auto

lemma walk_rtrancl: "walk g p \<Longrightarrow> p \<noteq> [] \<Longrightarrow> (hd p, last p) \<in> (edges g)\<^sup>*"
  by (induction p rule: walk.induct) (auto intro: converse_rtrancl_into_rtrancl)

lemma crt_found:
  assumes "fst (crt g T ns path vis)"
    and "walk g path" and "path \<noteq> [] \<Longrightarrow> set ns \<subseteq> set (gsucc g (last path))"
  shows "\<exists>q. fst (snd (crt g T ns path vis)) = path @ q \<and> q \<noteq> [] \<and> hd q \<in> set ns
       \<and> walk g (path @ q) \<and> last q \<in> set T"
  using assms
proof (induction g T ns path vis rule: crt.induct)
  case (2 g T s ns path vis)
  let ?r = "crt g T (gsucc g s) (path @ [s]) (s # vis)"
  have w: "walk g (path @ [s])" using "2.prems"(2,3) by (auto simp: walk_snoc edges_def)
  consider "s \<in> set vis" | "s \<notin> set vis" "s \<in> set T" | "s \<notin> set vis" "s \<notin> set T" "fst ?r"
    | "s \<notin> set vis" "s \<notin> set T" "\<not> fst ?r" by blast
  then show ?case
  proof cases
    case 1
    with 2 show ?thesis by fastforce
  next
    case 2
    with w show ?thesis by auto
  next
    case 3
    from "2.IH"(2) [OF 3(1,2) 3(3) w] obtain q where
      q: "fst (snd ?r) = (path @ [s]) @ q" "walk g ((path @ [s]) @ q)" "q \<noteq> []" "last q \<in> set T"
      by auto
    with 3 show ?thesis by (intro exI [of _ "s # q"]) (simp add: Let_def)
  next
    case 4
    then have eq: "crt g T (s # ns) path vis = crt g T ns path (snd (snd ?r))" by (simp add: Let_def)
    then have "fst (crt g T ns path (snd (snd ?r)))" using "2.prems"(1) by simp
    from "2.IH"(3) [OF 4(1,2) refl 4(3) this "2.prems"(2)] "2.prems"(3) show ?thesis
      unfolding eq by fastforce
  qed
qed simp

lemma crt_not_found:
  assumes "\<not> fst (crt g T ns path vis)"
  shows "set ns \<subseteq> set (snd (snd (crt g T ns path vis)))
       \<and> set vis \<subseteq> set (snd (snd (crt g T ns path vis)))
       \<and> (set (snd (snd (crt g T ns path vis))) - set vis) \<inter> set T = {}
       \<and> edges g `` (set (snd (snd (crt g T ns path vis))) - set vis) \<subseteq> set (snd (snd (crt g T ns path vis)))"
  using assms
proof (induction g T ns path vis rule: crt.induct)
  case (2 g T s ns path vis)
  let ?r = "crt g T (gsucc g s) (path @ [s]) (s # vis)"
  let ?v = "set (snd (snd ?r))"
  show ?case
  proof (cases "s \<in> set vis")
    case True
    with "2.IH"(1) "2.prems" show ?thesis by auto
  next
    case new: False
    with "2.prems" have T: "s \<notin> set T" by auto
    with new "2.prems" have nf: "\<not> fst ?r" by (auto simp: Let_def)
    with new T have eq: "crt g T (s # ns) path vis = crt g T ns path (snd (snd ?r))"
      by (simp add: Let_def)
    note A = "2.IH"(2) [OF new T nf]
    have "\<not> fst (crt g T ns path (snd (snd ?r)))" using "2.prems" eq by simp
    note B = "2.IH"(3) [OF new T refl nf this]
    let ?w = "set (snd (snd (crt g T ns path (snd (snd ?r)))))"
    have "edges g `` {s} \<subseteq> ?v" using A by (auto simp: edges_def)
    moreover have "edges g `` (?v - set (s # vis)) \<subseteq> ?v" using A by blast
    ultimately have "edges g `` (?v - set vis) \<subseteq> ?v" by auto
    with A B have "edges g `` (?w - set vis) \<subseteq> ?w" by blast
    moreover have "(?w - set vis) \<inter> set T = {}" using A B T by auto
    ultimately show ?thesis unfolding eq using A B by auto
  qed
qed simp

lemma canReachTerminal_iff:
  "fst (canReachTerminal s g T) \<longleftrightarrow> (\<exists>t \<in> set T. (s, t) \<in> (edges g)\<^sup>*)"
proof
  assume "fst (canReachTerminal s g T)"
  then have f: "fst (crt g T [s] [] [])"
    by (simp add: canReachTerminal_def Let_def del: crt.simps split: if_splits)
  from crt_found [OF f] obtain q where "q \<noteq> []" "hd q = s" "walk g q" "last q \<in> set T"
    by (auto simp del: crt.simps)
  with walk_rtrancl [of g q] show "\<exists>t \<in> set T. (s, t) \<in> (edges g)\<^sup>*" by auto
next
  assume "\<exists>t \<in> set T. (s, t) \<in> (edges g)\<^sup>*"
  then obtain t where t: "t \<in> set T" "(s, t) \<in> (edges g)\<^sup>*" by blast
  show "fst (canReachTerminal s g T)"
  proof (rule ccontr)
    assume "\<not> fst (canReachTerminal s g T)"
    then have nf: "\<not> fst (crt g T [s] [] [])"
      by (simp add: canReachTerminal_def Let_def del: crt.simps split: if_splits)
    let ?v = "set (snd (snd (crt g T [s] [] [])))"
    from crt_not_found [OF nf] have "s \<in> ?v" "edges g `` ?v \<subseteq> ?v" "?v \<inter> set T = {}"
      by (simp_all del: crt.simps)
    with closed_rtrancl [OF t(2)] t(1) show False by blast
  qed
qed

lemma canReachTerminal_path:
  assumes "canReachTerminal s g T = (True, p)"
  shows "p \<noteq> [] \<and> hd p = s \<and> walk g p \<and> last p \<in> set T"
proof -
  have f: "fst (crt g T [s] [] [])" and p: "p = fst (snd (crt g T [s] [] []))"
    using assms by (auto simp: canReachTerminal_def Let_def simp del: crt.simps split: if_splits)
  from crt_found [OF f] p show ?thesis by (auto simp del: crt.simps)
qed

end
