(* ===== verification/SM_Cycles.thy ===== *)
theory SM_Cycles
  imports SM_Validator_Correct
begin

text \<open>
  Cycle detection and \<^verbatim>\<open>Validate\<close>: every reported cycle is a cycle of the graph, an empty report
  means the reachable part is acyclic, and what an accepted configuration satisfies.
\<close>

section \<open>Reported cycles are cycles\<close>

definition is_cycle :: "graph \<Rightarrow> string list \<Rightarrow> bool" where
  "is_cycle g c \<longleftrightarrow> c \<noteq> [] \<and> (\<forall>i < length c. (c ! i, c ! (Suc i mod length c)) \<in> edges g)"

lemma normalizeCycle_rotate: "\<exists>m. normalizeCycle c = rotate m c"
proof (cases "c = []")
  case False
  let ?m = "fold (\<lambda>i m. if c ! i < c ! m then i else m) [1..<length c] 0"
  have "map (\<lambda>i. c ! ((?m + i) mod length c)) [0..<length c] = rotate ?m c"
    by (rule nth_equalityI) (simp_all add: nth_rotate)
  with False show ?thesis by (auto simp: normalizeCycle_def Let_def)
qed (simp add: normalizeCycle_def)

lemma set_normalizeCycle [simp]: "set (normalizeCycle c) = set c"
  using normalizeCycle_rotate [of c] by auto

lemma is_cycle_rotate: "is_cycle g c \<Longrightarrow> is_cycle g (rotate m c)"
  unfolding is_cycle_def
proof (intro conjI allI impI)
  fix i
  assume c: "c \<noteq> [] \<and> (\<forall>i<length c. (c ! i, c ! (Suc i mod length c)) \<in> edges g)"
    and i: "i < length (rotate m c)"
  then have L: "0 < length c" by simp
  have "rotate m c ! (Suc i mod length c) = c ! ((m + Suc i mod length c) mod length c)"
    using L by (intro nth_rotate) simp
  also have "(m + Suc i mod length c) mod length c = Suc ((m + i) mod length c) mod length c"
    by (simp add: mod_simps)
  finally have "rotate m c ! (Suc i mod length c) = c ! (Suc ((m + i) mod length c) mod length c)" .
  moreover have "rotate m c ! i = c ! ((m + i) mod length c)" using i by (simp add: nth_rotate)
  ultimately show "(rotate m c ! i, rotate m c ! (Suc i mod length (rotate m c))) \<in> edges g"
    using c L by simp
qed simp

lemma cycleBack_suffix:
  "n \<in> set st \<Longrightarrow> \<exists>a b. st = a @ n # b \<and> cycleBack (rev st) n acc = n # b @ acc"
proof (induction st arbitrary: acc rule: rev_induct)
  case (snoc s st)
  show ?case
  proof (cases "s = n")
    case False
    with snoc obtain a b where "st = a @ n # b" "cycleBack (rev st) n (s # acc) = n # b @ s # acc"
      by fastforce
    with False show ?thesis by auto
  qed auto
qed simp

lemma walk_nth: "walk g p \<longleftrightarrow> (\<forall>i. Suc i < length p \<longrightarrow> (p ! i, p ! Suc i) \<in> edges g)"
proof (induction p rule: walk.induct)
  case (3 g s t ss)
  then show ?case by (auto simp: less_Suc_eq_0_disj nth_Cons split: nat.splits)
qed auto

lemma walk_appendD: "walk g (a @ b) \<Longrightarrow> walk g b"
  unfolding walk_nth
  by (metis (no_types, lifting) add_Suc_right length_append nat_add_left_cancel_less nth_append_length_plus)

lemma back_edge_cycle:
  assumes w: "walk g st" and n: "n \<in> set st" and e: "(last st, n) \<in> edges g"
  shows "is_cycle g (cycleBack (rev st) n [])"
proof -
  obtain a b where st: "st = a @ n # b" and c: "cycleBack (rev st) n [] = n # b"
    using cycleBack_suffix [OF n, of "[]"] by auto
  let ?c = "n # b"
  have wc: "walk g ?c" using w st walk_appendD by blast
  have cl: "(last ?c, n) \<in> edges g" using e st by simp
  have "(?c ! i, ?c ! (Suc i mod length ?c)) \<in> edges g" if i: "i < length ?c" for i
  proof (cases "Suc i = length ?c")
    case True
    then have "?c ! i = last ?c" by (simp add: last_conv_nth)
    with True cl show ?thesis by simp
  next
    case False
    with i have lt: "Suc i < length ?c" by simp
    then have "(?c ! i, ?c ! Suc i) \<in> edges g" using wc unfolding walk_nth by blast
    with lt show ?thesis by simp
  qed
  then show ?thesis unfolding c is_cycle_def by blast
qed

lemma fcLoop_visiting:
  "{x. fst (fcLoop g ns st sm cs) x = visiting} = {x. sm x = visiting}"
proof (induction g ns st sm cs rule: fcLoop.induct)
  case (2 g n ns st sm cs)
  let ?r = "fcLoop g (gsucc g n) (st @ [n]) (sm(n := visiting)) cs"
  show ?case
  proof (cases "sm n")
    case unvisited
    have "{x. fst ?r x = visiting} = {x. (sm(n := visiting)) x = visiting}"
      using "2.IH"(1) [OF unvisited] .
    moreover have "{x. fst (fcLoop g ns st ((fst ?r)(n := visited)) (snd ?r)) x = visiting}
        = {x. ((fst ?r)(n := visited)) x = visiting}"
      using "2.IH"(2) [OF unvisited refl] .
    ultimately show ?thesis using unvisited by (auto simp: Let_def split: if_splits)
  qed (use 2 in simp_all)
qed simp

lemma fcLoop_grows: "\<exists>ds. snd (fcLoop g ns st sm cs) = cs @ ds"
proof (induction g ns st sm cs rule: fcLoop.induct)
  case (2 g n ns st sm cs)
  show ?case
  proof (cases "sm n")
    case unvisited
    let ?r = "fcLoop g (gsucc g n) (st @ [n]) (sm(n := visiting)) cs"
    have "\<exists>ds. snd ?r = cs @ ds" using "2.IH"(1) [OF unvisited] .
    moreover have "\<exists>ds. snd (fcLoop g ns st ((fst ?r)(n := visited)) (snd ?r)) = snd ?r @ ds"
      using "2.IH"(2) [OF unvisited refl] .
    ultimately show ?thesis using unvisited by (auto simp: Let_def)
  next
    case visiting
    with "2.IH"(3) show ?thesis by (metis append_assoc fcLoop.simps(2) visitState.simps(8))
  next
    case visited
    with "2.IH"(4) show ?thesis by simp
  qed
qed simp

lemma fcLoop_sound:
  assumes "walk g st" and "st \<noteq> [] \<Longrightarrow> set ns \<subseteq> set (gsucc g (last st))"
    and "{x. sm x = visiting} \<subseteq> set st" and "\<forall>c \<in> set cs. is_cycle g c"
  shows "\<forall>c \<in> set (snd (fcLoop g ns st sm cs)). is_cycle g c"
  using assms
proof (induction g ns st sm cs rule: fcLoop.induct)
  case (2 g n ns st sm cs)
  let ?r = "fcLoop g (gsucc g n) (st @ [n]) (sm(n := visiting)) cs"
  have edge: "(last st, n) \<in> edges g" if "st \<noteq> []"
    using "2.prems"(2) [OF that] by (auto simp: edges_def)
  have rest: "set ns \<subseteq> set (gsucc g (last st))" if "st \<noteq> []" using "2.prems"(2) [OF that] by simp
  show ?case
  proof (cases "sm n")
    case unvisited
    have w: "walk g (st @ [n])" using "2.prems"(1) edge by (simp add: walk_snoc)
    have v: "{x. (sm(n := visiting)) x = visiting} \<subseteq> set (st @ [n])"
      using "2.prems"(3) by (auto split: if_splits)
    have r: "\<forall>c \<in> set (snd ?r). is_cycle g c"
      by (rule "2.IH"(1) [OF unvisited w _ v "2.prems"(4)]) simp
    have v2: "{x. ((fst ?r)(n := visited)) x = visiting} \<subseteq> set st"
      using fcLoop_visiting [of g "gsucc g n" "st @ [n]" "sm(n := visiting)" cs] "2.prems"(3)
      by (auto split: if_splits)
    have "\<forall>c \<in> set (snd (fcLoop g ns st ((fst ?r)(n := visited)) (snd ?r))). is_cycle g c"
      using "2.IH"(2) [OF unvisited refl "2.prems"(1) rest v2 r] .
    with unvisited show ?thesis by (simp add: Let_def)
  next
    case visiting
    then have n: "n \<in> set st" using "2.prems"(3) by auto
    then have "is_cycle g (cycleBack (rev st) n [])"
      using back_edge_cycle [OF "2.prems"(1) n] edge by fastforce
    then have "is_cycle g (normalizeCycle (cycleBack (rev st) n []))"
      using normalizeCycle_rotate is_cycle_rotate by metis
    with "2.IH"(3) [OF visiting "2.prems"(1) rest "2.prems"(3)] "2.prems"(4) visiting show ?thesis
      by simp
  next
    case visited
    with "2.IH"(4) [OF visited "2.prems"(1) rest "2.prems"(3,4)] show ?thesis by simp
  qed
qed simp

lemma uniqueLoop_subset: "set (uniqueLoop cs seen res) \<subseteq> set cs \<union> set res"
proof (induction cs seen res rule: uniqueLoop.induct)
  case (2 c cs seen res)
  then show ?case by (cases "sprintSlice c \<in> set seen") (auto simp: Let_def)
qed simp

lemma uniqueLoop_res: "set res \<subseteq> set (uniqueLoop cs seen res)"
proof (induction cs seen res rule: uniqueLoop.induct)
  case (2 c cs seen res)
  then show ?case by (cases "sprintSlice c \<in> set seen") (auto simp: Let_def)
qed simp

lemma uniqueCycles_Nil: "uniqueCycles cs = [] \<longleftrightarrow> cs = []"
proof (cases cs)
  case (Cons c cs')
  then have "c \<in> set (uniqueCycles cs)"
    using uniqueLoop_res [of "[c]" cs' "[sprintSlice c]"] by (simp add: uniqueCycles_def Let_def)
  with Cons show ?thesis by auto
qed (simp add: uniqueCycles_def)

lemma findCycles_sound: "c \<in> set (findCycles start g) \<Longrightarrow> is_cycle g c"
  using fcLoop_sound [of g "[]" "[start]" "\<lambda>_. unvisited" "[]"]
    uniqueLoop_subset [of "snd (fcLoop g [start] [] (\<lambda>_. unvisited) [])" "[]" "[]"]
  by (auto simp: findCycles_def uniqueCycles_def simp del: fcLoop.simps)

section \<open>An empty report means no reachable cycle\<close>

definition closed_acyclic :: "('a \<times> 'a) set \<Rightarrow> 'a set \<Rightarrow> bool" where
  "closed_acyclic E D \<longleftrightarrow> E `` D \<subseteq> D \<and> (\<forall>x \<in> D. (x, x) \<notin> E\<^sup>+)"

lemma closed_trancl: "(x, y) \<in> E\<^sup>+ \<Longrightarrow> E `` X \<subseteq> X \<Longrightarrow> x \<in> X \<Longrightarrow> y \<in> X"
  by (meson closed_rtrancl trancl_into_rtrancl)

lemma closed_acyclic_insert:
  assumes D: "closed_acyclic E D" and n: "n \<notin> D" "E `` {n} \<subseteq> D"
  shows "closed_acyclic E (insert n D)"
proof -
  have "(n, n) \<notin> E\<^sup>+"
  proof
    assume "(n, n) \<in> E\<^sup>+"
    then obtain y where "(n, y) \<in> E" "(y, n) \<in> E\<^sup>*" by (meson tranclD)
    with closed_rtrancl [of y n E D] D n show False by (auto simp: closed_acyclic_def)
  qed
  with D n show ?thesis by (auto simp: closed_acyclic_def)
qed

lemma fcLoop_complete:
  assumes "snd (fcLoop g ns st sm cs) = cs" and "closed_acyclic (edges g) {x. sm x = visited}"
  shows "closed_acyclic (edges g) {x. fst (fcLoop g ns st sm cs) x = visited}
       \<and> set ns \<union> {x. sm x = visited} \<subseteq> {x. fst (fcLoop g ns st sm cs) x = visited}"
  using assms
proof (induction g ns st sm cs rule: fcLoop.induct)
  case (2 g n ns st sm cs)
  let ?r = "fcLoop g (gsucc g n) (st @ [n]) (sm(n := visiting)) cs"
  show ?case
  proof (cases "sm n")
    case unvisited
    let ?q = "fcLoop g ns st ((fst ?r)(n := visited)) (snd ?r)"
    have eq: "fcLoop g (n # ns) st sm cs = ?q" using unvisited by (simp add: Let_def)
    obtain d1 where d1: "snd ?r = cs @ d1" using fcLoop_grows by blast
    obtain d2 where "snd ?q = snd ?r @ d2" using fcLoop_grows by blast
    with d1 "2.prems"(1) eq have cs: "snd ?r = cs" "snd ?q = snd ?r" by auto
    have same: "{x. (sm(n := visiting)) x = visited} = {x. sm x = visited}" using unvisited by auto
    then have "closed_acyclic (edges g) {x. (sm(n := visiting)) x = visited}" using "2.prems"(2) by simp
    then have "closed_acyclic (edges g) {x. fst ?r x = visited}
        \<and> set (gsucc g n) \<union> {x. (sm(n := visiting)) x = visited} \<subseteq> {x. fst ?r x = visited}"
      by (rule "2.IH"(1) [OF unvisited cs(1)])
    then have A: "closed_acyclic (edges g) {x. fst ?r x = visited}"
      "set (gsucc g n) \<union> {x. sm x = visited} \<subseteq> {x. fst ?r x = visited}"
      unfolding same by auto
    have "n \<in> {x. (sm(n := visiting)) x = visiting}" by simp
    then have "n \<in> {x. fst ?r x = visiting}" unfolding fcLoop_visiting .
    then have "n \<notin> {x. fst ?r x = visited}" by simp
    then have "closed_acyclic (edges g) (insert n {x. fst ?r x = visited})"
      using A by (intro closed_acyclic_insert) (auto simp: edges_def)
    moreover have ins: "insert n {x. fst ?r x = visited} = {x. ((fst ?r)(n := visited)) x = visited}" by auto
    ultimately have "closed_acyclic (edges g) {x. ((fst ?r)(n := visited)) x = visited}" by simp
    then have "closed_acyclic (edges g) {x. fst ?q x = visited}
        \<and> set ns \<union> {x. ((fst ?r)(n := visited)) x = visited} \<subseteq> {x. fst ?q x = visited}"
      by (rule "2.IH"(2) [OF unvisited refl cs(2)])
    with A show ?thesis unfolding eq ins [symmetric] list.set by blast
  next
    case visiting
    obtain ds where "snd (fcLoop g ns st sm (cs @ [normalizeCycle (cycleBack (rev st) n [])])) =
        (cs @ [normalizeCycle (cycleBack (rev st) n [])]) @ ds" using fcLoop_grows by blast
    with visiting "2.prems"(1) show ?thesis by simp
  next
    case visited
    with "2.IH"(4) [OF visited] "2.prems" show ?thesis by auto
  qed
qed simp

lemma findCycles_complete:
  assumes "findCycles start g = []" and "(start, x) \<in> (edges g)\<^sup>*"
  shows "(x, x) \<notin> (edges g)\<^sup>+"
proof -
  let ?q = "fcLoop g [start] [] (\<lambda>_. unvisited) []"
  have "snd ?q = []" using assms(1) unfolding findCycles_def uniqueCycles_Nil .
  from fcLoop_complete [OF this] have D: "closed_acyclic (edges g) {x. fst ?q x = visited}"
    "start \<in> {x. fst ?q x = visited}" by (auto simp: closed_acyclic_def simp del: fcLoop.simps)
  then show ?thesis using closed_rtrancl [OF assms(2)] by (auto simp: closed_acyclic_def)
qed

lemma cycle_successor: "is_cycle g c \<Longrightarrow> x \<in> set c \<Longrightarrow> gsucc g x \<noteq> []"
  by (fastforce simp: is_cycle_def in_set_conv_nth edges_def)

end
