(* ===== verification/SM_Validate_Props.thy ===== *)
theory SM_Validate_Props
  imports SM_Cycles
begin

text \<open>
  What \<^verbatim>\<open>Validate\<close> says about a configuration, stated over the configuration's own edges: the
  allowed transitions and the implicit retry edges.
\<close>

section \<open>The edges of a configuration\<close>

definition transition_edges :: "TransitionConfig list \<Rightarrow> (string \<times> string) set" where
  "transition_edges ts = {(tc_From t, tc_To t) | t. t \<in> set ts \<and> tc_Allowed t}"

definition retry_edges :: "StateMachineConfig \<Rightarrow> string set \<Rightarrow> (string \<times> string) set" where
  "retry_edges cfg names =
     {(s, retryTarget cfg sc) | s sc. s \<in> names \<and> map_of (smc_States cfg) s = Some sc
        \<and> sc_AutoRetry sc \<and> retryTarget cfg sc \<noteq> s}"

definition cfg_edges :: "StateMachineConfig \<Rightarrow> (string \<times> string) set" where
  "cfg_edges cfg = transition_edges (smc_Transitions cfg)
     \<union> retry_edges cfg {s. map_of (smc_States cfg) s \<noteq> None}"

lemma edges_fmempty [simp]: "edges fmempty = {}"
  by (simp add: edges_def gsucc_def)

lemma edges_addEdge [simp]: "edges (addEdge a b g) = insert (a, b) (edges g)"
  by (auto simp: edges_def gsucc_addEdge split: if_splits)

lemma transition_edges_Cons:
  "transition_edges (t # ts) = (if tc_Allowed t then insert (tc_From t, tc_To t) (transition_edges ts)
     else transition_edges ts)"
  by (auto simp: transition_edges_def)

lemma buildGraph_edges:
  "buildGraph cfg ts g = Inr g' \<Longrightarrow> edges g' = edges g \<union> transition_edges ts
     \<and> (\<forall>t \<in> set ts. tc_Allowed t \<longrightarrow> defined cfg (tc_From t) \<and> defined cfg (tc_To t))"
proof (induction ts arbitrary: g)
  case Nil
  then show ?case by (simp add: transition_edges_def)
next
  case (Cons t ts)
  show ?case
  proof (cases "tc_Allowed t")
    case True
    with Cons.prems have d: "defined cfg (tc_From t)" "defined cfg (tc_To t)"
      and r: "buildGraph cfg ts (addEdge (tc_From t) (tc_To t) g) = Inr g'"
      by (auto split: if_splits)
    from Cons.IH [OF r] d True show ?thesis by (simp add: transition_edges_Cons)
  next
    case False
    with Cons show ?thesis by (simp add: transition_edges_Cons)
  qed
qed

lemma retry_edges_insert:
  "retry_edges cfg (insert s X) = retry_edges cfg {s} \<union> retry_edges cfg X"
  by (auto simp: retry_edges_def)

lemma addRetryEdges_edges:
  "addRetryEdges cfg names g = Inr g' \<Longrightarrow> edges g' = edges g \<union> retry_edges cfg (set names)"
proof (induction names arbitrary: g)
  case Nil
  then show ?case by (simp add: retry_edges_def)
next
  case (Cons s names)
  show ?case
  proof (cases "map_of (smc_States cfg) s")
    case None
    then have "retry_edges cfg {s} = {}" by (simp add: retry_edges_def)
    with None Cons retry_edges_insert [of cfg s "set names"] show ?thesis by simp
  next
    case (Some sc)
    have one: "retry_edges cfg {s} =
        (if sc_AutoRetry sc \<and> retryTarget cfg sc \<noteq> s then {(s, retryTarget cfg sc)} else {})"
      using Some by (auto simp: retry_edges_def)
    from Cons.prems Some obtain h where r: "addRetryEdges cfg names h = Inr g'"
      and h: "h = (if sc_AutoRetry sc \<and> retryTarget cfg sc \<noteq> s
                   then addEdge s (retryTarget cfg sc) g else g)"
      by (auto simp: Let_def split: if_splits)
    from Cons.IH [OF r] h one retry_edges_insert [of cfg s "set names"] show ?thesis by auto
  qed
qed

lemma validateGraph_edges:
  assumes "validateGraph rank cfg = Inr g"
  shows "edges g = cfg_edges cfg"
proof -
  obtain h where b: "buildGraph cfg (smc_Transitions cfg) fmempty = Inr h"
    and a: "addRetryEdges cfg (range_keys rank (map fst (smc_States cfg))) h = Inr g"
    using assms by (auto simp: validateGraph_def bindE_eq_Inr)
  have "{s. map_of (smc_States cfg) s \<noteq> None} = set (range_keys rank (map fst (smc_States cfg)))"
    by (auto simp: map_of_eq_None_iff)
  with buildGraph_edges [OF b] addRetryEdges_edges [OF a] show ?thesis
    by (simp add: cfg_edges_def)
qed

text \<open>The graph does not depend on the order in which the states are visited.\<close>

lemma addRetryEdges_lookup:
  "distinct names \<Longrightarrow> addRetryEdges cfg names g = Inr g' \<Longrightarrow>
     fmlookup g' s =
       (case map_of (smc_States cfg) s of
          Some sc \<Rightarrow> if s \<in> set names \<and> sc_AutoRetry sc \<and> retryTarget cfg sc \<noteq> s
                    then Some (gsucc g s @ [retryTarget cfg sc]) else fmlookup g s
        | None \<Rightarrow> fmlookup g s)"
proof (induction names arbitrary: g)
  case Nil
  then show ?case by (simp split: option.split)
next
  case (Cons n names)
  show ?case
  proof (cases "map_of (smc_States cfg) n")
    case None
    with Cons show ?thesis by (auto split: option.split)
  next
    case (Some sc)
    define h where "h = (if sc_AutoRetry sc \<and> retryTarget cfg sc \<noteq> n
                   then addEdge n (retryTarget cfg sc) g else g)"
    from Cons.prems Some have r: "addRetryEdges cfg names h = Inr g'"
      by (auto simp: Let_def h_def split: if_splits)
    have hn: "fmlookup h n = (if sc_AutoRetry sc \<and> retryTarget cfg sc \<noteq> n
        then Some (gsucc g n @ [retryTarget cfg sc]) else fmlookup g n)"
      by (simp add: h_def addEdge_def)
    have hs: "s \<noteq> n \<Longrightarrow> fmlookup h s = fmlookup g s" by (simp add: h_def addEdge_def)
    then have gs: "s \<noteq> n \<Longrightarrow> gsucc h s = gsucc g s" by (simp add: gsucc_def)
    show ?thesis
    proof (cases "s = n")
      case True
      with Cons.IH [OF _ r] Cons.prems(1) Some hn show ?thesis by simp
    next
      case False
      with Cons.IH [OF _ r] Cons.prems(1) hs gs show ?thesis by (auto split: option.split)
    qed
  qed
qed

lemma addRetryEdges_total:
  "(\<exists>g'. addRetryEdges cfg names g = Inr g') \<longleftrightarrow>
     (\<forall>s \<in> set names. \<forall>sc. map_of (smc_States cfg) s = Some sc \<and> sc_AutoRetry sc \<longrightarrow>
        defined cfg (retryTarget cfg sc))"
  by (induction names arbitrary: g) (auto simp: Let_def split: option.split)

lemma validateGraph_order:
  assumes "distinct (map fst (smc_States cfg))" and "validateGraph rank cfg = Inr g"
  shows "validateGraph rank' cfg = Inr g"
proof -
  let ?n = "range_keys rank (map fst (smc_States cfg))"
  let ?n' = "range_keys rank' (map fst (smc_States cfg))"
  obtain h where b: "buildGraph cfg (smc_Transitions cfg) fmempty = Inr h"
    and a: "addRetryEdges cfg ?n h = Inr g"
    using assms(2) by (auto simp: validateGraph_def bindE_eq_Inr)
  obtain g' where a': "addRetryEdges cfg ?n' h = Inr g'"
    using addRetryEdges_total [of cfg ?n h] addRetryEdges_total [of cfg ?n' h] a by auto
  have "fmlookup g s = fmlookup g' s" for s
    using addRetryEdges_lookup [OF _ a] addRetryEdges_lookup [OF _ a'] assms(1)
    by (simp add: map_of_eq_None_iff split: option.split)
  then have "g = g'" by (rule fmap_ext)
  with b a' show ?thesis by (simp add: validateGraph_def)
qed

section \<open>The checks\<close>

lemma checkTerminals_Inr:
  "checkTerminals cfg ss = Inr u \<longleftrightarrow> (\<forall>s \<in> set ss. defined cfg s)"
  by (induction ss) auto

lemma checkReachable_Inr:
  "checkReachable cfg r names = Inr u \<longleftrightarrow> (\<forall>s \<in> set names. s \<in> set r \<or> s = smc_InitialState cfg)"
  by (induction names) auto

lemma checkDeadEnds_Inr:
  "checkDeadEnds cfg g names = Inr u \<longleftrightarrow>
     (\<forall>s \<in> set names. s \<in> set (smc_TerminalStates cfg) \<or> fst (canReachTerminal s g (smc_TerminalStates cfg)))"
  by (induction names) (auto simp: Let_def)

lemma checkCycles_Inr:
  "checkCycles cfg cs = Inr u \<longleftrightarrow> (\<forall>c \<in> set cs. \<exists>s \<in> set c. s \<in> set (smc_TerminalStates cfg))"
  by (induction cs) (auto simp: list_all_iff)

lemma checkCycles_Inl:
  "checkCycles cfg cs = Inl e \<Longrightarrow>
     \<exists>c \<in> set cs. e = InfiniteLoop c \<and> (\<forall>s \<in> set c. s \<notin> set (smc_TerminalStates cfg))"
  by (induction cs) (auto simp: list_all_iff split: if_splits)

lemma states_defined: "set (range_keys rank (map fst (smc_States cfg))) = {s. defined cfg s}"
  by (auto simp: defined_def map_of_eq_None_iff)

lemma Validate_Inr:
  "Validate rank cfg = Inr () \<longleftrightarrow>
     smc_InitialState cfg \<noteq> '''' \<and> defined cfg (smc_InitialState cfg)
   \<and> smc_TerminalStates cfg \<noteq> [] \<and> (\<forall>s \<in> set (smc_TerminalStates cfg). defined cfg s)
   \<and> (\<exists>g. validateGraph rank cfg = Inr g
        \<and> (\<forall>s. defined cfg s \<longrightarrow> (smc_InitialState cfg, s) \<in> (edges g)\<^sup>*)
        \<and> (\<forall>s. defined cfg s \<longrightarrow> (\<exists>t \<in> set (smc_TerminalStates cfg). (s, t) \<in> (edges g)\<^sup>*))
        \<and> (\<forall>c \<in> set (findCycles (smc_InitialState cfg) g). \<exists>s \<in> set c. s \<in> set (smc_TerminalStates cfg)))"
proof -
  have "(s \<in> set (smc_TerminalStates cfg) \<or> (\<exists>t \<in> set (smc_TerminalStates cfg). (s, t) \<in> E\<^sup>*)) \<longleftrightarrow>
      (\<exists>t \<in> set (smc_TerminalStates cfg). (s, t) \<in> E\<^sup>*)" for s and E :: "(string \<times> string) set"
    by auto
  then show ?thesis
    by (auto simp: Validate_def Let_def bindE_eq_Inr checkTerminals_Inr checkReachable_Inr
        checkDeadEnds_Inr checkCycles_Inr reachableStates_iff canReachTerminal_iff states_defined
        simp del: set_range_keys)
qed

section \<open>What acceptance means\<close>

definition refs_defined :: "StateMachineConfig \<Rightarrow> bool" where
  "refs_defined cfg \<longleftrightarrow>
     (\<forall>t \<in> set (smc_Transitions cfg). tc_Allowed t \<longrightarrow> defined cfg (tc_From t) \<and> defined cfg (tc_To t))
   \<and> (\<forall>s sc. map_of (smc_States cfg) s = Some sc \<and> sc_AutoRetry sc \<longrightarrow> defined cfg (retryTarget cfg sc))"

lemma buildGraph_total:
  "(\<exists>g'. buildGraph cfg ts g = Inr g') \<longleftrightarrow>
     (\<forall>t \<in> set ts. tc_Allowed t \<longrightarrow> defined cfg (tc_From t) \<and> defined cfg (tc_To t))"
  by (induction ts arbitrary: g) auto

lemma validateGraph_total: "(\<exists>g. validateGraph rank cfg = Inr g) \<longleftrightarrow> refs_defined cfg"
proof -
  have k: "s \<in> set (range_keys rank (map fst (smc_States cfg))) \<longleftrightarrow> map_of (smc_States cfg) s \<noteq> None" for s
    by (auto simp: map_of_eq_None_iff)
  have "(\<exists>g. validateGraph rank cfg = Inr g) \<longleftrightarrow>
      (\<exists>h. buildGraph cfg (smc_Transitions cfg) fmempty = Inr h
         \<and> (\<exists>g. addRetryEdges cfg (range_keys rank (map fst (smc_States cfg))) h = Inr g))"
    by (auto simp: validateGraph_def bindE_eq_Inr)
  also have "\<dots> \<longleftrightarrow> refs_defined cfg"
    using buildGraph_total [of cfg "smc_Transitions cfg" fmempty]
    unfolding addRetryEdges_total refs_defined_def Ball_def k by auto
  finally show ?thesis .
qed

lemma is_cycle_trancl:
  assumes "is_cycle g c" shows "(hd c, hd c) \<in> (edges g)\<^sup>+"
proof -
  have step: "(c ! i, c ! (Suc i mod length c)) \<in> edges g" if "i < length c" for i
    using assms that by (simp add: is_cycle_def)
  have ne: "c \<noteq> []" using assms by (simp add: is_cycle_def)
  have "i < length c \<Longrightarrow> (c ! 0, c ! i) \<in> (edges g)\<^sup>*" for i
  proof (induction i)
    case (Suc i)
    with step [of i] show ?case by (simp add: rtrancl.rtrancl_into_rtrancl)
  qed simp
  from this [of "length c - 1"] step [of "length c - 1"] ne show ?thesis
    by (simp add: hd_conv_nth rtrancl_into_trancl1)
qed

lemma cfg_edges_defined:
  "refs_defined cfg \<Longrightarrow> (a, b) \<in> cfg_edges cfg \<Longrightarrow> defined cfg a \<and> defined cfg b"
  by (auto simp: cfg_edges_def transition_edges_def retry_edges_def refs_defined_def defined_def)

definition absorbing :: "StateMachineConfig \<Rightarrow> bool" where
  "absorbing cfg \<longleftrightarrow> (\<forall>t \<in> set (smc_TerminalStates cfg). \<forall>s. (t, s) \<notin> cfg_edges cfg)"

lemma findCycles_terminal:
  assumes "absorbing cfg" "edges g = cfg_edges cfg" "refs_defined cfg"
    and reach: "\<forall>s. defined cfg s \<longrightarrow> (smc_InitialState cfg, s) \<in> (edges g)\<^sup>*"
  shows "(\<forall>c \<in> set (findCycles (smc_InitialState cfg) g). \<exists>s \<in> set c. s \<in> set (smc_TerminalStates cfg))
    \<longleftrightarrow> acyclic (cfg_edges cfg)" (is "?L \<longleftrightarrow> _")
proof
  assume ?L
  have "findCycles (smc_InitialState cfg) g = []"
  proof (rule ccontr)
    assume "findCycles (smc_InitialState cfg) g \<noteq> []"
    then obtain c where c: "c \<in> set (findCycles (smc_InitialState cfg) g)" by (meson ex_in_conv set_empty)
    with \<open>?L\<close> obtain s where s: "s \<in> set c" "s \<in> set (smc_TerminalStates cfg)" by auto
    have "gsucc g s \<noteq> []" using cycle_successor [OF findCycles_sound [OF c] s(1)] .
    then obtain t where "t \<in> set (gsucc g s)" by (meson ex_in_conv set_empty)
    then have "(s, t) \<in> edges g" by (simp add: edges_def)
    with s(2) assms(1,2) show False by (auto simp: absorbing_def)
  qed
  from findCycles_complete [OF this] reach
  have no: "defined cfg s \<Longrightarrow> (s, s) \<notin> (edges g)\<^sup>+" for s by auto
  show "acyclic (cfg_edges cfg)" unfolding acyclic_def
  proof (rule, rule)
    fix s assume c: "(s, s) \<in> (cfg_edges cfg)\<^sup>+"
    then obtain t where "(s, t) \<in> cfg_edges cfg" by (meson tranclD)
    with cfg_edges_defined [OF assms(3)] no c assms(2) show False by metis
  qed
next
  assume ac: "acyclic (cfg_edges cfg)"
  have "findCycles (smc_InitialState cfg) g = []"
  proof (rule ccontr)
    assume "findCycles (smc_InitialState cfg) g \<noteq> []"
    then obtain c where c: "c \<in> set (findCycles (smc_InitialState cfg) g)" by (meson ex_in_conv set_empty)
    from is_cycle_trancl [OF findCycles_sound [OF c]] ac assms(2) show False by (simp add: acyclic_def)
  qed
  then show ?L by simp
qed

section \<open>Example configurations\<close>

lemma exampleConfig_edges: "cfg_edges (exampleConfig ss ts) = set ts"
proof -
  have "transition_edges (smc_Transitions (exampleConfig ss ts)) = set ts"
    by (force simp: transition_edges_def exampleConfig_def image_iff split: prod.splits)
  moreover have "retry_edges (exampleConfig ss ts) X = {}" for X
    by (auto simp: retry_edges_def exampleConfig_def exampleState_def dest!: map_of_SomeD)
  ultimately show ?thesis by (simp add: cfg_edges_def)
qed

lemma diamond_ok: "Validate length diamond = Inr ()"
  by code_simp

lemma diamond_absorbing: "absorbing diamond"
  by (simp add: absorbing_def diamond_def exampleConfig_edges) (simp add: exampleConfig_def)

section \<open>Properties\<close>

text \<open>
  A configuration that \<^verbatim>\<open>Validate\<close> accepts has no unreachable state and no dead end: along
  its allowed transitions and retry edges every defined state can be reached from the initial
  state and can itself reach some terminal state.
\<close>

theorem Validate_reach_coreach:
  assumes "Validate rank cfg = Inr ()" and "defined cfg s"
  shows "(smc_InitialState cfg, s) \<in> (cfg_edges cfg)\<^sup>*
    \<and> (\<exists>t \<in> set (smc_TerminalStates cfg). (s, t) \<in> (cfg_edges cfg)\<^sup>*)"
  using assms validateGraph_edges unfolding Validate_Inr by metis

theorem Validate_reach_coreach_witness:
  "(''a'', ''c'') \<in> (cfg_edges diamond)\<^sup>* \<and> (\<exists>t \<in> {''t''}. (''c'', t) \<in> (cfg_edges diamond)\<^sup>*)"
  using Validate_reach_coreach [OF diamond_ok, of "''c''"]
  by (simp add: diamond_def exampleConfig_def defined_def)

text \<open>
  Claim C4. For configurations whose terminal states have no outgoing edge, \<^verbatim>\<open>Validate\<close> decides
  exactly the documented conditions: a named and defined initial state, at least one terminal
  state, every reference to a state defined, every state reachable from the initial state and
  able to reach a terminal state, and no cycle at all.
\<close>

theorem Validate_iff:
  assumes "absorbing cfg"
  shows "Validate rank cfg = Inr () \<longleftrightarrow>
     smc_InitialState cfg \<noteq> '''' \<and> defined cfg (smc_InitialState cfg)
   \<and> smc_TerminalStates cfg \<noteq> [] \<and> (\<forall>s \<in> set (smc_TerminalStates cfg). defined cfg s)
   \<and> refs_defined cfg
   \<and> (\<forall>s. defined cfg s \<longrightarrow> (smc_InitialState cfg, s) \<in> (cfg_edges cfg)\<^sup>*)
   \<and> (\<forall>s. defined cfg s \<longrightarrow> (\<exists>t \<in> set (smc_TerminalStates cfg). (s, t) \<in> (cfg_edges cfg)\<^sup>*))
   \<and> acyclic (cfg_edges cfg)"
proof (cases "\<exists>g. validateGraph rank cfg = Inr g")
  case True
  then obtain g where g: "validateGraph rank cfg = Inr g" by auto
  have e: "edges g = cfg_edges cfg" using validateGraph_edges [OF g] .
  have r: "refs_defined cfg" using True validateGraph_total by auto
  show ?thesis unfolding Validate_Inr using g e r findCycles_terminal [OF assms e r] by auto
next
  case False
  then show ?thesis unfolding Validate_Inr using validateGraph_total by auto
qed

theorem Validate_iff_witness: "absorbing diamond \<and> acyclic (cfg_edges diamond)"
  using Validate_iff [OF diamond_absorbing, of length] diamond_ok diamond_absorbing by simp

text \<open>
  The verdict does not depend on the order in which Go visits the map of states: a
  configuration accepted under one iteration order is accepted under every other.
\<close>

theorem Validate_order_independent:
  assumes "distinct (map fst (smc_States cfg))" and "Validate rank cfg = Inr ()"
  shows "Validate rank' cfg = Inr ()"
  using assms(2) validateGraph_order [OF assms(1), of rank _ rank'] unfolding Validate_Inr by metis

lemma checkReachable_Inl:
  "checkReachable cfg r names = Inl e \<Longrightarrow> \<exists>s \<in> set names. e = Unreachable s \<and> s \<notin> set r"
  by (induction names) (auto split: if_splits)

lemma checkDeadEnds_Inl:
  "checkDeadEnds cfg g names = Inl e \<Longrightarrow>
     \<exists>s \<in> set names. e = DeadEnd s (snd (canReachTerminal s g (smc_TerminalStates cfg)))
       \<and> \<not> fst (canReachTerminal s g (smc_TerminalStates cfg))"
  by (induction names) (auto simp: Let_def split: if_splits)

lemma checkTerminals_Inl:
  "checkTerminals cfg ss = Inl e \<Longrightarrow> \<exists>s. e = TerminalStateUndefined s"
  by (induction ss) (auto split: if_splits)

lemma buildGraph_Inl:
  "buildGraph cfg ts g = Inl e \<Longrightarrow> \<exists>s. e = TransitionFromUndefined s \<or> e = TransitionToUndefined s"
  by (induction ts arbitrary: g) (auto split: if_splits)

lemma addRetryEdges_Inl:
  "addRetryEdges cfg names g = Inl e \<Longrightarrow> \<exists>s t. e = RetryTargetUndefined s t"
  by (induction names arbitrary: g) (auto simp: Let_def split: if_splits option.splits)

lemma validateGraph_Inl:
  "validateGraph rank cfg = Inl e \<Longrightarrow>
     \<exists>s t. e = TransitionFromUndefined s \<or> e = TransitionToUndefined s \<or> e = RetryTargetUndefined s t"
  unfolding validateGraph_def bindE_eq_Inl using buildGraph_Inl addRetryEdges_Inl by blast

lemma Validate_graph_error:
  assumes "Validate rank cfg = Inl e"
    and "(\<exists>s. e = Unreachable s) \<or> (\<exists>s p. e = DeadEnd s p) \<or> (\<exists>c. e = InfiniteLoop c)"
  shows "\<exists>g. validateGraph rank cfg = Inr g
    \<and> (checkReachable cfg (reachableStates (smc_InitialState cfg) g) (range_keys rank (map fst (smc_States cfg))) = Inl e
       \<or> checkDeadEnds cfg g (range_keys rank (map fst (smc_States cfg))) = Inl e
       \<or> checkCycles cfg (findCycles (smc_InitialState cfg) g) = Inl e)"
proof -
  have "checkTerminals cfg (smc_TerminalStates cfg) \<noteq> Inl e" "validateGraph rank cfg \<noteq> Inl e"
    using assms(2) checkTerminals_Inl [of cfg "smc_TerminalStates cfg" e] validateGraph_Inl [of rank cfg e]
    by auto
  with assms show ?thesis
    by (auto simp: Validate_def Let_def bindE_eq_Inl split: if_splits)
qed

theorem Validate_order_independent_witness:
  "Validate (\<lambda>s. if s = ''t'' then 0 else 1) diamond = Inr ()"
  by (rule Validate_order_independent [OF _ diamond_ok]) (simp add: diamond_def exampleConfig_def)

text \<open>
  The graph errors of \<^verbatim>\<open>Validate\<close> are genuine: a state reported unreachable is defined and has
  no path from the initial state, a reported dead end is defined and reaches no terminal state, and
  a reported infinite loop is a cycle of the configuration's edges without a terminal state.
\<close>

theorem Validate_errors_genuine:
  assumes "Validate rank cfg = Inl e"
  shows "(e = Unreachable s \<longrightarrow> defined cfg s \<and> (smc_InitialState cfg, s) \<notin> (cfg_edges cfg)\<^sup>*)
    \<and> (e = DeadEnd s p \<longrightarrow> defined cfg s \<and> (\<forall>t \<in> set (smc_TerminalStates cfg). (s, t) \<notin> (cfg_edges cfg)\<^sup>*))
    \<and> (e = InfiniteLoop c \<longrightarrow> c \<noteq> []
        \<and> (\<forall>i < length c. (c ! i, c ! (Suc i mod length c)) \<in> cfg_edges cfg)
        \<and> (\<forall>s \<in> set c. s \<notin> set (smc_TerminalStates cfg)))"
proof (cases "(\<exists>s. e = Unreachable s) \<or> (\<exists>s p. e = DeadEnd s p) \<or> (\<exists>c. e = InfiniteLoop c)")
  case True
  let ?ns = "range_keys rank (map fst (smc_States cfg))"
  obtain g where g: "validateGraph rank cfg = Inr g"
    and cs: "checkReachable cfg (reachableStates (smc_InitialState cfg) g) ?ns = Inl e
       \<or> checkDeadEnds cfg g ?ns = Inl e \<or> checkCycles cfg (findCycles (smc_InitialState cfg) g) = Inl e"
    using Validate_graph_error [OF assms True] by auto
  note eg = validateGraph_edges [OF g, symmetric]
  from cs show ?thesis
  proof (elim disjE)
    assume "checkReachable cfg (reachableStates (smc_InitialState cfg) g) ?ns = Inl e"
    from checkReachable_Inl [OF this] show ?thesis unfolding states_defined reachableStates_iff eg by auto
  next
    assume "checkDeadEnds cfg g ?ns = Inl e"
    from checkDeadEnds_Inl [OF this] show ?thesis unfolding states_defined canReachTerminal_iff eg by auto
  next
    assume "checkCycles cfg (findCycles (smc_InitialState cfg) g) = Inl e"
    from checkCycles_Inl [OF this] show ?thesis using findCycles_sound unfolding is_cycle_def eg by auto
  qed
qed auto

definition looping :: StateMachineConfig where
  "looping = exampleConfig [''a'', ''b'', ''t''] [(''a'',''b''), (''b'',''a''), (''b'',''t'')]"

theorem Validate_errors_genuine_witness:
  "Validate length looping = Inl (InfiniteLoop [''a'', ''b'']) \<and> (''a'', ''b'') \<in> cfg_edges looping"
proof -
  have l: "Validate length looping = Inl (InfiniteLoop [''a'', ''b''])" by code_simp
  have "\<forall>i < Suc (Suc 0). ([''a'', ''b''] ! i, [''a'', ''b''] ! (Suc i mod Suc (Suc 0))) \<in> cfg_edges looping"
    using Validate_errors_genuine [OF l, of _ _ "[''a'', ''b'']"] by simp
  then have "([''a'', ''b''] ! 0, [''a'', ''b''] ! (Suc 0 mod Suc (Suc 0))) \<in> cfg_edges looping" by blast
  with l show ?thesis by simp
qed

text \<open>
  The loop check can be masked. In the configuration with the transitions a to t, t to b, a
  to b and b to a, where t is the terminal state, the cycle a, b, a contains no terminal state, yet
  \<^verbatim>\<open>Validate\<close> accepts: the depth-first search meets b first behind t and records only that cycle.
\<close>

theorem Validate_masked_loop:
  "let cfg = exampleConfig [''a'', ''b'', ''t''] [(''a'',''t''), (''t'',''b''), (''a'',''b''), (''b'',''a'')]
   in Validate length cfg = Inr ()
    \<and> (''a'', ''b'') \<in> cfg_edges cfg \<and> (''b'', ''a'') \<in> cfg_edges cfg
    \<and> ''a'' \<notin> set (smc_TerminalStates cfg) \<and> ''b'' \<notin> set (smc_TerminalStates cfg)"
proof -
  have "Validate length (exampleConfig [''a'', ''b'', ''t'']
     [(''a'',''t''), (''t'',''b''), (''a'',''b''), (''b'',''a'')]) = Inr ()"
    by code_simp
  then show ?thesis
    by (simp add: Let_def exampleConfig_edges) (simp add: exampleConfig_def)
qed

end
