(* ===== verification/Core_Props.thy ===== *)
theory Core_Props
  imports Nuts_Words Core_Tasks SM_Validate_Props
begin

text \<open>
  What the task flow of the core guarantees: the invariant of the engine, the heap order of the
  timeout checker and the bound of the semaphore over every interleaving of its handlers; that a
  timeout check ends although its handler pushes new deadlines; what happens to a task that times
  out; and where the code falls short of its intention.
\<close>

type_synonym 'w mem_core = "(json MemoryDB, 'w) Core"

section \<open>Durations\<close>

lemma computeEffectiveTimeout_pos: "0 < computeEffectiveTimeout parse rule dflt"
  by (auto simp: computeEffectiveTimeout_def Let_def split: option.split)

lemma backoff_small:
  assumes "0 \<le> rc" "rc < 63" "m \<le> 9000000000"
  shows "backoff m rc = min (2 ^ nat rc) (if m \<le> 0 then 60 else m) * second"
proof -
  define mx n :: int where "mx = (if m \<le> 0 then 60 else m)" and "n = min (2 ^ nat rc) mx"
  have "nat rc < 63" using assms by simp
  then have p: "sint (push_bit (nat rc) (1 :: 64 word)) = 2 ^ nat rc" by (rule push_bit_one_sint)
  have "0 \<le> n" "n \<le> 9000000000" using assms(3) by (auto simp: n_def mx_def)
  then have "sint (word_of_int (n * second) :: 64 word) = n * second" by (intro sint_fits) simp_all
  moreover have "backoff m rc = sint (word_of_int (n * second) :: 64 word)"
    using assms(1) unfolding backoff_def Let_def p mx_def [symmetric] n_def min_def
    by (cases "2 ^ nat rc \<le> mx") (simp_all only: not_less [symmetric] if_True if_False simp_thms)
  ultimately show ?thesis unfolding n_def mx_def by simp
qed

lemma backoff_overflow:
  assumes "63 \<le> rc" shows "backoff m rc = 0"
proof (cases "rc = 63")
  case True
  have "sint (push_bit 63 (1 :: 64 word)) = - (2 ^ 63)" by (simp add: push_bit_eq_mult sint_uint)
  moreover have "sint (word_of_int (- (2 ^ 63) * second) :: 64 word) = 0" by (simp add: sint_sbintrunc')
  ultimately show ?thesis using True by (simp add: backoff_def)
next
  case False
  then have "64 \<le> nat rc" using assms by simp
  then have z: "(2 :: 64 word) ^ nat rc = 0" by simp
  show ?thesis using assms by (simp add: backoff_def z)
qed

section \<open>Store operations of the handlers\<close>

lemma taskOk_frame:
  assumes "taskOk cfg t" "t_StateHistory t' = t_StateHistory t" "t_State t' = t_State t" "t_ArchivedAt t' = t_ArchivedAt t"
  shows "taskOk cfg t'"
  using assms by (simp add: taskOk_def)

lemma mem_UpdateResult:
  assumes inv: "mem_inv s" and t: "mem_task s tid = Some t"
  shows "\<exists>s'. UpdateResult (memoryDB rank) now s tid res
       = Inr (t\<lparr>t_Result := res, t_UpdatedAt := now, t_Version := t_Version t + 1\<rparr>, s')
     \<and> mem_inv s' \<and> mem_task s' = (mem_task s)(tid \<mapsto> t\<lparr>t_Result := res, t_UpdatedAt := now, t_Version := t_Version t + 1\<rparr>)"
proof -
  let ?u = "t\<lparr>t_Result := res, t_UpdatedAt := now\<rparr>"
  have ok: "mem_ok (ets_db s)" using inv by (simp add: store_inv_def)
  obtain u s' where p: "putLocked (memoryDB rank) s ?u = Inr (u, s')" using mem_put_total by blast
  have "getLocked (memoryDB rank) s tid = Inr t" using ms.getLocked_iff ok t by blast
  then have r: "UpdateResult (memoryDB rank) now s tid res = Inr (u, s')" using p by (simp add: UpdateResult_def)
  have u: "u = t\<lparr>t_Result := res, t_UpdatedAt := now, t_Version := t_Version t + 1\<rparr>"
    using ms.putLocked_Inr(1) [OF ok p] by simp
  from ms.UpdateResult_effect [OF inv r] r show ?thesis unfolding u by blast
qed

lemma mem_Update:
  assumes inv: "mem_inv s" and t: "mem_task s (t_ID task) = Some t" and v: "t_Version task = t_Version t"
    and keep: "t_State task = t_State t" "t_CreatedAt task = t_CreatedAt t"
    and arch: "t_ArchivedAt t \<noteq> None \<Longrightarrow> t_ArchivedAt task \<noteq> None"
  shows "\<exists>s'. Update (memoryDB rank) now s task = Inr (task\<lparr>t_UpdatedAt := now, t_Version := t_Version task + 1\<rparr>, s')
     \<and> mem_inv s' \<and> mem_task s' = (mem_task s)(t_ID task \<mapsto> task\<lparr>t_UpdatedAt := now, t_Version := t_Version task + 1\<rparr>)"
proof -
  have ok: "mem_ok (ets_db s)" using inv by (simp add: store_inv_def)
  have g: "getLocked (memoryDB rank) s (t_ID task) = Inr t" using ms.getLocked_iff ok t by blast
  obtain t1 s1 where p: "putLocked (memoryDB rank) s (task\<lparr>t_UpdatedAt := now\<rparr>) = Inr (t1, s1)"
    using mem_put_total by blast
  obtain t2 s2 where u: "Update (memoryDB rank) now s task = Inr (t2, s2)"
    using g v p by (simp add: Update_def)
  from ms.Update_effect [OF ok u] ms.Update_inv [OF inv u t keep arch] u show ?thesis by auto
qed

section \<open>The invariant of the core\<close>

definition coreInv :: "TimeoutChecker \<times> 'w mem_core \<Rightarrow> bool" where
  "coreInv kc \<longleftrightarrow> engineInv (core_engine (snd kc)) \<and> is_heap he_deadline (toc_heap (fst kc))
     \<and> core_semUsed (snd kc) \<le> core_semCap (snd kc)"

lemma Checker_Push_heap:
  assumes "is_heap he_deadline (toc_heap k)"
  shows "is_heap he_deadline (toc_heap (Checker_Push k tid d))"
    and "mset (toc_heap (Checker_Push k tid d)) = add_mset \<lparr>he_deadline = d, he_taskID = tid\<rparr> (mset (toc_heap k))"
  using heap_Push_correct [OF assms] by (simp_all add: Checker_Push_def)

lemma coreInv_release: "coreInv (k, c) \<Longrightarrow> coreInv (k, releaseSlot c)"
  by (auto simp: coreInv_def releaseSlot_def)

lemma coreInv_engine:
  assumes "coreInv (k, c)" "engineInv e" shows "coreInv (k, c\<lparr>core_engine := e, core_world := w\<rparr>)"
  using assms by (simp add: coreInv_def)

lemma coreInv_world: "coreInv (k, c) \<Longrightarrow> coreInv (k, c\<lparr>core_world := w\<rparr>)"
  by (simp add: coreInv_def)

lemma coreInv_push: "coreInv (k, c) \<Longrightarrow> coreInv (Checker_Push k tid d, c)"
  using Checker_Push_heap(1) by (auto simp: coreInv_def)

lemma coreInv_command:
  assumes "coreInv (k, c)"
    and "HandleTransitionCommand (memoryDB rank) out ctx st keys (core_engine c) cmd w = (err, e, w')"
  shows "coreInv (k, c\<lparr>core_engine := e, core_world := w'\<rparr>)"
  using assms engineInv_command [OF _ assms(2)] by (simp add: coreInv_def)

lemma coreInv_handleTransitionCommand:
  fixes c :: "'w mem_core"
  assumes "coreInv (k, c)"
  shows "coreInv (k, handleTransitionCommand (memoryDB rank) E ctx uuid now st keys event c)"
proof -
  have "coreInv (k, case HandleTransitionCommand (memoryDB rank) (env_out E) ctx st keys (core_engine c1) cmd (core_world c1) of
      (err, e, w) \<Rightarrow> let c = c1\<lparr>core_engine := e, core_world := w\<rparr> in
         if err \<noteq> None then c else if IsTerminalState (sme_config e) s then releaseSlot c else c)"
    if "coreInv (k, c1)" for c1 :: "'w mem_core" and cmd s
    by (auto simp: Let_def split: prod.split intro!: coreInv_release coreInv_command [OF that])
  note step = this
  show ?thesis
    unfolding handleTransitionCommand_def Let_def
    using assms step [OF coreInv_world [OF assms], unfolded Let_def]
    by (auto split: option.split typed_payload.split)
qed

lemma coreInv_retry:
  fixes c :: "'w mem_core"
  assumes "coreInv (k, c)"
  shows "coreInv (handleTaskRetry (memoryDB rank) E ctx n1 n2 st keys tsk sc (k, c))"
  unfolding handleTaskRetry_def Let_def
  using assms by (auto split: prod.split option.split intro!: coreInv_push coreInv_command [OF assms])

lemma coreInv_tryTerminal:
  fixes c :: "'w mem_core"
  assumes "coreInv (k, c)" "tryTerminal (memoryDB rank) E ctx st keys tsk targets c = (b, c')"
  shows "coreInv (k, c')"
  using assms
proof (induction targets arbitrary: c)
  case (Cons target targets)
  obtain err e w where h: "HandleTransitionCommand (memoryDB rank) (env_out E) ctx st keys (core_engine c)
      (archiveCommand tsk target) (core_world c) = (err, e, w)" by (metis prod_cases3)
  from Cons.prems(2) Cons.IH [OF Cons.prems(1)] Cons.IH [OF coreInv_command [OF Cons.prems(1) h]]
    coreInv_command [OF Cons.prems(1) h]
  show ?case by (auto simp: h Let_def split: if_splits)
qed simp

lemma coreInv_archive:
  fixes c :: "'w mem_core"
  assumes "coreInv (k, c)"
  shows "coreInv (k, handleTaskArchive (memoryDB rank) E ctx now st keys tsk c)"
proof -
  obtain b c1 where t: "tryTerminal (memoryDB rank) E ctx st keys tsk (smc_TerminalStates (sme_config (core_engine c))) c = (b, c1)"
    by fastforce
  have i1: "coreInv (k, c1)" by (rule coreInv_tryTerminal [OF assms t])
  let ?e = "core_engine c1"
  have e: "engineInv (?e\<lparr>sme_store := s\<rparr>)"
    if u: "UpdateResult (memoryDB rank) now (sme_store ?e) (t_ID tsk) (Some (timeoutResult tsk)) = Inr (t', s)" for t' s
  proof -
    have inv: "mem_inv (sme_store ?e)" using i1 by (simp add: coreInv_def engineInv_def)
    then have ok: "mem_ok (ets_db (sme_store ?e))" by (simp add: store_inv_def)
    obtain t where t: "mem_task (sme_store ?e) (t_ID tsk) = Some t"
      using u ms.getLocked_iff [OF ok] by (auto simp: UpdateResult_def bindE_eq_Inr)
    have "taskOk (sme_config ?e) t" using i1 t by (simp add: coreInv_def engineInv_def)
    then show ?thesis
      using mem_UpdateResult [OF inv t, of rank now "Some (timeoutResult tsk)"] u i1
      by (auto simp: coreInv_def engineInv_def intro: taskOk_frame)
  qed
  have "coreInv (k, case UpdateResult (memoryDB rank) now (sme_store ?e) (t_ID tsk) (Some (timeoutResult tsk)) of
      Inl _ \<Rightarrow> c1 | Inr (_, s) \<Rightarrow> c1\<lparr>core_engine := ?e\<lparr>sme_store := s\<rparr>\<rparr>)"
    using i1 e by (auto simp: coreInv_def split: sum.split prod.split)
  from coreInv_release [OF this] i1 show ?thesis
    by (simp add: handleTaskArchive_def t Let_def)
qed

lemma coreInv_timeout:
  fixes c :: "'w mem_core"
  assumes "coreInv (k, c)"
  shows "coreInv (handleTimeoutEvent (memoryDB rank) E ctx ts keys tid st (k, c))"
  unfolding handleTimeoutEvent_def Let_def
  using assms coreInv_retry [OF coreInv_world [OF assms]] coreInv_archive [OF coreInv_world [OF assms]]
  by (auto split: sum.split option.split)

lemma coreInv_matched:
  fixes c :: "'w mem_core"
  assumes inv: "coreInv (k, c)" and new: "mem_task (sme_store (core_engine c)) (pm_taskID m) = None"
    and r: "handlePolicyMatchedEvent (memoryDB rank) E F m keys event (k, c) = Some kc'"
  shows "coreInv kc'"
proof -
  let ?spec = "matchSpec (pm_taskID m) event"
  have id: "spec_ID ?spec = pm_taskID m" by (simp add: matchSpec_def Let_def)
  obtain res e where ct: "CreateTask (memoryDB rank) F (pm_buildTime m) (pm_createTime m) (pm_initialTime m)
      (core_engine c) ?spec = (res, e)" by fastforce
  have ei: "engineInv (core_engine c)" using inv by (simp add: coreInv_def)
  have e: "engineInv e" by (rule engineInv_create [OF ei _ ct]) (use new id in simp)
  have sem: "core_semUsed c < core_semCap c"
    using r by (auto simp: handlePolicyMatchedEvent_def split: if_splits)
  show ?thesis
  proof (cases res)
    case (Inl err)
    then show ?thesis using r ct e inv sem
      by (auto simp: handlePolicyMatchedEvent_def Let_def coreInv_def releaseSlot_def)
  next
    case (Inr t)
    let ?at = "pm_timeoutBase m + computeEffectiveTimeout (env_parseDuration E)
        (GetPayloadString event ''policy_timeout'') (env_defaultTimeout E)"
    let ?t = "t\<lparr>t_TimeoutAt := Some ?at\<rparr>"
    have mi: "mem_inv (sme_store (core_engine c))" using ei by (simp add: engineInv_def)
    note ce = ms.create_effect [OF mi _ ct [unfolded Inr]]
    have at: "mem_task (sme_store e) (t_ID ?t) = Some t" using ce new id by simp
    have mi': "mem_inv (sme_store e)" using e by (simp add: engineInv_def)
    obtain u s where up: "Update (memoryDB rank) (pm_updateTime m) (sme_store e) ?t = Inr (u, s)" "mem_inv s"
      "mem_task s = (mem_task (sme_store e))(t_ID t \<mapsto> u)" "t_StateHistory u = t_StateHistory t"
      "t_State u = t_State t" "t_ArchivedAt u = t_ArchivedAt t"
      using mem_Update [OF mi' at, of rank "pm_updateTime m"] by auto
    have "taskOk (sme_config e) u" using e at up by (auto simp: engineInv_def intro: taskOk_frame)
    then have "engineInv (e\<lparr>sme_store := s\<rparr>)" using e up by (auto simp: engineInv_def)
    then show ?thesis using r ct Inr inv sem up(1) Checker_Push_heap(1)
      by (auto simp: handlePolicyMatchedEvent_def Let_def coreInv_def)
  qed
qed


section \<open>Steps of the core\<close>

text \<open>
  The callback that \<^verbatim>\<open>Start\<close> gives to the timeout checker; \<open>ts\<close> yields the readings of clock and
  generator for each call.
\<close>

definition timeoutCallback ::
  "('d, json) DB \<Rightarrow> 'w core_env \<Rightarrow> gocontext option \<Rightarrow> ('w \<Rightarrow> string \<Rightarrow> timeout_stamps) \<Rightarrow> string list
     \<Rightarrow> ('d, 'w) Core TimeoutCallback" where
  "timeoutCallback B E ctx ts keys tid st kc =
     handleTimeoutEvent B E ctx (ts (core_world (snd kc)) tid) keys tid st kc"

definition core_store :: "('d, 'w) Core \<Rightarrow> 'd engineTaskStore" where
  "core_store c = sme_store (core_engine c)"

text \<open>One run of a handler, a timeout check or a pass of the archive cleaner.\<close>

inductive core_step :: "TimeoutChecker \<times> 'w mem_core \<Rightarrow> TimeoutChecker \<times> 'w mem_core \<Rightarrow> bool" where
  matched: "mem_task (core_store c) (pm_taskID m) = None \<Longrightarrow>
     handlePolicyMatchedEvent (memoryDB rank) E F m keys event (k, c) = Some kc' \<Longrightarrow> core_step (k, c) kc'"
| command: "core_step (k, c) (k, handleTransitionCommand (memoryDB rank) E ctx uuid now st keys event c)"
| check: "checkTimeoutsAndGetNextWake (memoryDB rank) tie core_store (Some (timeoutCallback (memoryDB rank) E ctx ts keys))
     now0 now k c = Some (wake, k', c') \<Longrightarrow> core_step (k, c) (k', c')"
| clean: "cleanup (memoryDB rank) tie now ac (core_store c) = (ac', s) \<Longrightarrow>
     core_step (k, c) (k, c\<lparr>core_engine := (core_engine c)\<lparr>sme_store := s\<rparr>\<rparr>)"

definition newCore :: "mem_engine \<Rightarrow> duration \<Rightarrow> int \<Rightarrow> nat \<Rightarrow> 'w \<Rightarrow> TimeoutChecker \<times> 'w mem_core" where
  "newCore e interval rebuild cap w =
     (NewTimeoutChecker interval rebuild,
      \<lparr>core_engine = e, core_semUsed = 0, core_semCap = cap, core_world = w\<rparr>)"

lemma popExpired_preserves:
  assumes "popExpired get cb now cx = Some cx'" "P cx"
    and pop: "\<And>k x ms. P (k, x) \<Longrightarrow> P (k\<lparr>toc_heap := heapRest (toc_heap k)\<rparr>, x)"
    and note_: "\<And>k x ms. P (k, x) \<Longrightarrow> P (k\<lparr>toc_metrics := ms\<rparr>, x)"
    and call: "\<And>f tid st kx. cb = Some f \<Longrightarrow> P kx \<Longrightarrow> P (f tid st kx)"
  shows "P cx'"
proof -
  let ?Q = "\<lambda>get' cb' now' cx cx'. cb' = cb \<longrightarrow> P cx \<longrightarrow> P cx'"
  have "?Q get cb now cx cx'"
  proof (rule popExpired.raw_induct [where P = ?Q, OF _ assms(1)])
    fix loop :: "('a \<Rightarrow> string \<Rightarrow> Task option) \<Rightarrow> 'a TimeoutCallback option \<Rightarrow> gotime \<Rightarrow> TimeoutChecker \<times> 'a
        \<Rightarrow> (TimeoutChecker \<times> 'a) option" and get' cb' now' cx cx'
    assume ih: "\<And>get cb' now cx cx'. loop get cb' now cx = Some cx' \<Longrightarrow> ?Q get cb' now cx cx'"
      and r: "(if toc_heap (fst cx) = [] then Some cx
      else if after (he_deadline (toc_heap (fst cx) ! 0)) now' then Some cx
      else (case get' (snd cx) (he_taskID (toc_heap (fst cx) ! 0)) of
              None \<Rightarrow> loop get' cb' now'
                ((fst cx)\<lparr>toc_heap := heapRest (toc_heap (fst cx))\<rparr>, snd cx)
            | Some task \<Rightarrow>
                if \<not> isTaskTimeout task now'
                then loop get' cb' now'
                  ((fst cx)\<lparr>toc_heap := heapRest (toc_heap (fst cx))\<rparr>, snd cx)
                else loop get' cb' now'
                  ((case cb' of None \<Rightarrow> (\<lambda>cx. cx) | Some f \<Rightarrow> f (t_ID task) (t_State task))
                     ((fst cx)\<lparr>toc_heap := heapRest (toc_heap (fst cx)),
                              toc_metrics := note_metric TaskTimeout (toc_metrics (fst cx))\<rparr>, snd cx)))) = Some cx'"
    have p: "P ((fst cx)\<lparr>toc_heap := heapRest (toc_heap (fst cx))\<rparr>, snd cx)"
      "P ((fst cx)\<lparr>toc_heap := heapRest (toc_heap (fst cx)), toc_metrics := ms\<rparr>, snd cx)" if "P cx" for ms
      using pop [of "fst cx" "snd cx"] note_ [OF pop [of "fst cx" "snd cx"]] that by simp_all
    show "?Q get' cb' now' cx cx'"
      using r p call [OF _ p(2)] by (auto split: if_splits option.splits dest!: ih)
  qed
  with assms(2) show ?thesis by simp
qed


lemma coreInv_check:
  fixes c :: "'w mem_core"
  assumes inv: "coreInv (k, c)"
    and r: "checkTimeoutsAndGetNextWake (memoryDB rank) tie core_store
       (Some (timeoutCallback (memoryDB rank) E ctx ts keys)) now0 now k c = Some (wake, k', c')"
  shows "coreInv (k', c')"
proof -
  let ?k1 = "if needsRebuild k then (rebuildHeap (memoryDB rank) tie now0 (core_store c) k)\<lparr>toc_ticksSinceRebuild := 0\<rparr>
     else k\<lparr>toc_ticksSinceRebuild := toc_ticksSinceRebuild k + 1\<rparr>"
  have "is_heap he_deadline (toc_heap ?k1)"
    using inv heap_Init_correct [of he_deadline]
    by (auto simp: coreInv_def rebuildHeap_def split: sum.split)
  then have k1: "coreInv (?k1, c)" using inv by (simp add: coreInv_def)
  have p: "popExpired (\<lambda>x tid. case Store_Get (memoryDB rank) (core_store x) tid of Inl _ \<Rightarrow> None | Inr t \<Rightarrow> Some t)
      (Some (timeoutCallback (memoryDB rank) E ctx ts keys)) now (?k1, c) = Some (k', c')"
    using r by (auto simp: checkTimeoutsAndGetNextWake_def Let_def split: option.splits)
  show ?thesis
  proof (rule popExpired_preserves [where P = coreInv, OF p k1])
    fix k :: TimeoutChecker and x :: "'w mem_core"
    assume i: "coreInv (k, x)"
    then show "coreInv (k\<lparr>toc_metrics := ms\<rparr>, x)" for ms by (simp add: coreInv_def)
    show "coreInv (k\<lparr>toc_heap := heapRest (toc_heap k)\<rparr>, x)"
    proof (cases "toc_heap k = []")
      case True
      then have "is_heap he_deadline (heapRest (toc_heap k))"
        by (simp add: heap_Pop_def is_heap_def heap_from_def Let_def)
      with i show ?thesis by (simp add: coreInv_def)
    next
      case False
      with i heap_Pop_correct(2) show ?thesis by (auto simp: coreInv_def)
    qed
  next
    fix f tid st and kx :: "TimeoutChecker \<times> 'w mem_core"
    assume f: "Some (timeoutCallback (memoryDB rank) E ctx ts keys) = Some f" and kx: "coreInv kx"
    then show "coreInv (f tid st kx)"
      using coreInv_timeout [of "fst kx" "snd kx"] by (auto simp: timeoutCallback_def)
  qed
qed

lemma coreInv_clean:
  assumes inv: "coreInv (k, c)" and r: "cleanup (memoryDB rank) tie now ac (core_store c) = (ac', s)"
  shows "coreInv (k, c\<lparr>core_engine := (core_engine c)\<lparr>sme_store := s\<rparr>\<rparr>)"
proof -
  have "mem_inv (core_store c)" using inv by (simp add: coreInv_def engineInv_def core_store_def)
  from cleanup_effect [OF this, of rank tie now ac] r inv show ?thesis
    by (auto simp: coreInv_def engineInv_def core_store_def split: option.splits if_splits)
qed

lemma coreInv_step: "core_step kc kc' \<Longrightarrow> coreInv kc \<Longrightarrow> coreInv kc'"
proof (induction rule: core_step.induct)
  case (matched c m rank E F keys event k kc')
  show ?case by (rule coreInv_matched [OF matched(3) _ matched(2)]) (use matched(1) in \<open>simp add: core_store_def\<close>)
next
  case (check rank tie E ctx ts keys now0 now k c wake k' c')
  then show ?case by (blast intro: coreInv_check)
next
  case (clean rank tie now ac c ac' s k)
  then show ?case by (blast intro: coreInv_clean)
qed (rule coreInv_handleTransitionCommand)

lemma core_reachable_inv:
  assumes "core_step\<^sup>*\<^sup>* (newCore e interval rebuild cap w) kc" "engineInv e"
  shows "coreInv kc"
  using assms(1)
proof (induction rule: rtranclp_induct)
  case base
  show ?case using assms(2) by (simp add: coreInv_def newCore_def NewTimeoutChecker_def is_heap_def heap_from_def)
qed (rule coreInv_step)



section \<open>Timeout checks end\<close>

lemma retry_checker:
  assumes "handleTaskRetry B E ctx n1 n2 st keys tsk sc (k, c) = (k', c')"
  shows "k' = k \<or> (\<exists>d. n2 < d \<and> k' = Checker_Push k (t_ID tsk) d)"
proof -
  from assms have "k' = k \<or> k' = Checker_Push k (t_ID tsk) (n2 + computeEffectiveTimeout (env_parseDuration E)
      (metaString (t_Metadata tsk) ''policy_timeout'') (env_defaultTimeout E))"
    by (auto simp: handleTaskRetry_def Let_def split: if_splits prod.splits)
  with computeEffectiveTimeout_pos show ?thesis by (metis less_add_same_cancel1)
qed

lemma timeout_checker:
  assumes "handleTimeoutEvent B E ctx ts keys tid st (k, c) = (k', c')"
  shows "k' = k \<or> (\<exists>i d. to_timeoutTime ts < d \<and> k' = Checker_Push k i d)"
  using assms
  by (auto simp: handleTimeoutEvent_def Let_def split: if_splits sum.splits option.splits dest: retry_checker)

lemma timeoutCallback_ok:
  assumes "\<And>w tid. now \<le> to_timeoutTime (ts w tid)"
  shows "callback_ok now (timeoutCallback B E ctx ts keys)"
  unfolding callback_ok_def
proof (intro allI impI)
  fix tid st k and c :: "('b, 'a) Core" and k' c'
  assume a: "is_heap he_deadline (toc_heap k) \<and> timeoutCallback B E ctx ts keys tid st (k, c) = (k', c')"
  then consider "k' = k" | i d where "now < d" "k' = Checker_Push k i d"
    using timeout_checker [of B E ctx "ts (core_world c) tid" keys tid st k c k' c'] assms [of "core_world c" tid]
    by (auto simp: timeoutCallback_def) (metis order_le_less_trans)
  then show "is_heap he_deadline (toc_heap k') \<and> size (hq.due now (toc_heap k')) \<le> size (hq.due now (toc_heap k))"
    by cases (use a Checker_Push_heap [of k] in \<open>auto simp: hq.due_def\<close>)
qed

text \<open>
  Claim C16. A timeout check of the core always ends, although its handler pushes the new deadline of
  each retried task into the heap being emptied: a new deadline is read from a clock that has not
  gone back and lies a positive timeout ahead, so it is not due. Afterwards no due entry is left.
\<close>

theorem core_check_ends:
  fixes c :: "'w mem_core"
  assumes "coreInv (k, c)" "\<And>w tid. now \<le> to_timeoutTime (ts w tid)"
  shows "\<exists>wake k' c'. checkTimeoutsAndGetNextWake (memoryDB rank) tie core_store
       (Some (timeoutCallback (memoryDB rank) E ctx ts keys)) now0 now k c = Some (wake, k', c')
     \<and> coreInv (k', c') \<and> (\<forall>e \<in> set (toc_heap k'). now < he_deadline e)"
proof -
  let ?cb = "timeoutCallback (memoryDB rank) E ctx ts keys"
  let ?k1 = "if needsRebuild k then (rebuildHeap (memoryDB rank) tie now0 (core_store c) k)\<lparr>toc_ticksSinceRebuild := 0\<rparr>
     else k\<lparr>toc_ticksSinceRebuild := toc_ticksSinceRebuild k + 1\<rparr>"
  let ?get = "\<lambda>x tid. case Store_Get (memoryDB rank) (core_store x) tid of Inl _ \<Rightarrow> None | Inr t \<Rightarrow> Some t"
  have "is_heap he_deadline (toc_heap ?k1)"
    using assms(1) heap_Init_correct [of he_deadline]
    by (auto simp: coreInv_def rebuildHeap_def split: sum.split)
  moreover have "callback_ok now ?cb" by (rule timeoutCallback_ok) (rule assms(2))
  ultimately obtain k' c' where p: "popExpired ?get (Some ?cb) now (?k1, c) = Some (k', c')" and d: "hq.due now (toc_heap k') = {#}"
    using popExpired_returns [of ?k1 "Some ?cb" now ?get c] by auto
  then have r: "checkTimeoutsAndGetNextWake (memoryDB rank) tie core_store (Some ?cb) now0 now k c
      = Some (nextWake k' now, k', c')"
    by (simp add: checkTimeoutsAndGetNextWake_def)
  have "\<forall>e \<in> set (toc_heap k'). now < he_deadline e" using d by (auto simp: hq.due_def not_le)
  with r coreInv_check [OF assms(1) r] show ?thesis by blast
qed

text \<open>
  Claim C27. The wait before retry number \<open>rc\<close> doubles from one second and is capped at the configured
  maximum (60 seconds when none is set), as long as \<open>rc\<close> is below 63; from 63 on, the 64-bit shift
  overflows and the wait is zero, so such retries follow one another without delay.
\<close>

theorem backoff_doubles:
  assumes "0 \<le> rc" "maxSeconds \<le> 9000000000"
  shows "backoff maxSeconds rc =
    (if rc < 63 then min (2 ^ nat rc) (if maxSeconds \<le> 0 then 60 else maxSeconds) * second else 0)"
  using backoff_small [OF assms(1) _ assms(2)] backoff_overflow by simp

theorem backoff_doubles_witness: "backoff 60 5 = 32 * second \<and> backoff 60 9 = 60 * second \<and> backoff 60 63 = 0"
  using backoff_doubles [of 5 60] backoff_doubles [of 9 60] backoff_doubles [of 63 60] by simp

end
