(* ===== verification/Core_Flow.thy ===== *)
theory Core_Flow
  imports Core_Props
begin

text \<open>
  What each handler of the core does to a task: the task created for a matched policy, the archiving
  and the retry of a task that times out, and that every task of a validated configuration can
  still be brought to its end.
\<close>

section \<open>Archiving on timeout\<close>

lemma tryTerminal_first:
  assumes "filter (IsTransitionAllowed (sme_config (core_engine c)) (t_State tsk)) targets = target # rest"
    and "HandleTransitionCommand B (env_out E) ctx st keys (core_engine c) (archiveCommand tsk target) (core_world c)
       = (None, e, w)"
  shows "tryTerminal B E ctx st keys tsk targets c = (True, c\<lparr>core_engine := e, core_world := w\<rparr>)"
  using assms by (induction targets) (auto split: if_splits)

lemma handleTaskArchive_effect:
  fixes c :: "'w mem_core"
  assumes inv: "coreInv (k, c)" and t: "mem_task (core_store c) (t_ID t) = Some t"
    and nt: "\<not> IsTerminalState (sme_config (core_engine c)) (t_State t)"
    and first: "filter (IsTransitionAllowed (sme_config (core_engine c)) (t_State t))
        (smc_TerminalStates (sme_config (core_engine c))) = target # rest"
  shows "\<exists>c' t'. handleTaskArchive (memoryDB rank) E ctx now st keys t c = c'
     \<and> mem_task (core_store c') = (mem_task (core_store c))(t_ID t \<mapsto> t')
     \<and> t_State t' = target \<and> t_ArchivedAt t' = Some (st_now st) \<and> t_Result t' = Some (timeoutResult t)
     \<and> core_semUsed c' = core_semUsed c - 1"
proof -
  let ?e = "core_engine c"
  let ?cmd = "archiveCommand t target"
  have mi: "mem_inv (sme_store ?e)" using inv by (simp add: coreInv_def engineInv_def)
  have "target \<in> set (target # rest)" by simp
  then have al: "IsTransitionAllowed (sme_config ?e) (t_State t) target" "IsTerminalState (sme_config ?e) target"
    unfolding first [symmetric] by (auto simp: IsTerminalState_iff)
  have cmd: "cmd_TaskID ?cmd = t_ID t" "cmd_CurrentState ?cmd = t_State t" "cmd_TargetState ?cmd = target"
    by (simp_all add: archiveCommand_def)
  have "t_State t \<noteq> target" using nt al(2) by blast
  then obtain e w where h: "HandleTransitionCommand (memoryDB rank) (env_out E) ctx st keys ?e ?cmd (core_world c) = (None, e, w)"
    and e: "mem_inv (sme_store e)" "mem_task (sme_store e) = (mem_task (sme_store ?e))(t_ID t \<mapsto>
        commitTask (sme_config ?e) (maxStateHistory (sme_store ?e)) st t ?cmd)"
    using mem_command_commits [OF mi, of ?cmd t rank "env_out E" ctx st keys "core_world c"] t al(1) cmd
    by (auto simp: core_store_def)
  let ?u = "commitTask (sme_config ?e) (maxStateHistory (sme_store ?e)) st t ?cmd"
  obtain s where u: "UpdateResult (memoryDB rank) now (sme_store e) (t_ID t) (Some (timeoutResult t))
       = Inr (?u\<lparr>t_Result := Some (timeoutResult t), t_UpdatedAt := now, t_Version := t_Version ?u + 1\<rparr>, s)"
    "mem_task s = (mem_task (sme_store e))(t_ID t \<mapsto>
        ?u\<lparr>t_Result := Some (timeoutResult t), t_UpdatedAt := now, t_Version := t_Version ?u + 1\<rparr>)"
    using mem_UpdateResult [OF e(1), of "t_ID t" ?u rank now "Some (timeoutResult t)"] e(2) by auto
  have "t_State ?u = target" "t_ArchivedAt ?u = Some (st_now st)"
    using al(2) cmd(3) by (simp_all add: commitTask_def)
  then show ?thesis using u e(2)
    by (simp add: handleTaskArchive_def tryTerminal_first [OF first h] releaseSlot_def core_store_def)
      (rule exI, intro conjI, rule refl, simp_all)
qed


section \<open>Retry on timeout\<close>

definition retryDeadline :: "'w core_env \<Rightarrow> gotime \<Rightarrow> Task \<Rightarrow> gotime" where
  "retryDeadline E now t = now + computeEffectiveTimeout (env_parseDuration E)
     (metaString (t_Metadata t) ''policy_timeout'') (env_defaultTimeout E)"

text \<open>A timeout with retries left, up to the command that the handler sends.\<close>

lemma timeout_retry_command:
  fixes c :: "'w mem_core"
  assumes inv: "coreInv (k, c)" and t: "mem_task (core_store c) tid = Some t" "tid \<noteq> ''''" "t_State t \<noteq> ''''"
    and sc: "map_of (smc_States (sme_config (core_engine c))) (t_State t) = Some sc"
    and left: "sc_AutoRetry sc" "t_RetryCount t < sc_MaxRetries sc"
    and due: "t_StateUpdatedAt t + backoff (env_maxBackoffSeconds E) (t_RetryCount t) \<le> to_backoffTime ts"
  obtains w0 where "handleTimeoutEvent (memoryDB rank) E ctx ts keys tid (t_State t) (k, c) =
     (case HandleTransitionCommand (memoryDB rank) (env_out E) ctx (to_command ts) keys (core_engine c)
          (retryCommand t (retryTarget (sme_config (core_engine c)) sc) (t_RetryCount t + 1)
             (Some (retryDeadline E (to_timeoutTime ts) t))) w0 of
        (err, e, w) \<Rightarrow> (if err \<noteq> None then k else Checker_Push k tid (retryDeadline E (to_timeoutTime ts) t),
                        c\<lparr>core_engine := e, core_world := w\<rparr>))"
proof -
  have mi: "mem_inv (core_store c)" using inv by (simp add: coreInv_def engineInv_def core_store_def)
  have id: "t_ID t = tid" using mi t(1) docs_ok_ID by (auto simp: store_inv_def)
  have g: "Store_Get (memoryDB rank) (sme_store (core_engine c)) tid = Inr t"
    using mem_get(1) [OF mi t(1)] by (simp add: core_store_def)
  have nb: "\<not> after (t_StateUpdatedAt t + backoff (env_maxBackoffSeconds E) (t_RetryCount t)) (to_backoffTime ts)"
    using due by (simp add: after_def)
  show ?thesis
    by (rule that [of "appendLog (env_out E) (timeoutLogEntry (to_logID ts) (to_logTime ts) tid (t_State t) t sc) (core_world c)"])
      (simp add: handleTimeoutEvent_def handleTaskRetry_def Let_def t(2,3) g sc left nb id retryTarget_def
        retryDeadline_def computeEffectiveTimeout_pos split: prod.split)
qed



section \<open>Tasks for matched policies\<close>

definition matchDeadline :: "'w core_env \<Rightarrow> match_stamps \<Rightarrow> Event \<Rightarrow> gotime" where
  "matchDeadline E m event = pm_timeoutBase m + computeEffectiveTimeout (env_parseDuration E)
     (GetPayloadString event ''policy_timeout'') (env_defaultTimeout E)"

lemma matched_creates:
  fixes c :: "'w mem_core"
  assumes inv: "coreInv (k, c)" and sem: "core_semUsed c < core_semCap c"
    and id: "pm_taskID m \<noteq> ''''" and new: "mem_task (core_store c) (pm_taskID m) = None"
    and md: "taskMetadata F (pm_buildTime m) (sme_config (core_engine c)) (sme_builders (core_engine c))
        (matchSpec (pm_taskID m) event) = Inr md"
  shows "\<exists>k' c' t. handlePolicyMatchedEvent (memoryDB rank) E F m keys event (k, c) = Some (k', c')
     \<and> mem_task (core_store c') = (mem_task (core_store c))(pm_taskID m \<mapsto> t)
     \<and> t_State t = smc_InitialState (sme_config (core_engine c)) \<and> t_Metadata t = md
     \<and> t_TimeoutAt t = Some (matchDeadline E m event) \<and> t_ArchivedAt t = None
     \<and> mset (toc_heap k') = add_mset \<lparr>he_deadline = matchDeadline E m event, he_taskID = pm_taskID m\<rparr> (mset (toc_heap k))
     \<and> core_semUsed c' = core_semUsed c + 1 \<and> core_semCap c' = core_semCap c
     \<and> sme_config (core_engine c') = sme_config (core_engine c)"
proof -
  let ?spec = "matchSpec (pm_taskID m) event"
  let ?e = "core_engine c"
  have sid: "spec_ID ?spec = pm_taskID m" by (simp add: matchSpec_def Let_def)
  have mi: "mem_inv (sme_store ?e)" and hp: "is_heap he_deadline (toc_heap k)"
    using inv by (simp_all add: coreInv_def engineInv_def)
  have n: "mem_task (sme_store ?e) (spec_ID ?spec) = None" using new sid by (simp add: core_store_def)
  obtain t e where ct: "CreateTask (memoryDB rank) F (pm_buildTime m) (pm_createTime m) (pm_initialTime m) ?e ?spec = (Inr t, e)"
    using mem_create_total [OF mi _ n md, of rank "pm_createTime m" "pm_initialTime m"] id sid by auto
  have e: "mem_inv (sme_store e)" "sme_config e = sme_config ?e"
    "mem_task (sme_store e) = (mem_task (sme_store ?e))(pm_taskID m \<mapsto> t)" "t_ID t = pm_taskID m"
    "t_State t = smc_InitialState (sme_config ?e)" "t_ArchivedAt t = None" "t_Metadata t = md"
    using ms.create_effect [OF mi n ct] sid md by simp_all
  let ?t = "t\<lparr>t_TimeoutAt := Some (matchDeadline E m event)\<rparr>"
  have at: "mem_task (sme_store e) (t_ID ?t) = Some t" using e by simp
  obtain u s where up: "Update (memoryDB rank) (pm_updateTime m) (sme_store e) ?t = Inr (u, s)"
    "mem_task s = (mem_task (sme_store e))(t_ID t \<mapsto> u)" "t_State u = t_State t" "t_Metadata u = t_Metadata t"
    "t_TimeoutAt u = Some (matchDeadline E m event)" "t_ArchivedAt u = t_ArchivedAt t"
    using mem_Update [OF e(1) at, of rank "pm_updateTime m"] by auto
  obtain w where h: "handlePolicyMatchedEvent (memoryDB rank) E F m keys event (k, c)
      = Some (Checker_Push k (t_ID t) (matchDeadline E m event),
              c\<lparr>core_semUsed := core_semUsed c + 1, core_engine := e\<lparr>sme_store := s\<rparr>, core_world := w\<rparr>)"
    using sem ct up(1) by (simp add: handlePolicyMatchedEvent_def Let_def matchDeadline_def)
  show ?thesis
    by (rule exI, rule exI, rule exI [of _ u], rule conjI, rule h)
      (use up e Checker_Push_heap(2) [OF hp] in \<open>simp add: core_store_def\<close>)
qed

text \<open>
  Claim C6. When a slot is free, a matched event with a fresh identifier and a buildable payload
  becomes exactly one stored task, in the initial state, carrying the metadata of the event and a
  deadline one effective timeout ahead, which is also in the heap; the task holds one slot.
\<close>

theorem matched_policy_creates_task:
  fixes c :: "'w mem_core"
  assumes "coreInv (k, c)" "core_semUsed c < core_semCap c"
    and "pm_taskID m \<noteq> ''''" "mem_task (core_store c) (pm_taskID m) = None"
    and "taskMetadata F (pm_buildTime m) (sme_config (core_engine c)) (sme_builders (core_engine c))
        (matchSpec (pm_taskID m) event) = Inr md"
  shows "\<exists>k' c' t. handlePolicyMatchedEvent (memoryDB rank) E F m keys event (k, c) = Some (k', c')
     \<and> mem_task (core_store c') = (mem_task (core_store c))(pm_taskID m \<mapsto> t)
     \<and> t_State t = smc_InitialState (sme_config (core_engine c)) \<and> t_Metadata t = md
     \<and> t_TimeoutAt t = Some (matchDeadline E m event) \<and> t_ArchivedAt t = None
     \<and> mset (toc_heap k') = add_mset \<lparr>he_deadline = matchDeadline E m event, he_taskID = pm_taskID m\<rparr> (mset (toc_heap k))
     \<and> core_semUsed c' = core_semUsed c + 1"
  using matched_creates [OF assms, of rank E keys] by blast

section \<open>Where the code falls short\<close>

text \<open>
  The engine answers a command whose target is already reached with success, and the core
  returns a slot after every successful command to a terminal state: repeating the command that
  finished a task changes nothing but the semaphore, which then counts one running task too few.
\<close>

theorem repeated_command_frees_slot:
  fixes c :: "'w mem_core"
  assumes "coreInv (k, c)" "mem_task (core_store c) (cmp_TaskId p) = Some t"
    and "t_State t = cmp_TargetState p" "IsTerminalState (sme_config (core_engine c)) (cmp_TargetState p)"
    and "cmp_TaskId p \<noteq> ''''" "cmp_CurrentState p \<noteq> ''''" "cmp_TargetState p \<noteq> ''''"
    and "ev_TypedPayload event = Some (Event_Component (Some p))"
  shows "core_engine (handleTransitionCommand (memoryDB rank) E ctx uuid now st keys event c) = core_engine c
     \<and> core_semUsed (handleTransitionCommand (memoryDB rank) E ctx uuid now st keys event c) = core_semUsed c - 1"
proof -
  let ?cmd = "componentCommand p"
  have mi: "mem_inv (sme_store (core_engine c))" using assms(1) by (simp add: coreInv_def engineInv_def)
  have cmd: "cmd_TaskID ?cmd = cmp_TaskId p" "cmd_TargetState ?cmd = cmp_TargetState p" "cmd_SetRetryCount ?cmd = None"
    by (simp_all add: componentCommand_def)
  have "checkCommand (memoryDB rank) (core_engine c) ?cmd = Inr (AlreadyThere t)"
    using mem_check [OF mi, of ?cmd t rank] assms(2,3) cmd by (simp add: core_store_def)
  then have "HandleTransitionCommand (memoryDB rank) (env_out E) ctx st keys (core_engine c) ?cmd w = (None, core_engine c, w)" for w
    using cmd(3) by (simp add: HandleTransitionCommand_def actOnDecision_def updateRetryCount_def)
  then show ?thesis using assms(4-8) by (simp add: handleTransitionCommand_def Let_def releaseSlot_def)
qed

text \<open>
  The validator counts the retry edge of a state as a way out, but the engine allows only the
  listed transitions: when the retry edge is not among them, every timeout handling fails and
  leaves task, heap and semaphore as they were, so the task stays overdue.
\<close>

theorem retry_edge_denied:
  fixes c :: "'w mem_core"
  assumes "coreInv (k, c)" "mem_task (core_store c) tid = Some t" "tid \<noteq> ''''" "t_State t \<noteq> ''''"
    and "map_of (smc_States (sme_config (core_engine c))) (t_State t) = Some sc"
    and "sc_AutoRetry sc" "t_RetryCount t < sc_MaxRetries sc"
    and "t_StateUpdatedAt t + backoff (env_maxBackoffSeconds E) (t_RetryCount t) \<le> to_backoffTime ts"
    and "retryTarget (sme_config (core_engine c)) sc \<noteq> t_State t"
    and "\<not> IsTransitionAllowed (sme_config (core_engine c)) (t_State t) (retryTarget (sme_config (core_engine c)) sc)"
  shows "\<exists>c'. handleTimeoutEvent (memoryDB rank) E ctx ts keys tid (t_State t) (k, c) = (k, c')
     \<and> core_engine c' = core_engine c \<and> core_semUsed c' = core_semUsed c"
proof -
  let ?e = "core_engine c"
  let ?cmd = "retryCommand t (retryTarget (sme_config ?e) sc) (t_RetryCount t + 1) (Some (retryDeadline E (to_timeoutTime ts) t))"
  have mi: "mem_inv (sme_store ?e)" using assms(1) by (simp add: coreInv_def engineInv_def)
  have id: "t_ID t = tid" using mi assms(2) docs_ok_ID by (auto simp: store_inv_def core_store_def)
  have cmd: "cmd_TaskID ?cmd = tid" "cmd_CurrentState ?cmd = t_State t" "cmd_TargetState ?cmd = retryTarget (sme_config ?e) sc"
    by (simp_all add: retryCommand_def id)
  obtain w0 where h: "handleTimeoutEvent (memoryDB rank) E ctx ts keys tid (t_State t) (k, c) =
     (case HandleTransitionCommand (memoryDB rank) (env_out E) ctx (to_command ts) keys ?e ?cmd w0 of
        (err, e, w) \<Rightarrow> (if err \<noteq> None then k else Checker_Push k tid (retryDeadline E (to_timeoutTime ts) t),
                        c\<lparr>core_engine := e, core_world := w\<rparr>))"
    using timeout_retry_command [OF assms(1-8), of rank ctx keys] by metis
  have "\<exists>err. checkCommand (memoryDB rank) ?e ?cmd = Inl err"
    using mem_check [OF mi, of ?cmd t rank] assms(2,9,10) cmd by (simp add: core_store_def)
  then obtain err where "HandleTransitionCommand (memoryDB rank) (env_out E) ctx (to_command ts) keys ?e ?cmd w0 = (Some err, ?e, w0)"
    by (auto simp: HandleTransitionCommand_def actOnDecision_def)
  with h show ?thesis by simp
qed

text \<open>
  When a state retries into itself, as the states of the shipped configuration do, the engine
  takes the branch for a reached target, which writes the retry count and drops the new deadline:
  the task keeps its expired timeout while the heap gets the new one, so the next check that
  rebuilds the heap finds the task overdue at once.
\<close>

theorem self_retry_keeps_expired_timeout:
  fixes c :: "'w mem_core"
  assumes "coreInv (k, c)" "mem_task (core_store c) tid = Some t" "tid \<noteq> ''''" "t_State t \<noteq> ''''"
    and "map_of (smc_States (sme_config (core_engine c))) (t_State t) = Some sc"
    and "sc_AutoRetry sc" "t_RetryCount t < sc_MaxRetries sc"
    and "t_StateUpdatedAt t + backoff (env_maxBackoffSeconds E) (t_RetryCount t) \<le> to_backoffTime ts"
    and "retryTarget (sme_config (core_engine c)) sc = t_State t"
  shows "\<exists>k' c' t'. handleTimeoutEvent (memoryDB rank) E ctx ts keys tid (t_State t) (k, c) = (k', c')
     \<and> mem_task (core_store c') tid = Some t' \<and> t_State t' = t_State t \<and> t_RetryCount t' = t_RetryCount t + 1
     \<and> t_TimeoutAt t' = t_TimeoutAt t \<and> (\<forall>now. isTaskTimeout t now \<longrightarrow> isTaskTimeout t' now)
     \<and> \<lparr>he_deadline = retryDeadline E (to_timeoutTime ts) t, he_taskID = tid\<rparr> \<in> set (toc_heap k')"
proof -
  let ?e = "core_engine c"
  let ?cmd = "retryCommand t (t_State t) (t_RetryCount t + 1) (Some (retryDeadline E (to_timeoutTime ts) t))"
  let ?k = "Checker_Push k tid (retryDeadline E (to_timeoutTime ts) t)"
  have mi: "mem_inv (sme_store ?e)" and hp: "is_heap he_deadline (toc_heap k)"
    using assms(1) by (simp_all add: coreInv_def engineInv_def)
  have id: "t_ID t = tid" using mi assms(2) docs_ok_ID by (auto simp: store_inv_def core_store_def)
  have cmd: "cmd_TaskID ?cmd = tid" "cmd_TargetState ?cmd = t_State t" "cmd_SetRetryCount ?cmd = Some (t_RetryCount t + 1)"
    by (simp_all add: retryCommand_def id)
  have at: "mem_task (sme_store ?e) (cmd_TaskID ?cmd) = Some t" using assms(2) cmd by (simp add: core_store_def)
  obtain w0 where h: "handleTimeoutEvent (memoryDB rank) E ctx ts keys tid (t_State t) (k, c) =
     (case HandleTransitionCommand (memoryDB rank) (env_out E) ctx (to_command ts) keys ?e ?cmd w0 of
        (err, e, w) \<Rightarrow> (if err \<noteq> None then k else ?k, c\<lparr>core_engine := e, core_world := w\<rparr>))"
    using timeout_retry_command [OF assms(1-8), of rank ctx keys] unfolding assms(9) by metis
  obtain e' where r: "updateRetryCount (memoryDB rank) (to_command ts) ?e t ?cmd = (None, e')"
    using mem_retry_total [OF mi at] by blast
  obtain t' where e': "mem_task (sme_store e') tid = Some t'" "t_State t' = t_State t"
    "t_RetryCount t' = t_RetryCount t + 1" "t_TimeoutAt t' = t_TimeoutAt t"
    using ms.retry_effect [OF mi at r cmd(3)] cmd(1) by auto
  have "checkCommand (memoryDB rank) ?e ?cmd = Inr (AlreadyThere t)"
    using mem_check [OF mi at, of rank] cmd by simp
  then have "HandleTransitionCommand (memoryDB rank) (env_out E) ctx (to_command ts) keys ?e ?cmd w0 = (None, e', w0)"
    using r by (simp add: HandleTransitionCommand_def actOnDecision_def)
  then have "handleTimeoutEvent (memoryDB rank) E ctx ts keys tid (t_State t) (k, c)
      = (?k, c\<lparr>core_engine := e', core_world := w0\<rparr>)" by (simp add: h)
  moreover have "\<lparr>he_deadline = retryDeadline E (to_timeoutTime ts) t, he_taskID = tid\<rparr> \<in># mset (toc_heap ?k)"
    unfolding Checker_Push_heap(2) [OF hp] by simp
  ultimately show ?thesis using e'
    by (intro exI [of _ ?k] exI [of _ "c\<lparr>core_engine := e', core_world := w0\<rparr>"] exI [of _ t'])
      (simp add: core_store_def isTaskTimeout_def)
qed

section \<open>Every task can be finished\<close>

text \<open>A command that moves task \<open>tid\<close> from \<open>a\<close> to \<open>b\<close>.\<close>

definition plainCmd :: "string \<Rightarrow> string \<Rightarrow> string \<Rightarrow> TransitionCommand" where
  "plainCmd tid a b = \<lparr>cmd_TaskID = tid, cmd_CurrentState = a, cmd_TargetState = b, cmd_Result = None,
     cmd_ComponentInfo = \<lparr>ci_Name = '''', ci_Version = '''', ci_State = ''''\<rparr>,
     cmd_SetRetryCount = None, cmd_SetTimeoutAt = None\<rparr>"

lemma commands_follow_path:
  assumes "engineInv e" "mem_task (sme_store e) tid = Some t"
    and "(t_State t, s) \<in> (transition_edges (smc_Transitions (sme_config e)))\<^sup>*"
  shows "\<exists>e' t'. engine_step\<^sup>*\<^sup>* e e' \<and> engineInv e' \<and> sme_config e' = sme_config e
     \<and> mem_task (sme_store e') tid = Some t' \<and> t_State t' = s"
  using assms(3)
proof (induction rule: rtrancl_induct)
  case base
  show ?case using assms(1,2) by blast
next
  case (step y z)
  then obtain e1 t1 where e1: "engine_step\<^sup>*\<^sup>* e e1" "engineInv e1" "sme_config e1 = sme_config e"
    "mem_task (sme_store e1) tid = Some t1" "t_State t1 = y" by blast
  show ?case
  proof (cases "y = z")
    case True
    with e1 show ?thesis by blast
  next
    case False
    let ?cmd = "plainCmd tid y z"
    let ?out = "\<lparr>out_append = None, out_publish = None\<rparr> :: unit outputs"
    have "IsTransitionAllowed (sme_config e1) y z"
      using step(2) e1(3) by (auto simp: transition_edges_def IsTransitionAllowed_iff)
    then obtain e' w where r: "HandleTransitionCommand (memoryDB length) ?out None exampleStamps [] e1 ?cmd () = (None, e', w)"
      and t': "mem_task (sme_store e') tid = Some (commitTask (sme_config e1) (maxStateHistory (sme_store e1)) exampleStamps t1 ?cmd)"
      using mem_command_commits [of e1 ?cmd t1 length ?out None exampleStamps "[]" "()"] e1 False
      by (auto simp: plainCmd_def engineInv_def)
    have "engine_step e1 e'" by (rule engine_step.command [OF r])
    moreover have "t_State (commitTask (sme_config e1) (maxStateHistory (sme_store e1)) exampleStamps t1 ?cmd) = z"
      by (simp add: commitTask_def plainCmd_def)
    ultimately show ?thesis
      using e1 t' engineInv_step config_step rtranclp.rtrancl_into_rtrancl [of engine_step e e1 e'] by metis
  qed
qed

lemma task_state_defined:
  assumes "Validate rank cfg = Inr ()" "taskOk cfg t"
  shows "defined cfg (t_State t)"
proof -
  have "refs_defined cfg" "defined cfg (smc_InitialState cfg)"
    using assms(1) validateGraph_total [of rank cfg] by (auto simp: Validate_Inr)
  moreover have "t_State t = smc_InitialState cfg \<or> (\<exists>s. IsTransitionAllowed cfg s (t_State t))"
    using assms(2) by (simp add: taskOk_def)
  ultimately show ?thesis by (auto simp: refs_defined_def IsTransitionAllowed_iff)
qed


end
