(* ===== verification/Core_Examples.thy ===== *)
theory Core_Examples
  imports Core_Flow
begin

text \<open>
  Concrete cores that meet the hypotheses of the properties of \<^verbatim>\<open>Core_Props\<close> and \<^verbatim>\<open>Core_Flow\<close>: a core
  with one task in the initial state of a small configuration, and one with a finished task.
\<close>

definition startedEngine :: "StateMachineConfig \<Rightarrow> mem_engine" where
  "startedEngine cfg = snd (CreateTask (memoryDB length) exampleFmt 1 2 3 (newEngine length cfg 10 Map.empty) exampleSpec)"

definition startedTask :: "StateMachineConfig \<Rightarrow> Task" where
  "startedTask cfg = the (mem_task (sme_store (startedEngine cfg)) ''x'')"

definition coreWith :: "mem_engine \<Rightarrow> Event list mem_core" where
  "coreWith e = \<lparr>core_engine = e, core_semUsed = 1, core_semCap = 2, core_world = []\<rparr>"

definition exampleEnv :: "Event list core_env" where
  "exampleEnv = \<lparr>env_out = busOnly, env_parseDuration = (\<lambda>s. if s = ''1m'' then Some (60 * second) else None),
     env_maxBackoffSeconds = 60, env_defaultTimeout = ''1m''\<rparr>"

definition timeoutStamps :: "gotime \<Rightarrow> timeout_stamps" where
  "timeoutStamps now = \<lparr>to_logID = ''l'', to_logTime = now, to_backoffTime = now, to_timeoutTime = now,
     to_resultTime = now, to_command = exampleStamps\<rparr>"

definition retryConfig :: "string \<Rightarrow> (string \<times> string) list \<Rightarrow> StateMachineConfig" where
  "retryConfig target ts = (exampleConfig [''a'', ''b'', ''t''] ts)
     \<lparr>smc_States := [(''a'', \<lparr>sc_Description = '''', sc_AutoRetry = True, sc_MaxRetries = 3, sc_RetryToState = target\<rparr>),
        (''b'', exampleState), (''t'', exampleState)]\<rparr>"

lemma newEngine_empty: "mem_task (sme_store (newEngine length cfg 10 Map.empty)) tid = None"
proof -
  have "data (ets_db (sme_store (newEngine length cfg 10 Map.empty))) = []"
    by (simp add: newEngine_def NewTaskStore_def rebuildStateIndex_def memoryDB_simps NewMemoryDB_def)
  then show ?thesis by (simp add: task_at_def mem_view_def)
qed

lemma started_facts:
  "engineInv (startedEngine cfg)" "sme_config (startedEngine cfg) = cfg"
  "mem_task (sme_store (startedEngine cfg)) ''x'' = Some (startedTask cfg)"
  "t_State (startedTask cfg) = smc_InitialState cfg" "t_RetryCount (startedTask cfg) = 0"
proof -
  let ?e = "newEngine length cfg 10 Map.empty"
  have i: "spec_ID exampleSpec = ''x''" by (simp add: exampleSpec_def)
  have cfg: "sme_config ?e = cfg" by (simp add: newEngine_def)
  have inv: "mem_inv (sme_store ?e)" using newEngine_inv by (simp add: engineInv_def)
  have new: "mem_task (sme_store ?e) (spec_ID exampleSpec) = None" by (rule newEngine_empty)
  have "spec_ID exampleSpec \<noteq> ''''" using i by simp
  then obtain t e' where c: "CreateTask (memoryDB length) exampleFmt 1 2 3 ?e exampleSpec = (Inr t, e')"
    using mem_create_total [OF inv _ new exampleSpec_metadata, of length 2 3] by auto
  have e': "startedEngine cfg = e'" by (simp add: startedEngine_def c)
  show "engineInv (startedEngine cfg)" unfolding e' by (rule engineInv_create [OF newEngine_inv new c])
  show "sme_config (startedEngine cfg) = cfg"
    "mem_task (sme_store (startedEngine cfg)) ''x'' = Some (startedTask cfg)"
    "t_State (startedTask cfg) = smc_InitialState cfg" "t_RetryCount (startedTask cfg) = 0"
    using ms.create_effect [OF inv new c] i cfg by (auto simp: startedTask_def e')
qed

lemma coreWith_simps [simp]:
  "core_engine (coreWith e) = e" "core_store (coreWith e) = sme_store e" "core_semUsed (coreWith e) = 1"
  "core_semCap (coreWith e) = 2"
  by (simp_all add: coreWith_def core_store_def)

lemma coreWith_inv:
  assumes "engineInv e" shows "coreInv (NewTimeoutChecker 0 0, coreWith e)"
  using assms by (simp add: coreInv_def NewTimeoutChecker_def is_heap_def heap_from_def)

lemmas started_inv = coreWith_inv [OF started_facts(1)]

definition straight :: StateMachineConfig where
  "straight = exampleConfig [''a'', ''t''] [(''a'', ''t'')]"


lemma retryConfig_facts:
  "smc_InitialState (retryConfig r ts) = ''a''"
  "map_of (smc_States (retryConfig r ts)) ''a'' =
     Some \<lparr>sc_Description = '''', sc_AutoRetry = True, sc_MaxRetries = 3, sc_RetryToState = r\<rparr>"
  "retryTarget (retryConfig r ts) \<lparr>sc_Description = '''', sc_AutoRetry = True, sc_MaxRetries = 3, sc_RetryToState = r\<rparr>
     = (if r = '''' then ''a'' else r)"
  by (simp_all add: retryConfig_def exampleConfig_def retryTarget_def)

abbreviation "retryA r \<equiv> \<lparr>sc_Description = '''', sc_AutoRetry = True, sc_MaxRetries = 3, sc_RetryToState = r\<rparr>"

definition lateStamps :: "Task \<Rightarrow> timeout_stamps" where
  "lateStamps t = timeoutStamps (t_StateUpdatedAt t + backoff 60 0)"

lemma lateStamps_due:
  "t_StateUpdatedAt t + backoff (env_maxBackoffSeconds exampleEnv) 0 \<le> to_backoffTime (lateStamps t)"
  by (simp add: lateStamps_def timeoutStamps_def exampleEnv_def)


theorem retry_edge_denied_witness:
  "let cfg = retryConfig ''b'' [(''a'', ''t''), (''b'', ''t'')] in
   Validate length cfg = Inr () \<and>
   (\<exists>c'. handleTimeoutEvent (memoryDB length) exampleEnv None (lateStamps (startedTask cfg)) [] ''x'' ''a''
        (NewTimeoutChecker 0 0, coreWith (startedEngine cfg)) = (NewTimeoutChecker 0 0, c')
     \<and> core_engine c' = startedEngine cfg)"
proof -
  let ?cfg = "retryConfig ''b'' [(''a'', ''t''), (''b'', ''t'')]"
  have a: "\<not> IsTransitionAllowed ?cfg ''a'' ''b''" by (simp add: retryConfig_def exampleConfig_def IsTransitionAllowed_def)
  have "Validate length ?cfg = Inr ()" by code_simp
  then show ?thesis unfolding Let_def
    using retry_edge_denied [OF started_inv [of ?cfg], of "''x''" "startedTask ?cfg" "retryA ''b''" exampleEnv
        "lateStamps (startedTask ?cfg)" length None "[]"] started_facts [of ?cfg] a lateStamps_due [of "startedTask ?cfg"]
    by (auto simp: retryConfig_facts)
qed

theorem self_retry_keeps_expired_timeout_witness:
  "let cfg = retryConfig ''a'' [(''a'', ''b''), (''b'', ''t'')] in
   Validate length cfg = Inr () \<and>
   (\<exists>k' c' t'. handleTimeoutEvent (memoryDB length) exampleEnv None (lateStamps (startedTask cfg)) [] ''x'' ''a''
        (NewTimeoutChecker 0 0, coreWith (startedEngine cfg)) = (k', c')
     \<and> mem_task (core_store c') ''x'' = Some t' \<and> t_RetryCount t' = 1 \<and> t_TimeoutAt t' = t_TimeoutAt (startedTask cfg)
     \<and> toc_heap k' \<noteq> [])"
proof -
  let ?cfg = "retryConfig ''a'' [(''a'', ''b''), (''b'', ''t'')]"
  have "Validate length ?cfg = Inr ()" by code_simp
  then show ?thesis unfolding Let_def
    using self_retry_keeps_expired_timeout [OF started_inv [of ?cfg], of "''x''" "startedTask ?cfg" "retryA ''a''" exampleEnv
        "lateStamps (startedTask ?cfg)" length None "[]"] started_facts [of ?cfg] lateStamps_due [of "startedTask ?cfg"]
    by (auto simp: retryConfig_facts)
qed


theorem core_check_ends_witness:
  "\<exists>wake k' c'. checkTimeoutsAndGetNextWake (memoryDB length) (\<lambda>_. 0) core_store
       (Some (timeoutCallback (memoryDB length) exampleEnv None (\<lambda>_ _. timeoutStamps 9) [])) 8 9
       (NewTimeoutChecker 0 0) (coreWith (startedEngine straight)) = Some (wake, k', c')"
  using core_check_ends [OF started_inv [of straight], of 9 "\<lambda>_ _. timeoutStamps 9" length "\<lambda>_. 0" exampleEnv None "[]" 8]
  by (auto simp: timeoutStamps_def)

definition matchedEvent :: Event where
  "matchedEvent = (NewEvent ''e'' 1 ''PolicyMatched'' ''policy.matched'' ''policy-engine'')
     \<lparr>ev_Payload := Some [(''policy_id'', VString ''p1''), (''policy_timeout'', VString ''1m'')]\<rparr>"

definition matchStamps :: match_stamps where
  "matchStamps = \<lparr>pm_taskID = ''y'', pm_buildTime = 1, pm_createTime = 2, pm_initialTime = 3, pm_log1 = (''l1'', 4),
     pm_timeoutBase = 5, pm_updateTime = 6, pm_event = (''e2'', 7), pm_log2 = (''l2'', 8)\<rparr>"

lemma straight_metadata:
  "\<exists>md. taskMetadata exampleFmt n straight Map.empty (matchSpec tid matchedEvent) = Inr md"
  by (simp add: taskMetadata_def straight_def exampleConfig_def matchSpec_def Let_def PBFactory_Get_def
      DefaultPayloadBuilder_def Default_Build_def)

lemma matchedEvent_deadline: "matchDeadline exampleEnv matchStamps matchedEvent = 5 + 60 * second"
  by (simp add: matchDeadline_def matchStamps_def exampleEnv_def computeEffectiveTimeout_def)

abbreviation emptyCore :: "TimeoutChecker \<times> Event list mem_core" where
  "emptyCore \<equiv> newCore (newEngine length straight 10 Map.empty) 0 0 1 []"

lemma emptyCore_inv: "coreInv emptyCore"
  by (rule core_reachable_inv [OF rtranclp.rtrancl_refl newEngine_inv])

theorem matched_policy_creates_task_witness:
  "\<exists>k' c' t. handlePolicyMatchedEvent (memoryDB length) exampleEnv exampleFmt matchStamps [] matchedEvent emptyCore = Some (k', c')
     \<and> mem_task (core_store c') ''y'' = Some t \<and> t_State t = ''a'' \<and> t_TimeoutAt t = Some (5 + 60 * second)
     \<and> core_semUsed c' = 1"
proof -
  let ?e = "newEngine length straight 10 Map.empty :: mem_engine"
  obtain md where md: "taskMetadata exampleFmt 1 straight Map.empty (matchSpec ''y'' matchedEvent) = Inr md"
    using straight_metadata by blast
  have s: "pm_taskID matchStamps = ''y''" "pm_buildTime matchStamps = 1" "smc_InitialState straight = ''a''"
    "sme_config ?e = straight" "sme_builders ?e = Map.empty"
    by (simp_all add: matchStamps_def straight_def exampleConfig_def newEngine_def)
  show ?thesis
    using matched_policy_creates_task [of "fst emptyCore" "snd emptyCore" matchStamps exampleFmt matchedEvent md length exampleEnv "[]"]
      emptyCore_inv s md newEngine_empty [of straight]
    by (auto simp: newCore_def core_store_def matchedEvent_deadline)
qed


lemma finished_inv: "engineInv finishedEngine" "sme_config finishedEngine = diamond"
proof -
  have x: "engineInv exampleEngine" "sme_config exampleEngine = diamond"
  proof -
    have "exampleEngine = startedEngine diamond" by (simp add: exampleEngine_def startedEngine_def emptyEngine_def)
    then show "engineInv exampleEngine" "sme_config exampleEngine = diamond" using started_facts [of diamond] by simp_all
  qed
  have step: "engineInv (fst (snd (HandleTransitionCommand (memoryDB length) busOnly None exampleStamps [] e cmd [])))"
    if i: "engineInv e" for e cmd
  proof -
    obtain r e' w' where "HandleTransitionCommand (memoryDB length) busOnly None exampleStamps [] e cmd [] = (r, e', w')"
      by (rule prod_cases3)
    with engineInv_command [OF i this] show ?thesis by simp
  qed
  show "engineInv finishedEngine" unfolding finishedEngine_def timedEngine_def by (intro step x(1))
  show "sme_config finishedEngine = diamond"
  proof -
    obtain r e' w' where h: "HandleTransitionCommand (memoryDB length) busOnly None exampleStamps [] timedEngine
        ((moveCmd ''t'')\<lparr>cmd_CurrentState := ''b''\<rparr>) [] = (r, e', w')" by (rule prod_cases3)
    from config_kept(2) [OF h] timedEngine_facts(3) show ?thesis by (simp add: finishedEngine_def h)
  qed
qed

definition donePayload :: ComponentEventPayload where
  "donePayload = \<lparr>cmp_TaskId = ''x'', cmp_CurrentState = ''b'', cmp_TargetState = ''t'', cmp_ComponentName = ''comp'',
     cmp_Success = True, cmp_Message = ''''\<rparr>"

definition doneEvent :: Event where
  "doneEvent = (NewEvent ''e'' 1 ''cmd'' ''state.transition.command'' ''comp'')
     \<lparr>ev_TypedPayload := Some (Event_Component (Some donePayload))\<rparr>"

theorem repeated_command_frees_slot_witness:
  "core_semUsed (handleTransitionCommand (memoryDB length) exampleEnv None ''u'' 1 exampleStamps [] doneEvent
     (coreWith finishedEngine)) = 0"
proof -
  obtain t where t: "mem_task (sme_store finishedEngine) ''x'' = Some t" "t_ArchivedAt t = Some 6"
    using finishedEngine_facts(2) by blast
  then have "IsTerminalState diamond (t_State t)" using finished_inv by (auto simp: engineInv_def taskOk_def)
  then have "t_State t = ''t''" "IsTerminalState diamond ''t''"
    by (simp_all add: diamond_def exampleConfig_def IsTerminalState_iff)
  then show ?thesis
    using repeated_command_frees_slot [OF coreWith_inv [OF finished_inv(1)], of donePayload t doneEvent length exampleEnv
        None "''u''" 1 exampleStamps "[]"] t finished_inv(2)
    by (simp add: doneEvent_def donePayload_def)
qed

end
