(* ===== verification/Component_Flow.thy ===== *)
theory Component_Flow
  imports Component_Base Bus_Factory Core_Examples
begin

text \<open>
  Properties of the component framework and of the way of a task event through a component back to the core: the contract of the
  handlers of the example components as a locale, the failover component's retries, the life cycle, and the composition with
  the serializer, the bus and the engine behind the core.
\<close>

section \<open>The contract of a handler\<close>

text \<open>
  A handler answers an event of a task with one transition command to the component's next state, which carries a verdict, and an event
  without task with an error.
\<close>

locale component_handler =
  fixes handle :: "string \<Rightarrow> gotime \<Rightarrow> 'w publish \<Rightarrow> Event \<Rightarrow> 'w \<Rightarrow> string option \<times> 'w"
    and info :: ComponentDescr and verdict :: "Event \<Rightarrow> bool \<times> string"
  assumes no_task: "GetPayloadString e ''task_id'' = '''' \<Longrightarrow> handle uuid now pub e w = (Some ''task_id not found in event'', w)"
    and command: "GetPayloadString e ''task_id'' \<noteq> '''' \<Longrightarrow> handle uuid now pub e w =
      PublishStateTransition pub uuid now (cd_Name info) (orBackground (ev_Ctx e)) (GetPayloadString e ''task_id'')
        (cd_HandlesState info) (cd_NextState info) (fst (verdict e)) (snd (verdict e)) w"
begin

lemma handle_reliable:
  assumes "\<forall>e w. pub ''state.transition.command'' e w = (None, f e w)"
  shows "handle uuid now pub e w =
    (if GetPayloadString e ''task_id'' = '''' then (Some ''task_id not found in event'', w)
     else (None, f (transitionEvent uuid now (cd_Name info) (orBackground (ev_Ctx e)) (GetPayloadString e ''task_id'')
        (cd_HandlesState info) (cd_NextState info) (fst (verdict e)) (snd (verdict e))) w))"
  using assms by (simp add: no_task command PublishStateTransition_def)

text \<open>A sequence of events, each with the identifier and time of its answer.\<close>

lemma handle_all:
  assumes "\<forall>e w. pub ''state.transition.command'' e w = (None, f e w)"
  shows "fold (\<lambda>(uuid, now, e) w. snd (handle uuid now pub e w)) es w =
    fold f (map (\<lambda>(uuid, now, e). transitionEvent uuid now (cd_Name info) (orBackground (ev_Ctx e)) (GetPayloadString e ''task_id'')
        (cd_HandlesState info) (cd_NextState info) (fst (verdict e)) (snd (verdict e)))
      (filter (\<lambda>(uuid, now, e). GetPayloadString e ''task_id'' \<noteq> '''') es)) w"
  by (induction es arbitrary: w) (auto simp: handle_reliable [where f = f and pub = pub, OF assms])

end

definition validationOf :: "(string \<Rightarrow> gomap option) \<Rightarrow> ValidationRule list \<Rightarrow> Event \<Rightarrow> bool \<times> string" where
  "validationOf unmarshal rules e = validate rules (GetPayloadMap unmarshal e ''parameters'')"

interpretation pending: component_handler pending_handleEvent pendingInfo "\<lambda>_. (True, ''auto transition to validating'')"
  by unfold_locales (simp_all add: pending_handleEvent_def withTask_def pendingInfo_def)

interpretation processing: component_handler processing_handleEvent processingInfo "\<lambda>_. (True, ''processing pass-through'')"
  by unfold_locales (simp_all add: processing_handleEvent_def withTask_def processingInfo_def)

interpretation validating: component_handler "validating_handleEvent unmarshal rules" validatingInfo "validationOf unmarshal rules"
  by unfold_locales
    (simp_all add: validating_handleEvent_def withTask_def validatingInfo_def validationOf_def Let_def split: prod.split)

text \<open>The verdict of the validation: the first critical rule that fails, if any.\<close>

lemma validate_verdict:
  "fst (validate rules params) \<longleftrightarrow> (\<forall>r \<in> set rules. vr_Critical r \<longrightarrow> fst (vr_Check r params))"
  by (induction rules) (auto split: prod.splits)

section \<open>From a component to the core\<close>

text \<open>The core reads the typed payload and the trace id of a command only, so the transport loses nothing.\<close>

lemma handle_transported:
  "handleTransitionCommand B E ctx uuid now st keys (transported e) c = handleTransitionCommand B E ctx uuid now st keys e c"
proof (cases "ev_TypedPayload e")
  case (Some tp)
  then show ?thesis
    by (cases tp) (auto simp: handleTransitionCommand_def transported_def orEmpty_def emptyComponentPayload_def Let_def split: option.splits)
qed (simp add: handleTransitionCommand_def transported_def)

lemma transitionEvent_payload:
  "ev_TypedPayload (transitionEvent uuid now name ctx taskID cur target success message)
     = Some (Event_Component (Some \<lparr>cmp_TaskId = taskID, cmp_CurrentState = cur, cmp_TargetState = target, cmp_ComponentName = name,
         cmp_Success = success, cmp_Message = message\<rparr>))"
  by (simp add: transitionEvent_def)

lemma command_moves:
  fixes c :: "'w mem_core"
  assumes "coreInv (k, c)" "mem_task (core_store c) taskID = Some t" "t_State t = cur" "cur \<noteq> target"
    and "IsTransitionAllowed (sme_config (core_engine c)) cur target" "taskID \<noteq> ''''" "cur \<noteq> ''''" "target \<noteq> ''''"
    and e: "ev_TypedPayload e = Some (Event_Component (Some p))" "cmp_TaskId p = taskID" "cmp_CurrentState p = cur" "cmp_TargetState p = target"
  shows "\<exists>t'. mem_task (core_store (handleTransitionCommand (memoryDB rank) E ctx uuid now st keys e c))
      = (mem_task (core_store c))(taskID \<mapsto> t') \<and> t_State t' = target"
proof -
  let ?cmd = "componentCommand p"
  have cmd: "cmd_TaskID ?cmd = taskID" "cmd_CurrentState ?cmd = cur" "cmd_TargetState ?cmd = target" using e by (simp_all add: componentCommand_def)
  have inv: "mem_inv (sme_store (core_engine c))" using assms(1) by (simp add: coreInv_def engineInv_def)
  obtain e' w' where h: "HandleTransitionCommand (memoryDB rank) (env_out E) ctx st keys (core_engine c) ?cmd
        (appendLog (env_out E) (commandLogEntry uuid now (ev_TraceID e) p) (core_world c)) = (None, e', w')"
    and t': "mem_task (sme_store e') = (mem_task (sme_store (core_engine c)))
        (taskID \<mapsto> commitTask (sme_config (core_engine c)) (maxStateHistory (sme_store (core_engine c))) st t ?cmd)"
    using mem_command_commits [OF inv, of ?cmd t rank "env_out E" ctx st keys
        "appendLog (env_out E) (commandLogEntry uuid now (ev_TraceID e) p) (core_world c)"] assms(2-5) cmd
    by (auto simp: core_store_def)
  have "core_engine (handleTransitionCommand (memoryDB rank) E ctx uuid now st keys e c) = e'"
    using e h assms(6-8) by (simp add: handleTransitionCommand_def releaseSlot_def Let_def)
  then show ?thesis using t' cmd by (auto simp: core_store_def commitTask_def)
qed

text \<open>
  Claim C8. A component's command takes effect: when the serialized command of a component reaches the core, the task it names, in the state it
  names, is in the target state afterwards if the configuration allows the step, whatever the verdict, and no other task
  changes.
\<close>

theorem component_command_moves_task:
  fixes c :: "'w mem_core"
  assumes "proto_ok P" "Serialize typeName P (transitionEvent uuid now name ctx taskID cur target success message) = Inr bytes"
    and "coreInv (k, c)" "mem_task (core_store c) taskID = Some t" "t_State t = cur" "cur \<noteq> target"
    and "IsTransitionAllowed (sme_config (core_engine c)) cur target" "taskID \<noteq> ''''" "cur \<noteq> ''''" "target \<noteq> ''''"
  shows "\<exists>e t'. Deserialize P bytes = Inr e
     \<and> mem_task (core_store (handleTransitionCommand (memoryDB rank) E gctx uuid' now' st keys e c)) = (mem_task (core_store c))(taskID \<mapsto> t')
     \<and> t_State t' = target"
proof -
  have "\<exists>t'. mem_task (core_store (handleTransitionCommand (memoryDB rank) E gctx uuid' now' st keys
        (transitionEvent uuid now name ctx taskID cur target success message) c)) = (mem_task (core_store c))(taskID \<mapsto> t') \<and> t_State t' = target"
    by (rule command_moves [OF assms(3-10) transitionEvent_payload]) simp_all
  then show ?thesis using serialize_roundtrip [OF assms(1,2)] by (auto simp: handle_transported)
qed

theorem component_command_moves_task_witness:
  "\<exists>e t'. Deserialize plainProto (toMessage (transitionEvent ''u'' 1 ''comp'' None ''x'' ''a'' ''b'' True '''')) = Inr e
     \<and> mem_task (core_store (handleTransitionCommand (memoryDB length) exampleEnv None ''v'' 2 exampleStamps [] e (coreWith exampleEngine))) ''x''
         = Some t' \<and> t_State t' = ''b''"
proof -
  have i: "engineInv exampleEngine"
  proof -
    have "exampleEngine = startedEngine diamond" by (simp add: exampleEngine_def startedEngine_def emptyEngine_def)
    then show ?thesis using started_facts [of diamond] by simp
  qed
  have s: "Serialize [] plainProto (transitionEvent ''u'' 1 ''comp'' None ''x'' ''a'' ''b'' True '''')
      = Inr (toMessage (transitionEvent ''u'' 1 ''comp'' None ''x'' ''a'' ''b'' True ''''))"
    by (simp add: Serialize_def transitionEvent_payload plainProto_def)
  from component_command_moves_task [OF plainProto_ok s coreWith_inv [OF i], of exampleTask length exampleEnv None "''v''" 2 exampleStamps "[]"]
  show ?thesis using exampleEngine_facts diamond_allowed by auto
qed

text \<open>The commands a handler publishes for a sequence of events, each with the identifier and time of the answer, on a bus that accepts all.\<close>

definition runHandler ::
  "(string \<Rightarrow> gotime \<Rightarrow> (string \<times> Event) list publish \<Rightarrow> Event \<Rightarrow> (string \<times> Event) list \<Rightarrow> string option \<times> (string \<times> Event) list)
     \<Rightarrow> (string \<times> gotime \<times> Event) list \<Rightarrow> (string \<times> Event) list" where
  "runHandler handle es = fold (\<lambda>(uuid, now, e) w. snd (handle uuid now (\<lambda>topic e w. (None, w @ [(topic, e)])) e w)) es []"

definition commandAnswer :: "string \<Rightarrow> string \<Rightarrow> (Event \<Rightarrow> bool \<times> string) \<Rightarrow> string \<times> gotime \<times> Event \<Rightarrow> string \<times> Event" where
  "commandAnswer state target verdict = (\<lambda>(uuid, now, e). (''state.transition.command'',
     transitionEvent uuid now state (orBackground (ev_Ctx e)) (GetPayloadString e ''task_id'') state target (fst (verdict e)) (snd (verdict e))))"

definition hasTask :: "string \<times> gotime \<times> Event \<Rightarrow> bool" where
  "hasTask = (\<lambda>(uuid, now, e). GetPayloadString e ''task_id'' \<noteq> '''')"

lemma fold_snoc: "fold (\<lambda>x w. w @ [g x]) xs w = w @ map g xs"
  by (induction xs arbitrary: w) simp_all

lemma runHandler_answers:
  assumes "component_handler handle info verdict" "cd_Name info = cd_HandlesState info"
  shows "runHandler handle es = map (commandAnswer (cd_HandlesState info) (cd_NextState info) verdict) (filter hasTask es)"
  unfolding runHandler_def
  by (subst component_handler.handle_all [OF assms(1), where f = "\<lambda>e w. w @ [(''state.transition.command'', e)]"])
    (simp_all add: fold_snoc commandAnswer_def hasTask_def assms(2) case_prod_unfold)


text \<open>
  A failed validation has no consequence: when a critical rule fails, the validating component still commands the step to processing, and the
  core, which gets the verdict, takes it: the task whose validation failed is processed. The failure state of the component is never
  commanded.
\<close>

theorem failed_validation_still_processed:
  fixes c :: "'w mem_core"
  assumes "validate rules (GetPayloadMap unmarshal e ''parameters'') = (False, reason)" "GetPayloadString e ''task_id'' = taskID" "taskID \<noteq> ''''"
    and "coreInv (k, c)" "mem_task (core_store c) taskID = Some t" "t_State t = ''validating''"
    and "IsTransitionAllowed (sme_config (core_engine c)) ''validating'' ''processing''"
  shows "\<exists>cmd t'. validating_handleEvent unmarshal rules uuid now (\<lambda>topic e w. (None, w @ [e])) e [] = (None, [cmd])
     \<and> mem_task (core_store (handleTransitionCommand (memoryDB rank) E gctx uuid' now' st keys cmd c)) taskID = Some t'
     \<and> t_State t' = ''processing''"
proof -
  let ?cmd = "transitionEvent uuid now ''validating'' (orBackground (ev_Ctx e)) taskID ''validating'' ''processing'' False reason"
  have "validating_handleEvent unmarshal rules uuid now (\<lambda>topic e w. (None, w @ [e])) e [] = (None, [?cmd])"
    using validating.handle_reliable [where f = "\<lambda>e w. w @ [e]" and pub = "\<lambda>topic e w. (None, w @ [e])"] assms(1-3)
    by (simp add: validationOf_def validatingInfo_def)
  moreover have "\<exists>t'. mem_task (core_store (handleTransitionCommand (memoryDB rank) E gctx uuid' now' st keys ?cmd c))
      = (mem_task (core_store c))(taskID \<mapsto> t') \<and> t_State t' = ''processing''"
    by (rule command_moves [OF assms(4,5,6) _ assms(7) assms(3) _ _ transitionEvent_payload]) simp_all
  ultimately show ?thesis by (metis fun_upd_same)
qed

definition flowConfig :: StateMachineConfig where
  "flowConfig = (exampleConfig [''validating'', ''processing'', ''t''] [(''validating'', ''processing''), (''processing'', ''t'')])
     \<lparr>smc_InitialState := ''validating''\<rparr>"

definition flowEvent :: Event where
  "flowEvent = (NewEvent ''e'' 1 ''changed'' ''task.state_changed_validating'' ''core'')\<lparr>ev_Payload := Some [(''task_id'', VString ''x'')]\<rparr>"

definition strictRule :: ValidationRule where
  "strictRule = \<lparr>vr_Name = ''strict'', vr_Check = (\<lambda>params. (params \<noteq> None, ''no parameters'')), vr_Critical = True\<rparr>"

theorem failed_validation_still_processed_witness:
  "\<exists>cmd t'. validating_handleEvent (\<lambda>_. None) [strictRule] ''u'' 2 (\<lambda>topic e w. (None, w @ [e])) flowEvent [] = (None, [cmd])
     \<and> mem_task (core_store (handleTransitionCommand (memoryDB length) exampleEnv None ''v'' 2 exampleStamps [] cmd (coreWith (startedEngine flowConfig)))) ''x'' = Some t'
     \<and> t_State t' = ''processing''"
proof -
  note f = started_facts [of flowConfig]
  have "validate [strictRule] (GetPayloadMap (\<lambda>_. None) flowEvent ''parameters'') = (False, ''validation failed: strict - no parameters'')"
    "GetPayloadString flowEvent ''task_id'' = ''x''"
    by (simp_all add: strictRule_def flowEvent_def GetPayloadMap_def GetPayloadString_def GetField_def typedField_def NewEvent_def)
  moreover have "t_State (startedTask flowConfig) = ''validating''" using f(4) by (simp add: flowConfig_def)
  moreover have "IsTransitionAllowed flowConfig ''validating'' ''processing''"
    by (simp add: flowConfig_def exampleConfig_def IsTransitionAllowed_def)
  ultimately show ?thesis
    using failed_validation_still_processed [OF _ _ _ coreWith_inv [OF f(1)], of "[strictRule]" "\<lambda>_. None" flowEvent _ "''x''" "startedTask flowConfig"]
      f(2,3) by simp
qed

section \<open>Failover\<close>

lemma getRetryCount_simps [simp]:
  "getRetryCount (incrementRetryCount i c) j = (if j = i then getRetryCount c i + 1 else getRetryCount c j)"
  "getRetryCount (resetRetryCount i c) j = (if j = i then 0 else getRetryCount c j)"
  "fo_retryPolicy (incrementRetryCount i c) = fo_retryPolicy c" "fo_retryPolicy (resetRetryCount i c) = fo_retryPolicy c"
  by (simp_all add: getRetryCount_def incrementRetryCount_def resetRetryCount_def map_of_alist_put map_of_filter_key)

text \<open>The events a failover component handles, with the identifier and time of an answer.\<close>

definition failover_run ::
  "'w publish \<Rightarrow> (string \<times> gotime \<times> Event) list \<Rightarrow> FailoverComponent \<times> delayed list \<times> 'w \<Rightarrow> FailoverComponent \<times> delayed list \<times> 'w" where
  "failover_run pub es s = fold (\<lambda>(uuid, now, e) s. snd (failover_handleEvent uuid now pub e s)) es s"

definition forTask :: "string \<Rightarrow> string \<times> gotime \<times> Event \<Rightarrow> bool" where
  "forTask taskID = (\<lambda>(uuid, now, e). GetPayloadString e ''task_id'' = taskID \<and> GetPayloadString e ''policy_id'' \<noteq> '''')"

lemma failover_step:
  assumes "snd (failover_handleEvent uuid now pub e (c, timers, w)) = (c', timers', w')" "taskID \<noteq> ''''"
  shows "fo_retryPolicy c' = fo_retryPolicy c
    \<and> getRetryCount c' taskID =
        (if \<not> forTask taskID (uuid, now, e) then getRetryCount c taskID
         else if getRetryCount c taskID \<ge> rp_MaxRetries (fo_retryPolicy c) then 0 else getRetryCount c taskID + 1)"
  using assms by (auto simp: failover_handleEvent_def withTask_def forTask_def Let_def split: if_splits prod.splits)

lemma cycle_step:
  fixes n m :: int
  assumes "0 < m"
  shows "(n + 1) mod (m + 1) = (if n mod (m + 1) \<ge> m then 0 else n mod (m + 1) + 1)"
proof -
  have r: "0 \<le> n mod (m + 1)" "n mod (m + 1) < m + 1" using assms pos_mod_bound [of "m + 1" n] by simp_all
  have "(n + 1) mod (m + 1) = (n mod (m + 1) + 1) mod (m + 1)" by (simp add: mod_add_left_eq)
  then show ?thesis using r by (cases "n mod (m + 1) \<ge> m") (auto simp: mod_pos_pos_trivial)
qed

lemma failover_count:
  assumes "0 < rp_MaxRetries (fo_retryPolicy c)" "taskID \<noteq> ''''"
    and "failover_run pub es (c, timers, w) = (c', timers', w')" "getRetryCount c taskID = n mod (rp_MaxRetries (fo_retryPolicy c) + 1)"
  shows "fo_retryPolicy c' = fo_retryPolicy c
    \<and> getRetryCount c' taskID = (n + int (length (filter (forTask taskID) es))) mod (rp_MaxRetries (fo_retryPolicy c) + 1)"
  using assms
proof (induction es arbitrary: c timers w n)
  case Nil
  then show ?case by (simp add: failover_run_def)
next
  case (Cons x es)
  obtain uuid now e where x: "x = (uuid, now, e)" by (rule prod_cases3)
  obtain c1 timers1 w1 where h: "snd (failover_handleEvent uuid now pub e (c, timers, w)) = (c1, timers1, w1)" by (rule prod_cases3)
  note st = failover_step [OF h Cons.prems(2)]
  define n1 where "n1 = (if forTask taskID x then n + 1 else n)"
  have "getRetryCount c1 taskID = n1 mod (rp_MaxRetries (fo_retryPolicy c1) + 1)"
    using st Cons.prems(1,4) cycle_step [of "rp_MaxRetries (fo_retryPolicy c)" n] by (simp add: n1_def x)
  moreover have "failover_run pub es (c1, timers1, w1) = (c', timers', w')" using Cons.prems(3) h by (simp add: failover_run_def x)
  ultimately have "fo_retryPolicy c' = fo_retryPolicy c1 \<and> getRetryCount c' taskID = (n1 + int (length (filter (forTask taskID) es))) mod (rp_MaxRetries (fo_retryPolicy c1) + 1)"
    using Cons.IH [of c1 timers1 w1 n1] st Cons.prems(1,2) by simp
  then show ?case using st by (simp add: n1_def add.assoc)
qed

lemma iterate_scale: "((\<lambda>d. 2 * d) ^^ n) (b :: int) = 2 ^ n * b"
  by (induction n) simp_all



section \<open>Life cycle\<close>

text \<open>A component on the bus of the core; \<open>uuid\<close> is the identifier of the subscriber.\<close>

definition serverSubscribe :: "string \<Rightarrow> string \<Rightarrow> 'e GRPCEventBus \<Rightarrow> 'e channel \<times> 'e GRPCEventBus" where
  "serverSubscribe uuid topic b = (case subscribeLocal uuid topic b of (ch, b) \<Rightarrow> (gb_chans b ! ch, b))"

lemma subsOf_subscribe:
  "subsOf (snd (serverSubscribe uuid topic b)) topic
     = subsOf b topic @ [\<lparr>sub_ID = uuid, sub_Topic = topic, sub_Ch = length (gb_chans b), sub_Ctx = gb_ctx b, sub_IsRemote = False\<rparr>]"
  by (simp add: serverSubscribe_def subscribeLocal_def makeChan_def Let_def putSubs_def subsOf_def map_of_alist_put)

text \<open>
  Starting and stopping: a component that runs cannot be started again, one that does not run cannot be stopped; while it is being stopped
  it is neither. Stopping does not end its subscription: after a stop and a second start its topic has two subscribers,
  and the first one's channel has no reader.
\<close>

theorem restart_doubles_subscription:
  assumes s1: "Component_Start (serverSubscribe u1) t1 c b = (None, c1, b1)" and s2: "Component_beginStop c1 = (None, c2)"
    and s3: "Component_endStop t2 (c2\<lparr>bc_workerPool := p\<rparr>) = Some c3" and s4: "Component_Start (serverSubscribe u2) t3 c3 b1 = (r, c4, b2)"
  shows "Component_Start (serverSubscribe u2) t3 c1 b1 = (Some ''component already running'', c1, b1)
     \<and> Component_beginStop c2 = (Some ''component not running'', c2)
     \<and> r = None \<and> map sub_ID (subsOf b2 (stateTopicOf (bc_info c))) = map sub_ID (subsOf b (stateTopicOf (bc_info c))) @ [u1, u2]"
proof -
  have "cs_Status (bc_state c1) = ''running''" "bc_info c1 = bc_info c" "b1 = snd (serverSubscribe u1 (stateTopicOf (bc_info c)) b)"
    using s1 by (auto simp: Component_Start_def split: if_splits prod.splits)
  moreover have "cs_Status (bc_state c2) = ''stopping''" "bc_info c2 = bc_info c1" using s2 by (auto simp: Component_beginStop_def split: if_splits)
  moreover have "cs_Status (bc_state c3) = ''stopped''" "bc_info c3 = bc_info c2" using s3 by (auto simp: Component_endStop_def split: if_splits)
  moreover from calculation have "r = None" "b2 = snd (serverSubscribe u2 (stateTopicOf (bc_info c)) b1)"
    using s4 by (auto simp: Component_Start_def split: prod.splits)
  ultimately show ?thesis by (simp add: subsOf_subscribe Component_Start_def Component_beginStop_def)
qed

lemma Component_Start_ok:
  "cs_Status (bc_state c) \<noteq> ''running'' \<Longrightarrow> Component_Start subscribe now c b =
     (None, c\<lparr>bc_state := (bc_state c)\<lparr>cs_Status := ''running'', cs_StartedAt := now\<rparr>,
        bc_workerPool := Pool_Start (fst (subscribe (stateTopicOf (bc_info c)) b)) (bc_workerPool c)\<rparr>, snd (subscribe (stateTopicOf (bc_info c)) b))"
  by (simp add: Component_Start_def case_prod_unfold)

definition ranComponent :: "nat BaseComponent" where
  "ranComponent = fst (snd (Component_Start (serverSubscribe ''u1'') 1 NewPendingComponent newBus))"

theorem restart_doubles_subscription_witness:
  "map sub_ID (subsOf (snd (serverSubscribe ''u2'' ''task.state_changed_pending'' (snd (serverSubscribe ''u1'' ''task.state_changed_pending'' newBus))))
      ''task.state_changed_pending'') = [''u1'', ''u2'']"
proof -
  let ?b1 = "snd (serverSubscribe ''u1'' ''task.state_changed_pending'' newBus)"
  let ?b2 = "snd (serverSubscribe ''u2'' ''task.state_changed_pending'' ?b1)"
  let ?p = "(Pool_cancel (bc_workerPool ranComponent))\<lparr>wp_workers := []\<rparr>"
  have info: "stateTopicOf (bc_info (NewPendingComponent :: nat BaseComponent)) = ''task.state_changed_pending''" "cs_Status (bc_state (NewPendingComponent :: nat BaseComponent)) = ''''"
    by (simp_all add: NewPendingComponent_def NewBaseComponent_def pendingInfo_def stateTopicOf_def)
  then have s1: "Component_Start (serverSubscribe ''u1'') 1 NewPendingComponent newBus = (None, ranComponent, ?b1)"
    by (simp add: ranComponent_def Component_Start_ok)
  have r: "cs_Status (bc_state ranComponent) = ''running''" "bc_info ranComponent = bc_info (NewPendingComponent :: nat BaseComponent)"
    using info by (simp_all add: ranComponent_def Component_Start_ok)
  obtain c2 where s2: "Component_beginStop ranComponent = (None, c2)" "bc_info c2 = bc_info ranComponent" using r by (simp add: Component_beginStop_def)
  obtain c3 where s3: "Component_endStop 2 (c2\<lparr>bc_workerPool := ?p\<rparr>) = Some c3"
    by (simp add: Component_endStop_def Pool_stopped_def Pool_cancel_def)
  then have "cs_Status (bc_state c3) = ''stopped''" "bc_info c3 = bc_info (NewPendingComponent :: nat BaseComponent)"
    using s2(2) r(2) by (auto simp: Component_endStop_def split: if_splits)
  then obtain c4 where s4: "Component_Start (serverSubscribe ''u2'') 3 c3 ?b1 = (None, c4, ?b2)"
    using info by (simp add: Component_Start_ok)
  have "subsOf newBus t = []" for t by (simp add: new_bus_inv)
  with restart_doubles_subscription [OF s1 s2(1) s3 s4] info show ?thesis by simp
qed

end
