(* ===== verification/Nuts_JSON.thy ===== *)
theory Nuts_JSON
  imports Nuts_Values
begin

text \<open>
  Dynamic values as \<^verbatim>\<open>encoding/json\<close> writes and reads them. A number read back into an \<^verbatim>\<open>interface{}\<close> is a
  \<^verbatim>\<open>float64\<close> (numbers are taken to be in the range in which that is exact), a map with string values
  becomes a map of interfaces, and a map with interface keys cannot be written.
\<close>

datatype jvalue =
    JVNull
  | JVBool bool
  | JVNum rat
  | JVStr string
  | JVArr "jvalue list"
  | JVObj "(string \<times> jvalue) list"

fun toJ :: "govalue \<Rightarrow> string + jvalue"
  and toJs :: "govalue list \<Rightarrow> string + jvalue list"
  and toJm :: "(string \<times> govalue) list \<Rightarrow> string + (string \<times> jvalue) list" where
  "toJ VNil = Inr JVNull"
| "toJ (VString s) = Inr (JVStr s)"
| "toJ (VInt n) = Inr (JVNum (of_int n))"
| "toJ (VInt64 n) = Inr (JVNum (of_int n))"
| "toJ (VFloat q) = Inr (JVNum q)"
| "toJ (VBool b) = Inr (JVBool b)"
| "toJ (VSlice vs) = bindE (toJs vs) (\<lambda>js. Inr (JVArr js))"
| "toJ (VMap m) = bindE (toJm m) (\<lambda>js. Inr (JVObj js))"
| "toJ (VStrMap m) = Inr (JVObj (map (\<lambda>(k, v). (k, JVStr v)) m))"
| "toJ (VAnyMap m) = Inl ''json: unsupported type''"
| "toJs [] = Inr []"
| "toJs (v # vs) = bindE (toJ v) (\<lambda>j. bindE (toJs vs) (\<lambda>js. Inr (j # js)))"
| "toJm [] = Inr []"
| "toJm ((k, v) # m) = bindE (toJ v) (\<lambda>j. bindE (toJm m) (\<lambda>js. Inr ((k, j) # js)))"

fun fromJ :: "jvalue \<Rightarrow> govalue" where
  "fromJ JVNull = VNil"
| "fromJ (JVBool b) = VBool b"
| "fromJ (JVNum q) = VFloat q"
| "fromJ (JVStr s) = VString s"
| "fromJ (JVArr js) = VSlice (map fromJ js)"
| "fromJ (JVObj m) = VMap (map (\<lambda>(k, j). (k, fromJ j)) m)"

fun canon :: "govalue \<Rightarrow> govalue" where
  "canon (VInt n) = VFloat (of_int n)"
| "canon (VInt64 n) = VFloat (of_int n)"
| "canon (VSlice vs) = VSlice (map canon vs)"
| "canon (VMap m) = VMap (map (\<lambda>(k, v). (k, canon v)) m)"
| "canon (VStrMap m) = VMap (map (\<lambda>(k, v). (k, VString v)) m)"
| "canon v = v"

lemma fromJ_toJ:
  "toJ v = Inr j \<Longrightarrow> fromJ j = canon v"
  "toJs vs = Inr js \<Longrightarrow> map fromJ js = map canon vs"
  "toJm m = Inr jm \<Longrightarrow> map (\<lambda>(k, j). (k, fromJ j)) jm = map (\<lambda>(k, v). (k, canon v)) m"
  by (induction v and vs and m arbitrary: j and js and jm rule: toJ_toJs_toJm.induct) (auto simp: bindE_eq_Inr)

lemma canon_canon [simp]: "canon (canon v) = canon v"
  by (induction v) auto

end
