(* ===== verification/Policy_Store.thy ===== *)
theory Policy_Store
  imports Nuts_DB Nuts_JSON
begin

text \<open>
  Policies and their stores (\<^verbatim>\<open>src/pkg/policy/interface.go\<close>, \<^verbatim>\<open>store.go\<close>, \<^verbatim>\<open>engine_store.go\<close>). The interface
  \<^verbatim>\<open>PolicyStore\<close> is a dictionary of operations over a state, the locale \<open>policy_store\<close> its contract; the
  in-memory store and the store over a key-value database both fulfil it. The cached store hands
  out pointers, so it is modelled over an explicit heap of policies.
\<close>

section \<open>Policies\<close>

record Policy =
  p_ID :: string
  p_Description :: string
  p_Enabled :: bool
  p_DSL :: string
  p_DSLEngine :: string
  p_Expansion :: "gomap option"
  p_Timeout :: string
  p_Version :: int

record PolicyMatch =
  pm_PolicyID :: string
  pm_Matched :: bool
  pm_EvaluationTime :: int
  pm_Error :: "string option"
  pm_Expansion :: "gomap option"
  pm_Timeout :: string

text \<open>
  \<^verbatim>\<open>Policy.Validate\<close>: \<open>validateStruct\<close> stands for the validator package, which checks the field tags;
  \<open>parseDuration\<close> for \<^verbatim>\<open>time.ParseDuration\<close>. The default engine is written into the policy.
\<close>

definition Policy_Validate ::
  "(Policy \<Rightarrow> string option) \<Rightarrow> (string \<Rightarrow> string + duration) \<Rightarrow> Policy \<Rightarrow> string option \<times> Policy" where
  "Policy_Validate validateStruct parseDuration p =
     (case validateStruct p of
        Some err \<Rightarrow> (Some err, p)
      | None \<Rightarrow>
          (let p = (if p_DSLEngine p = '''' then p\<lparr>p_DSLEngine := ''cel''\<rparr> else p)
           in if p_Timeout p \<noteq> ''''
              then (case parseDuration (p_Timeout p) of
                      Inl err \<Rightarrow> (Some (''invalid timeout '' @ p_Timeout p @ '': '' @ err), p)
                    | Inr _ \<Rightarrow> (None, p))
              else (None, p)))"

section \<open>Errors and the interface\<close>

datatype policy_error =
    PolicyNotFound string
  | PolicyExists string
  | PolicyIDRequired
  | PolicyVersionConflict int int
  | PolicyDB db_error
  | PolicyDocument string
  | PolicyMarshal string

text \<open>
  The writing operations also return the policy as they leave it, since they write its version
  through the caller's pointer.
\<close>

record 's PolicyStore =
  ps_Get :: "'s \<Rightarrow> string \<Rightarrow> policy_error + Policy"
  ps_List :: "'s \<Rightarrow> policy_error + Policy list"
  ps_ListEnabled :: "'s \<Rightarrow> policy_error + Policy list"
  ps_Create :: "'s \<Rightarrow> Policy \<Rightarrow> policy_error option \<times> Policy \<times> 's"
  ps_Update :: "'s \<Rightarrow> Policy \<Rightarrow> policy_error option \<times> Policy \<times> 's"
  ps_Delete :: "'s \<Rightarrow> string \<Rightarrow> policy_error option \<times> 's"
  ps_Count :: "'s \<Rightarrow> policy_error + int"

text \<open>
  The contract: \<open>content\<close> is what the store holds. A policy read is the one held, a listing names each
  policy once; a successful creation adds a policy that was not there, a successful update replaces
  one with the same version by its successor, both up to \<open>norm\<close>, the change a policy undergoes when
  it is stored; a failed operation changes nothing; after a deletion the policy is gone whatever
  the answer.
\<close>

locale policy_store =
  fixes S :: "'s PolicyStore" and content :: "'s \<Rightarrow> string \<Rightarrow> Policy option" and ok :: "'s \<Rightarrow> bool"
    and norm :: "Policy \<Rightarrow> Policy"
  assumes get_Some: "ok s \<Longrightarrow> content s i = Some p \<Longrightarrow> ps_Get S s i = Inr p"
    and get_None: "ok s \<Longrightarrow> content s i = None \<Longrightarrow> \<exists>e. ps_Get S s i = Inl e"
    and list_set: "ok s \<Longrightarrow> ps_List S s = Inr ps \<Longrightarrow> set ps = {p. \<exists>i. content s i = Some p}"
    and list_distinct: "ok s \<Longrightarrow> ps_List S s = Inr ps \<Longrightarrow> distinct (map p_ID ps)"
    and enabled: "ok s \<Longrightarrow> ps_ListEnabled S s = Inr ps \<Longrightarrow> \<exists>all. ps_List S s = Inr all \<and> mset ps = mset (filter p_Enabled all)"
    and ids: "ok s \<Longrightarrow> content s i = Some p \<Longrightarrow> p_ID p = i"
    and create_ok: "ok s \<Longrightarrow> ps_Create S s p = (None, p', s') \<Longrightarrow> ok s' \<and> content s (p_ID p) = None \<and> p_ID p \<noteq> ''''
        \<and> (\<exists>v. p' = p\<lparr>p_Version := v\<rparr>) \<and> content s' = (content s)(p_ID p \<mapsto> norm p')"
    and create_err: "ok s \<Longrightarrow> ps_Create S s p = (Some e, p', s') \<Longrightarrow> s' = s"
    and create_exists: "ok s \<Longrightarrow> content s (p_ID p) \<noteq> None \<Longrightarrow> fst (ps_Create S s p) \<noteq> None"
    and update_ok: "ok s \<Longrightarrow> ps_Update S s p = (None, p', s') \<Longrightarrow> ok s'
        \<and> (\<exists>old. content s (p_ID p) = Some old \<and> p_Version old = p_Version p)
        \<and> p' = p\<lparr>p_Version := p_Version p + 1\<rparr> \<and> content s' = (content s)(p_ID p \<mapsto> norm p')"
    and update_err: "ok s \<Longrightarrow> ps_Update S s p = (Some e, p', s') \<Longrightarrow> s' = s"
    and update_stale: "ok s \<Longrightarrow> content s (p_ID p) = Some old \<Longrightarrow> p_Version old \<noteq> p_Version p \<Longrightarrow> fst (ps_Update S s p) \<noteq> None"
    and delete: "ok s \<Longrightarrow> ps_Delete S s i = (None, s') \<Longrightarrow> ok s' \<and> content s' = (content s)(i := None)"
    and delete_err: "ok s \<Longrightarrow> ps_Delete S s i = (Some e, s') \<Longrightarrow> s' = s"
    and norm: "p_ID (norm p) = p_ID p" "p_DSL (norm p) = p_DSL p" "p_DSLEngine (norm p) = p_DSLEngine p"
      "p_Version (norm p) = p_Version p" "p_Enabled (norm p) = p_Enabled p" "p_Timeout (norm p) = p_Timeout p"
begin

lemma get_iff: "ok s \<Longrightarrow> ps_Get S s i = Inr p \<longleftrightarrow> content s i = Some p"
  by (cases "content s i") (auto simp: get_Some dest: get_None)

text \<open>Of two updates made from the same version, the second is refused.\<close>

lemma second_update_refused:
  assumes "ok s" "ps_Update S s p = (None, p', s')" "p_ID q = p_ID p" "p_Version q = p_Version p"
  shows "\<exists>e. fst (ps_Update S s' q) = Some e"
proof -
  have "ok s'" "content s' (p_ID q) = Some (norm (p\<lparr>p_Version := p_Version p + 1\<rparr>))"
    using update_ok [OF assms(1,2)] assms(3) by auto
  from update_stale [OF this] assms(4) norm show ?thesis by auto
qed

end

section \<open>The in-memory store\<close>

record MemoryPolicyStore =
  mps_policies :: "(string \<times> Policy) list"

definition NewMemoryPolicyStore :: MemoryPolicyStore where
  "NewMemoryPolicyStore = \<lparr>mps_policies = []\<rparr>"

definition copyPolicy :: "Policy \<Rightarrow> Policy" where
  "copyPolicy p = p\<lparr>p_Expansion := Some (case p_Expansion p of None \<Rightarrow> [] | Some m \<Rightarrow> m)\<rparr>"

definition MPS_Get :: "MemoryPolicyStore \<Rightarrow> string \<Rightarrow> policy_error + Policy" where
  "MPS_Get s i =
     (case map_of (mps_policies s) i of None \<Rightarrow> Inl (PolicyNotFound i) | Some p \<Rightarrow> Inr (copyPolicy p))"

text \<open>The lists come in the order in which the runtime ranges over the map.\<close>

definition mps_range :: "(string \<Rightarrow> nat) \<Rightarrow> MemoryPolicyStore \<Rightarrow> Policy list" where
  "mps_range rank s = List.map_filter (map_of (mps_policies s)) (range_keys rank (map fst (mps_policies s)))"

definition MPS_List :: "(string \<Rightarrow> nat) \<Rightarrow> MemoryPolicyStore \<Rightarrow> policy_error + Policy list" where
  "MPS_List rank s = Inr (map copyPolicy (mps_range rank s))"

definition MPS_ListEnabled :: "(string \<Rightarrow> nat) \<Rightarrow> MemoryPolicyStore \<Rightarrow> policy_error + Policy list" where
  "MPS_ListEnabled rank s = Inr (map copyPolicy (filter p_Enabled (mps_range rank s)))"

definition MPS_Create :: "MemoryPolicyStore \<Rightarrow> Policy \<Rightarrow> policy_error option \<times> Policy \<times> MemoryPolicyStore" where
  "MPS_Create s p =
     (if p_ID p = '''' then (Some PolicyIDRequired, p, s)
      else case map_of (mps_policies s) (p_ID p) of
             Some _ \<Rightarrow> (Some (PolicyExists (p_ID p)), p, s)
           | None \<Rightarrow>
               (let p = p\<lparr>p_Version := 1\<rparr>
                in (None, p, s\<lparr>mps_policies := alist_put (p_ID p) (copyPolicy p) (mps_policies s)\<rparr>)))"

definition MPS_Update :: "MemoryPolicyStore \<Rightarrow> Policy \<Rightarrow> policy_error option \<times> Policy \<times> MemoryPolicyStore" where
  "MPS_Update s p =
     (case map_of (mps_policies s) (p_ID p) of
        None \<Rightarrow> (Some (PolicyNotFound (p_ID p)), p, s)
      | Some existing \<Rightarrow>
          if p_Version p \<noteq> p_Version existing
          then (Some (PolicyVersionConflict (p_Version existing) (p_Version p)), p, s)
          else (let p = p\<lparr>p_Version := p_Version existing + 1\<rparr>
                in (None, p, s\<lparr>mps_policies := alist_put (p_ID p) (copyPolicy p) (mps_policies s)\<rparr>)))"

definition MPS_Delete :: "MemoryPolicyStore \<Rightarrow> string \<Rightarrow> policy_error option \<times> MemoryPolicyStore" where
  "MPS_Delete s i =
     (case map_of (mps_policies s) i of
        None \<Rightarrow> (Some (PolicyNotFound i), s)
      | Some _ \<Rightarrow> (None, s\<lparr>mps_policies := filter (\<lambda>x. fst x \<noteq> i) (mps_policies s)\<rparr>))"

definition MPS_Count :: "MemoryPolicyStore \<Rightarrow> policy_error + int" where
  "MPS_Count s = Inr (int (length (mps_policies s)))"

definition memoryPolicyStore :: "(string \<Rightarrow> nat) \<Rightarrow> MemoryPolicyStore PolicyStore" where
  "memoryPolicyStore rank =
     \<lparr>ps_Get = MPS_Get, ps_List = MPS_List rank, ps_ListEnabled = MPS_ListEnabled rank, ps_Create = MPS_Create,
      ps_Update = MPS_Update, ps_Delete = MPS_Delete, ps_Count = MPS_Count\<rparr>"

definition mps_ok :: "MemoryPolicyStore \<Rightarrow> bool" where
  "mps_ok s \<longleftrightarrow> distinct (map fst (mps_policies s))
     \<and> (\<forall>i p. map_of (mps_policies s) i = Some p \<longrightarrow> p_ID p = i \<and> p_Expansion p \<noteq> None)"

definition mps_content :: "MemoryPolicyStore \<Rightarrow> string \<Rightarrow> Policy option" where
  "mps_content s = map_of (mps_policies s)"

lemmas mps_defs = memoryPolicyStore_def MPS_Get_def MPS_List_def MPS_ListEnabled_def MPS_Create_def MPS_Update_def
  MPS_Delete_def MPS_Count_def mps_content_def

lemma copyPolicy_simps [simp]:
  "p_ID (copyPolicy p) = p_ID p" "p_DSL (copyPolicy p) = p_DSL p" "p_DSLEngine (copyPolicy p) = p_DSLEngine p"
  "p_Version (copyPolicy p) = p_Version p" "p_Enabled (copyPolicy p) = p_Enabled p" "p_Timeout (copyPolicy p) = p_Timeout p"
  "p_Expansion (copyPolicy p) \<noteq> None"
  by (simp_all add: copyPolicy_def)

lemma copyPolicy_id: "p_Expansion p \<noteq> None \<Longrightarrow> copyPolicy p = p"
  by (auto simp: copyPolicy_def)

lemma mps_range_facts:
  assumes "mps_ok s"
  shows "set (mps_range rank s) = {p. \<exists>i. mps_content s i = Some p}" and "distinct (map p_ID (mps_range rank s))"
    and "map copyPolicy (mps_range rank s) = mps_range rank s"
proof -
  let ?m = "map_of (mps_policies s)"
  have dom: "i \<in> fst ` set (mps_policies s) \<longleftrightarrow> ?m i \<noteq> None" for i by (simp add: map_of_eq_None_iff)
  show "set (mps_range rank s) = {p. \<exists>i. mps_content s i = Some p}"
    unfolding mps_range_def mps_content_def set_eq_iff set_map_filter_iff
    using dom by auto (metis map_of_SomeD fst_conv)
  have "map p_ID (List.map_filter ?m ks) = ks" if "set ks \<subseteq> {i. ?m i \<noteq> None}" for ks
    using that assms by (induction ks) (auto simp: List.map_filter_simps mps_ok_def)
  then have "map p_ID (mps_range rank s) = range_keys rank (map fst (mps_policies s))"
    unfolding mps_range_def using dom by (metis (mono_tags, lifting) CollectI list.set_map set_range_keys subsetI)
  then show "distinct (map p_ID (mps_range rank s))" using assms by (simp add: mps_ok_def)
  have "p_Expansion p \<noteq> None" if "p \<in> set (mps_range rank s)" for p
    using that assms \<open>set (mps_range rank s) = _\<close> by (auto simp: mps_ok_def mps_content_def)
  then show "map copyPolicy (mps_range rank s) = mps_range rank s"
    by (intro map_idI copyPolicy_id)
qed

lemma mps_ok_put: "mps_ok s \<Longrightarrow> p_ID p = i \<Longrightarrow> p_Expansion p \<noteq> None \<Longrightarrow>
    mps_ok (s\<lparr>mps_policies := alist_put i p (mps_policies s)\<rparr>)"
  by (auto simp: mps_ok_def distinct_alist_put map_of_alist_put split: if_splits)

lemma mps_ok_del: "mps_ok s \<Longrightarrow> mps_ok (s\<lparr>mps_policies := filter (\<lambda>x. fst x \<noteq> i) (mps_policies s)\<rparr>)"
  by (auto simp: mps_ok_def distinct_filter_key map_of_filter_key split: if_splits)

interpretation mps: policy_store "memoryPolicyStore rank" mps_content mps_ok copyPolicy
proof (unfold_locales, goal_cases)
  case (1 s i p)
  then show ?case by (auto simp: mps_defs mps_ok_def copyPolicy_id)
next
  case (3 s ps)
  then show ?case using mps_range_facts [OF 3(1), of rank] by (auto simp: mps_defs)
next
  case (4 s ps)
  then show ?case using mps_range_facts [OF 4(1), of rank] by (auto simp: mps_defs)
next
  case (5 s ps)
  have "map copyPolicy (filter p_Enabled (mps_range rank s)) = filter p_Enabled (map copyPolicy (mps_range rank s))"
    by (simp add: filter_map o_def)
  with 5 show ?case by (auto simp: mps_defs)
next
  case (7 s p p' s')
  then show ?case by (auto simp: mps_defs Let_def mps_ok_put map_of_alist_put split: if_splits option.splits)
next
  case (10 s p p' s')
  then show ?case by (auto simp: mps_defs Let_def mps_ok_put map_of_alist_put split: if_splits option.splits)
next
  case (13 s i s')
  then show ?case by (auto simp: mps_defs mps_ok_del map_of_filter_key split: option.splits)
qed (auto simp: mps_defs mps_ok_def Let_def split: if_splits option.splits)

lemma mps_ok_New [simp]: "mps_ok NewMemoryPolicyStore"
  by (simp add: mps_ok_def NewMemoryPolicyStore_def)

section \<open>The store over a database\<close>

record 'd enginePolicyStore =
  eps_db :: 'd
  eps_prefix :: string

definition NewPolicyStore :: "'d \<Rightarrow> 'd enginePolicyStore" where
  "NewPolicyStore database = \<lparr>eps_db = database, eps_prefix = ''policy:''\<rparr>"

definition marshal_policy :: "Policy \<Rightarrow> string + jvalue" where
  "marshal_policy p =
     bindE (case p_Expansion p of None \<Rightarrow> Inr JVNull | Some m \<Rightarrow> bindE (toJm m) (\<lambda>js. Inr (JVObj js))) (\<lambda>ex.
     Inr (JVObj [(''id'', JVStr (p_ID p)), (''description'', JVStr (p_Description p)),
                 (''enabled'', JVBool (p_Enabled p)), (''dsl'', JVStr (p_DSL p)),
                 (''dsl_engine'', JVStr (p_DSLEngine p)), (''expansion'', ex),
                 (''timeout'', JVStr (p_Timeout p)), (''version'', JVNum (of_int (p_Version p)))]))"

definition jmember :: "(string \<times> jvalue) list \<Rightarrow> string \<Rightarrow> 'a \<Rightarrow> (jvalue \<Rightarrow> string + 'a) \<Rightarrow> string + 'a" where
  "jmember m key zero f =
     (case map_of m key of None \<Rightarrow> Inr zero | Some JVNull \<Rightarrow> Inr zero | Some j \<Rightarrow> f j)"

definition jstr :: "jvalue \<Rightarrow> string + string" where
  "jstr j = (case j of JVStr s \<Rightarrow> Inr s | _ \<Rightarrow> Inl ''json: cannot unmarshal into string'')"

definition jbool :: "jvalue \<Rightarrow> string + bool" where
  "jbool j = (case j of JVBool b \<Rightarrow> Inr b | _ \<Rightarrow> Inl ''json: cannot unmarshal into bool'')"

definition jint :: "jvalue \<Rightarrow> string + int" where
  "jint j = (case j of JVNum q \<Rightarrow> if q = of_int \<lfloor>q\<rfloor> then Inr \<lfloor>q\<rfloor> else Inl ''json: cannot unmarshal into int64''
     | _ \<Rightarrow> Inl ''json: cannot unmarshal into int64'')"

definition jmap :: "jvalue \<Rightarrow> string + gomap option" where
  "jmap j = (case j of JVObj m \<Rightarrow> Inr (Some (map (\<lambda>(k, v). (k, fromJ v)) m)) | _ \<Rightarrow> Inl ''json: cannot unmarshal into map'')"

definition unmarshal_policy :: "jvalue \<Rightarrow> string + Policy" where
  "unmarshal_policy j =
     (case j of
        JVObj m \<Rightarrow>
          bindE (jmember m ''id'' '''' jstr) (\<lambda>i.
          bindE (jmember m ''description'' '''' jstr) (\<lambda>d.
          bindE (jmember m ''enabled'' False jbool) (\<lambda>en.
          bindE (jmember m ''dsl'' '''' jstr) (\<lambda>dsl.
          bindE (jmember m ''dsl_engine'' '''' jstr) (\<lambda>eng.
          bindE (jmember m ''expansion'' None jmap) (\<lambda>ex.
          bindE (jmember m ''timeout'' '''' jstr) (\<lambda>t.
          bindE (jmember m ''version'' 0 jint) (\<lambda>v.
          Inr \<lparr>p_ID = i, p_Description = d, p_Enabled = en, p_DSL = dsl, p_DSLEngine = eng,
               p_Expansion = ex, p_Timeout = t, p_Version = v\<rparr>))))))))
      | _ \<Rightarrow> Inl ''json: cannot unmarshal into policy'')"

text \<open>What remains of a policy after writing and reading it.\<close>

definition stored :: "Policy \<Rightarrow> Policy" where
  "stored p = p\<lparr>p_Expansion := map_option (map (\<lambda>(k, v). (k, canon v))) (p_Expansion p)\<rparr>"

lemma unmarshal_marshal: "marshal_policy p = Inr j \<Longrightarrow> unmarshal_policy j = Inr (stored p)"
  by (auto simp: marshal_policy_def unmarshal_policy_def bindE_eq_Inr jmember_def jstr_def jbool_def jint_def jmap_def
      stored_def fromJ_toJ(3) split: option.splits)

definition EPS_Get :: "('d, jvalue) DB \<Rightarrow> 'd enginePolicyStore \<Rightarrow> string \<Rightarrow> policy_error + Policy" where
  "EPS_Get B s i =
     (case db_get B (eps_db s) (eps_prefix s @ i) of
        Inl err \<Rightarrow> Inl (PolicyDB err)
      | Inr doc \<Rightarrow> mapErr PolicyDocument (unmarshal_policy doc))"

definition readPolicy :: "('d, jvalue) DB \<Rightarrow> 'd \<Rightarrow> string \<Rightarrow> Policy option" where
  "readPolicy B d key =
     (case db_get B d key of
        Inl _ \<Rightarrow> None
      | Inr doc \<Rightarrow> (case unmarshal_policy doc of Inl _ \<Rightarrow> None | Inr p \<Rightarrow> Some p))"

definition EPS_List :: "('d, jvalue) DB \<Rightarrow> 'd enginePolicyStore \<Rightarrow> policy_error + Policy list" where
  "EPS_List B s =
     (case db_list B (eps_db s) (eps_prefix s) of
        Inl err \<Rightarrow> Inl (PolicyDB err)
      | Inr keys \<Rightarrow> Inr (List.map_filter (readPolicy B (eps_db s)) keys))"

definition EPS_ListEnabled :: "('d, jvalue) DB \<Rightarrow> 'd enginePolicyStore \<Rightarrow> policy_error + Policy list" where
  "EPS_ListEnabled B s = bindE (EPS_List B s) (\<lambda>all. Inr (filter p_Enabled all))"

definition EPS_write ::
  "('d, jvalue) DB \<Rightarrow> 'd enginePolicyStore \<Rightarrow> Policy \<Rightarrow> policy_error option \<times> Policy \<times> 'd enginePolicyStore" where
  "EPS_write B s p =
     (case marshal_policy p of
        Inl err \<Rightarrow> (Some (PolicyMarshal err), p, s)
      | Inr doc \<Rightarrow>
          (case db_set B (eps_db s) (eps_prefix s @ p_ID p) doc of
             Inl err \<Rightarrow> (Some (PolicyDB err), p, s)
           | Inr d \<Rightarrow> (None, p, s\<lparr>eps_db := d\<rparr>)))"

definition EPS_Create ::
  "('d, jvalue) DB \<Rightarrow> 'd enginePolicyStore \<Rightarrow> Policy \<Rightarrow> policy_error option \<times> Policy \<times> 'd enginePolicyStore" where
  "EPS_Create B s p =
     (if p_ID p = '''' then (Some PolicyIDRequired, p, s)
      else
        (let p = (if p_Version p = 0 then p\<lparr>p_Version := 1\<rparr> else p)
         in case db_get B (eps_db s) (eps_prefix s @ p_ID p) of
              Inr _ \<Rightarrow> (Some (PolicyExists (p_ID p)), p, s)
            | Inl _ \<Rightarrow> EPS_write B s p))"

definition EPS_Update ::
  "('d, jvalue) DB \<Rightarrow> 'd enginePolicyStore \<Rightarrow> Policy \<Rightarrow> policy_error option \<times> Policy \<times> 'd enginePolicyStore" where
  "EPS_Update B s p =
     (case EPS_Get B s (p_ID p) of
        Inl _ \<Rightarrow> (Some (PolicyNotFound (p_ID p)), p, s)
      | Inr existing \<Rightarrow>
          if p_Version p \<noteq> p_Version existing
          then (Some (PolicyVersionConflict (p_Version existing) (p_Version p)), p, s)
          else EPS_write B s (p\<lparr>p_Version := p_Version existing + 1\<rparr>))"

definition EPS_Delete :: "('d, jvalue) DB \<Rightarrow> 'd enginePolicyStore \<Rightarrow> string \<Rightarrow> policy_error option \<times> 'd enginePolicyStore" where
  "EPS_Delete B s i =
     (case db_delete B (eps_db s) (eps_prefix s @ i) of
        Inl err \<Rightarrow> (Some (PolicyDB err), s)
      | Inr d \<Rightarrow> (None, s\<lparr>eps_db := d\<rparr>))"

definition EPS_Count :: "('d, jvalue) DB \<Rightarrow> 'd enginePolicyStore \<Rightarrow> policy_error + int" where
  "EPS_Count B s =
     (case db_list B (eps_db s) (eps_prefix s) of
        Inl err \<Rightarrow> Inl (PolicyDB err)
      | Inr keys \<Rightarrow> Inr (int (length keys)))"

definition enginePolicyStoreOps :: "('d, jvalue) DB \<Rightarrow> 'd enginePolicyStore PolicyStore" where
  "enginePolicyStoreOps B =
     \<lparr>ps_Get = EPS_Get B, ps_List = EPS_List B, ps_ListEnabled = EPS_ListEnabled B, ps_Create = EPS_Create B,
      ps_Update = EPS_Update B, ps_Delete = EPS_Delete B, ps_Count = EPS_Count B\<rparr>"

definition eps_content :: "('d \<Rightarrow> string \<Rightarrow> jvalue option) \<Rightarrow> 'd enginePolicyStore \<Rightarrow> string \<Rightarrow> Policy option" where
  "eps_content view s i =
     (case view (eps_db s) (eps_prefix s @ i) of
        None \<Rightarrow> None
      | Some doc \<Rightarrow> (case unmarshal_policy doc of Inl _ \<Rightarrow> None | Inr p \<Rightarrow> Some p))"

text \<open>Every document under the prefix is that of a policy with the identifier of its key.\<close>

definition eps_ok :: "('d \<Rightarrow> string \<Rightarrow> jvalue option) \<Rightarrow> ('d \<Rightarrow> bool) \<Rightarrow> 'd enginePolicyStore \<Rightarrow> bool" where
  "eps_ok view db_ok s \<longleftrightarrow> db_ok (eps_db s)
     \<and> (\<forall>i doc. view (eps_db s) (eps_prefix s @ i) = Some doc \<longrightarrow> (\<exists>p. unmarshal_policy doc = Inr p \<and> p_ID p = i))"

lemma stored_simps [simp]:
  "p_ID (stored p) = p_ID p" "p_DSL (stored p) = p_DSL p" "p_DSLEngine (stored p) = p_DSLEngine p"
  "p_Version (stored p) = p_Version p" "p_Enabled (stored p) = p_Enabled p" "p_Timeout (stored p) = p_Timeout p"
  by (simp_all add: stored_def)

locale policy_db = kv_db B view db_ok
  for B :: "('d, jvalue) DB" and view :: "'d \<Rightarrow> string \<Rightarrow> jvalue option" and db_ok :: "'d \<Rightarrow> bool"
begin

lemma doc_cases:
  assumes "eps_ok view db_ok s"
  shows "view (eps_db s) (eps_prefix s @ i) = None \<and> eps_content view s i = None
      \<and> (\<exists>e. db_get B (eps_db s) (eps_prefix s @ i) = Inl e)
    \<or> (\<exists>doc p. view (eps_db s) (eps_prefix s @ i) = Some doc \<and> eps_content view s i = Some p
        \<and> db_get B (eps_db s) (eps_prefix s @ i) = Inr doc \<and> unmarshal_policy doc = Inr p \<and> p_ID p = i)"
proof (cases "view (eps_db s) (eps_prefix s @ i)")
  case None
  with assms get_None show ?thesis by (auto simp: eps_ok_def eps_content_def)
next
  case (Some doc)
  with assms obtain p where "unmarshal_policy doc = Inr p" "p_ID p = i" "db_ok (eps_db s)" by (auto simp: eps_ok_def)
  with Some get_Some show ?thesis by (auto simp: eps_content_def)
qed

lemma write_effect:
  assumes ok: "eps_ok view db_ok s" and r: "EPS_write B s p = (None, p', s')"
  shows "p' = p \<and> eps_ok view db_ok s' \<and> eps_content view s' = (eps_content view s)(p_ID p \<mapsto> stored p)"
proof -
  obtain doc where m: "marshal_policy p = Inr doc" using r by (cases "marshal_policy p") (simp_all add: EPS_write_def)
  obtain d where d: "db_set B (eps_db s) (eps_prefix s @ p_ID p) doc = Inr d"
    using r m by (cases "db_set B (eps_db s) (eps_prefix s @ p_ID p) doc") (simp_all add: EPS_write_def)
  have s': "p' = p" "s' = s\<lparr>eps_db := d\<rparr>" using r m d by (simp_all add: EPS_write_def)
  have "db_ok (eps_db s)" using ok by (simp add: eps_ok_def)
  then have v: "db_ok d" "view d = (view (eps_db s))(eps_prefix s @ p_ID p \<mapsto> doc)"
    using set_ok [OF _ d] set_view [OF _ d] by simp_all
  show ?thesis
    using ok v unmarshal_marshal [OF m] by (auto simp: s' eps_ok_def eps_content_def fun_eq_iff)
qed

lemma write_err: "EPS_write B s p = (Some e, p', s') \<Longrightarrow> s' = s"
  by (auto simp: EPS_write_def split: sum.splits)

lemma list_content:
  assumes ok: "eps_ok view db_ok s" and l: "EPS_List B s = Inr ps"
  shows "set ps = {p. \<exists>i. eps_content view s i = Some p}" "distinct (map p_ID ps)"
proof -
  obtain keys where k: "db_list B (eps_db s) (eps_prefix s) = Inr keys"
    and ps: "ps = List.map_filter (readPolicy B (eps_db s)) keys"
    using l by (auto simp: EPS_List_def split: sum.splits)
  have dbok: "db_ok (eps_db s)" using ok by (simp add: eps_ok_def)
  have ks: "k \<in> set keys \<longleftrightarrow> (\<exists>i. k = eps_prefix s @ i \<and> view (eps_db s) k \<noteq> None)" for k
    using list_set [OF dbok k] by (auto simp: prefix_def)
  have rd: "readPolicy B (eps_db s) (eps_prefix s @ i) = eps_content view s i" for i
    using doc_cases [OF ok, of i] by (auto simp: readPolicy_def)
  have "eps_content view s i = Some p \<Longrightarrow> eps_prefix s @ i \<in> set keys" for i p
    using doc_cases [OF ok, of i] ks by auto
  then have "p \<in> set ps \<longleftrightarrow> (\<exists>i. eps_content view s i = Some p)" for p
    unfolding ps set_map_filter_iff by (metis ks rd)
  then show "set ps = {p. \<exists>i. eps_content view s i = Some p}" by blast
  have "map (\<lambda>p. eps_prefix s @ p_ID p) (List.map_filter (readPolicy B (eps_db s)) xs) = xs" if "set xs \<subseteq> set keys" for xs
    using that
  proof (induction xs)
    case (Cons x xs)
    then obtain i where i: "x = eps_prefix s @ i" "view (eps_db s) x \<noteq> None" using ks by auto
    with doc_cases [OF ok, of i] rd [of i] Cons show ?case by (auto simp: List.map_filter_simps)
  qed (simp add: List.map_filter_simps)
  then have "map (\<lambda>p. eps_prefix s @ p_ID p) ps = keys" unfolding ps by blast
  then have "distinct (map (\<lambda>i. eps_prefix s @ i) (map p_ID ps))"
    using list_distinct [OF dbok k] by (simp add: o_def)
  then show "distinct (map p_ID ps)" unfolding distinct_map by blast
qed

end

lemmas eps_defs = enginePolicyStoreOps_def EPS_Get_def EPS_ListEnabled_def EPS_Create_def EPS_Update_def
  EPS_Delete_def EPS_Count_def

sublocale policy_db \<subseteq> ps: policy_store "enginePolicyStoreOps B" "eps_content view" "eps_ok view db_ok" stored
proof (unfold_locales, goal_cases)
  case (1 s i p)
  then show ?case using doc_cases [OF 1(1), of i] by (auto simp: eps_defs)
next
  case (2 s i)
  then show ?case using doc_cases [OF 2(1), of i] by (auto simp: eps_defs)
next
  case (3 s ps)
  then show ?case using list_content(1) by (simp add: eps_defs)
next
  case (4 s ps)
  then show ?case using list_content(2) by (simp add: eps_defs)
next
  case (5 s ps)
  then show ?case by (auto simp: eps_defs bindE_eq_Inr)
next
  case (6 s i p)
  then show ?case using doc_cases [OF 6(1), of i] by auto
next
  case (7 s p p' s')
  then show ?case
    using doc_cases [OF 7(1), of "p_ID p"] write_effect [OF 7(1), of _ p' s']
    by (auto simp: eps_defs Let_def split: if_splits sum.splits) (metis Policy.surjective Policy.update_convs(8))+
next
  case (8 s p e p' s')
  then show ?case by (auto simp: eps_defs Let_def split: if_splits sum.splits dest: write_err)
next
  case (9 s p)
  then show ?case using doc_cases [OF 9(1), of "p_ID p"] by (auto simp: eps_defs Let_def)
next
  case (10 s p p' s')
  then show ?case
    using doc_cases [OF 10(1), of "p_ID p"] write_effect [OF 10(1), of _ p' s']
    by (auto simp: eps_defs split: if_splits sum.splits)
next
  case (11 s p e p' s')
  then show ?case by (auto simp: eps_defs split: if_splits sum.splits dest: write_err)
next
  case (12 s p old)
  then show ?case using doc_cases [OF 12(1), of "p_ID p"] by (auto simp: eps_defs)
next
  case (13 s i s')
  then obtain d where d: "db_delete B (eps_db s) (eps_prefix s @ i) = Inr d" "s' = s\<lparr>eps_db := d\<rparr>"
    by (auto simp: eps_defs split: sum.splits)
  have "db_ok (eps_db s)" using 13 by (simp add: eps_ok_def)
  from delete_ok [OF this d(1)] delete_view [OF this d(1)] 13(1) show ?case
    by (auto simp: d(2) eps_ok_def eps_content_def fun_eq_iff)
next
  case (14 s i e s')
  then show ?case by (auto simp: eps_defs split: sum.splits)
qed simp_all

interpretation pdb: policy_db "memoryDB rank" mem_view mem_ok
  by unfold_locales

end
