(* ===== verification/Policy_Cache.thy ===== *)
theory Policy_Cache
  imports Policy_Store
begin

text \<open>
  The cached policy store (\<^verbatim>\<open>CachedPolicyStore\<close> in \<^verbatim>\<open>src/pkg/policy/store.go\<close>). It hands the cached pointers
  to its callers and keeps the pointers they pass in, so policies live in an explicit heap:
  a pointer is a number, \<open>cps_heap\<close> the policy it points to, \<open>cps_next\<close> the next free address.
\<close>

record 's CachedPolicyStore =
  cps_store :: 's
  cps_cache :: "string \<rightharpoonup> nat"
  cps_heap :: "nat \<Rightarrow> Policy"
  cps_next :: nat
  cps_hitCount :: int
  cps_missCount :: int

definition NewCachedPolicyStore :: "'s \<Rightarrow> (nat \<Rightarrow> Policy) \<Rightarrow> nat \<Rightarrow> 's CachedPolicyStore" where
  "NewCachedPolicyStore store hp nxt =
     \<lparr>cps_store = store, cps_cache = Map.empty, cps_heap = hp, cps_next = nxt, cps_hitCount = 0, cps_missCount = 0\<rparr>"

definition CPS_Get :: "'s PolicyStore \<Rightarrow> 's CachedPolicyStore \<Rightarrow> string \<Rightarrow> (policy_error + nat) \<times> 's CachedPolicyStore" where
  "CPS_Get S c i =
     (case cps_cache c i of
        Some r \<Rightarrow> (Inr r, c\<lparr>cps_hitCount := cps_hitCount c + 1\<rparr>)
      | None \<Rightarrow>
          (let c = c\<lparr>cps_missCount := cps_missCount c + 1\<rparr>
           in case ps_Get S (cps_store c) i of
                Inl err \<Rightarrow> (Inl err, c)
              | Inr p \<Rightarrow>
                  (Inr (cps_next c),
                   c\<lparr>cps_heap := (cps_heap c)(cps_next c := p), cps_next := cps_next c + 1,
                     cps_cache := (cps_cache c)(i \<mapsto> cps_next c)\<rparr>)))"

definition CPS_Create :: "'s PolicyStore \<Rightarrow> 's CachedPolicyStore \<Rightarrow> nat \<Rightarrow> policy_error option \<times> 's CachedPolicyStore" where
  "CPS_Create S c r =
     (case ps_Create S (cps_store c) (cps_heap c r) of
        (err, p, s) \<Rightarrow>
          (let c = c\<lparr>cps_store := s, cps_heap := (cps_heap c)(r := p)\<rparr>
           in (err, if err \<noteq> None then c else c\<lparr>cps_cache := (cps_cache c)(p_ID p \<mapsto> r)\<rparr>)))"

definition CPS_Update :: "'s PolicyStore \<Rightarrow> 's CachedPolicyStore \<Rightarrow> nat \<Rightarrow> policy_error option \<times> 's CachedPolicyStore" where
  "CPS_Update S c r =
     (case ps_Update S (cps_store c) (cps_heap c r) of
        (err, p, s) \<Rightarrow>
          (let c = c\<lparr>cps_store := s, cps_heap := (cps_heap c)(r := p)\<rparr>
           in (err, if err \<noteq> None then c else c\<lparr>cps_cache := (cps_cache c)(p_ID p \<mapsto> r)\<rparr>)))"

definition CPS_Delete :: "'s PolicyStore \<Rightarrow> 's CachedPolicyStore \<Rightarrow> string \<Rightarrow> policy_error option \<times> 's CachedPolicyStore" where
  "CPS_Delete S c i =
     (case ps_Delete S (cps_store c) i of
        (err, s) \<Rightarrow>
          (let c = c\<lparr>cps_store := s\<rparr>
           in (err, if err \<noteq> None then c else c\<lparr>cps_cache := (cps_cache c)(i := None)\<rparr>)))"

definition InvalidateCache :: "'s CachedPolicyStore \<Rightarrow> 's CachedPolicyStore" where
  "InvalidateCache c = c\<lparr>cps_cache := Map.empty\<rparr>"

definition HitRate :: "'s CachedPolicyStore \<Rightarrow> rat" where
  "HitRate c =
     (let total = cps_hitCount c + cps_missCount c
      in if total = 0 then 0 else of_int (cps_hitCount c) / of_int total)"

text \<open>A caller writes through a pointer it was given.\<close>

definition writePolicy :: "nat \<Rightarrow> (Policy \<Rightarrow> Policy) \<Rightarrow> 's CachedPolicyStore \<Rightarrow> 's CachedPolicyStore" where
  "writePolicy r f c = c\<lparr>cps_heap := (cps_heap c)(r := f (cps_heap c r))\<rparr>"

text \<open>Equal up to the values of the expansion, which storing may change.\<close>

definition same_policy :: "Policy \<Rightarrow> Policy \<Rightarrow> bool" where
  "same_policy p q \<longleftrightarrow> p\<lparr>p_Expansion := None\<rparr> = q\<lparr>p_Expansion := None\<rparr>"

lemma same_policy_refl [simp]: "same_policy p p"
  by (simp add: same_policy_def)

lemma same_policy_copy [simp]: "same_policy p (copyPolicy p)" "same_policy p (stored p)"
  by (simp_all add: same_policy_def copyPolicy_def stored_def)

section \<open>Coherence\<close>

text \<open>
  The cache is coherent when each entry points to the policy the store holds. It stays so as long
  as callers do not write through the pointers; \<open>fresh_ref\<close>: the caller's own policy is not yet cached.
\<close>

locale cached_store = policy_store S content ok norm
  for S :: "'s PolicyStore" and content ok norm +
  assumes norm_same: "same_policy p (norm p)"
begin

definition coherent :: "'s CachedPolicyStore \<Rightarrow> bool" where
  "coherent c \<longleftrightarrow> ok (cps_store c) \<and> (\<forall>i r. cps_cache c i = Some r \<longrightarrow> r < cps_next c
     \<and> (\<exists>p. content (cps_store c) i = Some p \<and> same_policy (cps_heap c r) p))"

lemma get_coherent:
  assumes "coherent c" "CPS_Get S c i = (r, c')"
  shows "coherent c' \<and> cps_store c' = cps_store c
    \<and> (case r of Inr a \<Rightarrow> (\<exists>p. content (cps_store c) i = Some p \<and> same_policy (cps_heap c' a) p)
       | Inl _ \<Rightarrow> content (cps_store c) i = None)"
proof (cases "cps_cache c i")
  case None
  have okc: "ok (cps_store c)" using assms(1) by (simp add: coherent_def)
  show ?thesis
  proof (cases "content (cps_store c) i")
    case None
    from get_None [OF okc None] assms None \<open>cps_cache c i = None\<close> show ?thesis
      by (auto simp: CPS_Get_def coherent_def)
  next
    case (Some p)
    have "r = Inr (cps_next c)" "c' = c\<lparr>cps_missCount := cps_missCount c + 1, cps_heap := (cps_heap c)(cps_next c := p),
        cps_next := cps_next c + 1, cps_cache := (cps_cache c)(i \<mapsto> cps_next c)\<rparr>"
      using assms(2) get_Some [OF okc Some] \<open>cps_cache c i = None\<close> by (auto simp: CPS_Get_def)
    then show ?thesis using assms(1) Some by (fastforce simp: coherent_def)
  qed
next
  case (Some a)
  then show ?thesis using assms by (auto simp: CPS_Get_def coherent_def)
qed

lemma write_coherent:
  assumes c: "coherent c" and fresh: "r < cps_next c" "\<And>i. cps_cache c i = Some r \<Longrightarrow> i = p_ID p"
    and s: "ok s" "content s = (content (cps_store c))(p_ID p \<mapsto> norm p)"
  shows "coherent (c\<lparr>cps_store := s, cps_heap := (cps_heap c)(r := p), cps_cache := (cps_cache c)(p_ID p \<mapsto> r)\<rparr>)"
proof -
  have "\<exists>q. content s i = Some q \<and> same_policy (((cps_heap c)(r := p)) a) q" "a < cps_next c"
    if "((cps_cache c)(p_ID p \<mapsto> r)) i = Some a" for i a
    using that c fresh s(2) norm_same by (auto simp: coherent_def split: if_splits)
  then show ?thesis using s(1) by (simp add: coherent_def)
qed

lemma create_coherent:
  assumes "coherent c" "CPS_Create S c r = (None, c')" "r < cps_next c" "\<And>i. cps_cache c i = Some r \<Longrightarrow> i = p_ID (cps_heap c r)"
  shows "coherent c'"
proof -
  obtain p s where p: "ps_Create S (cps_store c) (cps_heap c r) = (None, p, s)"
    and c': "c' = c\<lparr>cps_store := s, cps_heap := (cps_heap c)(r := p), cps_cache := (cps_cache c)(p_ID p \<mapsto> r)\<rparr>"
    using assms(2) by (auto simp: CPS_Create_def Let_def split: prod.splits)
  have okc: "ok (cps_store c)" using assms(1) by (simp add: coherent_def)
  from create_ok [OF okc p] obtain v where v: "p = (cps_heap c r)\<lparr>p_Version := v\<rparr>" "ok s"
    "content s = (content (cps_store c))(p_ID p \<mapsto> norm p)" by auto
  show ?thesis unfolding c' by (rule write_coherent [OF assms(1,3) _ v(2,3)]) (use assms(4) v(1) in simp)
qed

lemma update_coherent:
  assumes "coherent c" "CPS_Update S c r = (None, c')" "r < cps_next c" "\<And>i. cps_cache c i = Some r \<Longrightarrow> i = p_ID (cps_heap c r)"
  shows "coherent c'"
proof -
  obtain p s where p: "ps_Update S (cps_store c) (cps_heap c r) = (None, p, s)"
    and c': "c' = c\<lparr>cps_store := s, cps_heap := (cps_heap c)(r := p), cps_cache := (cps_cache c)(p_ID p \<mapsto> r)\<rparr>"
    using assms(2) by (auto simp: CPS_Update_def Let_def split: prod.splits)
  have okc: "ok (cps_store c)" using assms(1) by (simp add: coherent_def)
  from update_ok [OF okc p] have v: "p = (cps_heap c r)\<lparr>p_Version := p_Version (cps_heap c r) + 1\<rparr>" "ok s"
    "content s = (content (cps_store c))(p_ID p \<mapsto> norm p)" by auto
  show ?thesis unfolding c' by (rule write_coherent [OF assms(1,3) _ v(2,3)]) (use assms(4) v(1) in simp)
qed

lemma delete_coherent:
  assumes "coherent c" "CPS_Delete S c i = (err, c')"
  shows "coherent c'"
proof (cases err)
  case None
  obtain s where s: "ps_Delete S (cps_store c) i = (None, s)" and c': "c' = c\<lparr>cps_store := s, cps_cache := (cps_cache c)(i := None)\<rparr>"
    using assms(2) None by (auto simp: CPS_Delete_def Let_def split: prod.splits)
  have "ok (cps_store c)" using assms(1) by (simp add: coherent_def)
  from delete [OF this s] assms(1) show ?thesis by (auto simp: c' coherent_def)
next
  case (Some e)
  obtain s where s: "ps_Delete S (cps_store c) i = (Some e, s)" and c': "c' = c\<lparr>cps_store := s\<rparr>"
    using assms(2) Some by (auto simp: CPS_Delete_def Let_def split: prod.splits)
  have "ok (cps_store c)" using assms(1) by (simp add: coherent_def)
  from delete_err [OF this s] assms(1) show ?thesis by (simp add: c')
qed

text \<open>
  A caller that changes a policy it got from the cache and then fails to store it leaves its change
  in the cache: the next read returns it although the store never held it.
\<close>

lemma failed_update_pollutes:
  assumes "coherent c" "cps_cache c i = Some r" "content (cps_store c) i = Some q" "p_ID (cps_heap c r) = i"
    and "p_Version q \<noteq> p_Version (f (cps_heap c r))" "p_ID (f (cps_heap c r)) = i"
  shows "\<exists>e c1. CPS_Update S (writePolicy r f c) r = (Some e, c1) \<and> cps_store c1 = cps_store c
     \<and> CPS_Get S c1 i = (Inr r, c1\<lparr>cps_hitCount := cps_hitCount c1 + 1\<rparr>)"
proof -
  have okc: "ok (cps_store c)" using assms(1) by (simp add: coherent_def)
  obtain err p s where u: "ps_Update S (cps_store c) (f (cps_heap c r)) = (err, p, s)" by (rule prod_cases3)
  obtain e where e: "err = Some e"
    using update_stale [OF okc, of "f (cps_heap c r)" q] assms(3,5,6) u by auto
  have "s = cps_store c" using update_err [OF okc] u e by blast
  then show ?thesis using u e assms(2)
    by (simp add: CPS_Update_def CPS_Get_def writePolicy_def Let_def)
qed

end

interpretation cmps: cached_store "memoryPolicyStore rank" mps_content mps_ok copyPolicy
  by unfold_locales simp

interpretation ceps: cached_store "enginePolicyStoreOps (memoryDB rank)" "eps_content mem_view" "eps_ok mem_view mem_ok" stored
  by unfold_locales simp

end
