(* ===== verification/Policy_Manager.thy ===== *)
theory Policy_Manager
  imports Policy_Cache Nuts_Event
begin

text \<open>
  DSL engines, their factory and pool (\<^verbatim>\<open>src/pkg/policy/dsl.go\<close>, \<^verbatim>\<open>cel.go\<close>, \<^verbatim>\<open>factory.go\<close>) and the policy
  manager (\<^verbatim>\<open>manager.go\<close>), which keeps a compiled program for every stored policy. The CEL library is a
  parameter: the functions of a \<open>cel_env\<close>. Closing a program releases nothing in the CEL engine.
\<close>

section \<open>Engines and programs\<close>

datatype eval_outcome = EvalPanic string | EvalResult "string + bool"

record 'p DSLEngine =
  de_Type :: string
  de_Compile :: "string \<Rightarrow> string + 'p"
  de_Validate :: "string \<Rightarrow> string option"
  de_Evaluate :: "'p \<Rightarrow> gomap \<Rightarrow> eval_outcome"

record 'p DSLExpression =
  dx_Raw :: string
  dx_Compiled :: "'p option"
  dx_Engine :: "'p DSLEngine"

definition DSLExpression_Evaluate :: "'p DSLExpression \<Rightarrow> gomap \<Rightarrow> eval_outcome" where
  "DSLExpression_Evaluate e d =
     (case dx_Compiled e of
        None \<Rightarrow> EvalResult (Inl ''expression not compiled'')
      | Some prog \<Rightarrow> de_Evaluate (dx_Engine e) prog d)"

subsection \<open>The CEL engine\<close>

datatype cel_value = CelBool bool | CelOther string

record ('a, 'p) cel_env =
  cel_Parse :: "string \<Rightarrow> string + 'a"
  cel_Check :: "'a \<Rightarrow> string option"
  cel_Program :: "'a \<Rightarrow> string + 'p"
  cel_Eval :: "'p \<Rightarrow> gomap \<Rightarrow> string + cel_value"

record ('a, 'p) CEngine =
  ce_env :: "('a, 'p) cel_env"
  ce_evaluationTimeout :: duration

definition NewCEngine :: "string + ('a, 'p) cel_env \<Rightarrow> string + ('a, 'p) CEngine" where
  "NewCEngine env =
     (case env of
        Inl err \<Rightarrow> Inl (''create CEL env: '' @ err)
      | Inr env \<Rightarrow> Inr \<lparr>ce_env = env, ce_evaluationTimeout = 5 * second\<rparr>)"

definition CEngine_Compile :: "('a, 'p) CEngine \<Rightarrow> string \<Rightarrow> string + 'p" where
  "CEngine_Compile e dsl =
     (case cel_Parse (ce_env e) dsl of
        Inl err \<Rightarrow> Inl (''parse error: '' @ err)
      | Inr ast \<Rightarrow>
          (case cel_Check (ce_env e) ast of
             Some err \<Rightarrow> Inl (''type check error: '' @ err)
           | None \<Rightarrow>
               (case cel_Program (ce_env e) ast of
                  Inl err \<Rightarrow> Inl (''program creation error: '' @ err)
                | Inr prog \<Rightarrow> Inr prog)))"

definition CEngine_Evaluate :: "('a, 'p) CEngine \<Rightarrow> 'p \<Rightarrow> gomap \<Rightarrow> string + bool" where
  "CEngine_Evaluate e prog d =
     (case cel_Eval (ce_env e) prog [(''event'', VMap d)] of
        Inl err \<Rightarrow> Inl (''evaluation error: '' @ err)
      | Inr (CelBool b) \<Rightarrow> Inr b
      | Inr (CelOther s) \<Rightarrow> Inl (''result is not bool: '' @ s))"

definition SetEvaluationTimeout :: "('a, 'p) CEngine \<Rightarrow> duration \<Rightarrow> ('a, 'p) CEngine" where
  "SetEvaluationTimeout e d = (if d > 0 then e\<lparr>ce_evaluationTimeout := d\<rparr> else e)"

text \<open>
  With a context, the evaluation runs beside two clocks; \<open>race\<close> says which of the three ends first.
  \<open>untilDeadline\<close> is the time left in the context, if it has a deadline.
\<close>

datatype eval_race = ResultFirst | ContextDone string | TimerFired

definition evalTimeout :: "('a, 'p) CEngine \<Rightarrow> duration option \<Rightarrow> duration" where
  "evalTimeout e untilDeadline =
     (case untilDeadline of Some t \<Rightarrow> if t > 0 then t else ce_evaluationTimeout e | None \<Rightarrow> ce_evaluationTimeout e)"

definition CEngine_EvaluateWithCtx ::
  "(duration \<Rightarrow> string) \<Rightarrow> eval_race \<Rightarrow> duration option \<Rightarrow> ('a, 'p) CEngine \<Rightarrow> 'p \<Rightarrow> gomap \<Rightarrow> string + bool" where
  "CEngine_EvaluateWithCtx showDuration race untilDeadline e prog d =
     (case race of
        ResultFirst \<Rightarrow> CEngine_Evaluate e prog d
      | ContextDone err \<Rightarrow> Inl (''CEL evaluation cancelled: '' @ err)
      | TimerFired \<Rightarrow> Inl (''CEL evaluation timed out after '' @ showDuration (evalTimeout e untilDeadline)))"

definition CEngine_Validate :: "('a, 'p) CEngine \<Rightarrow> string \<Rightarrow> string option" where
  "CEngine_Validate e dsl = (case CEngine_Compile e dsl of Inl err \<Rightarrow> Some err | Inr _ \<Rightarrow> None)"

definition celEngine :: "(duration \<Rightarrow> string) \<Rightarrow> eval_race \<Rightarrow> ('a, 'p) CEngine \<Rightarrow> 'p DSLEngine" where
  "celEngine showDuration race e =
     \<lparr>de_Type = ''cel'', de_Compile = CEngine_Compile e, de_Validate = CEngine_Validate e,
      de_Evaluate = (\<lambda>prog d. EvalResult (CEngine_EvaluateWithCtx showDuration race None e prog d))\<rparr>"

subsection \<open>Factory and pool\<close>

type_synonym 'p DSLEngineFactory = "string \<rightharpoonup> (string + 'p DSLEngine)"

definition DSLFactory_Register :: "'p DSLEngineFactory \<Rightarrow> string \<Rightarrow> string + 'p DSLEngine \<Rightarrow> 'p DSLEngineFactory" where
  "DSLFactory_Register f typeName creator = f(typeName \<mapsto> creator)"

definition DSLFactory_Create :: "'p DSLEngineFactory \<Rightarrow> string \<Rightarrow> string + 'p DSLEngine" where
  "DSLFactory_Create f typ =
     (if typ = '''' then Inl ''invalid config: type is required''
      else case f typ of
             None \<Rightarrow> Inl (''unknown DSL engine type: '' @ typ)
           | Some r \<Rightarrow> r)"

type_synonym 'p EnginePool = "string \<rightharpoonup> 'p DSLEngine"

definition EnginePool_Get :: "'p DSLEngineFactory \<Rightarrow> 'p EnginePool \<Rightarrow> string \<Rightarrow> (string + 'p DSLEngine) \<times> 'p EnginePool" where
  "EnginePool_Get f pool engineType =
     (case pool engineType of
        Some engine \<Rightarrow> (Inr engine, pool)
      | None \<Rightarrow>
          (case DSLFactory_Create f engineType of
             Inl err \<Rightarrow> (Inl err, pool)
           | Inr newEngine \<Rightarrow> (Inr newEngine, pool(engineType \<mapsto> newEngine))))"

section \<open>The manager\<close>

record ('s, 'p) PolicyManager =
  mgr_store :: 's
  mgr_engines :: "(string \<times> 'p DSLEngine) list"
  mgr_programs :: "(string \<times> 'p DSLExpression) list"

datatype validation_error =
    IDRequired
  | DSLRequired
  | EngineRequired
  | EngineNotFound string
  | InvalidDSL string

datatype compile_error = NoEngine string | CompileError string

datatype manager_error =
    ValidationFailed validation_error
  | StorePolicy policy_error
  | CompilePolicy compile_error
  | RecompilePolicy compile_error
  | NotCompiled string

definition NewDefaultPolicyManager :: "'s \<Rightarrow> ('s, 'p) PolicyManager" where
  "NewDefaultPolicyManager store = \<lparr>mgr_store = store, mgr_engines = [], mgr_programs = []\<rparr>"

definition RegisterEngine :: "('s, 'p) PolicyManager \<Rightarrow> 'p DSLEngine \<Rightarrow> ('s, 'p) PolicyManager" where
  "RegisterEngine m engine = m\<lparr>mgr_engines := alist_put (de_Type engine) engine (mgr_engines m)\<rparr>"

definition ValidatePolicyTemp :: "('s, 'p) PolicyManager \<Rightarrow> Policy \<Rightarrow> validation_error option" where
  "ValidatePolicyTemp m p =
     (if p_DSL p = '''' then Some DSLRequired
      else if p_DSLEngine p = '''' then Some EngineRequired
      else case map_of (mgr_engines m) (p_DSLEngine p) of
             None \<Rightarrow> Some (EngineNotFound (p_DSLEngine p))
           | Some engine \<Rightarrow>
               (case de_Validate engine (p_DSL p) of
                  Some err \<Rightarrow> Some (InvalidDSL err)
                | None \<Rightarrow> None))"

definition validatePolicy :: "('s, 'p) PolicyManager \<Rightarrow> Policy \<Rightarrow> validation_error option" where
  "validatePolicy m p =
     (if p_ID p = '''' then Some IDRequired
      else if p_DSL p = '''' then Some DSLRequired
      else if p_DSLEngine p = '''' then Some EngineRequired
      else case map_of (mgr_engines m) (p_DSLEngine p) of
             None \<Rightarrow> Some (EngineNotFound (p_DSLEngine p))
           | Some engine \<Rightarrow>
               (case de_Validate engine (p_DSL p) of
                  Some err \<Rightarrow> Some (InvalidDSL err)
                | None \<Rightarrow> None))"

definition compilePolicy :: "('s, 'p) PolicyManager \<Rightarrow> Policy \<Rightarrow> compile_error option \<times> ('s, 'p) PolicyManager" where
  "compilePolicy m p =
     (case map_of (mgr_engines m) (p_DSLEngine p) of
        None \<Rightarrow> (Some (NoEngine (p_DSLEngine p)), m)
      | Some engine \<Rightarrow>
          (case de_Compile engine (p_DSL p) of
             Inl err \<Rightarrow> (Some (CompileError err), m)
           | Inr program \<Rightarrow>
               (None, m\<lparr>mgr_programs := alist_put (p_ID p)
                   \<lparr>dx_Raw = p_DSL p, dx_Compiled = Some program, dx_Engine = engine\<rparr> (mgr_programs m)\<rparr>)))"

definition AddPolicy ::
  "'s PolicyStore \<Rightarrow> ('s, 'p) PolicyManager \<Rightarrow> Policy \<Rightarrow> manager_error option \<times> ('s, 'p) PolicyManager" where
  "AddPolicy S m p =
     (case validatePolicy m p of
        Some err \<Rightarrow> (Some (ValidationFailed err), m)
      | None \<Rightarrow>
          (case ps_Create S (mgr_store m) p of
             (Some err, p, s) \<Rightarrow> (Some (StorePolicy err), m\<lparr>mgr_store := s\<rparr>)
           | (None, p, s) \<Rightarrow>
               (case compilePolicy (m\<lparr>mgr_store := s\<rparr>) p of
                  (Some err, m) \<Rightarrow>
                    (Some (CompilePolicy err), m\<lparr>mgr_store := snd (ps_Delete S (mgr_store m) (p_ID p))\<rparr>)
                | (None, m) \<Rightarrow> (None, m))))"

definition RemovePolicy ::
  "'s PolicyStore \<Rightarrow> ('s, 'p) PolicyManager \<Rightarrow> string \<Rightarrow> manager_error option \<times> ('s, 'p) PolicyManager" where
  "RemovePolicy S m i =
     (case ps_Delete S (mgr_store m) i of
        (Some err, s) \<Rightarrow> (Some (StorePolicy err), m\<lparr>mgr_store := s\<rparr>)
      | (None, s) \<Rightarrow> (None, m\<lparr>mgr_store := s, mgr_programs := filter (\<lambda>x. fst x \<noteq> i) (mgr_programs m)\<rparr>))"

definition UpdatePolicy ::
  "'s PolicyStore \<Rightarrow> ('s, 'p) PolicyManager \<Rightarrow> Policy \<Rightarrow> manager_error option \<times> ('s, 'p) PolicyManager" where
  "UpdatePolicy S m p =
     (case validatePolicy m p of
        Some err \<Rightarrow> (Some (ValidationFailed err), m)
      | None \<Rightarrow>
          (case ps_Update S (mgr_store m) p of
             (Some err, p, s) \<Rightarrow> (Some (StorePolicy err), m\<lparr>mgr_store := s\<rparr>)
           | (None, p, s) \<Rightarrow>
               (case compilePolicy (m\<lparr>mgr_store := s\<rparr>) p of
                  (Some err, m) \<Rightarrow> (Some (RecompilePolicy err), m)
                | (None, m) \<Rightarrow> (None, m))))"

definition setEnabled ::
  "'s PolicyStore \<Rightarrow> ('s, 'p) PolicyManager \<Rightarrow> string \<Rightarrow> bool \<Rightarrow> manager_error option \<times> ('s, 'p) PolicyManager" where
  "setEnabled S m i b =
     (case ps_Get S (mgr_store m) i of
        Inl err \<Rightarrow> (Some (StorePolicy err), m)
      | Inr p \<Rightarrow> UpdatePolicy S m (p\<lparr>p_Enabled := b\<rparr>))"

definition EnablePolicy ::
  "'s PolicyStore \<Rightarrow> ('s, 'p) PolicyManager \<Rightarrow> string \<Rightarrow> manager_error option \<times> ('s, 'p) PolicyManager" where
  "EnablePolicy S m i = setEnabled S m i True"

definition DisablePolicy ::
  "'s PolicyStore \<Rightarrow> ('s, 'p) PolicyManager \<Rightarrow> string \<Rightarrow> manager_error option \<times> ('s, 'p) PolicyManager" where
  "DisablePolicy S m i = setEnabled S m i False"

fun compileAll :: "Policy list \<Rightarrow> ('s, 'p) PolicyManager \<Rightarrow> manager_error option \<times> ('s, 'p) PolicyManager" where
  "compileAll [] m = (None, m)"
| "compileAll (p # ps) m =
     (case compilePolicy m p of
        (Some err, m) \<Rightarrow> (Some (RecompilePolicy err), m)
      | (None, m) \<Rightarrow> compileAll ps m)"

definition ReloadPolicies :: "'s PolicyStore \<Rightarrow> ('s, 'p) PolicyManager \<Rightarrow> manager_error option \<times> ('s, 'p) PolicyManager" where
  "ReloadPolicies S m =
     (let m = m\<lparr>mgr_programs := []\<rparr>
      in case ps_List S (mgr_store m) of
           Inl err \<Rightarrow> (Some (StorePolicy err), m)
         | Inr ps \<Rightarrow> compileAll ps m)"

definition GetCompiledProgram :: "('s, 'p) PolicyManager \<Rightarrow> string \<Rightarrow> manager_error + 'p DSLExpression" where
  "GetCompiledProgram m i =
     (case map_of (mgr_programs m) i of None \<Rightarrow> Inl (NotCompiled i) | Some x \<Rightarrow> Inr x)"

definition ValidatePolicy :: "'s PolicyStore \<Rightarrow> ('s, 'p) PolicyManager \<Rightarrow> string \<Rightarrow> (policy_error + validation_error) option" where
  "ValidatePolicy S m i =
     (case ps_Get S (mgr_store m) i of
        Inl err \<Rightarrow> Some (Inl err)
      | Inr p \<Rightarrow>
          (case map_of (mgr_engines m) (p_DSLEngine p) of
             None \<Rightarrow> Some (Inr (EngineNotFound (p_DSLEngine p)))
           | Some engine \<Rightarrow>
               (case de_Validate engine (p_DSL p) of
                  Some err \<Rightarrow> Some (Inr (InvalidDSL err))
                | None \<Rightarrow> None)))"

record ManagerStats =
  mst_TotalPolicies :: int
  mst_EnabledPolicies :: int
  mst_CompiledPolicies :: int
  mst_RegisteredEngines :: int

definition Manager_GetStats :: "'s PolicyStore \<Rightarrow> ('s, 'p) PolicyManager \<Rightarrow> ManagerStats" where
  "Manager_GetStats S m =
     \<lparr>mst_TotalPolicies = (case ps_Count S (mgr_store m) of Inl _ \<Rightarrow> 0 | Inr n \<Rightarrow> n),
      mst_EnabledPolicies = (case ps_ListEnabled S (mgr_store m) of Inl _ \<Rightarrow> 0 | Inr ps \<Rightarrow> int (length ps)),
      mst_CompiledPolicies = int (length (mgr_programs m)),
      mst_RegisteredEngines = int (length (mgr_engines m))\<rparr>"

end
