(* ===== verification/Policy_Manager_Props.thy ===== *)
theory Policy_Manager_Props
  imports Policy_Manager
begin

text \<open>
  The policy manager keeps, for every stored policy and no other, the program compiled from its
  current expression. The proofs are done once, in a locale over the contract of policy stores, for
  engines whose syntax check accepts only what they can compile (as the CEL engine's does).
\<close>

definition engine_sound :: "'p DSLEngine \<Rightarrow> bool" where
  "engine_sound e \<longleftrightarrow> (\<forall>dsl. de_Validate e dsl = None \<longrightarrow> (\<exists>prog. de_Compile e dsl = Inr prog))"

lemma celEngine_sound: "engine_sound (celEngine showDuration race e)"
  by (simp add: engine_sound_def celEngine_def CEngine_Validate_def split: sum.split)

definition engines_sound :: "('s, 'p) PolicyManager \<Rightarrow> bool" where
  "engines_sound m \<longleftrightarrow> (\<forall>t e. map_of (mgr_engines m) t = Some e \<longrightarrow> engine_sound e)"

text \<open>\<open>compiled_for m p x\<close>: \<open>x\<close> is the program of the policy \<open>p\<close> under the engines of \<open>m\<close>.\<close>

definition compiled_for :: "('s, 'p) PolicyManager \<Rightarrow> Policy \<Rightarrow> 'p DSLExpression \<Rightarrow> bool" where
  "compiled_for m p x \<longleftrightarrow> (\<exists>e prog. map_of (mgr_engines m) (p_DSLEngine p) = Some e \<and> de_Compile e (p_DSL p) = Inr prog
     \<and> x = \<lparr>dx_Raw = p_DSL p, dx_Compiled = Some prog, dx_Engine = e\<rparr>)"

lemma compilePolicy_ok:
  assumes "compilePolicy m p = (None, m')"
  shows "\<exists>x. m' = m\<lparr>mgr_programs := alist_put (p_ID p) x (mgr_programs m)\<rparr> \<and> compiled_for m p x"
  using assms by (auto simp: compilePolicy_def compiled_for_def split: option.splits sum.splits)

lemma compilePolicy_err: "compilePolicy m p = (Some e, m') \<Longrightarrow> m' = m"
  by (auto simp: compilePolicy_def split: option.splits sum.splits)

lemma compilePolicy_validated:
  assumes "engines_sound m" "validatePolicy m p = None"
  shows "\<exists>m'. compilePolicy m p = (None, m')"
proof -
  obtain e where e: "map_of (mgr_engines m) (p_DSLEngine p) = Some e" "de_Validate e (p_DSL p) = None"
    using assms(2) by (auto simp: validatePolicy_def split: if_splits option.splits)
  then obtain prog where "de_Compile e (p_DSL p) = Inr prog"
    using assms(1) unfolding engines_sound_def engine_sound_def by blast
  with e(1) show ?thesis by (simp add: compilePolicy_def)
qed

lemma compiled_for_cong:
  "mgr_engines m' = mgr_engines m \<Longrightarrow> p_DSL q = p_DSL p \<Longrightarrow> p_DSLEngine q = p_DSLEngine p \<Longrightarrow>
     compiled_for m' q x = compiled_for m p x"
  by (simp add: compiled_for_def)

lemma validatePolicy_cong:
  "mgr_engines m' = mgr_engines m \<Longrightarrow> p_DSL q = p_DSL p \<Longrightarrow> p_DSLEngine q = p_DSLEngine p \<Longrightarrow> p_ID q = p_ID p \<Longrightarrow>
     validatePolicy m' q = validatePolicy m p"
  by (simp add: validatePolicy_def cong: option.case_cong if_cong split: option.split)

context policy_store
begin

definition mgr_inv :: "('s, 'p) PolicyManager \<Rightarrow> bool" where
  "mgr_inv m \<longleftrightarrow> ok (mgr_store m) \<and> engines_sound m
     \<and> (\<forall>i. rel_option (compiled_for m) (content (mgr_store m) i) (map_of (mgr_programs m) i))"

lemma put_program:
  assumes inv: "mgr_inv m" and c: "compilePolicy (m\<lparr>mgr_store := s\<rparr>) p = (None, m')"
    and s: "ok s" "content s = (content (mgr_store m))(p_ID p \<mapsto> norm p)"
  shows "mgr_inv m' \<and> mgr_engines m' = mgr_engines m \<and> mgr_store m' = s"
proof -
  obtain x where x: "m' = m\<lparr>mgr_store := s, mgr_programs := alist_put (p_ID p) x (mgr_programs m)\<rparr>"
    "compiled_for (m\<lparr>mgr_store := s\<rparr>) p x"
    using compilePolicy_ok [OF c] by auto
  have "compiled_for m' (norm p) x" using x(2) compiled_for_cong [of m' "m\<lparr>mgr_store := s\<rparr>" "norm p" p x] norm x(1) by simp
  moreover have "compiled_for m' = compiled_for m" by (simp add: x(1) compiled_for_def fun_eq_iff)
  ultimately have "rel_option (compiled_for m') (content s i) (map_of (mgr_programs m') i)" for i
    using inv s(2) by (auto simp: mgr_inv_def x(1) map_of_alist_put)
  moreover have "engines_sound m'" using inv by (simp add: mgr_inv_def x(1) engines_sound_def)
  ultimately show ?thesis using s(1) by (simp add: mgr_inv_def x(1))
qed

lemma mgr_inv_same: "mgr_inv m \<Longrightarrow> s = mgr_store m \<Longrightarrow> mgr_inv (m\<lparr>mgr_store := s\<rparr>)"
  by simp

lemma AddPolicy_cases:
  assumes inv: "mgr_inv m" and r: "AddPolicy S m p = (err, m')"
  shows "mgr_inv m' \<and> mgr_engines m' = mgr_engines m
    \<and> (err = None \<longrightarrow> content (mgr_store m) (p_ID p) = None
         \<and> (\<exists>v. content (mgr_store m') = (content (mgr_store m))(p_ID p \<mapsto> norm (p\<lparr>p_Version := v\<rparr>))))
    \<and> (err \<noteq> None \<longrightarrow> m' = m)"
proof (cases "validatePolicy m p")
  case (Some e)
  with r inv show ?thesis by (auto simp: AddPolicy_def)
next
  case None
  have okm: "ok (mgr_store m)" using inv by (simp add: mgr_inv_def)
  obtain ce q s where c: "ps_Create S (mgr_store m) p = (ce, q, s)" by (rule prod_cases3)
  show ?thesis
  proof (cases ce)
    case (Some e)
    then have "s = mgr_store m" using create_err [OF okm] c by blast
    with Some c r None inv show ?thesis by (auto simp: AddPolicy_def)
  next
    case ce: None
    obtain v where v: "q = p\<lparr>p_Version := v\<rparr>" "ok s" "content (mgr_store m) (p_ID p) = None"
      "content s = (content (mgr_store m))(p_ID p \<mapsto> norm q)"
      using create_ok [OF okm c [unfolded ce]] by auto
    have "engines_sound (m\<lparr>mgr_store := s\<rparr>)" using inv by (simp add: mgr_inv_def engines_sound_def)
    moreover have "validatePolicy (m\<lparr>mgr_store := s\<rparr>) q = None" using None v(1) validatePolicy_cong [of "m\<lparr>mgr_store := s\<rparr>" m q p] by simp
    ultimately obtain m1 where m1: "compilePolicy (m\<lparr>mgr_store := s\<rparr>) q = (None, m1)" using compilePolicy_validated by blast
    have "mgr_inv m1 \<and> mgr_engines m1 = mgr_engines m \<and> mgr_store m1 = s"
      by (rule put_program [OF inv m1 v(2)]) (use v(1,4) in simp)
    with m1 r c ce None v show ?thesis by (auto simp: AddPolicy_def)
  qed
qed

lemma UpdatePolicy_cases:
  assumes inv: "mgr_inv m" and r: "UpdatePolicy S m p = (err, m')"
  shows "mgr_inv m' \<and> mgr_engines m' = mgr_engines m
    \<and> (err = None \<longrightarrow> content (mgr_store m') = (content (mgr_store m))(p_ID p \<mapsto> norm (p\<lparr>p_Version := p_Version p + 1\<rparr>)))
    \<and> (err \<noteq> None \<longrightarrow> m' = m)"
proof (cases "validatePolicy m p")
  case (Some e)
  with r inv show ?thesis by (auto simp: UpdatePolicy_def)
next
  case None
  have okm: "ok (mgr_store m)" using inv by (simp add: mgr_inv_def)
  obtain ce q s where c: "ps_Update S (mgr_store m) p = (ce, q, s)" by (rule prod_cases3)
  show ?thesis
  proof (cases ce)
    case (Some e)
    then have "s = mgr_store m" using update_err [OF okm] c by blast
    with Some c r None inv show ?thesis by (auto simp: UpdatePolicy_def)
  next
    case ce: None
    have v: "q = p\<lparr>p_Version := p_Version p + 1\<rparr>" "ok s"
      "content s = (content (mgr_store m))(p_ID p \<mapsto> norm q)"
      using update_ok [OF okm c [unfolded ce]] by auto
    have "engines_sound (m\<lparr>mgr_store := s\<rparr>)" using inv by (simp add: mgr_inv_def engines_sound_def)
    moreover have "validatePolicy (m\<lparr>mgr_store := s\<rparr>) q = None" using None v(1) validatePolicy_cong [of "m\<lparr>mgr_store := s\<rparr>" m q p] by simp
    ultimately obtain m1 where m1: "compilePolicy (m\<lparr>mgr_store := s\<rparr>) q = (None, m1)" using compilePolicy_validated by blast
    have "mgr_inv m1 \<and> mgr_engines m1 = mgr_engines m \<and> mgr_store m1 = s"
      by (rule put_program [OF inv m1 v(2)]) (use v(1,3) in simp)
    with m1 r c ce None v show ?thesis by (auto simp: UpdatePolicy_def)
  qed
qed

lemma RemovePolicy_inv:
  assumes inv: "mgr_inv m" and r: "RemovePolicy S m i = (err, m')"
  shows "mgr_inv m' \<and> (err = None \<longrightarrow> content (mgr_store m') = (content (mgr_store m))(i := None)) \<and> (err \<noteq> None \<longrightarrow> m' = m)"
proof -
  have okm: "ok (mgr_store m)" using inv by (simp add: mgr_inv_def)
  obtain e s where d: "ps_Delete S (mgr_store m) i = (e, s)" by (rule prod.exhaust)
  show ?thesis
  proof (cases e)
    case None
    have s: "ok s" "content s = (content (mgr_store m))(i := None)" using delete [OF okm] d None by auto
    have m': "m' = m\<lparr>mgr_store := s, mgr_programs := filter (\<lambda>x. fst x \<noteq> i) (mgr_programs m)\<rparr>" "err = None"
      using r d None by (auto simp: RemovePolicy_def)
    have "compiled_for m' = compiled_for m" by (simp add: m' compiled_for_def fun_eq_iff)
    then have "rel_option (compiled_for m') (content s j) (map_of (mgr_programs m') j)" for j
      using inv s(2) by (auto simp: mgr_inv_def m' map_of_filter_key)
    moreover have "engines_sound m'" using inv by (simp add: mgr_inv_def m' engines_sound_def)
    ultimately show ?thesis using s by (simp add: mgr_inv_def m')
  next
    case (Some x)
    then have "s = mgr_store m" using delete_err [OF okm] d by blast
    with r d Some inv show ?thesis by (auto simp: RemovePolicy_def)
  qed
qed

lemma setEnabled_inv:
  assumes inv: "mgr_inv m" and r: "setEnabled S m i b = (err, m')"
  shows "mgr_inv m'"
  using r inv UpdatePolicy_cases [OF inv] by (auto simp: setEnabled_def split: sum.splits)

lemma compileAll_ok:
  assumes "compileAll ps m = (None, m')" "distinct (map p_ID ps)"
  shows "mgr_store m' = mgr_store m \<and> mgr_engines m' = mgr_engines m
    \<and> (\<forall>i. i \<notin> p_ID ` set ps \<longrightarrow> map_of (mgr_programs m') i = map_of (mgr_programs m) i)
    \<and> (\<forall>p \<in> set ps. \<exists>x. map_of (mgr_programs m') (p_ID p) = Some x \<and> compiled_for m p x)"
  using assms
proof (induction ps arbitrary: m)
  case (Cons p ps)
  obtain m1 where m1: "compilePolicy m p = (None, m1)" and r: "compileAll ps m1 = (None, m')"
    using Cons.prems(1) by (auto split: prod.splits option.splits)
  obtain x where x: "m1 = m\<lparr>mgr_programs := alist_put (p_ID p) x (mgr_programs m)\<rparr>" "compiled_for m p x"
    using compilePolicy_ok [OF m1] by auto
  have c: "compiled_for m1 = compiled_for m" by (simp add: x(1) compiled_for_def fun_eq_iff)
  have "distinct (map p_ID ps)" using Cons.prems(2) by simp
  note ih = Cons.IH [OF r this, unfolded c]
  have f: "mgr_store m1 = mgr_store m" "mgr_engines m1 = mgr_engines m"
    "map_of (mgr_programs m1) = (map_of (mgr_programs m))(p_ID p \<mapsto> x)" by (simp_all add: x(1) map_of_alist_put)
  from ih Cons.prems(2) x(2) show ?case unfolding f by auto
qed simp

lemma ReloadPolicies_inv:
  assumes okm: "ok (mgr_store m)" and sound: "engines_sound m" and r: "ReloadPolicies S m = (None, m')"
  shows "mgr_inv m' \<and> mgr_store m' = mgr_store m"
proof -
  let ?m = "m\<lparr>mgr_programs := []\<rparr>"
  obtain ps where ps: "ps_List S (mgr_store m) = Inr ps" and c: "compileAll ps ?m = (None, m')"
    using r by (auto simp: ReloadPolicies_def Let_def split: sum.splits)
  note l = list_set [OF okm ps] list_distinct [OF okm ps]
  note m' = compileAll_ok [OF c l(2)]
  have cf: "compiled_for m' = compiled_for ?m" using m' by (simp add: compiled_for_def fun_eq_iff)
  have "rel_option (compiled_for m') (content (mgr_store m) i) (map_of (mgr_programs m') i)" for i
  proof (cases "content (mgr_store m) i")
    case None
    then have "i \<notin> p_ID ` set ps" using l(1) ids [OF okm] by auto
    with m' None show ?thesis by simp
  next
    case (Some p)
    then have "p \<in> set ps" "p_ID p = i" using l(1) ids [OF okm] by auto
    with m' Some show ?thesis by (auto simp: cf)
  qed
  moreover have "engines_sound m'" using sound m' by (simp add: engines_sound_def)
  ultimately show ?thesis using okm m' by (simp add: mgr_inv_def)
qed

end

end
