(* ===== verification/Policy_Engine.thy ===== *)
theory Policy_Engine
  imports Policy_Manager_Props Payload_Builder
begin

text \<open>
  Access to event fields (\<^verbatim>\<open>src/pkg/policy/accessor.go\<close>) and the policy engine (\<^verbatim>\<open>engine.go\<close>), which evaluates
  every enabled policy on an event.
\<close>

section \<open>Event fields\<close>

fun splitDot :: "string \<Rightarrow> string list" where
  "splitDot [] = [[]]"
| "splitDot (c # cs) =
     (if c = CHR ''.'' then [] # splitDot cs
      else case splitDot cs of [] \<Rightarrow> [[c]] | p # ps \<Rightarrow> (c # p) # ps)"

definition TrimPrefix :: "string \<Rightarrow> string \<Rightarrow> string" where
  "TrimPrefix s p = (if prefix p s then drop (length p) s else s)"

text \<open>Values here are no structs, so the access by reflection always fails.\<close>

fun walk :: "string list \<Rightarrow> govalue \<Rightarrow> string + govalue" where
  "walk [] v = Inr v"
| "walk (part # parts) v =
     (case v of
        VMap m \<Rightarrow> (case map_of m part of Some w \<Rightarrow> walk parts w | None \<Rightarrow> Inl (''field not found: '' @ part))
      | VAnyMap m \<Rightarrow> (case map_of m (VString part) of Some w \<Rightarrow> walk parts w | None \<Rightarrow> Inl (''field not found: '' @ part))
      | _ \<Rightarrow> Inl (''field not found: '' @ part))"

definition getFromMap :: "gomap \<Rightarrow> string \<Rightarrow> string + govalue" where
  "getFromMap d path = (if path = '''' then Inr (VMap d) else walk (splitDot path) (VMap d))"

definition Accessor_Get :: "Event \<Rightarrow> string \<Rightarrow> string + govalue" where
  "Accessor_Get e path =
     (case GetField e path of
        Some v \<Rightarrow> Inr v
      | None \<Rightarrow> getFromMap (ToPayloadMap e) (TrimPrefix path ''payload.''))"

definition Accessor_GetString :: "gofmt \<Rightarrow> Event \<Rightarrow> string \<Rightarrow> string" where
  "Accessor_GetString F e path =
     (case Accessor_Get e path of Inl _ \<Rightarrow> '''' | Inr (VString s) \<Rightarrow> s | Inr v \<Rightarrow> fmt_v F v)"

definition Accessor_GetInt :: "Event \<Rightarrow> string \<Rightarrow> int" where
  "Accessor_GetInt e path =
     (case Accessor_Get e path of
        Inr (VInt n) \<Rightarrow> n
      | Inr (VInt64 n) \<Rightarrow> n
      | Inr (VFloat q) \<Rightarrow> truncate_float q
      | _ \<Rightarrow> 0)"

definition Accessor_GetBool :: "Event \<Rightarrow> string \<Rightarrow> bool" where
  "Accessor_GetBool e path = (case Accessor_Get e path of Inr (VBool b) \<Rightarrow> b | _ \<Rightarrow> False)"

definition HasField :: "Event \<Rightarrow> string \<Rightarrow> bool" where
  "HasField e path \<longleftrightarrow> (case Accessor_Get e path of Inl _ \<Rightarrow> False | Inr _ \<Rightarrow> True)"

definition Accessor_ToMap :: "Event \<Rightarrow> gomap" where
  "Accessor_ToMap e =
     [(''id'', VString (ev_ID e)), (''type'', VString (ev_Type e)), (''topic'', VString (ev_Topic e)),
      (''timestamp'', VInt64 (unixSeconds (ev_Timestamp e))), (''source'', VString (ev_Source e)),
      (''trace_id'', VString (ev_TraceID e))]
     @ (if ToPayloadMap e \<noteq> [] then [(''payload'', VMap (ToPayloadMap e))] else [])"

definition strKeys :: "(govalue \<times> govalue) list \<Rightarrow> gomap" where
  "strKeys m = List.map_filter (\<lambda>(k, v). case k of VString s \<Rightarrow> Some (s, v) | _ \<Rightarrow> None) m"

lemma strKeys_size: "size_list (\<lambda>p. Suc (size (snd p))) (strKeys m) \<le> size_list (\<lambda>p. Suc (size (snd p))) m"
  by (induction m) (auto simp: strKeys_def List.map_filter_simps split: govalue.splits prod.splits)

definition joinKey :: "string \<Rightarrow> string \<Rightarrow> string" where
  "joinKey pre key = (if pre \<noteq> '''' then pre @ ''.'' @ key else key)"

function expandMap :: "gomap \<Rightarrow> string \<Rightarrow> gomap \<Rightarrow> gomap" where
  "expandMap [] pre result = result"
| "expandMap ((key, value) # m) pre result =
     expandMap m pre
       (case value of
          VMap n \<Rightarrow> expandMap n (joinKey pre key) result
        | VAnyMap n \<Rightarrow> expandMap (strKeys n) (joinKey pre key) result
        | _ \<Rightarrow> alist_put (joinKey pre key) value result)"
  by pat_completeness auto

lemma size_VMap: "size_list (\<lambda>p. Suc (size (snd p))) m \<le> size (VMap m)" for m :: gomap
  by (induction m) auto

lemma size_VAnyMap: "size_list (\<lambda>p. Suc (size (snd p))) m \<le> size (VAnyMap m)"
  by (induction m) auto

termination expandMap
proof (relation "measure (\<lambda>(m, pre, result). size_list (\<lambda>p. Suc (size (snd p))) m)", goal_cases)
  case (2 key v m pre result n)
  then show ?case using size_VMap [of n] by simp
next
  case (3 key v m pre result n)
  then show ?case using strKeys_size [of n] size_VAnyMap [of n] by simp
qed auto

definition Flatten :: "Event \<Rightarrow> gomap" where
  "Flatten e = expandMap (ToPayloadMap e) '''' []"

definition BuildWithCustom :: "Event \<Rightarrow> gomap \<Rightarrow> gomap" where
  "BuildWithCustom e custom = fold (\<lambda>(k, v) d. alist_put k v d) custom (Accessor_ToMap e)"

definition BuildFlattened :: "Event \<Rightarrow> gomap" where
  "BuildFlattened e =
     alist_put ''source'' (VString (ev_Source e))
     (alist_put ''timestamp'' (VInt64 (unixSeconds (ev_Timestamp e)))
     (alist_put ''topic'' (VString (ev_Topic e))
     (alist_put ''type'' (VString (ev_Type e))
     (alist_put ''id'' (VString (ev_ID e)) (Flatten e)))))"

section \<open>The engine\<close>

record EngineStats =
  es_TotalMatches :: int
  es_TotalEvaluations :: int
  es_MatchRate :: rat
  es_AverageLatency :: int

record ('s, 'p) PolicyEngine =
  pe_manager :: "('s, 'p) PolicyManager"
  pe_maxConcurrentEvals :: int
  pe_stats :: EngineStats

definition NewDefaultPolicyEngine :: "('s, 'p) PolicyManager \<Rightarrow> ('s, 'p) PolicyEngine" where
  "NewDefaultPolicyEngine m =
     \<lparr>pe_manager = m, pe_maxConcurrentEvals = 50,
      pe_stats = \<lparr>es_TotalMatches = 0, es_TotalEvaluations = 0, es_MatchRate = 0, es_AverageLatency = 0\<rparr>\<rparr>"

definition showManagerError :: "manager_error \<Rightarrow> string" where
  "showManagerError e = (case e of NotCompiled i \<Rightarrow> ''policy not compiled: '' @ i | _ \<Rightarrow> '''')"

text \<open>\<open>elapsed\<close> is the measured evaluation time in milliseconds; \<^term>\<open>None\<close> stands for a panic.\<close>

definition evaluatePolicy :: "int \<Rightarrow> ('s, 'p) PolicyManager \<Rightarrow> gomap \<Rightarrow> Policy \<Rightarrow> PolicyMatch option" where
  "evaluatePolicy elapsed m eventData p =
     (let failed = (\<lambda>err. \<lparr>pm_PolicyID = p_ID p, pm_Matched = False, pm_EvaluationTime = 0, pm_Error = Some err,
                           pm_Expansion = p_Expansion p, pm_Timeout = p_Timeout p\<rparr>)
      in case GetCompiledProgram m (p_ID p) of
           Inl err \<Rightarrow> Some (failed (showManagerError err))
         | Inr program \<Rightarrow>
             (case DSLExpression_Evaluate program eventData of
                EvalPanic _ \<Rightarrow> None
              | EvalResult (Inl err) \<Rightarrow> Some (failed err)
              | EvalResult (Inr matched) \<Rightarrow>
                  Some \<lparr>pm_PolicyID = p_ID p, pm_Matched = matched, pm_EvaluationTime = elapsed, pm_Error = None,
                        pm_Expansion = p_Expansion p, pm_Timeout = p_Timeout p\<rparr>))"

definition updateStats :: "PolicyMatch list \<Rightarrow> int \<Rightarrow> EngineStats \<Rightarrow> EngineStats" where
  "updateStats results duration st =
     (let n = int (length results);
          evals = es_TotalEvaluations st + n;
          matches = es_TotalMatches st + int (length (filter pm_Matched results));
          st = st\<lparr>es_TotalEvaluations := evals, es_TotalMatches := matches\<rparr>
      in if evals > 0
         then st\<lparr>es_MatchRate := of_int matches / of_int evals,
                 es_AverageLatency := (es_AverageLatency st * (evals - n) + duration) div evals\<rparr>
         else st)"

datatype match_error = ListFailed policy_error | ContextError string

text \<open>
  The evaluations run concurrently and append their results as they finish: \<open>sched\<close> is the order in
  which they do, \<open>elapsed\<close> their times. \<open>cancel\<close>, if given, is the number of policies started when the
  wait for a slot finds the context done.
\<close>

definition Match ::
  "'s PolicyStore \<Rightarrow> (nat \<times> string) option \<Rightarrow> (Policy \<Rightarrow> nat) \<Rightarrow> (Policy \<Rightarrow> int) \<Rightarrow> int \<Rightarrow> ('s, 'p) PolicyEngine \<Rightarrow> Event
     \<Rightarrow> (match_error + PolicyMatch list) \<times> ('s, 'p) PolicyEngine" where
  "Match S cancel sched elapsed duration e event =
     (case ps_ListEnabled S (mgr_store (pe_manager e)) of
        Inl err \<Rightarrow> (Inl (ListFailed err), e)
      | Inr policies \<Rightarrow>
          (case cancel of
             Some (n, err) \<Rightarrow>
               if n < length policies then (Inl (ContextError err), e)
               else (let results = List.map_filter (\<lambda>p. evaluatePolicy (elapsed p) (pe_manager e) (Accessor_ToMap event) p)
                                     (sort_key sched policies)
                     in (Inr results, e\<lparr>pe_stats := updateStats results duration (pe_stats e)\<rparr>))
           | None \<Rightarrow>
               (let results = List.map_filter (\<lambda>p. evaluatePolicy (elapsed p) (pe_manager e) (Accessor_ToMap event) p)
                                (sort_key sched policies)
                in (Inr results, e\<lparr>pe_stats := updateStats results duration (pe_stats e)\<rparr>))))"

datatype evaluate_result = EvaluatePanic | EvaluateResult "(policy_error + string) + bool"

definition Evaluate :: "'s PolicyStore \<Rightarrow> ('s, 'p) PolicyEngine \<Rightarrow> string \<Rightarrow> Event \<Rightarrow> evaluate_result" where
  "Evaluate S e i event =
     (case ps_Get S (mgr_store (pe_manager e)) i of
        Inl err \<Rightarrow> EvaluateResult (Inl (Inl err))
      | Inr p \<Rightarrow>
          (case evaluatePolicy 0 (pe_manager e) (Accessor_ToMap event) p of
             None \<Rightarrow> EvaluatePanic
           | Some m \<Rightarrow>
               (case pm_Error m of
                  Some err \<Rightarrow> EvaluateResult (Inl (Inr err))
                | None \<Rightarrow> EvaluateResult (Inr (pm_Matched m)))))"

text \<open>
  \<open>Init\<close>: \<open>section\<close> is the \<^verbatim>\<open>[policy]\<close> table of the configuration, \<open>maxEvals\<close> and \<open>timeout\<close> (already parsed)
  its settings; a created engine gets the timeout through \<open>setTimeout\<close>.
\<close>

definition Engine_Init ::
  "'p DSLEngineFactory \<Rightarrow> (duration \<Rightarrow> 'p DSLEngine \<Rightarrow> 'p DSLEngine) \<Rightarrow> gomap option \<Rightarrow> int \<Rightarrow> duration option
     \<Rightarrow> ('s, 'p) PolicyEngine \<Rightarrow> string option \<times> ('s, 'p) PolicyEngine" where
  "Engine_Init factory setTimeout section maxEvals timeout e =
     (let e = e\<lparr>pe_maxConcurrentEvals := 50\<rparr>
      in case section of
           None \<Rightarrow> (None, e)
         | Some policyMap \<Rightarrow>
             (let e = (if maxEvals > 0 then e\<lparr>pe_maxConcurrentEvals := maxEvals\<rparr> else e);
                  dslEngineType = (case map_of policyMap ''type'' of Some (VString s) \<Rightarrow> s | _ \<Rightarrow> '''')
              in if dslEngineType = '''' then (Some ''policy.type is required when [policy] section is configured'', e)
                 else case DSLFactory_Create factory dslEngineType of
                        Inl err \<Rightarrow> (Some (''create DSL engine: '' @ err), e)
                      | Inr dslEngine \<Rightarrow>
                          (let dslEngine = (case timeout of Some d \<Rightarrow> if d > 0 then setTimeout d dslEngine else dslEngine
                                            | None \<Rightarrow> dslEngine)
                           in (None, e\<lparr>pe_manager := RegisterEngine (pe_manager e) dslEngine\<rparr>))))"

definition Engine_Start :: "'s PolicyStore \<Rightarrow> ('s, 'p) PolicyEngine \<Rightarrow> manager_error option \<times> ('s, 'p) PolicyEngine" where
  "Engine_Start S e = (case ReloadPolicies S (pe_manager e) of (err, m) \<Rightarrow> (err, e\<lparr>pe_manager := m\<rparr>))"

end
