(* ===== verification/Policy_Props.thy ===== *)
theory Policy_Props
  imports Policy_Engine
begin

text \<open>
  Properties of the policy component: whatever was added, changed, switched or removed before, an
  event is matched against the current expressions of exactly the enabled policies; updates are
  protected by versions in both stores; the statistics are consistent.
\<close>

section \<open>Matching\<close>

text \<open>The verdict on a policy computed from its own expression, without the cache of programs.\<close>

definition evalDSL :: "('s, 'p) PolicyManager \<Rightarrow> gomap \<Rightarrow> Policy \<Rightarrow> eval_outcome" where
  "evalDSL m d p =
     (case map_of (mgr_engines m) (p_DSLEngine p) of
        None \<Rightarrow> EvalResult (Inl ''no engine'')
      | Some e \<Rightarrow> (case de_Compile e (p_DSL p) of
                    Inl err \<Rightarrow> EvalResult (Inl err)
                  | Inr prog \<Rightarrow> de_Evaluate e prog d))"

definition matchOf :: "int \<Rightarrow> Policy \<Rightarrow> eval_outcome \<Rightarrow> PolicyMatch option" where
  "matchOf elapsed p r =
     (case r of
        EvalPanic _ \<Rightarrow> None
      | EvalResult (Inl err) \<Rightarrow>
          Some \<lparr>pm_PolicyID = p_ID p, pm_Matched = False, pm_EvaluationTime = 0, pm_Error = Some err,
                pm_Expansion = p_Expansion p, pm_Timeout = p_Timeout p\<rparr>
      | EvalResult (Inr b) \<Rightarrow>
          Some \<lparr>pm_PolicyID = p_ID p, pm_Matched = b, pm_EvaluationTime = elapsed, pm_Error = None,
                pm_Expansion = p_Expansion p, pm_Timeout = p_Timeout p\<rparr>)"

lemma evaluate_compiled:
  assumes "map_of (mgr_programs m) (p_ID p) = Some x" "compiled_for m p x"
  shows "evaluatePolicy elapsed m d p = matchOf elapsed p (evalDSL m d p)"
  using assms
  by (auto simp: evaluatePolicy_def GetCompiledProgram_def compiled_for_def DSLExpression_Evaluate_def evalDSL_def
      matchOf_def Let_def split: eval_outcome.split sum.split)

lemma matchOf_id: "matchOf elapsed p r = Some a \<Longrightarrow> pm_PolicyID a = p_ID p"
  by (auto simp: matchOf_def split: eval_outcome.splits sum.splits)

lemma distinct_map_filter_key:
  assumes "distinct (map k xs)" "\<And>x y. x \<in> set xs \<Longrightarrow> f x = Some y \<Longrightarrow> h y = k x"
  shows "distinct (map h (List.map_filter f xs))"
  using assms
proof (induction xs)
  case (Cons x xs)
  have "h y \<noteq> k x" if y: "y \<in> set (List.map_filter f xs)" for y
  proof -
    obtain z where z: "z \<in> set xs" "f z = Some y" using y unfolding set_map_filter_iff by blast
    then have "h y = k z" using Cons.prems(2) by simp
    moreover have "k z \<noteq> k x" using Cons.prems(1) z(1) by (auto simp: image_iff)
    ultimately show ?thesis by simp
  qed
  with Cons show ?case by (fastforce simp: List.map_filter_simps split: option.split)
qed (simp add: List.map_filter_simps)

context policy_store
begin

lemma match_results:
  assumes inv: "mgr_inv (pe_manager e)" and l: "ps_ListEnabled S (mgr_store (pe_manager e)) = Inr ps"
    and r: "Match S None sched elapsed dur e event = (res, e')"
  shows "\<exists>rs. res = Inr rs \<and> distinct (map pm_PolicyID rs) \<and> pe_manager e' = pe_manager e
     \<and> pe_stats e' = updateStats rs dur (pe_stats e)
     \<and> (\<forall>a. a \<in> set rs \<longleftrightarrow> (\<exists>p. content (mgr_store (pe_manager e)) (p_ID p) = Some p \<and> p_Enabled p
           \<and> matchOf (elapsed p) p (evalDSL (pe_manager e) (Accessor_ToMap event) p) = Some a))"
proof -
  let ?m = "pe_manager e" and ?d = "Accessor_ToMap event"
  let ?ev = "\<lambda>p. evaluatePolicy (elapsed p) ?m ?d p"
  let ?rs = "List.map_filter ?ev (sort_key sched ps)"
  have okm: "ok (mgr_store ?m)" using inv by (simp add: mgr_inv_def)
  obtain all where all: "ps_List S (mgr_store ?m) = Inr all" "mset ps = mset (filter p_Enabled all)"
    using enabled [OF okm l] by blast
  have sp: "p \<in> set ps \<longleftrightarrow> content (mgr_store ?m) (p_ID p) = Some p \<and> p_Enabled p" for p
    using mset_eq_setD [OF all(2)] list_set [OF okm all(1)] ids [OF okm] by auto
  have "mset (map p_ID ps) = mset (map p_ID (filter p_Enabled all))" using all(2) by simp
  then have dp: "distinct (map p_ID ps)"
    using list_distinct [OF okm all(1)] distinct_map_filter [of p_ID all p_Enabled] by (metis mset_eq_imp_distinct_iff)
  then have dp': "distinct (map p_ID (sort_key sched ps))" by (metis mset_map mset_sort mset_eq_imp_distinct_iff)
  have ev: "?ev p = matchOf (elapsed p) p (evalDSL ?m ?d p)" if p: "p \<in> set ps" for p
  proof -
    have "rel_option (compiled_for ?m) (content (mgr_store ?m) (p_ID p)) (map_of (mgr_programs ?m) (p_ID p))"
      using inv by (simp add: mgr_inv_def)
    then obtain x where "map_of (mgr_programs ?m) (p_ID p) = Some x" "compiled_for ?m p x"
      using p sp by (auto simp: option_rel_Some1)
    then show ?thesis by (rule evaluate_compiled)
  qed
  have "distinct (map pm_PolicyID ?rs)"
    by (rule distinct_map_filter_key [OF dp']) (use ev matchOf_id in auto)
  moreover have "a \<in> set ?rs \<longleftrightarrow> (\<exists>p. content (mgr_store ?m) (p_ID p) = Some p \<and> p_Enabled p
           \<and> matchOf (elapsed p) p (evalDSL ?m ?d p) = Some a)" for a
    unfolding set_map_filter_iff using sp ev by auto
  ultimately show ?thesis using r l by (auto simp: Match_def Let_def)
qed

end

section \<open>The manager over time\<close>

type_synonym 'p mem_manager = "(MemoryPolicyStore, 'p) PolicyManager"

inductive mgr_step :: "'p mem_manager \<Rightarrow> 'p mem_manager \<Rightarrow> bool" where
  add: "AddPolicy (memoryPolicyStore rank) m p = (err, m') \<Longrightarrow> mgr_step m m'"
| update: "UpdatePolicy (memoryPolicyStore rank) m p = (err, m') \<Longrightarrow> mgr_step m m'"
| remove: "RemovePolicy (memoryPolicyStore rank) m i = (err, m') \<Longrightarrow> mgr_step m m'"
| enable: "EnablePolicy (memoryPolicyStore rank) m i = (err, m') \<Longrightarrow> mgr_step m m'"
| disable: "DisablePolicy (memoryPolicyStore rank) m i = (err, m') \<Longrightarrow> mgr_step m m'"
| reload: "ReloadPolicies (memoryPolicyStore rank) m = (None, m') \<Longrightarrow> mgr_step m m'"

lemma mgr_step_inv: "mgr_step m m' \<Longrightarrow> mps.mgr_inv m \<Longrightarrow> mps.mgr_inv m'"
proof (induction rule: mgr_step.induct)
  case (add rank m p err m')
  then show ?case using mps.AddPolicy_cases by blast
next
  case (update rank m p err m')
  then show ?case using mps.UpdatePolicy_cases by blast
next
  case (remove rank m i err m')
  then show ?case using mps.RemovePolicy_inv by blast
next
  case (enable rank m i err m')
  then show ?case unfolding EnablePolicy_def using mps.setEnabled_inv by blast
next
  case (disable rank m i err m')
  then show ?case unfolding DisablePolicy_def using mps.setEnabled_inv by blast
next
  case (reload rank m m')
  then show ?case using mps.ReloadPolicies_inv [OF _ _ reload(1)] by (auto simp: mps.mgr_inv_def)
qed

lemma newManager_inv:
  assumes "engine_sound eng"
  shows "mps.mgr_inv (RegisterEngine (NewDefaultPolicyManager NewMemoryPolicyStore) eng)"
  using assms
  by (auto simp: mps.mgr_inv_def RegisterEngine_def NewDefaultPolicyManager_def engines_sound_def mps_content_def
      NewMemoryPolicyStore_def [symmetric]) (simp_all add: NewMemoryPolicyStore_def)

lemma mgr_reachable_inv:
  assumes "mgr_step\<^sup>*\<^sup>* (RegisterEngine (NewDefaultPolicyManager NewMemoryPolicyStore) eng) m" "engine_sound eng"
  shows "mps.mgr_inv m"
  using assms(1) by (induction rule: rtranclp_induct) (use newManager_inv [OF assms(2)] mgr_step_inv in blast)+


section \<open>Versions\<close>

text \<open>
  Both policy stores refuse the second of two updates made from the same version of a policy
  and keep the first: in the in-memory store and in the store over a database.
\<close>

theorem policy_update_lost_update:
  "(mps_ok s \<and> ps_Update (memoryPolicyStore rank) s p = (None, p', s') \<and> p_ID q = p_ID p \<and> p_Version q = p_Version p \<longrightarrow>
      fst (ps_Update (memoryPolicyStore rank) s' q) \<noteq> None
      \<and> mps_content s' (p_ID p) = Some (copyPolicy (p\<lparr>p_Version := p_Version p + 1\<rparr>)))
   \<and> (eps_ok mem_view mem_ok d \<and> ps_Update (enginePolicyStoreOps (memoryDB rank)) d p = (None, p'', d')
      \<and> p_ID q = p_ID p \<and> p_Version q = p_Version p \<longrightarrow>
      fst (ps_Update (enginePolicyStoreOps (memoryDB rank)) d' q) \<noteq> None
      \<and> eps_content mem_view d' (p_ID p) = Some (stored (p\<lparr>p_Version := p_Version p + 1\<rparr>)))"
  using mps.second_update_refused [of s rank p p' s' q] mps.update_ok [of s rank p p' s']
    pdb.ps.second_update_refused [of d rank p p'' d' q] pdb.ps.update_ok [of d rank p p'' d']
  by auto

section \<open>Statistics\<close>

definition stats_ok :: "EngineStats \<Rightarrow> bool" where
  "stats_ok st \<longleftrightarrow> 0 \<le> es_TotalMatches st \<and> es_TotalMatches st \<le> es_TotalEvaluations st
     \<and> es_MatchRate st = (if es_TotalEvaluations st = 0 then 0 else of_int (es_TotalMatches st) / of_int (es_TotalEvaluations st))"

lemma updateStats_ok: "stats_ok st \<Longrightarrow> stats_ok (updateStats rs dur st)"
proof -
  assume st: "stats_ok st"
  define a b where "a = int (length (filter pm_Matched rs))" and "b = int (length rs)"
  have "0 \<le> a" "a \<le> b" by (simp_all add: a_def b_def)
  with st show ?thesis unfolding updateStats_def a_def [symmetric] b_def [symmetric]
    by (auto simp: stats_ok_def Let_def)
qed

text \<open>
  Matching keeps the statistics consistent: the matches never exceed the evaluations, and the
  match rate is their exact quotient, between 0 and 1.
\<close>

theorem match_statistics:
  assumes "stats_ok (pe_stats e)"
  shows "stats_ok (pe_stats (snd (Match S cancel sched elapsed dur e event)))
     \<and> 0 \<le> es_MatchRate (pe_stats (snd (Match S cancel sched elapsed dur e event)))
     \<and> es_MatchRate (pe_stats (snd (Match S cancel sched elapsed dur e event))) \<le> 1"
proof -
  have "stats_ok (pe_stats (snd (Match S cancel sched elapsed dur e event)))"
    using assms updateStats_ok by (auto simp: Match_def Let_def split: sum.split option.split prod.split)
  then show ?thesis by (auto simp: stats_ok_def divide_le_eq_1)
qed

section \<open>An example\<close>

text \<open>A toy CEL environment in which the expression is the type of event to match.\<close>

definition typeEnv :: "(string, string) cel_env" where
  "typeEnv = \<lparr>cel_Parse = (\<lambda>s. if s = ''!'' then Inl ''bad'' else Inr s), cel_Check = (\<lambda>_. None), cel_Program = Inr,
     cel_Eval = (\<lambda>prog vars. case map_of vars ''event'' of
        Some (VMap m) \<Rightarrow> (case map_of m ''type'' of Some (VString t) \<Rightarrow> Inr (CelBool (t = prog)) | _ \<Rightarrow> Inl ''no type'')
      | _ \<Rightarrow> Inl ''no event'')\<rparr>"

definition typeEngine :: "string DSLEngine" where
  "typeEngine = celEngine (\<lambda>_. []) ResultFirst \<lparr>ce_env = typeEnv, ce_evaluationTimeout = 5 * second\<rparr>"

definition startPolicy :: Policy where
  "startPolicy = \<lparr>p_ID = ''p1'', p_Description = '''', p_Enabled = True, p_DSL = ''start'', p_DSLEngine = ''cel'',
     p_Expansion = None, p_Timeout = ''5m'', p_Version = 0\<rparr>"

definition emptyManager :: "string mem_manager" where
  "emptyManager = RegisterEngine (NewDefaultPolicyManager NewMemoryPolicyStore) typeEngine"

definition oneManager :: "string mem_manager" where
  "oneManager = snd (AddPolicy (memoryPolicyStore length) emptyManager startPolicy)"

definition startEvent :: Event where
  "startEvent = NewEvent ''e1'' 1 ''start'' ''topic'' ''src''"

lemma typeEngine_simps:
  "engine_sound typeEngine" "de_Type typeEngine = ''cel''" "de_Validate typeEngine ''start'' = None"
  "de_Compile typeEngine ''start'' = Inr ''start''"
  using celEngine_sound [of "\<lambda>_. []" ResultFirst "\<lparr>ce_env = typeEnv, ce_evaluationTimeout = 5 * second\<rparr>"]
  by (simp_all add: typeEngine_def) (simp_all add: celEngine_def CEngine_Validate_def CEngine_Compile_def typeEnv_def)

lemma oneManager_facts:
  "mgr_step emptyManager oneManager" "mgr_engines oneManager = [(''cel'', typeEngine)]"
  "mps_content (mgr_store oneManager) ''p1'' = Some (copyPolicy (startPolicy\<lparr>p_Version := 1\<rparr>))"
proof -
  have e: "mgr_engines emptyManager = [(''cel'', typeEngine)]" "mgr_store emptyManager = NewMemoryPolicyStore"
    "mgr_programs emptyManager = []"
    by (simp_all add: emptyManager_def RegisterEngine_def NewDefaultPolicyManager_def typeEngine_simps)
  have s: "p_ID startPolicy = ''p1''" "p_DSL startPolicy = ''start''" "p_DSLEngine startPolicy = ''cel''"
    by (simp_all add: startPolicy_def)
  obtain err m' where a: "AddPolicy (memoryPolicyStore length) emptyManager startPolicy = (err, m')" by (rule prod.exhaust)
  then have m': "oneManager = m'" by (simp add: oneManager_def)
  show "mgr_step emptyManager oneManager" unfolding m' by (rule mgr_step.add [OF a])
  show "mgr_engines oneManager = [(''cel'', typeEngine)]"
    "mps_content (mgr_store oneManager) ''p1'' = Some (copyPolicy (startPolicy\<lparr>p_Version := 1\<rparr>))"
    unfolding oneManager_def
    by (simp_all add: AddPolicy_def validatePolicy_def compilePolicy_def e s typeEngine_simps mps_defs NewMemoryPolicyStore_def Let_def)
qed


theorem policy_update_lost_update_witness:
  "fst (ps_Update (memoryPolicyStore length) (mgr_store oneManager) (startPolicy\<lparr>p_Version := 1\<rparr>)) = None
   \<and> fst (ps_Update (memoryPolicyStore length)
          (snd (snd (ps_Update (memoryPolicyStore length) (mgr_store oneManager) (startPolicy\<lparr>p_Version := 1\<rparr>))))
          (startPolicy\<lparr>p_Version := 1\<rparr>)) \<noteq> None"
proof -
  let ?p = "startPolicy\<lparr>p_Version := 1\<rparr>"
  have "mps.mgr_inv oneManager"
    using mgr_reachable_inv [of typeEngine oneManager] oneManager_facts(1) typeEngine_simps(1) by (auto simp: emptyManager_def)
  then have ok: "mps_ok (mgr_store oneManager)" by (simp add: mps.mgr_inv_def)
  obtain p' s' where u: "ps_Update (memoryPolicyStore length) (mgr_store oneManager) ?p = (None, p', s')"
    using oneManager_facts(3) by (simp add: mps_defs startPolicy_def Let_def)
  from policy_update_lost_update [of "mgr_store oneManager" length ?p p' s' ?p] ok u show ?thesis by auto
qed

theorem match_statistics_witness:
  "stats_ok (pe_stats (snd (Match (memoryPolicyStore length) None (\<lambda>_. 0) (\<lambda>_. 3) 7 (NewDefaultPolicyEngine oneManager) startEvent)))"
proof -
  have "stats_ok (pe_stats (NewDefaultPolicyEngine oneManager))" by (simp add: stats_ok_def NewDefaultPolicyEngine_def)
  from match_statistics [OF this] show ?thesis by blast
qed

end
