(* ===== verification/Core_Events.thy ===== *)
theory Core_Events
  imports Core_Flow Policy_Props
begin

text \<open>
  From an event to a task (\<^verbatim>\<open>src/pkg/core/core.go\<close>, \<^verbatim>\<open>processEvents\<close> and \<^verbatim>\<open>processMatchedEvent\<close>): an event of the
  data sources is matched, and for every match an event is put on the bounded channel from which the
  task handler takes it. Payload maps are shared between the event and the events made for its matches,
  so they live in an explicit heap: an event reference is an event without its payload, and the address of
  the payload (none for a nil map).
\<close>

type_synonym event_ref = "Event \<times> nat option"

record Flow =
  fl_heap :: "nat \<Rightarrow> gomap"
  fl_next :: nat
  fl_ch :: "event_ref list"
  fl_cap :: nat

definition deref :: "(nat \<Rightarrow> gomap) \<Rightarrow> event_ref \<Rightarrow> Event" where
  "deref h r = (fst r)\<lparr>ev_Payload := map_option h (snd r)\<rparr>"

definition putPayload :: "nat \<Rightarrow> string \<Rightarrow> string \<Rightarrow> Flow \<Rightarrow> Flow" where
  "putPayload a key v f = f\<lparr>fl_heap := (fl_heap f)(a := alist_put key (VString v) (fl_heap f a))\<rparr>"

definition stringExpansion :: "gomap option \<Rightarrow> strmap" where
  "stringExpansion m = (case m of None \<Rightarrow> []
     | Some kvs \<Rightarrow> List.map_filter (\<lambda>(k, v). case v of VString s \<Rightarrow> Some (k, s) | _ \<Rightarrow> None) kvs)"

text \<open>\<open>uuid\<close> and \<open>now\<close> make the new event, \<open>unixNow\<close> is its payload's time; \<open>coreCtx\<close> the core's context.\<close>

definition matchedEvent :: "gocontext option \<Rightarrow> string \<Rightarrow> gotime \<Rightarrow> int \<Rightarrow> PolicyMatch \<Rightarrow> event_ref option \<Rightarrow> Event" where
  "matchedEvent coreCtx uuid now unixNow m src =
     (let sourceCtx = (case src of Some (e, _) \<Rightarrow> (case ev_Ctx e of None \<Rightarrow> coreCtx | Some c \<Rightarrow> Some c) | None \<Rightarrow> coreCtx)
      in (WithContext (NewEvent uuid now ''PolicyMatched'' ''policy.matched'' ''policy-engine'') sourceCtx)
         \<lparr>ev_TypedPayload := Some (Event_Policy (Some
            \<lparr>pol_PolicyId = pm_PolicyID m,
             pol_TriggerEventType = (case src of Some (e, _) \<Rightarrow> ev_Type e | None \<Rightarrow> ''''),
             pol_TriggerEventSource = '''',
             pol_TriggerEventId = (case src of Some (e, _) \<Rightarrow> ev_ID e | None \<Rightarrow> ''''),
             pol_Timestamp = unixNow, pol_Extensions = Some (stringExpansion (pm_Expansion m))\<rparr>))\<rparr>)"

definition processMatchedEvent ::
  "gocontext option \<Rightarrow> string \<Rightarrow> gotime \<Rightarrow> int \<Rightarrow> PolicyMatch \<Rightarrow> event_ref option \<Rightarrow> Flow \<Rightarrow> Flow" where
  "processMatchedEvent coreCtx uuid now unixNow m src f =
     (let (a, f) = (case src of Some (_, Some a) \<Rightarrow> (a, f)
                    | _ \<Rightarrow> (fl_next f, f\<lparr>fl_heap := (fl_heap f)(fl_next f := []), fl_next := fl_next f + 1\<rparr>));
          f = putPayload a ''policy_id'' (pm_PolicyID m) f;
          f = (case src of None \<Rightarrow> f
               | Some (e, _) \<Rightarrow> putPayload a ''trigger_event_id'' (ev_ID e) (putPayload a ''trigger_event_type'' (ev_Type e) f));
          f = putPayload a ''policy_timeout'' (pm_Timeout m) f
      in if length (fl_ch f) < fl_cap f
         then f\<lparr>fl_ch := fl_ch f @ [(matchedEvent coreCtx uuid now unixNow m src, Some a)]\<rparr>
         else f)"

section \<open>One event\<close>

text \<open>The stamps of a match: identifier and time of the log entry, and of the matched event.\<close>

record flow_stamps =
  fs_logID :: string
  fs_logTime :: gotime
  fs_uuid :: string
  fs_time :: gotime
  fs_unix :: int

definition sourceLogEntry :: "string \<Rightarrow> Event \<Rightarrow> EventLogEntry" where
  "sourceLogEntry uuid e =
     emptyEntry\<lparr>le_ID := uuid, le_TraceID := ev_TraceID e, le_EventID := ev_ID e, le_Stage := StageDataSource,
       le_EventType := ev_Type e, le_Source := ev_Source e, le_Timestamp := ev_Timestamp e\<rparr>"

definition matchLogEntry :: "string \<Rightarrow> gotime \<Rightarrow> Event \<Rightarrow> PolicyMatch \<Rightarrow> EventLogEntry" where
  "matchLogEntry uuid now e m =
     emptyEntry\<lparr>le_ID := uuid, le_TraceID := ev_TraceID e, le_EventID := ev_ID e, le_Stage := StagePolicyMatch,
       le_EventType := ''PolicyMatched'', le_Source := ''policy-engine'', le_Timestamp := now,
       le_Payload := Some [(''policy_id'', VString (pm_PolicyID m))]\<rparr>"

fun matchLoop ::
  "'w outputs \<Rightarrow> gocontext option \<Rightarrow> (PolicyMatch \<Rightarrow> flow_stamps) \<Rightarrow> event_ref \<Rightarrow> PolicyMatch list \<Rightarrow> 'w \<times> Flow \<Rightarrow> 'w \<times> Flow" where
  "matchLoop out coreCtx st src [] x = x"
| "matchLoop out coreCtx st src (m # ms) (w, f) =
     (if \<not> pm_Matched m then matchLoop out coreCtx st src ms (w, f)
      else matchLoop out coreCtx st src ms
             (appendLog out (matchLogEntry (fs_logID (st m)) (fs_logTime (st m)) (fst src) m) w,
              processMatchedEvent coreCtx (fs_uuid (st m)) (fs_time (st m)) (fs_unix (st m)) m (Some src) f))"

text \<open>
  One round of \<^verbatim>\<open>processEvents\<close>: a nil event is skipped; \<open>admitted\<close> says whether the wait for the rate limiter
  succeeded. Spans only pass the context on.
\<close>

definition processEvent ::
  "'s PolicyStore \<Rightarrow> 'w outputs \<Rightarrow> gocontext option \<Rightarrow> string \<Rightarrow> bool \<Rightarrow> (nat \<times> string) option \<Rightarrow> (Policy \<Rightarrow> nat)
     \<Rightarrow> (Policy \<Rightarrow> int) \<Rightarrow> int \<Rightarrow> (PolicyMatch \<Rightarrow> flow_stamps) \<Rightarrow> event_ref option
     \<Rightarrow> ('s, 'p) PolicyEngine \<times> 'w \<times> Flow \<Rightarrow> ('s, 'p) PolicyEngine \<times> 'w \<times> Flow" where
  "processEvent S out coreCtx uuid admitted cancel sched elapsed dur st event s =
     (case s of (pe, w, f) \<Rightarrow>
       case event of
         None \<Rightarrow> (pe, w, f)
       | Some src \<Rightarrow>
           (let w = appendLog out (sourceLogEntry uuid (fst src)) w
            in if \<not> admitted then (pe, w, f)
               else case Match S cancel sched elapsed dur pe (deref (fl_heap f) src) of
                      (Inl _, pe) \<Rightarrow> (pe, w, f)
                    | (Inr matches, pe) \<Rightarrow> (pe, matchLoop out coreCtx st src matches (w, f))))"

text \<open>The task handler takes the next matched event off the channel and reads its payload then.\<close>

definition takeMatched :: "Flow \<Rightarrow> (Event \<times> Flow) option" where
  "takeMatched f = (case fl_ch f of [] \<Rightarrow> None | r # rs \<Rightarrow> Some (deref (fl_heap f) r, f\<lparr>fl_ch := rs\<rparr>))"

section \<open>What a queued event says\<close>

definition clear_of :: "string \<Rightarrow> PolicyMatch \<Rightarrow> bool" where
  "clear_of key m \<longleftrightarrow> map_of (stringExpansion (pm_Expansion m)) key = None"

lemma putPayload_simps [simp]:
  "fl_ch (putPayload a k v f) = fl_ch f" "fl_cap (putPayload a k v f) = fl_cap f" "fl_next (putPayload a k v f) = fl_next f"
  "map_of (fl_heap (putPayload a k v f) a) k' = (if k' = k then Some (VString v) else map_of (fl_heap f a) k')"
  "b \<noteq> a \<Longrightarrow> fl_heap (putPayload a k v f) b = fl_heap f b"
  by (simp_all add: putPayload_def map_of_alist_put)

lemma matchedEvent_typed:
  "ev_TypedPayload (matchedEvent coreCtx uuid now unixNow m (Some src)) = Some (Event_Policy (Some
     \<lparr>pol_PolicyId = pm_PolicyID m, pol_TriggerEventType = ev_Type (fst src), pol_TriggerEventSource = '''',
      pol_TriggerEventId = ev_ID (fst src), pol_Timestamp = unixNow, pol_Extensions = Some (stringExpansion (pm_Expansion m))\<rparr>))"
  by (cases src) (simp add: matchedEvent_def Let_def)

lemma queued_timeout:
  assumes "clear_of ''policy_timeout'' m" "map_of (h a) ''policy_timeout'' = Some (VString s)"
  shows "GetPayloadString (deref h (matchedEvent coreCtx uuid now unixNow m (Some src), Some a)) ''policy_timeout'' = s"
  using assms
  by (simp add: GetPayloadString_def GetField_def deref_def matchedEvent_typed typedField_def getPolicyField_def extension_def
      clear_of_def)

lemma queued_policy:
  "pm_PolicyID m \<noteq> '''' \<Longrightarrow>
   GetPayloadString (deref h (matchedEvent coreCtx uuid now unixNow m (Some src), p)) ''policy_id'' = pm_PolicyID m"
  by (simp add: GetPayloadString_def GetField_def deref_def matchedEvent_typed typedField_def getPolicyField_def nonempty_def)

text \<open>The event made for a match and the address of its payload, when the source has none.\<close>

definition stampedEvent :: "gocontext option \<Rightarrow> (PolicyMatch \<Rightarrow> flow_stamps) \<Rightarrow> event_ref \<Rightarrow> PolicyMatch \<Rightarrow> Event" where
  "stampedEvent coreCtx st src m = matchedEvent coreCtx (fs_uuid (st m)) (fs_time (st m)) (fs_unix (st m)) m (Some src)"

definition flow_ok :: "Flow \<Rightarrow> bool" where
  "flow_ok f \<longleftrightarrow> length (fl_ch f) \<le> fl_cap f \<and> (\<forall>r \<in> set (fl_ch f). \<forall>a. snd r = Some a \<longrightarrow> a < fl_next f)"

lemma process_fresh:
  assumes src: "snd src = None"
  shows "\<exists>f'. processMatchedEvent coreCtx uuid now unixNow m (Some src) f = f' \<and> fl_cap f' = fl_cap f
     \<and> fl_next f' = fl_next f + 1 \<and> (\<forall>b < fl_next f. fl_heap f' b = fl_heap f b)
     \<and> map_of (fl_heap f' (fl_next f)) ''policy_timeout'' = Some (VString (pm_Timeout m))
     \<and> fl_ch f' = (if length (fl_ch f) < fl_cap f
          then fl_ch f @ [(matchedEvent coreCtx uuid now unixNow m (Some src), Some (fl_next f))] else fl_ch f)"
  using src by (cases src) (simp add: processMatchedEvent_def Let_def)

lemma process_shared:
  assumes src: "snd src = Some a"
  shows "\<exists>f'. processMatchedEvent coreCtx uuid now unixNow m (Some src) f = f' \<and> fl_cap f' = fl_cap f
     \<and> fl_next f' = fl_next f \<and> (\<forall>b. b \<noteq> a \<longrightarrow> fl_heap f' b = fl_heap f b)
     \<and> map_of (fl_heap f' a) ''policy_timeout'' = Some (VString (pm_Timeout m))
     \<and> fl_ch f' = (if length (fl_ch f) < fl_cap f
          then fl_ch f @ [(matchedEvent coreCtx uuid now unixNow m (Some src), Some a)] else fl_ch f)"
  using src by (cases src) (simp add: processMatchedEvent_def Let_def)

definition queued_as :: "gocontext option \<Rightarrow> (PolicyMatch \<Rightarrow> flow_stamps) \<Rightarrow> event_ref \<Rightarrow> Flow \<Rightarrow> nat \<Rightarrow> PolicyMatch \<Rightarrow> event_ref \<Rightarrow> bool" where
  "queued_as coreCtx st src f n m r \<longleftrightarrow> (\<exists>a. r = (stampedEvent coreCtx st src m, Some a) \<and> n \<le> a \<and> a < fl_next f
     \<and> map_of (fl_heap f a) ''policy_timeout'' = Some (VString (pm_Timeout m)))"

lemma fresh_loop:
  assumes "snd src = None" "matchLoop out coreCtx st src ms (w, f) = (w', f')"
  shows "\<exists>qs. fl_ch f' = fl_ch f @ qs \<and> fl_cap f' = fl_cap f \<and> fl_next f \<le> fl_next f' \<and> (\<forall>b < fl_next f. fl_heap f' b = fl_heap f b)
     \<and> list_all2 (queued_as coreCtx st src f' (fl_next f)) (take (fl_cap f - length (fl_ch f)) (filter pm_Matched ms)) qs"
  using assms(2)
proof (induction ms arbitrary: w f)
  case Nil
  then show ?case by auto
next
  case (Cons m ms)
  show ?case
  proof (cases "pm_Matched m")
    case False
    with Cons show ?thesis by simp
  next
    case True
    let ?f = "processMatchedEvent coreCtx (fs_uuid (st m)) (fs_time (st m)) (fs_unix (st m)) m (Some src) f"
    obtain w1 where r: "matchLoop out coreCtx st src ms (w1, ?f) = (w', f')" using Cons.prems True by auto
    have p: "fl_cap ?f = fl_cap f" "fl_next ?f = fl_next f + 1" "\<forall>b < fl_next f. fl_heap ?f b = fl_heap f b"
      "map_of (fl_heap ?f (fl_next f)) ''policy_timeout'' = Some (VString (pm_Timeout m))"
      "fl_ch ?f = (if length (fl_ch f) < fl_cap f then fl_ch f @ [(stampedEvent coreCtx st src m, Some (fl_next f))] else fl_ch f)"
      using process_fresh [OF assms(1)] by (simp_all add: stampedEvent_def)
    from Cons.IH [OF r] obtain qs where qs: "fl_ch f' = fl_ch ?f @ qs" "fl_cap f' = fl_cap f" "fl_next f + 1 \<le> fl_next f'"
      "\<forall>b < fl_next f + 1. fl_heap f' b = fl_heap ?f b"
      "list_all2 (queued_as coreCtx st src f' (fl_next f + 1)) (take (fl_cap f - length (fl_ch ?f)) (filter pm_Matched ms)) qs"
      unfolding p(1,2) by blast
    have weaker: "list_all2 (queued_as coreCtx st src f' (fl_next f)) (take (fl_cap f - length (fl_ch ?f)) (filter pm_Matched ms)) qs"
      using qs(5) by (rule list_all2_mono) (auto simp: queued_as_def)
    have here: "queued_as coreCtx st src f' (fl_next f) m (stampedEvent coreCtx st src m, Some (fl_next f))"
      using qs(3,4) p(4) by (simp add: queued_as_def)
    have heap: "\<forall>b < fl_next f. fl_heap f' b = fl_heap f b" using qs(4) p(3) by simp
    show ?thesis
    proof (cases "length (fl_ch f) < fl_cap f")
      case room: True
      then have "take (fl_cap f - length (fl_ch f)) (filter pm_Matched (m # ms))
          = m # take (fl_cap f - length (fl_ch ?f)) (filter pm_Matched ms)"
        using True p(5) by (simp add: take_Cons' Suc_diff_Suc)
      then show ?thesis using qs(1-3) p(5) room heap weaker here
        by (intro exI [of _ "(stampedEvent coreCtx st src m, Some (fl_next f)) # qs"]) simp
    next
      case False
      then show ?thesis using qs(1-3) p(5) heap weaker by (intro exI [of _ qs]) simp
    qed
  qed
qed

lemma queue_contents:
  assumes "snd src = None" "flow_ok f" "matchLoop out coreCtx st src ms (w, f) = (w', f')"
    and "\<forall>m \<in> set ms. pm_PolicyID m \<noteq> '''' \<and> clear_of ''policy_timeout'' m"
  shows "\<exists>qs. map (deref (fl_heap f')) (fl_ch f') = map (deref (fl_heap f)) (fl_ch f) @ qs
     \<and> map (\<lambda>e. (GetPayloadString e ''policy_id'', GetPayloadString e ''policy_timeout'')) qs
       = map (\<lambda>m. (pm_PolicyID m, pm_Timeout m)) (take (fl_cap f - length (fl_ch f)) (filter pm_Matched ms))"
proof -
  from fresh_loop [OF assms(1,3)] obtain qs where qs: "fl_ch f' = fl_ch f @ qs" "\<forall>b < fl_next f. fl_heap f' b = fl_heap f b"
    "list_all2 (queued_as coreCtx st src f' (fl_next f)) (take (fl_cap f - length (fl_ch f)) (filter pm_Matched ms)) qs" by blast
  have old: "map (deref (fl_heap f')) (fl_ch f) = map (deref (fl_heap f)) (fl_ch f)"
  proof (rule map_cong [OF refl])
    fix r assume "r \<in> set (fl_ch f)"
    then show "deref (fl_heap f') r = deref (fl_heap f) r" using assms(2) qs(2) by (cases "snd r") (auto simp: deref_def flow_ok_def)
  qed
  have "map (\<lambda>e. (GetPayloadString e ''policy_id'', GetPayloadString e ''policy_timeout'')) (map (deref (fl_heap f')) rs)
      = map (\<lambda>m. (pm_PolicyID m, pm_Timeout m)) ks"
    if "list_all2 (queued_as coreCtx st src f' (fl_next f)) ks rs" "set ks \<subseteq> set ms" for ks rs
    using that
  proof (induction rule: list_all2_induct)
    case (Cons k ks r rs)
    obtain a where r: "r = (stampedEvent coreCtx st src k, Some a)" "map_of (fl_heap f' a) ''policy_timeout'' = Some (VString (pm_Timeout k))"
      using Cons.hyps(1) by (auto simp: queued_as_def)
    have "pm_PolicyID k \<noteq> ''''" "clear_of ''policy_timeout'' k" using Cons.prems assms(4) by simp_all
    then show ?case using Cons.IH Cons.prems queued_timeout r(2) queued_policy unfolding r(1) stampedEvent_def by simp
  qed simp
  from this [OF qs(3)] have "map (\<lambda>e. (GetPayloadString e ''policy_id'', GetPayloadString e ''policy_timeout'')) (map (deref (fl_heap f')) qs)
      = map (\<lambda>m. (pm_PolicyID m, pm_Timeout m)) (take (fl_cap f - length (fl_ch f)) (filter pm_Matched ms))"
    by (meson filter_is_subset order_trans set_take_subset)
  then show ?thesis using qs(1) old by (intro exI [of _ "map (deref (fl_heap f')) qs"]) simp
qed

text \<open>
  An event without an untyped payload (all shipped data sources leave it nil) queues, for its matching
  policies in the order of the results and as far as the channel has room, one event each, which names
  that policy and carries that policy's timeout; what was queued before is unchanged, and the matches
  that find the channel full are dropped.
\<close>

theorem matches_are_queued:
  assumes "snd src = None" "flow_ok f" "matchLoop out coreCtx st src ms (w, f) = (w', f')"
    and "\<forall>m \<in> set ms. pm_PolicyID m \<noteq> '''' \<and> clear_of ''policy_timeout'' m"
  shows "\<exists>qs. map (deref (fl_heap f')) (fl_ch f') = map (deref (fl_heap f)) (fl_ch f) @ qs
     \<and> map (\<lambda>e. (GetPayloadString e ''policy_id'', GetPayloadString e ''policy_timeout'')) qs
       = map (\<lambda>m. (pm_PolicyID m, pm_Timeout m)) (take (fl_cap f - length (fl_ch f)) (filter pm_Matched ms))"
  by (rule queue_contents [OF assms])

section \<open>Shared payloads\<close>

lemma no_match_loop: "filter pm_Matched ms = [] \<Longrightarrow> matchLoop out coreCtx st src ms x = x"
  by (induction ms; cases x) (auto split: if_splits)

lemma shared_loop:
  assumes "snd src = Some a" "matchLoop out coreCtx st src ms (w, f) = (w', f')" "filter pm_Matched ms \<noteq> []"
  shows "map_of (fl_heap f' a) ''policy_timeout'' = Some (VString (pm_Timeout (last (filter pm_Matched ms))))
     \<and> fl_ch f' = fl_ch f @ map (\<lambda>m. (stampedEvent coreCtx st src m, Some a)) (take (fl_cap f - length (fl_ch f)) (filter pm_Matched ms))"
  using assms(2,3)
proof (induction ms arbitrary: w f)
  case (Cons m ms)
  show ?case
  proof (cases "pm_Matched m")
    case False
    with Cons show ?thesis by simp
  next
    case True
    let ?f = "processMatchedEvent coreCtx (fs_uuid (st m)) (fs_time (st m)) (fs_unix (st m)) m (Some src) f"
    obtain w1 where r: "matchLoop out coreCtx st src ms (w1, ?f) = (w', f')" using Cons.prems True by auto
    have p: "fl_cap ?f = fl_cap f" "map_of (fl_heap ?f a) ''policy_timeout'' = Some (VString (pm_Timeout m))"
      "fl_ch ?f = (if length (fl_ch f) < fl_cap f then fl_ch f @ [(stampedEvent coreCtx st src m, Some a)] else fl_ch f)"
      using process_shared [OF assms(1)] by (simp_all add: stampedEvent_def)
    show ?thesis
    proof (cases "filter pm_Matched ms = []")
      case none: True
      have "f' = ?f" using r no_match_loop [OF none, of out coreCtx st src "(w1, ?f)"] by simp
      then show ?thesis using p True none by (simp add: take_Cons' split: if_splits)
    next
      case False
      with Cons.IH [OF r this] p True show ?thesis by (auto simp: take_Cons' split: if_splits)
    qed
  qed
qed simp

text \<open>
  An event with an untyped payload shares that map with every event queued for its matches. Each
  match writes its timeout into the same map, so all queued events carry the timeout of the last
  matching policy, and the tasks made from them get its deadline, whatever their own policies say.
\<close>

theorem shared_payload_mixes_timeouts:
  assumes "snd src = Some a" "matchLoop out coreCtx st src ms (w, f) = (w', f')"
    and "fl_ch f = []" "length (filter pm_Matched ms) \<le> fl_cap f"
    and "\<forall>m \<in> set ms. pm_PolicyID m \<noteq> '''' \<and> clear_of ''policy_timeout'' m"
  shows "map (\<lambda>r. (GetPayloadString (deref (fl_heap f') r) ''policy_id'', GetPayloadString (deref (fl_heap f') r) ''policy_timeout'')) (fl_ch f')
     = map (\<lambda>m. (pm_PolicyID m, pm_Timeout (last (filter pm_Matched ms)))) (filter pm_Matched ms)"
proof (cases "filter pm_Matched ms = []")
  case True
  with no_match_loop [of ms out coreCtx st src "(w, f)"] assms(2,3) have "fl_ch f' = []" by simp
  with True show ?thesis by simp
next
  case False
  note s = shared_loop [OF assms(1,2) False]
  have c: "fl_ch f' = map (\<lambda>m. (stampedEvent coreCtx st src m, Some a)) (filter pm_Matched ms)" using s assms(3,4) by simp
  show ?thesis unfolding c map_map o_def
  proof (rule map_cong [OF refl])
    fix m assume "m \<in> set (filter pm_Matched ms)"
    then have m: "pm_PolicyID m \<noteq> ''''" "clear_of ''policy_timeout'' m" using assms(5) by auto
    show "(GetPayloadString (deref (fl_heap f') (stampedEvent coreCtx st src m, Some a)) ''policy_id'',
        GetPayloadString (deref (fl_heap f') (stampedEvent coreCtx st src m, Some a)) ''policy_timeout'')
      = (pm_PolicyID m, pm_Timeout (last (filter pm_Matched ms)))"
      unfolding stampedEvent_def using queued_policy [OF m(1)] queued_timeout [OF m(2)] s by simp
  qed
qed

section \<open>From an event to its tasks\<close>

lemma matchLoop_result: "\<exists>w' f'. matchLoop out coreCtx st src ms (w, f) = (w', f')"
  by (cases "matchLoop out coreCtx st src ms (w, f)") simp

lemma matched_results:
  fixes m :: "'p mem_manager"
  assumes rs: "\<And>a. a \<in> set rs \<longleftrightarrow> (\<exists>p. mps_content (mgr_store m) (p_ID p) = Some p \<and> p_Enabled p \<and> matchOf (elapsed p) p (evalDSL m d p) = Some a)"
  shows "(\<lambda>a. (pm_PolicyID a, pm_Timeout a)) ` set (filter pm_Matched rs)
    = {(p_ID p, p_Timeout p) |p. mps_content (mgr_store m) (p_ID p) = Some p \<and> p_Enabled p \<and> evalDSL m d p = EvalResult (Inr True)}"
  (is "?L = ?R")
proof
  show "?L \<subseteq> ?R"
  proof
    fix x assume "x \<in> ?L"
    then obtain a where a: "a \<in> set rs" "pm_Matched a" "x = (pm_PolicyID a, pm_Timeout a)" by auto
    then obtain p where p: "mps_content (mgr_store m) (p_ID p) = Some p" "p_Enabled p"
      "matchOf (elapsed p) p (evalDSL m d p) = Some a" using rs by blast
    then have "evalDSL m d p = EvalResult (Inr True) \<and> pm_PolicyID a = p_ID p \<and> pm_Timeout a = p_Timeout p"
      using a(2) by (auto simp: matchOf_def split: eval_outcome.splits sum.splits)
    with a(3) p show "x \<in> ?R" by blast
  qed
  show "?R \<subseteq> ?L"
  proof
    fix x assume "x \<in> ?R"
    then obtain p where p: "x = (p_ID p, p_Timeout p)" "mps_content (mgr_store m) (p_ID p) = Some p" "p_Enabled p"
      "evalDSL m d p = EvalResult (Inr True)" by blast
    let ?a = "\<lparr>pm_PolicyID = p_ID p, pm_Matched = True, pm_EvaluationTime = elapsed p, pm_Error = None,
       pm_Expansion = p_Expansion p, pm_Timeout = p_Timeout p\<rparr>"
    have "?a \<in> set rs" unfolding rs using p by (intro exI [of _ p]) (simp add: matchOf_def)
    then show "x \<in> ?L" using p(1) by (intro image_eqI [of _ _ ?a]) simp_all
  qed
qed


section \<open>Examples\<close>

definition exMatch :: "string \<Rightarrow> string \<Rightarrow> PolicyMatch" where
  "exMatch i timeout = \<lparr>pm_PolicyID = i, pm_Matched = True, pm_EvaluationTime = 0, pm_Error = None, pm_Expansion = None, pm_Timeout = timeout\<rparr>"

definition exFlow :: "nat \<Rightarrow> Flow" where
  "exFlow cap = \<lparr>fl_heap = (\<lambda>_. []), fl_next = 1, fl_ch = [], fl_cap = cap\<rparr>"

definition noOutputs :: "unit outputs" where
  "noOutputs = \<lparr>out_append = None, out_publish = None\<rparr>"

lemma exMatch_simps [simp]:
  "pm_Matched (exMatch i t)" "pm_PolicyID (exMatch i t) = i" "pm_Timeout (exMatch i t) = t" "clear_of k (exMatch i t)"
  "fl_ch (exFlow n) = []" "fl_cap (exFlow n) = n" "flow_ok (exFlow n)"
  by (simp_all add: exMatch_def exFlow_def clear_of_def stringExpansion_def flow_ok_def)

theorem matches_are_queued_witness:
  "\<exists>w' f'. matchLoop noOutputs None (\<lambda>_. undefined) (startEvent, None) [exMatch ''a'' ''5m'', exMatch ''b'' ''1h''] ((), exFlow 1) = (w', f')
     \<and> map (\<lambda>r. GetPayloadString (deref (fl_heap f') r) ''policy_timeout'') (fl_ch f') = [''5m'']"
proof -
  let ?ms = "[exMatch ''a'' ''5m'', exMatch ''b'' ''1h'']"
  obtain w' f' where l: "matchLoop noOutputs None (\<lambda>_. undefined) (startEvent, None) ?ms ((), exFlow 1) = (w', f')"
    by (rule prod.exhaust)
  from matches_are_queued [OF _ _ l] obtain qs where q: "map (deref (fl_heap f')) (fl_ch f') = qs"
    "map (\<lambda>e. (GetPayloadString e ''policy_id'', GetPayloadString e ''policy_timeout'')) qs = [(''a'', ''5m'')]" by auto
  then obtain e where "map (deref (fl_heap f')) (fl_ch f') = [e]" "GetPayloadString e ''policy_timeout'' = ''5m''" by auto
  with l show ?thesis by (intro exI [of _ w'] exI [of _ f']) auto
qed

theorem shared_payload_mixes_timeouts_witness:
  "\<exists>w' f'. matchLoop noOutputs None (\<lambda>_. undefined) (startEvent, Some 0) [exMatch ''a'' ''5m'', exMatch ''b'' ''1h''] ((), exFlow 2) = (w', f')
     \<and> map (\<lambda>r. (GetPayloadString (deref (fl_heap f') r) ''policy_id'', GetPayloadString (deref (fl_heap f') r) ''policy_timeout'')) (fl_ch f')
       = [(''a'', ''1h''), (''b'', ''1h'')]"
proof -
  let ?ms = "[exMatch ''a'' ''5m'', exMatch ''b'' ''1h'']"
  obtain w' f' where l: "matchLoop noOutputs None (\<lambda>_. undefined) (startEvent, Some 0) ?ms ((), exFlow 2) = (w', f')"
    by (rule prod.exhaust)
  from shared_payload_mixes_timeouts [OF _ l] l show ?thesis by auto
qed

lemma oneManager_content: "mps_content (mgr_store oneManager) = [''p1'' \<mapsto> copyPolicy (startPolicy\<lparr>p_Version := 1\<rparr>)]"
proof -
  have e: "mgr_engines emptyManager = [(''cel'', typeEngine)]" "mgr_store emptyManager = NewMemoryPolicyStore" "mgr_programs emptyManager = []"
    by (simp_all add: emptyManager_def RegisterEngine_def NewDefaultPolicyManager_def typeEngine_simps)
  have s: "p_ID startPolicy = ''p1''" "p_DSL startPolicy = ''start''" "p_DSLEngine startPolicy = ''cel''"
    by (simp_all add: startPolicy_def)
  show ?thesis unfolding oneManager_def
    by (simp add: AddPolicy_def validatePolicy_def compilePolicy_def e s typeEngine_simps mps_defs NewMemoryPolicyStore_def Let_def fun_eq_iff)
qed

lemma startPolicy_matches:
  "evalDSL oneManager (Accessor_ToMap (deref h (startEvent, None))) (copyPolicy (startPolicy\<lparr>p_Version := 1\<rparr>)) = EvalResult (Inr True)"
  by (simp add: evalDSL_def oneManager_facts(2) startPolicy_def typeEngine_def celEngine_def CEngine_Compile_def typeEnv_def
      CEngine_EvaluateWithCtx_def CEngine_Evaluate_def Accessor_ToMap_def startEvent_def NewEvent_def deref_def)


end
