(* ===== verification/DS_Manager.thy ===== *)
theory DS_Manager
  imports Nuts_Values Nuts_DB Nuts_Common
begin

text \<open>
  The manager of the data sources (\<^verbatim>\<open>src/pkg/datasource/manager.go\<close>), the factory that creates them
  (\<^verbatim>\<open>factory.go\<close>) and its HTTP handlers (\<^verbatim>\<open>http.go\<close>). A source is a value of a type that the
  operations of the interface \<^verbatim>\<open>DataSource\<close> change; the manager's map keeps one per name. Contexts are
  numbered; a cancelled one is in a list. Errors are their messages.
\<close>

section \<open>Sources and the factory\<close>

record DataSourceStats =
  dss_EventsReceived :: int
  dss_EventsSent :: int
  dss_EventsDropped :: int
  dss_LastEventTime :: gotime
  dss_Connected :: bool
  dss_Uptime :: duration

text \<open>\<^verbatim>\<open>Start\<close> gets the context (\<^term>\<open>None\<close> for nil) and writes to the manager's channel.\<close>

record 's DataSource =
  ds_Start :: "nat option \<Rightarrow> 's \<Rightarrow> string option \<times> 's"
  ds_Stop :: "'s \<Rightarrow> string option \<times> 's"
  ds_Health :: "'s \<Rightarrow> string option"
  ds_GetStats :: "'s \<Rightarrow> DataSourceStats"

record BaseDataSourceConfig =
  bc_Type :: string
  bc_Name :: string
  bc_Enabled :: bool
  bc_BufferSize :: int
  bc_DropPolicy :: string
  bc_HealthCheckInterval :: duration
  bc_ReconnectInterval :: duration

definition Base_Validate :: "BaseDataSourceConfig \<Rightarrow> string option \<times> BaseDataSourceConfig" where
  "Base_Validate c =
     (if bc_Type c = '''' then (Some ''type is required'', c)
      else if bc_Name c = '''' then (Some ''name is required'', c)
      else (None,
        c\<lparr>bc_BufferSize := (if bc_BufferSize c \<le> 0 then 1000 else bc_BufferSize c),
          bc_HealthCheckInterval := (if bc_HealthCheckInterval c = 0 then 30 * second else bc_HealthCheckInterval c),
          bc_ReconnectInterval := (if bc_ReconnectInterval c = 0 then 5 * second else bc_ReconnectInterval c)\<rparr>))"

text \<open>
  The factory: parsers from TOML text to a configuration \<open>'c\<close>, and creators. \<open>validate\<close> is the
  configuration's \<^verbatim>\<open>Validate\<close>, which may fill in defaults; \<open>marshal\<close> is the TOML library.
\<close>

record ('c, 's) DataSourceFactory =
  dsf_parsers :: "(string \<times> (string \<Rightarrow> string + 'c)) list"
  dsf_creators :: "(string \<times> ('c \<Rightarrow> string + 's)) list"

definition DSFactory_Register ::
  "string \<Rightarrow> (string \<Rightarrow> string + 'c) \<Rightarrow> ('c \<Rightarrow> string + 's) \<Rightarrow> ('c, 's) DataSourceFactory \<Rightarrow> ('c, 's) DataSourceFactory" where
  "DSFactory_Register typeName parser creator f =
     f\<lparr>dsf_parsers := alist_put typeName parser (dsf_parsers f), dsf_creators := alist_put typeName creator (dsf_creators f)\<rparr>"

definition createFrom ::
  "('c \<Rightarrow> string option \<times> 'c) \<Rightarrow> ('c, 's) DataSourceFactory \<Rightarrow> string \<Rightarrow> (string \<Rightarrow> string + 'c) \<Rightarrow> string \<Rightarrow> string + 's" where
  "createFrom validate f dsType parser text =
     (case parser text of
        Inl err \<Rightarrow> Inl (''parse config: '' @ err)
      | Inr config \<Rightarrow>
          (case validate config of
             (Some err, _) \<Rightarrow> Inl (''validate config: '' @ err)
           | (None, config) \<Rightarrow>
               (case map_of (dsf_creators f) dsType of
                  None \<Rightarrow> Inl (''no creator for type: '' @ dsType)
                | Some creator \<Rightarrow> creator config)))"

definition DSFactory_Create ::
  "(string \<Rightarrow> string + string) \<Rightarrow> ('c \<Rightarrow> string option \<times> 'c) \<Rightarrow> ('c, 's) DataSourceFactory \<Rightarrow> string \<Rightarrow> string + 's" where
  "DSFactory_Create unmarshalType validate f configStr =
     (case unmarshalType configStr of
        Inl err \<Rightarrow> Inl (''parse config type: '' @ err)
      | Inr t \<Rightarrow>
          if t = '''' then Inl ''config type is required''
          else (case map_of (dsf_parsers f) t of
                  None \<Rightarrow> Inl (''unknown datasource type: '' @ t)
                | Some parser \<Rightarrow> createFrom validate f t parser configStr))"

definition CreateWithMap ::
  "(gomap \<Rightarrow> string + string) \<Rightarrow> ('c \<Rightarrow> string option \<times> 'c) \<Rightarrow> ('c, 's) DataSourceFactory \<Rightarrow> gomap \<Rightarrow> string + 's" where
  "CreateWithMap marshal validate f config =
     (case map_of config ''type'' of
        Some (VString dsType) \<Rightarrow>
          if dsType = '''' then Inl ''config type is required''
          else (case map_of (dsf_parsers f) dsType of
                  None \<Rightarrow> Inl (''unknown datasource type: '' @ dsType)
                | Some parser \<Rightarrow>
                    (case marshal config of
                       Inl err \<Rightarrow> Inl (''marshal config: '' @ err)
                     | Inr text \<Rightarrow> createFrom validate f dsType parser text))
      | _ \<Rightarrow> Inl ''config type is required'')"

definition GetSupportedTypes :: "(string \<Rightarrow> nat) \<Rightarrow> ('c, 's) DataSourceFactory \<Rightarrow> string list" where
  "GetSupportedTypes rank f = range_keys rank (map fst (dsf_creators f))"

section \<open>The manager\<close>

record 's DataSourceWrapper =
  dw_source :: 's
  dw_active :: bool

text \<open>The configuration manager: the value under \<^verbatim>\<open>datasource\<close>, and the sections by key.\<close>

record ds_config =
  dc_datasource :: "govalue option"
  dc_GetMap :: "string \<Rightarrow> gomap option"

record 's DataSourceManager =
  dm_sources :: "(string \<times> 's DataSourceWrapper) list"
  dm_ctx :: "nat option"
  dm_nextCtx :: nat
  dm_cancelled :: "nat list"
  dm_activeName :: string
  dm_factories :: "(string \<times> (string \<Rightarrow> gomap \<Rightarrow> string + 's)) list"
  dm_cfg :: "ds_config option"

definition NewDataSourceManager :: "'s DataSourceManager" where
  "NewDataSourceManager =
     \<lparr>dm_sources = [], dm_ctx = None, dm_nextCtx = 0, dm_cancelled = [], dm_activeName = '''', dm_factories = [], dm_cfg = None\<rparr>"

definition putSource :: "string \<Rightarrow> 's \<Rightarrow> bool \<Rightarrow> 's DataSourceManager \<Rightarrow> 's DataSourceManager" where
  "putSource name s active m = m\<lparr>dm_sources := alist_put name \<lparr>dw_source = s, dw_active = active\<rparr> (dm_sources m)\<rparr>"

definition DM_Register :: "string \<Rightarrow> 's \<Rightarrow> 's DataSourceManager \<Rightarrow> string option \<times> 's DataSourceManager" where
  "DM_Register name source m =
     (if map_of (dm_sources m) name \<noteq> None then (Some (''datasource '' @ name @ '' already registered''), m)
      else (None, putSource name source False m))"

definition DM_Unregister :: "'s DataSource \<Rightarrow> string \<Rightarrow> 's DataSourceManager \<Rightarrow> string option \<times> 's DataSourceManager" where
  "DM_Unregister S name m =
     (case map_of (dm_sources m) name of
        None \<Rightarrow> (Some (''datasource '' @ name @ '' not found''), m)
      | Some wrapper \<Rightarrow>
          (case (if dw_active wrapper then ds_Stop S (dw_source wrapper) else (None, dw_source wrapper)) of
             (Some err, s) \<Rightarrow> (Some (''stop datasource: '' @ err), putSource name s (dw_active wrapper) m)
           | (None, s) \<Rightarrow>
               (None, m\<lparr>dm_activeName := (if dm_activeName m = name then '''' else dm_activeName m),
                        dm_sources := filter (\<lambda>kv. fst kv \<noteq> name) (dm_sources m)\<rparr>)))"

definition newContext :: "'s DataSourceManager \<Rightarrow> 's DataSourceManager" where
  "newContext m = m\<lparr>dm_ctx := Some (dm_nextCtx m), dm_nextCtx := dm_nextCtx m + 1\<rparr>"

definition cancelContext :: "'s DataSourceManager \<Rightarrow> 's DataSourceManager" where
  "cancelContext m = (case dm_ctx m of None \<Rightarrow> m | Some c \<Rightarrow> m\<lparr>dm_cancelled := c # dm_cancelled m\<rparr>)"

fun startLoop :: "'s DataSource \<Rightarrow> string list \<Rightarrow> 's DataSourceManager \<Rightarrow> string option \<times> 's DataSourceManager" where
  "startLoop S [] m = (None, m)"
| "startLoop S (name # names) m =
     (case map_of (dm_sources m) name of
        None \<Rightarrow> startLoop S names m
      | Some wrapper \<Rightarrow>
          if dw_active wrapper then startLoop S names m
          else (case ds_Start S (dm_ctx m) (dw_source wrapper) of
                  (Some err, s) \<Rightarrow> (Some (''start datasource '' @ name @ '': '' @ err), putSource name s False m)
                | (None, s) \<Rightarrow> startLoop S names (putSource name s True m\<lparr>dm_activeName := name\<rparr>)))"

definition DM_Start :: "(string \<Rightarrow> nat) \<Rightarrow> 's DataSource \<Rightarrow> 's DataSourceManager \<Rightarrow> string option \<times> 's DataSourceManager" where
  "DM_Start rank S m =
     (let m = newContext (cancelContext m) in startLoop S (range_keys rank (map fst (dm_sources m))) m)"

fun joinSpace :: "string list \<Rightarrow> string" where
  "joinSpace [] = ''''"
| "joinSpace [x] = x"
| "joinSpace (x # xs) = x @ '' '' @ joinSpace xs"

definition showList :: "string list \<Rightarrow> string" where
  "showList xs = ''['' @ joinSpace xs @ '']''"

definition StartByName :: "(string \<Rightarrow> nat) \<Rightarrow> 's DataSource \<Rightarrow> string \<Rightarrow> 's DataSourceManager \<Rightarrow> string option \<times> 's DataSourceManager" where
  "StartByName rank S name m =
     (case map_of (dm_sources m) name of
        None \<Rightarrow> (Some (''datasource '' @ name @ '' not found, available: '' @ showList (range_keys rank (map fst (dm_sources m)))), m)
      | Some wrapper \<Rightarrow>
          if dw_active wrapper then (Some (''datasource '' @ name @ '' already active''), m)
          else
            (let m = (if dm_ctx m = None then newContext m else m)
             in case ds_Start S (dm_ctx m) (dw_source wrapper) of
                  (Some err, s) \<Rightarrow> (Some (''failed to start datasource '' @ name @ '': '' @ err), putSource name s False m)
                | (None, s) \<Rightarrow> (None, (putSource name s True m)\<lparr>dm_activeName := name\<rparr>)))"

definition DM_Stop :: "'s DataSource \<Rightarrow> string \<Rightarrow> 's DataSourceManager \<Rightarrow> string option \<times> 's DataSourceManager" where
  "DM_Stop S name m =
     (case map_of (dm_sources m) name of
        None \<Rightarrow> (Some (''datasource '' @ name @ '' not found''), m)
      | Some wrapper \<Rightarrow>
          if \<not> dw_active wrapper then (None, m)
          else (case ds_Stop S (dw_source wrapper) of
                  (Some err, s) \<Rightarrow> (Some (''stop datasource: '' @ err), putSource name s True m)
                | (None, s) \<Rightarrow> (None, (putSource name s False m)\<lparr>dm_activeName := ''''\<rparr>)))"

definition DM_Switch :: "(string \<Rightarrow> nat) \<Rightarrow> 's DataSource \<Rightarrow> string \<Rightarrow> string \<Rightarrow> 's DataSourceManager \<Rightarrow> string option \<times> 's DataSourceManager" where
  "DM_Switch rank S fromName toName m =
     (case (if fromName \<noteq> '''' then DM_Stop S fromName m else (None, m)) of
        (Some err, m) \<Rightarrow> (Some (''failed to stop old datasource '' @ fromName @ '': '' @ err), m)
      | (None, m) \<Rightarrow>
          (case StartByName rank S toName m of
             (Some err, m) \<Rightarrow> (Some (''failed to start new datasource '' @ toName @ '': '' @ err), m)
           | (None, m) \<Rightarrow> (None, m)))"

text \<open>\<open>create\<close> is \<^verbatim>\<open>Factory.CreateWithMap\<close>.\<close>

definition typeSection :: "string \<Rightarrow> gomap \<Rightarrow> gomap" where
  "typeSection name m = alist_put ''name'' (VString name) (alist_put ''type'' (VString name) m)"

definition ensureRegistered :: "(gomap \<Rightarrow> string + 's) \<Rightarrow> string \<Rightarrow> 's DataSourceManager \<Rightarrow> string option \<times> 's DataSourceManager" where
  "ensureRegistered create name m =
     (if map_of (dm_sources m) name \<noteq> None then (None, m)
      else case dm_cfg m of
             None \<Rightarrow> (Some (''config manager not set, cannot lazily create datasource '' @ name), m)
           | Some cfg \<Rightarrow>
               (case dc_GetMap cfg (''datasource.'' @ name) of
                  None \<Rightarrow> (Some (''no config section [datasource.'' @ name @ ''] found''), m)
                | Some typeConfig \<Rightarrow>
                    (case create (typeSection name typeConfig) of
                       Inl err \<Rightarrow> (Some (''create datasource '' @ name @ '': '' @ err), m)
                     | Inr ds \<Rightarrow>
                         (case DM_Register name ds m of
                            (Some err, m) \<Rightarrow> (Some (''register datasource '' @ name @ '': '' @ err), m)
                          | (None, m) \<Rightarrow> (None, m)))))"

definition activeNames :: "(string \<Rightarrow> nat) \<Rightarrow> 's DataSourceManager \<Rightarrow> string list" where
  "activeNames rank m =
     filter (\<lambda>name. case map_of (dm_sources m) name of Some w \<Rightarrow> dw_active w | None \<Rightarrow> False)
       (range_keys rank (map fst (dm_sources m)))"

definition previousSource :: "(string \<Rightarrow> nat) \<Rightarrow> 's DataSourceManager \<Rightarrow> string" where
  "previousSource rank m =
     (if dm_activeName m \<noteq> '''' then dm_activeName m else case activeNames rank m of [] \<Rightarrow> '''' | n # _ \<Rightarrow> n)"

definition switchFrom ::
  "(string \<Rightarrow> nat) \<Rightarrow> 's DataSource \<Rightarrow> string \<Rightarrow> string \<Rightarrow> 's DataSourceManager \<Rightarrow> string option \<times> 's DataSourceManager" where
  "switchFrom rank S previous name m =
     (if previous = name then (Some (''datasource '' @ name @ '' already active''), m)
      else case (if previous \<noteq> '''' then DM_Stop S previous m else (None, m)) of
             (Some err, m) \<Rightarrow> (Some (''stop old datasource '' @ previous @ '': '' @ err), m)
           | (None, m) \<Rightarrow>
               (case StartByName rank S name m of
                  (Some err, m) \<Rightarrow> (Some (''start new datasource '' @ name @ '': '' @ err), m)
                | (None, m) \<Rightarrow> (None, m)))"

definition SwitchTo ::
  "(string \<Rightarrow> nat) \<Rightarrow> 's DataSource \<Rightarrow> (gomap \<Rightarrow> string + 's) \<Rightarrow> string list \<Rightarrow> string \<Rightarrow> 's DataSourceManager
     \<Rightarrow> string \<times> string option \<times> 's DataSourceManager" where
  "SwitchTo rank S create supportedTypes name m =
     (if name \<notin> set supportedTypes
      then ('''', Some (''unknown datasource type: '' @ name @ '', supported: '' @ showList supportedTypes), m)
      else case ensureRegistered create name m of
             (Some err, m) \<Rightarrow> ('''', Some (''ensure datasource '' @ name @ '': '' @ err), m)
           | (None, m) \<Rightarrow> (previousSource rank m, switchFrom rank S (previousSource rank m) name m))"

fun stopLoop :: "'s DataSource \<Rightarrow> string list \<Rightarrow> string option \<Rightarrow> 's DataSourceManager \<Rightarrow> string option \<times> 's DataSourceManager" where
  "stopLoop S [] firstErr m = (firstErr, m)"
| "stopLoop S (name # names) firstErr m =
     (case map_of (dm_sources m) name of
        None \<Rightarrow> stopLoop S names firstErr m
      | Some wrapper \<Rightarrow>
          if dw_active wrapper
          then (case ds_Stop S (dw_source wrapper) of (err, s) \<Rightarrow>
                  stopLoop S names
                    (case err of None \<Rightarrow> firstErr
                     | Some e \<Rightarrow> if firstErr = None then Some (''stop '' @ name @ '': '' @ e) else firstErr)
                    (putSource name s False m))
          else stopLoop S names firstErr m)"

definition StopAll :: "(string \<Rightarrow> nat) \<Rightarrow> 's DataSource \<Rightarrow> 's DataSourceManager \<Rightarrow> string option \<times> 's DataSourceManager" where
  "StopAll rank S m =
     (case stopLoop S (range_keys rank (map fst (dm_sources m))) None m of (err, m) \<Rightarrow> (err, m\<lparr>dm_activeName := ''''\<rparr>))"

definition StartActive :: "'s DataSource \<Rightarrow> string \<Rightarrow> 's DataSourceManager \<Rightarrow> string option \<times> 's DataSourceManager" where
  "StartActive S name m =
     (case map_of (dm_sources m) name of
        None \<Rightarrow> (Some (''datasource '' @ name @ '' not registered''), m)
      | Some wrapper \<Rightarrow>
          if dw_active wrapper then (None, m)
          else (case ds_Start S (dm_ctx m) (dw_source wrapper) of
                  (Some err, s) \<Rightarrow> (Some (''start '' @ name @ '': '' @ err), putSource name s False m)
                | (None, s) \<Rightarrow> (None, (putSource name s True m)\<lparr>dm_activeName := name\<rparr>)))"

definition GetWrapper :: "string \<Rightarrow> 's DataSourceManager \<Rightarrow> string + 's DataSourceWrapper" where
  "GetWrapper name m = (case map_of (dm_sources m) name of None \<Rightarrow> Inl (''datasource '' @ name @ '' not found'') | Some w \<Rightarrow> Inr w)"

definition DM_Get :: "string \<Rightarrow> 's DataSourceManager \<Rightarrow> string + 's" where
  "DM_Get name m = bindE (GetWrapper name m) (\<lambda>w. Inr (dw_source w))"

definition DM_List :: "(string \<Rightarrow> nat) \<Rightarrow> 's DataSourceManager \<Rightarrow> string list" where
  "DM_List rank m = range_keys rank (map fst (dm_sources m))"

definition ListAllWithStatus :: "string list \<Rightarrow> 's DataSourceManager \<Rightarrow> (string \<times> bool) list" where
  "ListAllWithStatus allTypes m =
     map (\<lambda>t. (t, case map_of (dm_sources m) t of Some w \<Rightarrow> dw_active w | None \<Rightarrow> False)) allTypes"

definition DM_Health :: "'s DataSource \<Rightarrow> string \<Rightarrow> 's DataSourceManager \<Rightarrow> string option" where
  "DM_Health S name m =
     (case map_of (dm_sources m) name of
        None \<Rightarrow> Some (''datasource '' @ name @ '' not found'') | Some w \<Rightarrow> ds_Health S (dw_source w))"

definition HealthAll :: "'s DataSource \<Rightarrow> 's DataSourceManager \<Rightarrow> (string \<times> string option) list" where
  "HealthAll S m = map (\<lambda>(n, w). (n, ds_Health S (dw_source w))) (filter (\<lambda>(n, w). dw_active w) (dm_sources m))"

definition DM_GetStats :: "'s DataSource \<Rightarrow> string \<Rightarrow> 's DataSourceManager \<Rightarrow> string + DataSourceStats" where
  "DM_GetStats S name m = bindE (GetWrapper name m) (\<lambda>w. Inr (ds_GetStats S (dw_source w)))"

definition GetAllStats :: "'s DataSource \<Rightarrow> 's DataSourceManager \<Rightarrow> (string \<times> DataSourceStats) list" where
  "GetAllStats S m = map (\<lambda>(n, w). (n, ds_GetStats S (dw_source w))) (filter (\<lambda>(n, w). dw_active w) (dm_sources m))"

definition DM_Close :: "'s DataSource \<Rightarrow> 's DataSourceManager \<Rightarrow> string option \<times> 's DataSourceManager" where
  "DM_Close S m =
     (let m = cancelContext m
      in if dm_activeName m = '''' then (None, m)
         else case map_of (dm_sources m) (dm_activeName m) of
                None \<Rightarrow> (None, m\<lparr>dm_activeName := ''''\<rparr>)
              | Some wrapper \<Rightarrow>
                  (case ds_Stop S (dw_source wrapper) of
                     (Some err, s) \<Rightarrow> (Some (''stop datasource '' @ dm_activeName m @ '': '' @ err), putSource (dm_activeName m) s (dw_active wrapper) m)
                   | (None, s) \<Rightarrow> (None, (putSource (dm_activeName m) s False m)\<lparr>dm_activeName := ''''\<rparr>)))"

definition RegisterFactory :: "string \<Rightarrow> (string \<Rightarrow> gomap \<Rightarrow> string + 's) \<Rightarrow> 's DataSourceManager \<Rightarrow> 's DataSourceManager" where
  "RegisterFactory dsType factory m = m\<lparr>dm_factories := alist_put dsType factory (dm_factories m)\<rparr>"

definition CreateDataSource :: "string \<Rightarrow> string \<Rightarrow> gomap \<Rightarrow> 's DataSourceManager \<Rightarrow> string + 's" where
  "CreateDataSource dsType name config m =
     (case map_of (dm_factories m) dsType of
        None \<Rightarrow> Inl (''no factory registered for datasource type: '' @ dsType) | Some factory \<Rightarrow> factory name config)"

definition DM_Init :: "(gomap \<Rightarrow> string + 's) \<Rightarrow> ds_config \<Rightarrow> 's DataSourceManager \<Rightarrow> string option \<times> 's DataSourceManager" where
  "DM_Init create cfg m =
     (let m = m\<lparr>dm_cfg := Some cfg\<rparr>
      in case dc_datasource cfg of
           Some (VMap dsMap) \<Rightarrow>
             (let dsType = (case map_of dsMap ''type'' of Some (VString s) \<Rightarrow> s | _ \<Rightarrow> '''')
              in if dsType = '''' then (None, m)
                 else case create (typeSection dsType (case dc_GetMap cfg (''datasource.'' @ dsType) of None \<Rightarrow> [] | Some c \<Rightarrow> c)) of
                        Inl err \<Rightarrow> (Some (''create datasource '' @ dsType @ '': '' @ err), m)
                      | Inr ds \<Rightarrow>
                          (case DM_Register dsType ds m of
                             (Some err, m) \<Rightarrow> (Some (''register datasource '' @ dsType @ '': '' @ err), m)
                           | (None, m) \<Rightarrow> (None, m)))
         | _ \<Rightarrow> (None, m))"

text \<open>
  \<^verbatim>\<open>LoadAndStart\<close> calls \<^verbatim>\<open>StartByName\<close>, which locks the mutex for writing, while it holds the lock for reading
  itself: it waits for itself and never returns (\<^term>\<open>None\<close>).
\<close>

definition lockedStartByName :: "nat \<Rightarrow> (string \<Rightarrow> nat) \<Rightarrow> 's DataSource \<Rightarrow> string \<Rightarrow> 's DataSourceManager \<Rightarrow> (string option \<times> 's DataSourceManager) option" where
  "lockedStartByName ownReadLocks rank S name m = (if ownReadLocks > 0 then None else Some (StartByName rank S name m))"

definition LoadAndStart ::
  "(string \<Rightarrow> nat) \<Rightarrow> 's DataSource \<Rightarrow> (gomap \<Rightarrow> string + 's) \<Rightarrow> ds_config \<Rightarrow> 's DataSourceManager \<Rightarrow> (string option \<times> 's DataSourceManager) option" where
  "LoadAndStart rank S create cfg m =
     (case DM_Init create cfg m of
        (Some err, m) \<Rightarrow> Some (Some err, m)
      | (None, m) \<Rightarrow>
          (case range_keys rank (map fst (dm_sources m)) of
             [] \<Rightarrow> Some (None, m)
           | name # _ \<Rightarrow> lockedStartByName 1 rank S name m))"

end
