(* ===== verification/DS_Sources.thy ===== *)
theory DS_Sources
  imports DS_Manager Nuts_Event
begin

text \<open>
  The contract of a data source as a locale, the mock source (\<^verbatim>\<open>src/pkg/datasource/mock.go\<close>) as the provider
  that meets it, and the manager over any source that does: at most one source runs.
\<close>

section \<open>The mock source\<close>

record MockDataSource =
  mk_config :: BaseDataSourceConfig
  mk_eventsReceived :: int
  mk_eventsSent :: int
  mk_eventsDropped :: int
  mk_started :: bool
  mk_ownCtx :: "nat option"
  mk_eventInterval :: duration
  mk_eventTypes :: "string list"
  mk_counter :: nat
  mk_typeIndex :: nat

record MockDataSourceConfig =
  mc_base :: BaseDataSourceConfig
  mc_EventIntervalMs :: int
  mc_EventTypes :: "string list"

definition defaultEventTypes :: "string list" where
  "defaultEventTypes = [''ContainerStart'', ''ContainerStop'', ''ContainerUpdate'', ''PodCreated'', ''PodDeleted'']"

definition NewMockDataSource :: "MockDataSourceConfig \<Rightarrow> string + MockDataSource" where
  "NewMockDataSource cfg =
     (case Base_Validate (mc_base cfg) of
        (Some err, _) \<Rightarrow> Inl (''invalid config: '' @ err)
      | (None, base) \<Rightarrow>
          Inr \<lparr>mk_config = base, mk_eventsReceived = 0, mk_eventsSent = 0, mk_eventsDropped = 0, mk_started = False,
               mk_ownCtx = None,
               mk_eventInterval = (if mc_EventIntervalMs cfg * millisecond \<le> 0 then 5 * second else mc_EventIntervalMs cfg * millisecond),
               mk_eventTypes = (if mc_EventTypes cfg = [] then defaultEventTypes else mc_EventTypes cfg),
               mk_counter = 0, mk_typeIndex = 0\<rparr>)"

definition CreateMockDataSource :: "MockDataSourceConfig \<Rightarrow> string + MockDataSource" where
  "CreateMockDataSource cfg =
     (case Base_Validate (mc_base cfg) of
        (Some err, _) \<Rightarrow> Inl (''invalid config: '' @ err)
      | (None, base) \<Rightarrow>
          NewMockDataSource (cfg\<lparr>mc_base := base,
            mc_EventIntervalMs := (if mc_EventIntervalMs cfg \<le> 0 then 5000 else mc_EventIntervalMs cfg),
            mc_EventTypes := (if mc_EventTypes cfg = [] then defaultEventTypes else mc_EventTypes cfg)\<rparr>))"

text \<open>A nil context makes \<^verbatim>\<open>context.WithCancel\<close> panic, after the flag was set; the panic is given as an error. The loop variables of
  \<^verbatim>\<open>generateEvents\<close> start at zero with its goroutine.\<close>

definition Mock_Start :: "nat option \<Rightarrow> MockDataSource \<Rightarrow> string option \<times> MockDataSource" where
  "Mock_Start ctx m =
     (if mk_started m then (Some ''mock data source is already running'', m)
      else case ctx of
             None \<Rightarrow> (Some ''panic: cannot create context from nil parent'', m\<lparr>mk_started := True\<rparr>)
           | Some c \<Rightarrow> (None, m\<lparr>mk_started := True, mk_ownCtx := Some c, mk_counter := 0, mk_typeIndex := 0\<rparr>))"

definition Mock_Stop :: "MockDataSource \<Rightarrow> string option \<times> MockDataSource" where
  "Mock_Stop m = (None, m\<lparr>mk_started := False\<rparr>)"

definition Mock_Health :: "MockDataSource \<Rightarrow> string option" where
  "Mock_Health m = (if mk_started m then None else Some ''datasource not connected'')"

definition Mock_GetStats :: "gotime \<Rightarrow> duration \<Rightarrow> MockDataSource \<Rightarrow> DataSourceStats" where
  "Mock_GetStats now uptime m =
     \<lparr>dss_EventsReceived = mk_eventsReceived m, dss_EventsSent = mk_eventsSent m, dss_EventsDropped = mk_eventsDropped m,
      dss_LastEventTime = now, dss_Connected = mk_started m, dss_Uptime = uptime\<rparr>"

definition mockSource :: "gotime \<Rightarrow> duration \<Rightarrow> MockDataSource DataSource" where
  "mockSource now uptime = \<lparr>ds_Start = Mock_Start, ds_Stop = Mock_Stop, ds_Health = Mock_Health, ds_GetStats = Mock_GetStats now uptime\<rparr>"

text \<open>
  One tick of \<^verbatim>\<open>generateEvents\<close>: the event, if the channel has \<open>room\<close>. An empty list of types (which
  \<^verbatim>\<open>ParseConfig\<close> can install) makes the index panic (\<^term>\<open>None\<close>).
\<close>

definition mockEvent :: "string \<Rightarrow> gotime \<Rightarrow> string \<Rightarrow> string \<Rightarrow> nat \<Rightarrow> Event" where
  "mockEvent uuid now traceID eventType counter =
     (WithContext (NewEvent uuid now eventType ''mock.event'' ''mock-datasource'') (ContextWithTraceID (Some None) traceID))
     \<lparr>ev_TypedPayload := Some (Event_Pod (Some
        \<lparr>pod_PodName = ''mock-pod-'' @ show_nat counter, pod_PodNamespace = ''default'', pod_PodUid = '''', pod_PodId = '''',
         pod_Labels = None, pod_Extensions = Some [(''counter'', show_nat counter)]\<rparr>))\<rparr>"

definition generateEvent :: "string \<Rightarrow> gotime \<Rightarrow> string \<Rightarrow> bool \<Rightarrow> MockDataSource \<Rightarrow> (Event option \<times> MockDataSource) option" where
  "generateEvent uuid now traceID room m =
     (if mk_typeIndex m \<ge> length (mk_eventTypes m) then None
      else
        (let event = mockEvent uuid now traceID (mk_eventTypes m ! mk_typeIndex m) (mk_counter m);
             m = m\<lparr>mk_eventsReceived := mk_eventsReceived m + 1,
                   mk_typeIndex := (mk_typeIndex m + 1) mod length (mk_eventTypes m), mk_counter := mk_counter m + 1\<rparr>
         in if room then Some (Some event, m\<lparr>mk_eventsSent := mk_eventsSent m + 1\<rparr>)
            else Some (None, m\<lparr>mk_eventsDropped := mk_eventsDropped m + 1\<rparr>)))"

definition Mock_ParseConfig :: "gomap \<Rightarrow> MockDataSource \<Rightarrow> MockDataSource" where
  "Mock_ParseConfig config m =
     (let intervalMs = (case map_of config ''event_interval_ms'' of Some (VInt64 v) \<Rightarrow> v | Some (VInt v) \<Rightarrow> v | _ \<Rightarrow> 5000);
          m = m\<lparr>mk_eventInterval := intervalMs * millisecond\<rparr>;
          m = (case map_of config ''event_types'' of
                 Some (VSlice ts) \<Rightarrow> m\<lparr>mk_eventTypes := List.map_filter (\<lambda>v. case v of VString s \<Rightarrow> Some s | _ \<Rightarrow> None) ts\<rparr>
               | _ \<Rightarrow> m);
          m = (case map_of config ''name'' of Some (VString s) \<Rightarrow> m\<lparr>mk_config := (mk_config m)\<lparr>bc_Name := s\<rparr>\<rparr> | _ \<Rightarrow> m)
      in case map_of config ''type'' of Some (VString s) \<Rightarrow> m\<lparr>mk_config := (mk_config m)\<lparr>bc_Type := s\<rparr>\<rparr> | _ \<Rightarrow> m)"

section \<open>The contract\<close>

locale data_source =
  fixes S :: "'s DataSource" and running :: "'s \<Rightarrow> bool"
  assumes start_ok: "ds_Start S c s = (None, s') \<Longrightarrow> running s'"
    and start_err: "ds_Start S (Some d) s = (Some err, s') \<Longrightarrow> running s' = running s"
    and stop_ok: "ds_Stop S s = (None, s') \<Longrightarrow> \<not> running s'"
    and stop_err: "ds_Stop S s = (Some err, s') \<Longrightarrow> running s' = running s"

interpretation mock: data_source "mockSource now uptime" mk_started
  by unfold_locales (auto simp: mockSource_def Mock_Start_def Mock_Stop_def split: if_splits option.splits)

section \<open>At most one source runs\<close>

definition marked :: "'s DataSourceManager \<Rightarrow> string \<Rightarrow> bool" where
  "marked m name \<longleftrightarrow> (\<exists>w. map_of (dm_sources m) name = Some w \<and> dw_active w)"

lemma map_of_putSource [simp]:
  "map_of (dm_sources (putSource name s a m)) = (map_of (dm_sources m))(name \<mapsto> \<lparr>dw_source = s, dw_active = a\<rparr>)"
  "dm_activeName (putSource name s a m) = dm_activeName m" "dm_cfg (putSource name s a m) = dm_cfg m"
  "distinct (map fst (dm_sources m)) \<Longrightarrow> distinct (map fst (dm_sources (putSource name s a m)))"
  by (simp_all add: putSource_def map_of_alist_put distinct_alist_put)

lemma context_simps [simp]:
  "dm_sources (newContext m) = dm_sources m" "dm_activeName (newContext m) = dm_activeName m"
  "dm_sources (cancelContext m) = dm_sources m" "dm_activeName (cancelContext m) = dm_activeName m"
  by (simp_all add: newContext_def cancelContext_def split: option.split)

context data_source
begin

text \<open>The mark of a source is true to its state, and the active name is the one marked source, if any.\<close>

definition dm_inv :: "'s DataSourceManager \<Rightarrow> bool" where
  "dm_inv m \<longleftrightarrow> distinct (map fst (dm_sources m))
     \<and> (\<forall>n w. map_of (dm_sources m) n = Some w \<longrightarrow> dw_active w = running (dw_source w))
     \<and> (\<forall>n. marked m n \<longleftrightarrow> n \<noteq> [] \<and> n = dm_activeName m)"

lemma marked_context [simp]: "marked (newContext m) = marked m" "marked (cancelContext m) = marked m"
  by (simp_all add: marked_def fun_eq_iff)

lemma inv_context: "dm_inv m \<Longrightarrow> dm_inv (newContext m)" "dm_inv m \<Longrightarrow> dm_inv (cancelContext m)"
  by (simp_all add: dm_inv_def)

lemma marked_put: "marked (putSource n s a m) k \<longleftrightarrow> (if k = n then a else marked m k)"
  by (auto simp: marked_def)

lemma marked_name [simp]: "marked (m\<lparr>dm_activeName := x\<rparr>) = marked m"
  by (simp add: marked_def fun_eq_iff)

lemma inv_put:
  assumes "dm_inv m" "a = running s" "\<And>k. marked (putSource n s a m) k \<longleftrightarrow> k \<noteq> [] \<and> k = x"
  shows "dm_inv ((putSource n s a m)\<lparr>dm_activeName := x\<rparr>)"
  unfolding dm_inv_def
proof (intro conjI allI impI)
  show "distinct (map fst (dm_sources ((putSource n s a m)\<lparr>dm_activeName := x\<rparr>)))" using assms(1) by (simp add: dm_inv_def)
next
  fix k w
  assume "map_of (dm_sources ((putSource n s a m)\<lparr>dm_activeName := x\<rparr>)) k = Some w"
  then show "dw_active w = running (dw_source w)" using assms(1,2) by (auto simp: dm_inv_def split: if_splits)
next
  fix k
  show "marked ((putSource n s a m)\<lparr>dm_activeName := x\<rparr>) k \<longleftrightarrow> k \<noteq> [] \<and> k = dm_activeName ((putSource n s a m)\<lparr>dm_activeName := x\<rparr>)"
    using assms(3) by simp
qed

lemma put_same:
  assumes inv: "dm_inv m" and w: "map_of (dm_sources m) n = Some w" "running s = dw_active w"
  shows "dm_inv (putSource n s (dw_active w) m)" "marked (putSource n s (dw_active w) m) = marked m"
proof -
  have eq: "marked (putSource n s (dw_active w) m) k = marked m k" for k using w(1) by (simp add: marked_put) (simp add: marked_def)
  then show "marked (putSource n s (dw_active w) m) = marked m" by blast
  have "dm_inv ((putSource n s (dw_active w) m)\<lparr>dm_activeName := dm_activeName m\<rparr>)"
    using eq w(2) inv by (intro inv_put) (auto simp: dm_inv_def)
  moreover have "(putSource n s (dw_active w) m)\<lparr>dm_activeName := dm_activeName m\<rparr> = putSource n s (dw_active w) m"
    by (simp add: putSource_def)
  ultimately show "dm_inv (putSource n s (dw_active w) m)" by simp
qed

lemma register_inv:
  assumes inv: "dm_inv m" and s: "\<not> running s" and r: "DM_Register n s m = (err, m')"
  shows "dm_inv m'" "marked m' = marked m" "dm_activeName m' = dm_activeName m" "dm_cfg m' = dm_cfg m"
proof -
  show "dm_activeName m' = dm_activeName m" "dm_cfg m' = dm_cfg m" using r by (auto simp: DM_Register_def split: if_splits)
  show k: "marked m' = marked m" using r by (auto simp: DM_Register_def marked_put marked_def fun_eq_iff split: if_splits)
  show "dm_inv m'"
    using r inv s k by (auto simp: DM_Register_def dm_inv_def split: if_splits)
qed

lemma stop_inv:
  assumes inv: "dm_inv m" and r: "DM_Stop S n m = (err, m')"
  shows "dm_inv m'" "err = None \<Longrightarrow> \<not> marked m' n" "marked m' k \<Longrightarrow> marked m k" "err \<noteq> None \<Longrightarrow> marked m' = marked m"
proof -
  have "dm_inv m' \<and> (err = None \<longrightarrow> \<not> marked m' n) \<and> (\<forall>k. marked m' k \<longrightarrow> marked m k) \<and> (err \<noteq> None \<longrightarrow> marked m' = marked m)"
  proof (cases "map_of (dm_sources m) n")
    case None
    then show ?thesis using r inv by (auto simp: DM_Stop_def)
  next
    case (Some w)
    show ?thesis
    proof (cases "dw_active w")
      case False
      then show ?thesis using r inv Some by (auto simp: DM_Stop_def marked_def)
    next
      case True
      then have act: "marked m n" using Some by (simp add: marked_def)
      obtain e s where st: "ds_Stop S (dw_source w) = (e, s)" by (rule prod.exhaust)
      show ?thesis
      proof (cases e)
        case None
        then have m': "m' = (putSource n s False m)\<lparr>dm_activeName := ''''\<rparr>" "err = None"
          using r Some True st by (auto simp: DM_Stop_def)
        have "\<not> marked (putSource n s False m) k" for k using act inv by (auto simp: marked_put dm_inv_def)
        moreover have "\<not> running s" using stop_ok st None by blast
        ultimately have "dm_inv m'" unfolding m'(1) using inv by (intro inv_put) auto
        with m' show ?thesis by (auto simp: marked_put)
      next
        case e: (Some x)
        then have m': "m' = putSource n s (dw_active w) m" "err \<noteq> None" using r Some True st by (auto simp: DM_Stop_def)
        have "running s = dw_active w" using stop_err st e inv Some by (auto simp: dm_inv_def)
        from put_same [OF inv Some this] m' show ?thesis by auto
      qed
    qed
  qed
  then show "dm_inv m'" "err = None \<Longrightarrow> \<not> marked m' n" "marked m' k \<Longrightarrow> marked m k" "err \<noteq> None \<Longrightarrow> marked m' = marked m" by blast+
qed

lemma start_inv:
  assumes inv: "dm_inv m" and none: "\<And>k. \<not> marked m k" and n: "n \<noteq> ''''" and r: "StartByName rank S n m = (err, m')"
  shows "dm_inv m' \<and> (\<forall>k. marked m' k \<longleftrightarrow> err = None \<and> k = n)"
proof (cases "map_of (dm_sources m) n")
  case None
  then show ?thesis using r inv none by (auto simp: StartByName_def)
next
  case (Some w)
  then have idle: "\<not> dw_active w" using none [of n] by (simp add: marked_def)
  define m1 where "m1 = (if dm_ctx m = None then newContext m else m)"
  have m1: "dm_inv m1" "\<And>k. \<not> marked m1 k" "map_of (dm_sources m1) n = Some w" "\<exists>c. dm_ctx m1 = Some c"
    using inv inv_context(1) none Some by (auto simp: m1_def marked_def) (simp add: newContext_def)
  obtain c where c: "dm_ctx m1 = Some c" using m1(4) by blast
  obtain e s where st: "ds_Start S (Some c) (dw_source w) = (e, s)" by (rule prod.exhaust)
  show ?thesis
  proof (cases e)
    case None
    then have m': "m' = (putSource n s True m1)\<lparr>dm_activeName := n\<rparr>" "err = None"
      using r Some idle st c unfolding StartByName_def m1_def [symmetric] by auto
    have k: "marked (putSource n s True m1) k \<longleftrightarrow> k \<noteq> [] \<and> k = n" for k using m1(2) n by (auto simp: marked_put)
    have "dm_inv m'" unfolding m'(1) using start_ok st None k by (intro inv_put [OF m1(1)]) auto
    then show ?thesis using m' k n by auto
  next
    case e: (Some x)
    then have m': "m' = putSource n s (dw_active w) m1" "err \<noteq> None"
      using r Some idle st c unfolding StartByName_def m1_def [symmetric] by auto
    have "running s = dw_active w" using start_err st e m1(1,3) by (auto simp: dm_inv_def)
    from put_same [OF m1(1,3) this] m' m1(2) show ?thesis by simp
  qed
qed

lemma ensure_inv:
  assumes inv: "dm_inv m" and idle: "\<And>c s. create c = Inr s \<Longrightarrow> \<not> running s" and r: "ensureRegistered create n m = (err, m')"
  shows "dm_inv m'" "marked m' = marked m"
proof -
  have "dm_inv m' \<and> marked m' = marked m"
  proof (cases "\<exists>cfg c s. map_of (dm_sources m) n = None \<and> dm_cfg m = Some cfg \<and> dc_GetMap cfg (''datasource.'' @ n) = Some c
      \<and> create (typeSection n c) = Inr s")
    case True
    then obtain cfg c s where h: "map_of (dm_sources m) n = None" "dm_cfg m = Some cfg" "dc_GetMap cfg (''datasource.'' @ n) = Some c"
      "create (typeSection n c) = Inr s" by blast
    obtain e m1 where reg: "DM_Register n s m = (e, m1)" by (rule prod.exhaust)
    then have "m' = m1" using r h by (auto simp: ensureRegistered_def split: option.splits)
    then show ?thesis using register_inv [OF inv idle [OF h(4)] reg] by simp
  next
    case False
    then have "m' = m" using r by (auto simp: ensureRegistered_def split: if_splits option.splits sum.splits)
    then show ?thesis using inv by simp
  qed
  then show "dm_inv m'" "marked m' = marked m" by blast+
qed

lemma active_none: "dm_inv m \<Longrightarrow> dm_activeName m = '''' \<Longrightarrow> activeNames rank m = []"
  by (auto simp: activeNames_def dm_inv_def marked_def filter_empty_conv split: option.splits)

lemma stop_current:
  assumes inv: "dm_inv m" and p: "p = dm_activeName m" and st: "(if p \<noteq> '''' then DM_Stop S p m else (None, m)) = (e, m')"
  shows "dm_inv m' \<and> (e = None \<longrightarrow> (\<forall>k. \<not> marked m' k)) \<and> (e \<noteq> None \<longrightarrow> marked m' = marked m)"
proof (intro conjI impI allI notI)
  show "dm_inv m'" using st inv stop_inv(1) by (auto split: if_splits)
  show "e \<noteq> None \<Longrightarrow> marked m' = marked m" using st inv stop_inv(4) by (auto split: if_splits)
  fix k
  assume e: "e = None" and k: "marked m' k"
  then have "marked m k" using st inv stop_inv(3) by (auto split: if_splits)
  then have "k = p" "p \<noteq> ''''" using inv p by (auto simp: dm_inv_def)
  then show False using k st stop_inv(2) [OF inv] e by auto
qed

lemma previous_active: "dm_inv m \<Longrightarrow> previousSource rank m = dm_activeName m"
  using active_none by (simp add: previousSource_def)

lemma switchFrom_inv:
  assumes inv: "dm_inv m" and n: "n \<noteq> ''''" and p: "p = dm_activeName m" and r: "switchFrom rank S p n m = (err, m')"
  shows "dm_inv m' \<and> (err = None \<longrightarrow> (\<forall>k. marked m' k \<longleftrightarrow> k = n)) \<and> (err \<noteq> None \<longrightarrow> (\<forall>k. marked m' k \<longrightarrow> marked m k))"
proof (cases "p = n")
  case True
  then show ?thesis using r inv by (auto simp: switchFrom_def)
next
  case False
  obtain e2 m2 where st: "(if p \<noteq> '''' then DM_Stop S p m else (None, m)) = (e2, m2)" by (rule prod.exhaust)
  have i2: "dm_inv m2" "e2 = None \<Longrightarrow> \<not> marked m2 k" "e2 \<noteq> None \<Longrightarrow> marked m2 = marked m" for k
    using stop_current [OF inv p st] by auto
  show ?thesis
  proof (cases e2)
    case (Some x)
    have "m' = m2 \<and> err \<noteq> None" using r False st Some unfolding switchFrom_def st by auto
    then show ?thesis using i2(1) i2(3) Some by auto
  next
    case None
    obtain e3 m3 where sb: "StartByName rank S n m2 = (e3, m3)" by (rule prod.exhaust)
    have "m' = m3 \<and> (err = None \<longleftrightarrow> e3 = None)" using r False None sb unfolding switchFrom_def st by (cases e3) auto
    then show ?thesis using start_inv [OF i2(1) i2(2) [OF None] n sb] by auto
  qed
qed

lemma switch_inv:
  assumes inv: "dm_inv m" and idle: "\<And>c s. create c = Inr s \<Longrightarrow> \<not> running s" and types: "'''' \<notin> set types"
    and r: "SwitchTo rank S create types n m = (previous, err, m')"
  shows "dm_inv m' \<and> (err = None \<longrightarrow> (\<forall>k. marked m' k \<longleftrightarrow> k = n) \<and> previous = dm_activeName m)
    \<and> (err \<noteq> None \<longrightarrow> (\<forall>k. marked m' k \<longrightarrow> marked m k))"
proof (cases "n \<in> set types")
  case False
  then show ?thesis using r inv by (auto simp: SwitchTo_def)
next
  case True
  then have n: "n \<noteq> ''''" using types by auto
  obtain e1 m1 where en: "ensureRegistered create n m = (e1, m1)" by (rule prod.exhaust)
  have i1: "dm_inv m1" "marked m1 = marked m" using ensure_inv [OF inv idle en] by auto
  then have name: "dm_activeName m1 = dm_activeName m" using inv by (auto simp: dm_inv_def) metis
  show ?thesis
  proof (cases e1)
    case (Some x)
    then show ?thesis using r True en i1 by (auto simp: SwitchTo_def)
  next
    case None
    then have "switchFrom rank S (dm_activeName m1) n m1 = (err, m') \<and> previous = dm_activeName m1"
      using r True en previous_active [OF i1(1), of rank] by (auto simp: SwitchTo_def)
    then show ?thesis using switchFrom_inv [OF i1(1) n refl] i1(2) name by auto
  qed
qed

lemma unregister_inv:
  assumes inv: "dm_inv m" and r: "DM_Unregister S n m = (err, m')"
  shows "dm_inv m'"
proof (cases "map_of (dm_sources m) n")
  case None
  then show ?thesis using r inv by (auto simp: DM_Unregister_def)
next
  case (Some w)
  obtain e s where st: "(if dw_active w then ds_Stop S (dw_source w) else (None, dw_source w)) = (e, s)" by (rule prod.exhaust)
  show ?thesis
  proof (cases e)
    case None
    then have m': "m' = m\<lparr>dm_activeName := (if dm_activeName m = n then '''' else dm_activeName m),
        dm_sources := filter (\<lambda>kv. fst kv \<noteq> n) (dm_sources m)\<rparr>"
      using r Some st by (auto simp: DM_Unregister_def)
    have k: "marked m' k \<longleftrightarrow> k \<noteq> n \<and> marked m k" for k by (auto simp: m' marked_def map_of_filter_key)
    show ?thesis using inv k unfolding dm_inv_def
      by (auto simp: m' map_of_filter_key distinct_filter_key)
  next
    case (Some x)
    then have "running s = dw_active w" using st stop_err inv \<open>map_of (dm_sources m) n = Some w\<close> by (auto simp: dm_inv_def split: if_splits)
    from put_same [OF inv \<open>map_of (dm_sources m) n = Some w\<close> this] show ?thesis
      using r st Some \<open>map_of (dm_sources m) n = Some w\<close> by (auto simp: DM_Unregister_def)
  qed
qed

lemma close_inv:
  assumes inv: "dm_inv m" and r: "DM_Close S m = (err, m')"
  shows "dm_inv m'" "err = None \<Longrightarrow> \<not> marked m' k"
proof -
  let ?c = "cancelContext m" and ?n = "dm_activeName m"
  have ic: "dm_inv ?c" by (rule inv_context(2) [OF inv])
  have "dm_inv m' \<and> (err = None \<longrightarrow> (\<forall>k. \<not> marked m' k))"
  proof (cases "?n = ''''")
    case True
    then show ?thesis using r ic inv by (auto simp: DM_Close_def dm_inv_def)
  next
    case False
    then have "marked m ?n" using inv by (simp add: dm_inv_def)
    then obtain w where w: "map_of (dm_sources m) ?n = Some w" "dw_active w" by (auto simp: marked_def)
    obtain e s where st: "ds_Stop S (dw_source w) = (e, s)" by (rule prod.exhaust)
    show ?thesis
    proof (cases e)
      case None
      have m': "m' = (putSource ?n s False ?c)\<lparr>dm_activeName := ''''\<rparr>" using r False w st None by (simp add: DM_Close_def)
      have k: "\<not> marked (putSource ?n s False ?c) k" for k using inv by (auto simp: marked_put dm_inv_def)
      have "dm_inv m'" unfolding m' using stop_ok st None k by (intro inv_put [OF ic]) auto
      then show ?thesis using k by (simp add: m')
    next
      case (Some x)
      then have m': "m' = putSource ?n s (dw_active w) ?c" "err \<noteq> None" using r False w st by (auto simp: DM_Close_def)
      have "running s = dw_active w" using stop_err st Some inv w(1) by (auto simp: dm_inv_def)
      with put_same(1) [OF ic, of ?n w s] w(1) m' show ?thesis by auto
    qed
  qed
  then show "dm_inv m'" "err = None \<Longrightarrow> \<not> marked m' k" by blast+
qed

lemma start_all_inv:
  assumes inv: "dm_inv m" and one: "length (dm_sources m) \<le> 1" and names: "'''' \<notin> fst ` set (dm_sources m)"
    and r: "DM_Start rank S m = (err, m')"
  shows "dm_inv m'"
proof -
  let ?m = "newContext (cancelContext m)"
  have im: "dm_inv ?m" using inv inv_context by blast
  consider "dm_sources m = []" | n w where "dm_sources m = [(n, w)]" using one by (cases "dm_sources m") auto
  then show ?thesis
  proof cases
    case 1
    then show ?thesis using r im by (simp add: DM_Start_def Let_def)
  next
    case (2 n w)
    have rk: "range_keys rank [n] = [n]" by (simp add: range_keys_def)
    have n: "n \<noteq> ''''" using names 2 by auto
    have w: "map_of (dm_sources ?m) n = Some w" using 2 by simp
    have c: "dm_ctx ?m = Some (dm_nextCtx (cancelContext m))" by (simp add: newContext_def)
    show ?thesis
    proof (cases "dw_active w")
      case True
      then show ?thesis using r im 2 rk by (simp add: DM_Start_def Let_def)
    next
      case False
      have none: "\<not> marked ?m k" for k using 2 False by (auto simp: marked_def)
      obtain e s where st: "ds_Start S (dm_ctx ?m) (dw_source w) = (e, s)" by (rule prod.exhaust)
      show ?thesis
      proof (cases e)
        case None
        have m': "m' = (putSource n s True ?m)\<lparr>dm_activeName := n\<rparr>"
          using r 2 rk False st None by (simp add: DM_Start_def Let_def putSource_def)
        show ?thesis unfolding m' using start_ok st None none n by (intro inv_put [OF im]) (auto simp: marked_put)
      next
        case (Some x)
        have m': "m' = putSource n s (dw_active w) ?m" using r 2 rk False st Some by (simp add: DM_Start_def Let_def)
        have "running s = dw_active w" using start_err st Some c im w by (auto simp: dm_inv_def)
        then show ?thesis unfolding m' by (rule put_same(1) [OF im w])
      qed
    qed
  qed
qed

end

section \<open>The manager over time\<close>

text \<open>
  The operations the program performs: the configured source is registered and started, then
  sources are switched, stopped, added and removed. \<open>start\<close> runs while at most one source is registered.
\<close>

inductive ds_step :: "'s DataSource \<Rightarrow> ('s \<Rightarrow> bool) \<Rightarrow> (gomap \<Rightarrow> string + 's) \<Rightarrow> string list \<Rightarrow> 's DataSourceManager \<Rightarrow> 's DataSourceManager \<Rightarrow> bool"
  for S running create types where
  init: "DM_Init create cfg m = (err, m') \<Longrightarrow> ds_step S running create types m m'"
| start: "length (dm_sources m) \<le> 1 \<Longrightarrow> '''' \<notin> fst ` set (dm_sources m) \<Longrightarrow> DM_Start rank S m = (err, m') \<Longrightarrow> ds_step S running create types m m'"
| switch: "SwitchTo rank S create types n m = (previous, err, m') \<Longrightarrow> ds_step S running create types m m'"
| stop: "DM_Stop S n m = (err, m') \<Longrightarrow> ds_step S running create types m m'"
| register: "\<not> running s \<Longrightarrow> DM_Register n s m = (err, m') \<Longrightarrow> ds_step S running create types m m'"
| unregister: "DM_Unregister S n m = (err, m') \<Longrightarrow> ds_step S running create types m m'"
| close: "DM_Close S m = (err, m') \<Longrightarrow> ds_step S running create types m m'"

context data_source
begin

lemma running_iff:
  assumes "dm_inv m" "map_of (dm_sources m) n = Some w"
  shows "running (dw_source w) \<longleftrightarrow> n \<noteq> [] \<and> n = dm_activeName m"
proof -
  have "marked m n \<longleftrightarrow> dw_active w" using assms(2) unfolding marked_def by simp
  then show ?thesis using assms unfolding dm_inv_def by blast
qed

lemma init_inv:
  assumes inv: "dm_inv m" and idle: "\<And>c s. create c = Inr s \<Longrightarrow> \<not> running s" and r: "DM_Init create cfg m = (err, m')"
  shows "dm_inv m'"
proof -
  let ?m = "m\<lparr>dm_cfg := Some cfg\<rparr>"
  have "marked ?m = marked m" by (simp add: marked_def fun_eq_iff)
  then have i: "dm_inv ?m" using inv by (simp add: dm_inv_def)
  have reg: "dm_inv m2" if "create c = Inr s" "DM_Register n s ?m = (e, m2)" for c s n e m2
    by (rule register_inv(1) [OF i idle [OF that(1)] that(2)])
  show ?thesis using r i reg unfolding DM_Init_def Let_def
    by (auto split: option.splits govalue.splits if_splits sum.splits prod.splits)
qed

lemma step_inv:
  assumes "ds_step S running create types m m'" "dm_inv m" "\<And>c s. create c = Inr s \<Longrightarrow> \<not> running s" "'''' \<notin> set types"
  shows "dm_inv m'"
  using assms
proof (induction rule: ds_step.induct)
  case (switch rank n m previous err m')
  then show ?case using switch_inv [OF switch(2) _ switch(4) switch(1)] by blast
qed (blast intro: init_inv start_all_inv stop_inv(1) register_inv(1) unregister_inv close_inv(1))+

lemma sources_reachable_inv:
  assumes "(ds_step S running create types)\<^sup>*\<^sup>* NewDataSourceManager m" "\<And>c s. create c = Inr s \<Longrightarrow> \<not> running s" "'''' \<notin> set types"
  shows "dm_inv m"
  using assms(1)
proof (induction rule: rtranclp_induct)
  case base
  show ?case by (simp add: dm_inv_def NewDataSourceManager_def marked_def)
next
  case (step m m')
  then show ?case using step_inv assms(2,3) by blast
qed

end


section \<open>Where the convention breaks\<close>

text \<open>
  Starting a second source by name (or \<^verbatim>\<open>Start\<close> with two sources registered) does not stop the first:
  both run. Closing the manager then stops the second only.
\<close>

theorem start_by_name_adds_a_source:
  fixes m :: "MockDataSource DataSourceManager" and rank :: "string \<Rightarrow> nat" and now :: gotime and uptime :: duration
  assumes "map_of (dm_sources m) a = Some w" "dw_active w" "mk_started (dw_source w)"
    and "map_of (dm_sources m) b = Some v" "\<not> dw_active v" "\<not> mk_started (dw_source v)" "a \<noteq> b" "b \<noteq> ''''"
  defines "m1 \<equiv> snd (StartByName rank (mockSource now uptime) b m)"
  shows "marked m1 a \<and> marked m1 b \<and> marked (snd (DM_Close (mockSource now uptime) m1)) a
    \<and> (\<exists>w'. map_of (dm_sources (snd (DM_Close (mockSource now uptime) m1))) a = Some w' \<and> mk_started (dw_source w'))"
proof -
  obtain c m0 where m0: "(if dm_ctx m = None then newContext m else m) = m0" "dm_ctx m0 = Some c" "dm_sources m0 = dm_sources m"
    by (cases "dm_ctx m") (auto simp: newContext_def)
  have m1: "m1 = (putSource b ((dw_source v)\<lparr>mk_started := True, mk_ownCtx := Some c, mk_counter := 0, mk_typeIndex := 0\<rparr>) True m0)\<lparr>dm_activeName := b\<rparr>"
    unfolding m1_def using assms m0 by (simp add: StartByName_def mockSource_def Mock_Start_def Let_def)
  have cl: "map_of (dm_sources (snd (DM_Close (mockSource now uptime) m1))) a = Some w"
    using assms(1,7,8) m0(3) unfolding m1 by (simp add: DM_Close_def mockSource_def Mock_Stop_def Let_def)
  show ?thesis using assms(1,2,3,7) m0(3) cl by (auto simp: m1 marked_def)
qed

text \<open>
  The deprecated \<^verbatim>\<open>LoadAndStart\<close> never returns when it finds a source to start: it waits for a lock it
  holds itself.
\<close>

theorem LoadAndStart_deadlocks:
  assumes "DM_Init create cfg m = (None, m')" "dm_sources m' \<noteq> []"
  shows "LoadAndStart rank S create cfg m = None"
proof -
  have "range_keys rank (map fst (dm_sources m')) \<noteq> []" using assms(2) by (metis length_0_conv length_map length_range_keys)
  then show ?thesis using assms(1) by (auto simp: LoadAndStart_def lockedStartByName_def neq_Nil_conv split: list.split)
qed

section \<open>Examples\<close>

definition exMock :: MockDataSource where
  "exMock = \<lparr>mk_config = \<lparr>bc_Type = ''mock'', bc_Name = ''mock'', bc_Enabled = True, bc_BufferSize = 1000, bc_DropPolicy = '''',
       bc_HealthCheckInterval = 30 * second, bc_ReconnectInterval = 5 * second\<rparr>,
     mk_eventsReceived = 0, mk_eventsSent = 0, mk_eventsDropped = 0, mk_started = False, mk_ownCtx = None,
     mk_eventInterval = 5 * second, mk_eventTypes = defaultEventTypes, mk_counter = 0, mk_typeIndex = 0\<rparr>"

definition mockCreate :: "gomap \<Rightarrow> string + MockDataSource" where
  "mockCreate _ = Inr exMock"

definition twoMocks :: "MockDataSource DataSourceManager" where
  "twoMocks = snd (DM_Register ''b'' exMock (snd (DM_Register ''a'' exMock NewDataSourceManager)))"

definition switchedMocks :: "MockDataSource DataSourceManager" where
  "switchedMocks = snd (snd (SwitchTo length (mockSource 0 0) mockCreate [''a'', ''b''] ''a'' twoMocks))"

lemmas mock_exec = SwitchTo_def ensureRegistered_def previousSource_def activeNames_def switchFrom_def StartByName_def DM_Register_def
  putSource_def newContext_def mockSource_def Mock_Start_def NewDataSourceManager_def range_keys_def Let_def

lemma twoMocks_eq:
  "twoMocks = NewDataSourceManager\<lparr>dm_sources := [(''a'', \<lparr>dw_source = exMock, dw_active = False\<rparr>), (''b'', \<lparr>dw_source = exMock, dw_active = False\<rparr>)]\<rparr>"
  by (simp add: twoMocks_def mock_exec)

lemma switchedMocks_eq:
  "dm_sources switchedMocks = [(''a'', \<lparr>dw_source = exMock\<lparr>mk_started := True, mk_ownCtx := Some 0\<rparr>, dw_active = True\<rparr>),
     (''b'', \<lparr>dw_source = exMock, dw_active = False\<rparr>)]" "dm_activeName switchedMocks = ''a''"
  by (simp_all add: switchedMocks_def twoMocks_eq mock_exec exMock_def)

lemma switchedMocks_reachable:
  "(ds_step (mockSource 0 0) mk_started mockCreate [''a'', ''b''])\<^sup>*\<^sup>* NewDataSourceManager switchedMocks"
proof -
  let ?R = "ds_step (mockSource 0 0) mk_started mockCreate [''a'', ''b'']"
  have idle: "\<not> mk_started exMock" by (simp add: exMock_def)
  have reg: "?R m (snd (DM_Register n exMock m))" for n m using idle
    by (intro ds_step.register [of mk_started exMock n m "fst (DM_Register n exMock m)"]) simp_all
  have sw: "?R twoMocks switchedMocks" unfolding switchedMocks_def
    by (rule ds_step.switch [of length _ _ _ "''a''" _ "fst (SwitchTo length (mockSource 0 0) mockCreate [''a'', ''b''] ''a'' twoMocks)"
          "fst (snd (SwitchTo length (mockSource 0 0) mockCreate [''a'', ''b''] ''a'' twoMocks))"]) simp
  have "?R\<^sup>*\<^sup>* NewDataSourceManager twoMocks" unfolding twoMocks_def
    by (rule rtranclp.rtrancl_into_rtrancl [OF r_into_rtranclp [of ?R, OF reg] reg])
  then show ?thesis using sw by (rule rtranclp.rtrancl_into_rtrancl)
qed


theorem start_by_name_adds_a_source_witness:
  "marked (snd (StartByName length (mockSource 0 0) ''b'' switchedMocks)) ''a'' \<and> marked (snd (StartByName length (mockSource 0 0) ''b'' switchedMocks)) ''b''"
  using start_by_name_adds_a_source [of switchedMocks "''a''" "\<lparr>dw_source = exMock\<lparr>mk_started := True, mk_ownCtx := Some 0\<rparr>, dw_active = True\<rparr>"
      "''b''" "\<lparr>dw_source = exMock, dw_active = False\<rparr>" length 0 0]
  by (simp add: switchedMocks_eq exMock_def)

definition mockSection :: ds_config where
  "mockSection = \<lparr>dc_datasource = Some (VMap [(''type'', VString ''mock'')]), dc_GetMap = (\<lambda>_. None)\<rparr>"

theorem LoadAndStart_deadlocks_witness:
  "LoadAndStart length (mockSource 0 0) mockCreate mockSection NewDataSourceManager = None"
  by (rule LoadAndStart_deadlocks [of _ _ _ "snd (DM_Init mockCreate mockSection NewDataSourceManager)"])
    (simp_all add: DM_Init_def mockSection_def mockCreate_def NewDataSourceManager_def DM_Register_def putSource_def)

end
