(* ===== verification/Nuts_HTTP.thy ===== *)
theory Nuts_HTTP
  imports Nuts_Common "HOL-Library.Sublist"
begin

text \<open>
  What the HTTP handlers share: requests and responses, the response envelope (\<^verbatim>\<open>src/pkg/common/api.go\<close>), the request
  multiplexer of the Go library for patterns without wildcards, and the authentication wrapper that
  \<^verbatim>\<open>startHTTPServer\<close> of \<^verbatim>\<open>src/pkg/core/core.go\<close> puts in front of it. The request identifier and the time stamp of a
  response, which nothing reads back, are left out.
\<close>

section \<open>Requests and responses\<close>

record request =
  rq_Method :: string
  rq_Path :: string
  rq_Query :: "(string \<times> string) list"
  rq_Authorization :: string
  rq_Body :: string

text \<open>\<^verbatim>\<open>r.URL.Query().Get(key)\<close>: the first value, or the empty string.\<close>

definition queryGet :: "request \<Rightarrow> string \<Rightarrow> string" where
  "queryGet r key = (case map_of (rq_Query r) key of None \<Rightarrow> '''' | Some v \<Rightarrow> v)"

record 'd APIResponse =
  api_Code :: int
  api_Message :: string
  api_Data :: "'d option"

definition Success :: "'d option \<Rightarrow> 'd APIResponse" where
  "Success d = \<lparr>api_Code = 0, api_Message = ''success'', api_Data = d\<rparr>"

definition Error :: "int \<Rightarrow> string \<Rightarrow> 'd APIResponse" where
  "Error code message = \<lparr>api_Code = code, api_Message = message, api_Data = None\<rparr>"

definition ErrorWithCode :: "ErrorCode \<Rightarrow> string \<Rightarrow> 'd APIResponse" where
  "ErrorWithCode code message = Error code message"

text \<open>
  A response has a body of the envelope, data without it, or the plain text that the multiplexer writes itself. A
  handler that writes no status answers 200.
\<close>

datatype 'd body = Text | Raw 'd | Envelope "'d APIResponse"

record 'd response =
  http_Status :: int
  http_Body :: "'d body"

definition reply :: "int \<Rightarrow> 'd APIResponse \<Rightarrow> 'd response" where
  "reply status body = \<lparr>http_Status = status, http_Body = Envelope body\<rparr>"

definition okReply :: "'d APIResponse \<Rightarrow> 'd response" where
  "okReply body = reply 200 body"

text \<open>\<^verbatim>\<open>w.WriteHeader(ErrorCodeToHTTPStatus(code))\<close> followed by the error of that code.\<close>

definition failReply :: "ErrorCode \<Rightarrow> string \<Rightarrow> 'd response" where
  "failReply code message = reply (ErrorCodeToHTTPStatus code) (ErrorWithCode code message)"

definition response_data :: "'d response \<Rightarrow> 'd option" where
  "response_data resp = (case http_Body resp of Text \<Rightarrow> None | Raw d \<Rightarrow> Some d | Envelope b \<Rightarrow> api_Data b)"

definition response_code :: "'d response \<Rightarrow> int" where
  "response_code resp = (case http_Body resp of Envelope b \<Rightarrow> api_Code b | _ \<Rightarrow> - 1)"

lemma envelope_simps [simp]:
  "http_Status (reply k b) = k" "http_Body (reply k b) = Envelope b" "http_Status (okReply b) = 200" "http_Body (okReply b) = Envelope b"
  "api_Code (Success d) = 0" "api_Data (Success d) = d" "api_Code (Error c s) = c" "api_Data (Error c s) = None"
  "api_Code (ErrorWithCode c s) = c" "api_Data (ErrorWithCode c s) = None"
  "http_Status (failReply c s) = ErrorCodeToHTTPStatus c" "http_Body (failReply c s) = Envelope (ErrorWithCode c s)"
  "response_data (reply k b) = api_Data b" "response_code (reply k b) = api_Code b"
  "response_data (okReply b) = api_Data b" "response_code (okReply b) = api_Code b"
  "response_data (failReply c s) = None" "response_code (failReply c s) = c"
  by (simp_all add: reply_def okReply_def Success_def Error_def ErrorWithCode_def failReply_def response_data_def response_code_def)

text \<open>Embedding the data of one handler into the data type of the server.\<close>

definition map_response :: "('a \<Rightarrow> 'b) \<Rightarrow> 'a response \<Rightarrow> 'b response" where
  "map_response f resp =
     \<lparr>http_Status = http_Status resp,
      http_Body =
        (case http_Body resp of
           Text \<Rightarrow> Text
         | Raw d \<Rightarrow> Raw (f d)
         | Envelope b \<Rightarrow> Envelope \<lparr>api_Code = api_Code b, api_Message = api_Message b, api_Data = map_option f (api_Data b)\<rparr>)\<rparr>"

lemma map_response_simps [simp]:
  "http_Status (map_response f resp) = http_Status resp" "response_code (map_response f resp) = response_code resp"
  "response_data (map_response f resp) = map_option f (response_data resp)"
  by (simp_all add: map_response_def response_code_def response_data_def split: body.split)

section \<open>Paths\<close>

text \<open>\<^verbatim>\<open>strings.Split(s, "/")\<close> and \<^verbatim>\<open>strings.Contains(s, t)\<close>.\<close>

fun splitSlash :: "string \<Rightarrow> string list" where
  "splitSlash [] = [[]]"
| "splitSlash (c # s) =
     (if c = CHR ''/'' then [] # splitSlash s
      else case splitSlash s of [] \<Rightarrow> [[c]] | seg # segs \<Rightarrow> (c # seg) # segs)"

fun joinSlash :: "string list \<Rightarrow> string" where
  "joinSlash [] = []"
| "joinSlash [s] = s"
| "joinSlash (s # t # ts) = s @ ''/'' @ joinSlash (t # ts)"

fun contains :: "string \<Rightarrow> string \<Rightarrow> bool" where
  "contains [] t \<longleftrightarrow> t = []"
| "contains (c # s) t \<longleftrightarrow> prefix t (c # s) \<or> contains s t"

lemma splitSlash_neq_Nil [simp]: "splitSlash s \<noteq> []"
  by (cases s) (auto split: list.split)

lemma joinSlash_Cons_eq: "xs \<noteq> [] \<Longrightarrow> joinSlash (x # xs) = x @ ''/'' @ joinSlash xs"
  by (cases xs) auto

lemma join_splitSlash: "joinSlash (splitSlash s) = s"
proof (induction s)
  case (Cons c s)
  obtain seg segs where e: "splitSlash s = seg # segs" by (cases "splitSlash s") auto
  show ?case
  proof (cases "c = CHR ''/''")
    case True
    then show ?thesis using Cons e by (simp add: joinSlash_Cons_eq)
  next
    case False
    then show ?thesis using Cons e by (cases segs) simp_all
  qed
qed simp

lemma splitSlash_segment: "CHR ''/'' \<notin> set s \<Longrightarrow> splitSlash s = [s]"
  by (induction s) auto

lemma splitSlash_append: "CHR ''/'' \<notin> set s \<Longrightarrow> splitSlash (s @ CHR ''/'' # t) = s # splitSlash t"
  by (induction s) auto

lemma split_joinSlash: "xs \<noteq> [] \<Longrightarrow> (\<And>x. x \<in> set xs \<Longrightarrow> CHR ''/'' \<notin> set x) \<Longrightarrow> splitSlash (joinSlash xs) = xs"
  by (induction xs rule: joinSlash.induct) (auto simp: splitSlash_segment splitSlash_append)

lemma contains_iff_sublist: "contains s t \<longleftrightarrow> sublist t s"
  by (induction s) (auto simp: sublist_Cons_right)

section \<open>The multiplexer\<close>

text \<open>
  A path is clean when it starts with a slash and has no empty segment before its end and no dot segment. The multiplexer
  redirects every other path (except for \<^verbatim>\<open>CONNECT\<close>) to its clean form, answering 301, and otherwise calls the handler of the
  pattern that equals the path, or of the longest pattern that ends with a slash and starts the path. A path that lacks
  only the final slash is redirected as well.
\<close>

definition isClean :: "string \<Rightarrow> bool" where
  "isClean path \<longleftrightarrow>
     (case splitSlash path of
        seg # segs \<Rightarrow> seg = [] \<and> segs \<noteq> [] \<and> (\<forall>s \<in> set (butlast segs). s \<noteq> []) \<and> (\<forall>s \<in> set segs. s \<noteq> ''.'' \<and> s \<noteq> ''..'')
      | [] \<Rightarrow> False)"

type_synonym ('d, 'st) handler = "request \<Rightarrow> 'st \<Rightarrow> 'd response \<times> 'st"

fun longestPattern :: "string \<Rightarrow> (string \<times> 'h) list \<Rightarrow> (string \<times> 'h) option" where
  "longestPattern path [] = None"
| "longestPattern path ((p, h) # pats) =
     (let rest = longestPattern path pats
      in if p \<noteq> [] \<and> last p = CHR ''/'' \<and> prefix p path
         then (case rest of None \<Rightarrow> Some (p, h) | Some (q, g) \<Rightarrow> if length p < length q then Some (q, g) else Some (p, h))
         else rest)"

definition muxHandler :: "(string \<times> 'h) list \<Rightarrow> request \<Rightarrow> 'h option" where
  "muxHandler pats r =
     (if \<not> isClean (rq_Path r) \<and> rq_Method r \<noteq> ''CONNECT'' then None
      else case map_of pats (rq_Path r) of
             Some h \<Rightarrow> Some h
           | None \<Rightarrow>
               if map_of pats (rq_Path r @ ''/'') \<noteq> None then None
               else map_option snd (longestPattern (rq_Path r) pats))"

definition muxMiss :: "(string \<times> 'h) list \<Rightarrow> request \<Rightarrow> 'd response" where
  "muxMiss pats r =
     \<lparr>http_Status = (if \<not> isClean (rq_Path r) \<or> map_of pats (rq_Path r @ ''/'') \<noteq> None then 301 else 404), http_Body = Text\<rparr>"

definition serveMux :: "(string \<times> ('d, 'st) handler) list \<Rightarrow> ('d, 'st) handler" where
  "serveMux pats r st = (case muxHandler pats r of None \<Rightarrow> (muxMiss pats r, st) | Some h \<Rightarrow> h r st)"

lemma longestPattern_Some: "longestPattern path pats = Some (p, h) \<Longrightarrow> (p, h) \<in> set pats \<and> prefix p path"
  by (induction path pats arbitrary: p h rule: longestPattern.induct) (auto simp: Let_def split: if_splits option.splits)

lemma longestPattern_longest:
  "longestPattern path pats = Some (p, h) \<Longrightarrow> (q, g) \<in> set pats \<Longrightarrow> q \<noteq> [] \<Longrightarrow> last q = CHR ''/'' \<Longrightarrow> prefix q path \<Longrightarrow> length q \<le> length p"
proof (induction path pats arbitrary: p h rule: longestPattern.induct)
  case (2 path p' h' pats)
  show ?case
  proof (cases "longestPattern path pats")
    case None
    then have "(q, g) \<notin> set pats \<or> q = [] \<or> last q \<noteq> CHR ''/'' \<or> \<not> prefix q path"
      by (induction path pats rule: longestPattern.induct) (auto simp: Let_def split: if_splits option.splits)
    then show ?thesis using 2 None by (auto simp: Let_def split: if_splits)
  next
    case (Some qg)
    obtain q' g' where qg: "qg = (q', g')" by (rule prod.exhaust)
    have "length q \<le> length q'" if "(q, g) \<in> set pats" using "2.IH" Some qg that "2.prems" by blast
    then show ?thesis using "2.prems" Some qg by (auto simp: Let_def split: if_splits)
  qed
qed simp

lemma muxHandler_pattern:
  assumes "muxHandler pats r = Some h"
  shows "\<exists>p. (p, h) \<in> set pats \<and> prefix p (rq_Path r)"
  using assms
  by (auto simp: muxHandler_def split: if_splits option.splits dest!: longestPattern_Some map_of_SomeD)

text \<open>The handler a request reaches is that of the path, or else of the longest matching pattern.\<close>

lemma muxHandler_exact: "isClean (rq_Path r) \<Longrightarrow> map_of pats (rq_Path r) = Some h \<Longrightarrow> muxHandler pats r = Some h"
  by (simp add: muxHandler_def)

section \<open>Authentication\<close>

text \<open>
  The token comes from the environment, or else from random bytes; when these cannot be read it stays empty. Only paths
  below the API prefix are checked.
\<close>

abbreviation (input) apiPrefix :: string where "apiPrefix \<equiv> ''/api/v1/''"

definition authToken :: "string \<Rightarrow> string option \<Rightarrow> string" where
  "authToken env random = (if env = '''' then (case random of None \<Rightarrow> '''' | Some hex \<Rightarrow> hex) else env)"

definition authMiddleware :: "string \<Rightarrow> ('d, 'st) handler \<Rightarrow> ('d, 'st) handler" where
  "authMiddleware token handler r st =
     (if \<not> prefix apiPrefix (rq_Path r) then handler r st
      else if rq_Authorization r \<noteq> ''Bearer '' @ token
      then (reply 401 (Error CodeUnauthorized ''invalid or missing auth token''), st)
      else handler r st)"

text \<open>
  A request without the token reaches only the handlers of patterns outside the API prefix.
\<close>

lemma auth_blocks:
  assumes "rq_Authorization r \<noteq> ''Bearer '' @ token" "authMiddleware token (serveMux pats) r st = (resp, st')"
  shows "(if prefix apiPrefix (rq_Path r) then resp = reply 401 (Error CodeUnauthorized ''invalid or missing auth token'') \<and> st' = st
     else resp = muxMiss pats r \<and> st' = st \<or> (\<exists>p h. (p, h) \<in> set pats \<and> \<not> prefix apiPrefix p \<and> h r st = (resp, st')))"
proof (cases "prefix apiPrefix (rq_Path r)")
  case True
  then show ?thesis using assms by (simp add: authMiddleware_def)
next
  case False
  have np: "\<not> prefix apiPrefix p" if "prefix p (rq_Path r)" for p
    using prefix_order.trans [OF _ that, of apiPrefix] False by blast
  have e: "serveMux pats r st = (resp, st')"
    using assms(2) False by (simp only: authMiddleware_def not_False_eq_True if_True)
  show ?thesis
  proof (cases "muxHandler pats r")
    case None
    then have "resp = muxMiss pats r \<and> st' = st" using e by (simp add: serveMux_def)
    then show ?thesis using False by (simp only: if_False simp_thms)
  next
    case (Some h)
    then have "h r st = (resp, st')" using e by (simp add: serveMux_def)
    moreover obtain p where "(p, h) \<in> set pats" "prefix p (rq_Path r)" using muxHandler_pattern [OF Some] by blast
    ultimately show ?thesis using np [of p] by (simp only: False if_False) blast
  qed
qed

lemma auth_passes: "rq_Authorization r = ''Bearer '' @ token \<Longrightarrow> authMiddleware token h r st = h r st"
  by (simp add: authMiddleware_def)

end
