(* ===== verification/DS_Http.thy ===== *)
theory DS_Http
  imports DS_Sources Nuts_HTTP
begin

text \<open>
  The HTTP handlers of the data sources (\<^verbatim>\<open>src/pkg/datasource/http.go\<close>): listing, detail and control. Parameters as for the
  manager: the source interface, \<open>create\<close> for \<^verbatim>\<open>Factory.CreateWithMap\<close> and \<open>types\<close> for \<^verbatim>\<open>Factory.GetSupportedTypes()\<close>.
\<close>

section \<open>Handlers\<close>

datatype ds_data =
    DSList "(string \<times> bool) list"
  | DSInfo string bool
  | DSAction "(string \<times> string) list"

abbreviation (input) dsPrefix :: string where "dsPrefix \<equiv> ''/api/v1/datasources/''"

definition methodNotAllowed :: "'d response" where
  "methodNotAllowed = reply 405 (Error 405 ''method not allowed'')"

definition HandleDataSources :: "string list \<Rightarrow> (ds_data, 's DataSourceManager) handler" where
  "HandleDataSources types r m =
     (if rq_Method r = ''GET'' then (okReply (Success (Some (DSList (ListAllWithStatus types m)))), m)
      else (methodNotAllowed, m))"

definition HandleDataSourceControl ::
  "(string \<Rightarrow> nat) \<Rightarrow> 's DataSource \<Rightarrow> (gomap \<Rightarrow> string + 's) \<Rightarrow> string list \<Rightarrow> (ds_data, 's DataSourceManager) handler" where
  "HandleDataSourceControl rank S create types r m =
     (case splitSlash (drop (length dsPrefix) (rq_Path r)) of
        i # action # _ \<Rightarrow>
          if action = ''disable''
          then (case DM_Stop S i m of
                  (Some err, m) \<Rightarrow> (failReply CodeInternalError (''disable datasource: '' @ err), m)
                | (None, m) \<Rightarrow> (okReply (Success (Some (DSAction [(''id'', i), (''action'', ''disabled'')]))), m))
          else if action = ''switch''
          then (case SwitchTo rank S create types i m of
                  (previous, Some err, m) \<Rightarrow>
                    if contains err ''already active''
                    then (okReply (Success (Some (DSAction [(''id'', i), (''action'', ''already_active'')]))), m)
                    else (failReply CodeInternalError (''switch to datasource: '' @ err), m)
                | (previous, None, m) \<Rightarrow>
                    (okReply (Success (Some (DSAction [(''id'', i), (''action'', ''switched''), (''previous'', previous)]))), m))
          else (okReply (Error 400 (''unknown action: '' @ action)), m)
      | _ \<Rightarrow> (okReply (Error 400 ''invalid path format''), m))"

definition HandleDataSourceDetail ::
  "(string \<Rightarrow> nat) \<Rightarrow> 's DataSource \<Rightarrow> (gomap \<Rightarrow> string + 's) \<Rightarrow> string list \<Rightarrow> (ds_data, 's DataSourceManager) handler" where
  "HandleDataSourceDetail rank S create types r m =
     (let parts = splitSlash (drop (length dsPrefix) (rq_Path r)); i = hd parts
      in if length parts \<ge> 2 \<and> (parts ! 1 = ''disable'' \<or> parts ! 1 = ''switch'')
         then HandleDataSourceControl rank S create types r m
         else if rq_Method r = ''GET''
         then if i \<notin> set types then (okReply (Error 404 (''datasource '' @ i @ '' not found'')), m)
              else (okReply (Success (Some (DSInfo i (case GetWrapper i m of Inl _ \<Rightarrow> False | Inr w \<Rightarrow> dw_active w)))), m)
         else (methodNotAllowed, m))"

definition ds_RegisterRoutes ::
  "(string \<Rightarrow> nat) \<Rightarrow> 's DataSource \<Rightarrow> (gomap \<Rightarrow> string + 's) \<Rightarrow> string list
     \<Rightarrow> (string \<times> (ds_data, 's DataSourceManager) handler) list" where
  "ds_RegisterRoutes rank S create types =
     [(''/api/v1/datasources'', HandleDataSources types),
      (''/api/v1/datasources/'', HandleDataSourceDetail rank S create types)]"

section \<open>What a request does\<close>

text \<open>Every request is one step of the manager, or leaves it as it is.\<close>

definition ds_truthful :: "string list \<Rightarrow> 's DataSourceManager \<Rightarrow> ds_data \<Rightarrow> 's DataSourceManager \<Rightarrow> bool" where
  "ds_truthful types m d m' \<longleftrightarrow>
     (case d of
        DSList l \<Rightarrow> m' = m \<and> map fst l = types \<and> (\<forall>(n, a) \<in> set l. a \<longleftrightarrow> n = dm_activeName m)
      | DSInfo n a \<Rightarrow> m' = m \<and> n \<in> set types \<and> (a \<longleftrightarrow> n = dm_activeName m)
      | DSAction kvs \<Rightarrow>
          (\<forall>n previous. kvs = [(''id'', n), (''action'', ''switched''), (''previous'', previous)] \<longrightarrow>
             previous = dm_activeName m \<and> dm_activeName m' = n \<and> (\<forall>k. marked m' k \<longleftrightarrow> k = n))
          \<and> (\<forall>n. kvs = [(''id'', n), (''action'', ''disabled'')] \<longrightarrow> \<not> marked m' n \<and> (\<forall>k. marked m' k \<longrightarrow> marked m k)))"

lemma methodNotAllowed_simps [simp]: "response_data methodNotAllowed = None" "http_Status methodNotAllowed = 405"
  by (simp_all add: methodNotAllowed_def)

context data_source
begin

lemma active_iff: "dm_inv m \<Longrightarrow> n \<noteq> [] \<Longrightarrow> (case map_of (dm_sources m) n of Some w \<Rightarrow> dw_active w | None \<Rightarrow> False) \<longleftrightarrow> n = dm_activeName m"
  using marked_def [of m n] unfolding dm_inv_def by (cases "map_of (dm_sources m) n") auto

lemma marked_active: "dm_inv m \<Longrightarrow> marked m n \<Longrightarrow> dm_activeName m = n"
  unfolding dm_inv_def by simp

lemma control_truthful:
  assumes inv: "dm_inv m" and idle: "\<And>c s. create c = Inr s \<Longrightarrow> \<not> running s" and types: "'''' \<notin> set types"
    and r: "HandleDataSourceControl rank S create types r m = (resp, m')"
  shows "(m' = m \<or> ds_step S running create types m m') \<and> (\<forall>d. response_data resp = Some d \<longrightarrow> ds_truthful types m d m')"
proof -
  consider (short) "length (splitSlash (drop (length dsPrefix) (rq_Path r))) < 2"
    | (long) i action ps where "splitSlash (drop (length dsPrefix) (rq_Path r)) = i # action # ps"
    by (cases "splitSlash (drop (length dsPrefix) (rq_Path r))" rule: remdups_adj.cases) auto
  then show ?thesis
  proof cases
    case short
    then show ?thesis using r
      by (cases "splitSlash (drop (length dsPrefix) (rq_Path r))" rule: remdups_adj.cases) (auto simp: HandleDataSourceControl_def)
  next
    case long
    consider (disable) "action = ''disable''" | (switch) "action = ''switch''" | (other) "action \<noteq> ''disable''" "action \<noteq> ''switch''" by blast
    then show ?thesis
    proof cases
      case disable
      obtain err m1 where st: "DM_Stop S i m = (err, m1)" by (rule prod.exhaust)
      have "m' = m1" using r long disable st by (auto simp: HandleDataSourceControl_def split: option.splits)
      moreover have "response_data resp = (if err = None then Some (DSAction [(''id'', i), (''action'', ''disabled'')]) else None)"
        using r long disable st by (auto simp: HandleDataSourceControl_def split: option.splits)
      ultimately show ?thesis
        using ds_step.stop [of S i m err m1 running create types] stop_inv [OF inv st] st by (auto simp: ds_truthful_def)
    next
      case switch
      obtain previous err m1 where st: "SwitchTo rank S create types i m = (previous, err, m1)" using prod_cases3 by blast
      have sw: "dm_inv m1" "err = None \<Longrightarrow> (\<forall>k. marked m1 k \<longleftrightarrow> k = i) \<and> previous = dm_activeName m"
        using switch_inv [OF inv _ types st] idle by blast+
      have "m' = m1" using r long switch st by (auto simp: HandleDataSourceControl_def split: option.splits if_splits)
      moreover have "err = None \<Longrightarrow> dm_activeName m1 = i" using marked_active [OF sw(1), of i] sw(2) by simp
      moreover have "response_data resp = (case err of
           None \<Rightarrow> Some (DSAction [(''id'', i), (''action'', ''switched''), (''previous'', previous)])
         | Some e \<Rightarrow> if contains e ''already active'' then Some (DSAction [(''id'', i), (''action'', ''already_active'')]) else None)"
        using r long switch st by (auto simp: HandleDataSourceControl_def split: option.splits if_splits)
      ultimately show ?thesis
        using ds_step.switch [OF st, of running] sw by (auto simp: ds_truthful_def split: option.splits if_splits)
    next
      case other
      then show ?thesis using r long by (auto simp: HandleDataSourceControl_def)
    qed
  qed
qed

lemma request_truthful:
  assumes inv: "dm_inv m" and idle: "\<And>c s. create c = Inr s \<Longrightarrow> \<not> running s" and types: "'''' \<notin> set types"
    and r: "serveMux (ds_RegisterRoutes rank S create types) r m = (resp, m')"
  shows "(m' = m \<or> ds_step S running create types m m') \<and> (\<forall>d. response_data resp = Some d \<longrightarrow> ds_truthful types m d m')"
proof -
  have list: "ds_truthful types m (DSList (ListAllWithStatus types m)) m"
  proof -
    have "(case map_of (dm_sources m) n of Some w \<Rightarrow> dw_active w | None \<Rightarrow> False) \<longleftrightarrow> n = dm_activeName m" if "n \<in> set types" for n
      using active_iff [OF inv, of n] that types by fastforce
    then show ?thesis by (simp add: ds_truthful_def ListAllWithStatus_def comp_def)
  qed
  have info: "ds_truthful types m (DSInfo i (case GetWrapper i m of Inl _ \<Rightarrow> False | Inr w \<Rightarrow> dw_active w)) m" if "i \<in> set types" for i
  proof -
    have "i \<noteq> []" using that types by auto
    from active_iff [OF inv this] that show ?thesis by (auto simp: ds_truthful_def GetWrapper_def split: option.splits)
  qed
  have routes: "h = HandleDataSources types \<or> h = HandleDataSourceDetail rank S create types"
    if "muxHandler (ds_RegisterRoutes rank S create types) r = Some h" for h
    using muxHandler_pattern [OF that] by (auto simp: ds_RegisterRoutes_def)
  show ?thesis
  proof (cases "muxHandler (ds_RegisterRoutes rank S create types) r")
    case None
    then show ?thesis using r by (auto simp: serveMux_def muxMiss_def response_data_def)
  next
    case (Some h)
    from routes [OF this] show ?thesis
    proof
      assume "h = HandleDataSources types"
      then show ?thesis using r Some list by (auto simp: serveMux_def HandleDataSources_def split: if_splits)
    next
      assume h: "h = HandleDataSourceDetail rank S create types"
      show ?thesis
      proof (cases "HandleDataSourceControl rank S create types r m = (resp, m')")
        case True
        from control_truthful [OF inv _ types this] idle show ?thesis by blast
      next
        case False
        then show ?thesis using r Some h info by (auto simp: serveMux_def HandleDataSourceDetail_def Let_def split: if_splits)
      qed
    qed
  qed
qed

end


text \<open>
  Whether a failed switch means that the source was active already is decided by searching the error text,
  which contains the requested name: a request for a type that does not exist is answered with success
  (\<^verbatim>\<open>already_active\<close>) when its name contains that phrase, although nothing was switched.
\<close>

theorem unknown_switch_reported_active:
  assumes "n \<notin> set types" "CHR ''/'' \<notin> set n" "contains n ''already active''"
    and "rq_Path r = dsPrefix @ n @ ''/switch''"
  shows "HandleDataSourceDetail rank S create types r m
    = (okReply (Success (Some (DSAction [(''id'', n), (''action'', ''already_active'')]))), m)"
proof -
  have parts: "splitSlash (drop (length dsPrefix) (rq_Path r)) = [n, ''switch'']"
    using assms(2,4) splitSlash_append [OF assms(2), of "''switch''"] by simp
  have "sublist ''already active'' (''unknown datasource type: '' @ n @ '', supported: '' @ showList types)"
    using assms(3) by (auto simp: contains_iff_sublist sublist_append simp del: append_Cons append.simps)
  then have "contains (''unknown datasource type: '' @ n @ '', supported: '' @ showList types) ''already active''"
    by (simp only: contains_iff_sublist)
  then show ?thesis using assms(1) parts by (simp add: HandleDataSourceDetail_def HandleDataSourceControl_def SwitchTo_def del: contains.simps)
qed

section \<open>Examples\<close>

definition switchRequest :: request where
  "switchRequest = \<lparr>rq_Method = ''POST'', rq_Path = ''/api/v1/datasources/b/switch'', rq_Query = [], rq_Authorization = '''', rq_Body = ''''\<rparr>"

lemma switchRequest_served:
  "\<exists>m'. serveMux (ds_RegisterRoutes length (mockSource 0 0) mockCreate [''a'', ''b'']) switchRequest switchedMocks
     = (okReply (Success (Some (DSAction [(''id'', ''b''), (''action'', ''switched''), (''previous'', ''a'')]))), m')"
proof -
  have h: "muxHandler (ds_RegisterRoutes length (mockSource 0 0) mockCreate [''a'', ''b'']) switchRequest
      = Some (HandleDataSourceDetail length (mockSource 0 0) mockCreate [''a'', ''b''])"
    by (simp add: muxHandler_def switchRequest_def isClean_def ds_RegisterRoutes_def)
  have ctx: "dm_ctx switchedMocks = Some 0" by (simp add: switchedMocks_def twoMocks_eq mock_exec exMock_def)
  have "fst (SwitchTo length (mockSource 0 0) mockCreate [''a'', ''b''] ''b'' switchedMocks) = ''a''
      \<and> fst (snd (SwitchTo length (mockSource 0 0) mockCreate [''a'', ''b''] ''b'' switchedMocks)) = None"
    by (simp add: SwitchTo_def ensureRegistered_def previousSource_def switchFrom_def DM_Stop_def StartByName_def switchedMocks_eq ctx
        putSource_def newContext_def mockSource_def Mock_Start_def Mock_Stop_def Let_def exMock_def)
  then obtain m' where sw: "SwitchTo length (mockSource 0 0) mockCreate [''a'', ''b''] ''b'' switchedMocks = (''a'', None, m')"
    by (metis prod.collapse)
  show ?thesis
    unfolding serveMux_def h
    by (simp add: HandleDataSourceDetail_def HandleDataSourceControl_def switchRequest_def sw)
qed


theorem unknown_switch_reported_active_witness:
  "response_code (fst (HandleDataSourceDetail length (mockSource 0 0) mockCreate [''a'', ''b'']
     (switchRequest\<lparr>rq_Path := ''/api/v1/datasources/already active/switch''\<rparr>) switchedMocks)) = 0"
proof -
  have "contains ''already active'' ''already active''" by simp
  from unknown_switch_reported_active [OF _ _ this, of "[''a'', ''b'']" "switchRequest\<lparr>rq_Path := ''/api/v1/datasources/already active/switch''\<rparr>"
      length "mockSource 0 0" mockCreate switchedMocks]
  show ?thesis by simp
qed

end
