(* ===== verification/Policy_Http.thy ===== *)
theory Policy_Http
  imports Policy_Props Nuts_HTTP
begin

text \<open>
  The HTTP handlers of the policies (\<^verbatim>\<open>src/pkg/policy/http.go\<close>): those for \<^verbatim>\<open>http.ServeMux\<close>, which the core serves, and those
  for the gin router. \<open>decode\<close> stands for the JSON decoding of a body; \<open>showErr\<close> and \<open>showPErr\<close> give the text of an error.
  A handler that sends a policy back sends it as the manager left it, with the version that was written through
  the pointer.
\<close>

datatype pol_data =
    PolPolicies "Policy list"
  | PolPolicy Policy
  | PolAction "(string \<times> string) list"
  | PolEvaluated bool string
  | PolStats ManagerStats EngineStats

record pol_http =
  ph_decode :: "string \<Rightarrow> string + Policy"
  ph_showErr :: "manager_error \<Rightarrow> string"
  ph_showPErr :: "policy_error \<Rightarrow> string"
  ph_showVErr :: "validation_error \<Rightarrow> string"
  ph_validate :: "Policy \<Rightarrow> string option \<times> Policy"

text \<open>The policy that \<^verbatim>\<open>AddPolicy\<close> and \<^verbatim>\<open>UpdatePolicy\<close> leave in the caller's variable.\<close>

definition createdPolicy :: "'s PolicyStore \<Rightarrow> ('s, 'p) PolicyManager \<Rightarrow> Policy \<Rightarrow> Policy" where
  "createdPolicy S m p = fst (snd (ps_Create S (mgr_store m) p))"

definition updatedPolicy :: "'s PolicyStore \<Rightarrow> ('s, 'p) PolicyManager \<Rightarrow> Policy \<Rightarrow> Policy" where
  "updatedPolicy S m p = fst (snd (ps_Update S (mgr_store m) p))"

section \<open>Handlers of the multiplexer\<close>

abbreviation (input) polPrefix :: string where "polPrefix \<equiv> ''/api/v1/policies/''"

definition badRequest :: "int \<Rightarrow> string \<Rightarrow> 'd response" where
  "badRequest code message = reply 400 (Error code message)"

text \<open>The answer to a call of the manager that has nothing but an error to report.\<close>

definition answer ::
  "(manager_error \<Rightarrow> string) \<Rightarrow> pol_data option \<Rightarrow> manager_error option \<times> ('s, 'p) PolicyManager
     \<Rightarrow> pol_data response \<times> ('s, 'p) PolicyManager" where
  "answer showErr d r =
     (case r of
        (Some err, m) \<Rightarrow> (failReply CodeInternalError (showErr err), m)
      | (None, m) \<Rightarrow> (okReply (Success d), m))"

definition handlePolicies :: "pol_http \<Rightarrow> 's PolicyStore \<Rightarrow> (pol_data, ('s, 'p) PolicyManager) handler" where
  "handlePolicies H S r m =
     (if rq_Method r = ''GET''
      then (case ps_List S (mgr_store m) of
              Inl err \<Rightarrow> (failReply CodeInternalError (ph_showPErr H err), m)
            | Inr policies \<Rightarrow> (okReply (Success (Some (PolPolicies policies))), m))
      else if rq_Method r = ''POST''
      then (case ph_decode H (rq_Body r) of
              Inl err \<Rightarrow> (badRequest 400 err, m)
            | Inr policy \<Rightarrow> answer (ph_showErr H) (Some (PolPolicy (createdPolicy S m policy))) (AddPolicy S m policy))
      else (reply 405 (Error 405 ''method not allowed''), m))"

definition handlePolicyControl :: "pol_http \<Rightarrow> 's PolicyStore \<Rightarrow> (pol_data, ('s, 'p) PolicyManager) handler" where
  "handlePolicyControl H S r m =
     (case splitSlash (drop (length polPrefix) (rq_Path r)) of
        i # action # _ \<Rightarrow>
          if action = ''enable''
          then answer (ph_showErr H) (Some (PolAction [(''id'', i), (''action'', ''enabled'')])) (EnablePolicy S m i)
          else if action = ''disable''
          then answer (ph_showErr H) (Some (PolAction [(''id'', i), (''action'', ''disabled'')])) (DisablePolicy S m i)
          else (badRequest 400 (''unknown action: '' @ action), m)
      | _ \<Rightarrow> (badRequest 400 ''invalid path format'', m))"

definition handlePolicyDetail :: "pol_http \<Rightarrow> 's PolicyStore \<Rightarrow> (pol_data, ('s, 'p) PolicyManager) handler" where
  "handlePolicyDetail H S r m =
     (let parts = splitSlash (drop (length polPrefix) (rq_Path r)); i = hd parts
      in if length parts \<ge> 2 \<and> (parts ! 1 = ''enable'' \<or> parts ! 1 = ''disable'')
         then handlePolicyControl H S r m
         else if rq_Method r = ''GET''
         then (case ps_Get S (mgr_store m) i of
                 Inl err \<Rightarrow> (reply 404 (Error 404 (ph_showPErr H err)), m)
               | Inr policy \<Rightarrow> (okReply (Success (Some (PolPolicy policy))), m))
         else if rq_Method r = ''PUT''
         then (case ph_decode H (rq_Body r) of
                 Inl err \<Rightarrow> (badRequest 400 err, m)
               | Inr p \<Rightarrow>
                   (let p = p\<lparr>p_ID := i\<rparr>
                    in answer (ph_showErr H) (Some (PolPolicy (updatedPolicy S m p))) (UpdatePolicy S m p)))
         else if rq_Method r = ''DELETE''
         then answer (ph_showErr H) None (RemovePolicy S m i)
         else (reply 405 (Error 405 ''method not allowed''), m))"

definition handleValidatePolicy :: "pol_http \<Rightarrow> (pol_data, ('s, 'p) PolicyManager) handler" where
  "handleValidatePolicy H r m =
     (if rq_Method r \<noteq> ''POST'' then (reply 405 (Error 405 ''method not allowed''), m)
      else case ph_decode H (rq_Body r) of
             Inl err \<Rightarrow> (badRequest 400 err, m)
           | Inr policy \<Rightarrow>
               (case ph_validate H policy of
                  (Some err, _) \<Rightarrow> (badRequest CodeInvalidParam err, m)
                | (None, policy) \<Rightarrow>
                    (case ValidatePolicyTemp m policy of
                       Some err \<Rightarrow> (okReply (ErrorWithCode CodePolicyInvalidDSL (ph_showVErr H err)), m)
                     | None \<Rightarrow> (okReply (Success (Some (PolAction [(''message'', ''DSL syntax is valid'')]))), m))))"

definition RegisterRoutesToMux ::
  "pol_http \<Rightarrow> 's PolicyStore \<Rightarrow> (string \<times> (pol_data, ('s, 'p) PolicyManager) handler) list" where
  "RegisterRoutesToMux H S =
     [(''/api/v1/policies'', handlePolicies H S), (''/api/v1/policies/'', handlePolicyDetail H S),
      (''/api/v1/policies/validate'', handleValidatePolicy H)]"

section \<open>Handlers of the gin router\<close>

text \<open>The router passes the body and the parameter \<^verbatim>\<open>id\<close>.\<close>

definition gin_CreatePolicy ::
  "pol_http \<Rightarrow> 's PolicyStore \<Rightarrow> string \<Rightarrow> ('s, 'p) PolicyManager \<Rightarrow> pol_data response \<times> ('s, 'p) PolicyManager" where
  "gin_CreatePolicy H S body m =
     (case ph_decode H body of
        Inl err \<Rightarrow> (badRequest CodeInvalidParam err, m)
      | Inr policy \<Rightarrow>
          (case ph_validate H policy of
             (Some err, _) \<Rightarrow> (badRequest CodeInvalidParam err, m)
           | (None, policy) \<Rightarrow> answer (ph_showErr H) (Some (PolPolicy (createdPolicy S m policy))) (AddPolicy S m policy)))"

definition gin_ListPolicies :: "pol_http \<Rightarrow> 's PolicyStore \<Rightarrow> ('s, 'p) PolicyManager \<Rightarrow> pol_data response" where
  "gin_ListPolicies H S m =
     (case ps_List S (mgr_store m) of
        Inl err \<Rightarrow> failReply CodeInternalError (ph_showPErr H err)
      | Inr policies \<Rightarrow> okReply (Success (Some (PolPolicies policies))))"

definition gin_GetPolicy :: "pol_http \<Rightarrow> 's PolicyStore \<Rightarrow> string \<Rightarrow> ('s, 'p) PolicyManager \<Rightarrow> pol_data response" where
  "gin_GetPolicy H S i m =
     (case ps_Get S (mgr_store m) i of
        Inl err \<Rightarrow> reply 404 (ErrorWithCode CodeNotFound (ph_showPErr H err))
      | Inr policy \<Rightarrow> okReply (Success (Some (PolPolicy policy))))"

definition gin_UpdatePolicy ::
  "pol_http \<Rightarrow> 's PolicyStore \<Rightarrow> string \<Rightarrow> string \<Rightarrow> ('s, 'p) PolicyManager \<Rightarrow> pol_data response \<times> ('s, 'p) PolicyManager" where
  "gin_UpdatePolicy H S i body m =
     (case ph_decode H body of
        Inl err \<Rightarrow> (badRequest CodeInvalidParam err, m)
      | Inr policy \<Rightarrow>
          (case ph_validate H policy of
             (Some err, _) \<Rightarrow> (badRequest CodeInvalidParam err, m)
           | (None, policy) \<Rightarrow>
               (let p = policy\<lparr>p_ID := i\<rparr>
                in answer (ph_showErr H) (Some (PolPolicy (updatedPolicy S m p))) (UpdatePolicy S m p))))"

definition gin_DeletePolicy ::
  "pol_http \<Rightarrow> 's PolicyStore \<Rightarrow> string \<Rightarrow> ('s, 'p) PolicyManager \<Rightarrow> pol_data response \<times> ('s, 'p) PolicyManager" where
  "gin_DeletePolicy H S i m = answer (ph_showErr H) None (RemovePolicy S m i)"

definition gin_EnablePolicy ::
  "pol_http \<Rightarrow> 's PolicyStore \<Rightarrow> string \<Rightarrow> ('s, 'p) PolicyManager \<Rightarrow> pol_data response \<times> ('s, 'p) PolicyManager" where
  "gin_EnablePolicy H S i m = answer (ph_showErr H) None (EnablePolicy S m i)"

definition gin_DisablePolicy ::
  "pol_http \<Rightarrow> 's PolicyStore \<Rightarrow> string \<Rightarrow> ('s, 'p) PolicyManager \<Rightarrow> pol_data response \<times> ('s, 'p) PolicyManager" where
  "gin_DisablePolicy H S i m = answer (ph_showErr H) None (DisablePolicy S m i)"

definition gin_ValidatePolicy :: "pol_http \<Rightarrow> string \<Rightarrow> ('s, 'p) PolicyManager \<Rightarrow> pol_data response" where
  "gin_ValidatePolicy H body m =
     (case ph_decode H body of
        Inl err \<Rightarrow> badRequest CodeInvalidParam err
      | Inr policy \<Rightarrow>
          (case ValidatePolicyTemp m policy of
             Some err \<Rightarrow> okReply (ErrorWithCode CodePolicyInvalidDSL (ph_showVErr H err))
           | None \<Rightarrow> okReply (Success (Some (PolAction [(''message'', ''DSL syntax is valid'')])))))"

text \<open>
  \<open>decodeReq\<close> decodes the policy identifier and the event of an evaluation request. Without an event, \<^verbatim>\<open>Evaluate\<close> reads a nil
  pointer; \<^term>\<open>None\<close> stands for that panic and for one of the evaluation.
\<close>

definition gin_EvaluatePolicy ::
  "pol_http \<Rightarrow> (string \<Rightarrow> string + (string \<times> Event option)) \<Rightarrow> 's PolicyStore \<Rightarrow> string \<Rightarrow> ('s, 'p) PolicyEngine \<Rightarrow> pol_data response option" where
  "gin_EvaluatePolicy H decodeReq S body e =
     (case decodeReq body of
        Inl err \<Rightarrow> Some (badRequest CodeInvalidParam err)
      | Inr (i, None) \<Rightarrow> None
      | Inr (i, Some event) \<Rightarrow>
          (case Evaluate S e i event of
             EvaluatePanic \<Rightarrow> None
           | EvaluateResult (Inl (Inl err)) \<Rightarrow>
               Some (okReply (Success (Some (PolEvaluated False
                 (''failed to get policy '' @ i @ '' for event '' @ ev_ID event @ '': '' @ ph_showPErr H err)))))
           | EvaluateResult (Inl (Inr err)) \<Rightarrow> Some (okReply (Success (Some (PolEvaluated False err))))
           | EvaluateResult (Inr matched) \<Rightarrow> Some (okReply (Success (Some (PolEvaluated matched ''''))))))"

definition gin_GetStats :: "'s PolicyStore \<Rightarrow> ('s, 'p) PolicyEngine \<Rightarrow> pol_data response" where
  "gin_GetStats S e = okReply (Success (Some (PolStats (Manager_GetStats S (pe_manager e)) (pe_stats e))))"

section \<open>What a request does\<close>

text \<open>
  The answers, over what the store holds: a policy sent back is the one now stored under its identifier, a
  listing is complete and without repetition, an enabled policy is stored as enabled.
\<close>

definition policy_answer_true ::
  "('s \<Rightarrow> string \<Rightarrow> Policy option) \<Rightarrow> (Policy \<Rightarrow> Policy) \<Rightarrow> ('s, 'p) PolicyManager \<Rightarrow> pol_data option \<Rightarrow> bool" where
  "policy_answer_true content asStored m d \<longleftrightarrow>
     (case d of
        Some (PolPolicy p) \<Rightarrow> (\<exists>q. content (mgr_store m) (p_ID p) = Some q \<and> (q = p \<or> q = asStored p))
      | Some (PolPolicies ps) \<Rightarrow> set ps = {p. \<exists>i. content (mgr_store m) i = Some p} \<and> distinct (map p_ID ps)
      | Some (PolAction kvs) \<Rightarrow>
          (\<forall>i. kvs = [(''id'', i), (''action'', ''enabled'')] \<longrightarrow> (\<exists>p. content (mgr_store m) i = Some p \<and> p_Enabled p))
          \<and> (\<forall>i. kvs = [(''id'', i), (''action'', ''disabled'')] \<longrightarrow> (\<exists>p. content (mgr_store m) i = Some p \<and> \<not> p_Enabled p))
      | _ \<Rightarrow> True)"

context policy_store
begin

definition pol_truthful :: "('s, 'p) PolicyManager \<Rightarrow> pol_data option \<Rightarrow> bool" where
  "pol_truthful m d \<longleftrightarrow> policy_answer_true content norm m d"

lemmas truthful_defs = pol_truthful_def policy_answer_true_def

lemma answer_error: "answer showErr d (err, m1) = (resp, m') \<Longrightarrow> m' = m1 \<and> (response_code resp = 0 \<longleftrightarrow> err = None)
    \<and> response_data resp = (if err = None then d else None)"
  by (auto simp: answer_def split: option.splits)

lemma AddPolicy_created:
  assumes inv: "mgr_inv m" and r: "AddPolicy S m p = (None, m')"
  shows "pol_truthful m' (Some (PolPolicy (createdPolicy S m p)))"
proof -
  have okm: "ok (mgr_store m)" using inv by (simp add: mgr_inv_def)
  obtain e q s where c: "ps_Create S (mgr_store m) p = (e, q, s)" by (rule prod_cases3)
  have e: "e = None" using r c by (auto simp: AddPolicy_def split: option.splits)
  note cr = create_ok [OF okm c [unfolded e]]
  obtain ce m1 where cp: "compilePolicy (m\<lparr>mgr_store := s\<rparr>) q = (ce, m1)" by (rule prod.exhaust)
  have "ce = None \<and> m' = m1" using r c e cp by (auto simp: AddPolicy_def split: option.splits)
  moreover have "mgr_store m1 = s" using cp by (auto simp: compilePolicy_def split: option.splits sum.splits)
  ultimately have "mgr_store m' = s" by simp
  moreover have "p_ID q = p_ID p" using cr by auto
  ultimately show ?thesis using cr c by (simp add: truthful_defs createdPolicy_def)
qed

lemma UpdatePolicy_stored:
  assumes inv: "mgr_inv m" and r: "UpdatePolicy S m p = (None, m')"
  shows "pol_truthful m' (Some (PolPolicy (updatedPolicy S m p)))"
proof -
  have okm: "ok (mgr_store m)" using inv by (simp add: mgr_inv_def)
  obtain e q s where c: "ps_Update S (mgr_store m) p = (e, q, s)" by (rule prod_cases3)
  have "e = None" using r c by (auto simp: UpdatePolicy_def split: option.splits)
  then have "q = p\<lparr>p_Version := p_Version p + 1\<rparr>" using update_ok [OF okm] c by blast
  moreover have "content (mgr_store m') = (content (mgr_store m))(p_ID p \<mapsto> norm (p\<lparr>p_Version := p_Version p + 1\<rparr>))"
    using UpdatePolicy_cases [OF inv r] by blast
  ultimately show ?thesis using c by (simp add: truthful_defs updatedPolicy_def)
qed

lemma setEnabled_stored:
  assumes inv: "mgr_inv m" and r: "setEnabled S m i b = (err, m')"
  shows "(err = None \<longrightarrow> (\<exists>p. content (mgr_store m') i = Some p \<and> p_Enabled p = b)) \<and> (err \<noteq> None \<longrightarrow> m' = m)"
proof -
  have okm: "ok (mgr_store m)" using inv by (simp add: mgr_inv_def)
  show ?thesis
  proof (cases "ps_Get S (mgr_store m) i")
    case (Inl e)
    then show ?thesis using r by (auto simp: setEnabled_def)
  next
    case (Inr p)
    then have u: "UpdatePolicy S m (p\<lparr>p_Enabled := b\<rparr>) = (err, m')" using r by (simp add: setEnabled_def)
    have "p_ID p = i" using Inr get_iff [OF okm] ids [OF okm] by blast
    then show ?thesis using UpdatePolicy_cases [OF inv u] norm by auto
  qed
qed

lemma list_truthful: "mgr_inv m \<Longrightarrow> ps_List S (mgr_store m) = Inr ps \<Longrightarrow> pol_truthful m (Some (PolPolicies ps))"
  using list_set [of "mgr_store m" ps] list_distinct [of "mgr_store m" ps] by (simp add: truthful_defs mgr_inv_def)

lemma get_truthful: "mgr_inv m \<Longrightarrow> ps_Get S (mgr_store m) i = Inr p \<Longrightarrow> pol_truthful m (Some (PolPolicy p))"
  using get_iff [of "mgr_store m" i p] ids [of "mgr_store m" i p] by (auto simp: truthful_defs mgr_inv_def)

text \<open>The three handlers: a request that is not answered with success leaves the manager as it is.\<close>

definition pol_request :: "('s, 'p) PolicyManager \<Rightarrow> pol_data response \<Rightarrow> ('s, 'p) PolicyManager \<Rightarrow> bool" where
  "pol_request m resp m' \<longleftrightarrow> (response_code resp \<noteq> 0 \<longrightarrow> m' = m) \<and> pol_truthful m' (response_data resp)"

lemma pol_request_none: "response_data resp = None \<Longrightarrow> pol_request m resp m"
  by (simp add: pol_request_def truthful_defs)

lemma answer_request:
  assumes a: "answer showErr d (err, m1) = (resp, m')" and "err \<noteq> None \<Longrightarrow> m1 = m" and "err = None \<Longrightarrow> pol_truthful m1 d"
  shows "pol_request m resp m'"
  using answer_error [OF a] assms(2,3) by (cases err) (auto simp: pol_request_def truthful_defs)

lemma handlePolicies_request:
  assumes inv: "mgr_inv m" and r: "handlePolicies H S r m = (resp, m')"
  shows "pol_request m resp m' \<and> (m' = m \<or> (\<exists>p err. AddPolicy S m p = (err, m')))"
proof -
  consider (get) "rq_Method r = ''GET''" | (bad) err where "rq_Method r = ''POST''" "ph_decode H (rq_Body r) = Inl err"
    | (post) p where "rq_Method r = ''POST''" "ph_decode H (rq_Body r) = Inr p"
    | (other) "rq_Method r \<noteq> ''GET''" "rq_Method r \<noteq> ''POST''"
    by (cases "ph_decode H (rq_Body r)") auto
  then show ?thesis
  proof cases
    case get
    then show ?thesis using r list_truthful [OF inv]
      by (auto simp: handlePolicies_def pol_request_def truthful_defs split: sum.splits)
  next
    case bad
    then show ?thesis using r by (auto simp: handlePolicies_def badRequest_def intro: pol_request_none)
  next
    case post
    obtain err m1 where a: "AddPolicy S m p = (err, m1)" by (rule prod.exhaust)
    have an: "answer (ph_showErr H) (Some (PolPolicy (createdPolicy S m p))) (err, m1) = (resp, m')"
      using r post a by (simp add: handlePolicies_def)
    moreover have "pol_truthful m1 (Some (PolPolicy (createdPolicy S m p)))" if "err = None"
      using AddPolicy_created [OF inv] a that by simp
    ultimately have "pol_request m resp m'" using answer_request AddPolicy_cases [OF inv a] by blast
    then show ?thesis using a answer_error [OF an] by blast
  next
    case other
    then show ?thesis using r by (auto simp: handlePolicies_def intro: pol_request_none)
  qed
qed

lemma handlePolicyControl_request:
  assumes inv: "mgr_inv m" and r: "handlePolicyControl H S r m = (resp, m')"
  shows "pol_request m resp m' \<and> (m' = m \<or> (\<exists>i err. EnablePolicy S m i = (err, m') \<or> DisablePolicy S m i = (err, m')))"
proof -
  have set: "pol_request m resp m' \<and> (m' = m \<or> (\<exists>i err. EnablePolicy S m i = (err, m') \<or> DisablePolicy S m i = (err, m')))"
    if "answer (ph_showErr H) (Some (PolAction [(''id'', i), (''action'', if b then ''enabled'' else ''disabled'')])) (setEnabled S m i b) = (resp, m')" for i b
  proof -
    obtain err m1 where a: "setEnabled S m i b = (err, m1)" by (rule prod.exhaust)
    note st = setEnabled_stored [OF inv a]
    have "pol_truthful m1 (Some (PolAction [(''id'', i), (''action'', if b then ''enabled'' else ''disabled'')]))" if "err = None"
      using st that by (auto simp: truthful_defs)
    then have "pol_request m resp m'" using answer_request [of _ _ err m1] that a st by metis
    moreover have "m' = m1" using answer_error that a by metis
    ultimately show ?thesis using a by (cases b) (auto simp: EnablePolicy_def DisablePolicy_def)
  qed
  show ?thesis
  proof (cases "splitSlash (drop (length polPrefix) (rq_Path r))" rule: remdups_adj.cases)
    case (3 i action ps)
    consider (enable) "action = ''enable''" | (disable) "action = ''disable''" | (other) "action \<noteq> ''enable''" "action \<noteq> ''disable''" by blast
    then show ?thesis
    proof cases
      case enable
      then show ?thesis using set [of i True] r 3 by (simp add: handlePolicyControl_def EnablePolicy_def)
    next
      case disable
      then show ?thesis using set [of i False] r 3 by (simp add: handlePolicyControl_def DisablePolicy_def)
    next
      case other
      then show ?thesis using r 3 by (auto simp: handlePolicyControl_def badRequest_def intro: pol_request_none)
    qed
  qed (use r in \<open>auto simp: handlePolicyControl_def badRequest_def intro: pol_request_none\<close>)
qed

lemma handlePolicyDetail_request:
  assumes inv: "mgr_inv m" and r: "handlePolicyDetail H S r m = (resp, m')" and c: "handlePolicyControl H S r m \<noteq> (resp, m')"
  shows "pol_request m resp m' \<and> (m' = m \<or> (\<exists>i err. RemovePolicy S m i = (err, m')) \<or> (\<exists>p err. UpdatePolicy S m p = (err, m')))"
proof -
  let ?i = "hd (splitSlash (drop (length polPrefix) (rq_Path r)))"
  have notc: "\<not> (length (splitSlash (drop (length polPrefix) (rq_Path r))) \<ge> 2
      \<and> (splitSlash (drop (length polPrefix) (rq_Path r)) ! 1 = ''enable'' \<or> splitSlash (drop (length polPrefix) (rq_Path r)) ! 1 = ''disable''))"
    using r c by (auto simp: handlePolicyDetail_def Let_def)
  consider (get) "rq_Method r = ''GET''" | (bad) err where "rq_Method r = ''PUT''" "ph_decode H (rq_Body r) = Inl err"
    | (put) p where "rq_Method r = ''PUT''" "ph_decode H (rq_Body r) = Inr p" | (delete) "rq_Method r = ''DELETE''"
    | (other) "rq_Method r \<noteq> ''GET''" "rq_Method r \<noteq> ''PUT''" "rq_Method r \<noteq> ''DELETE''"
    by (cases "ph_decode H (rq_Body r)") auto
  then show ?thesis
  proof cases
    case get
    have "(case ps_Get S (mgr_store m) ?i of
             Inl err \<Rightarrow> (reply 404 (Error 404 (ph_showPErr H err)), m)
           | Inr policy \<Rightarrow> (okReply (Success (Some (PolPolicy policy))), m)) = (resp, m')"
      using r notc get by (simp only: handlePolicyDetail_def Let_def if_False if_True refl)
    then show ?thesis using get_truthful [OF inv, of ?i]
      by (auto simp: pol_request_def truthful_defs split: sum.splits)
  next
    case bad
    then have "resp = badRequest 400 err" "m' = m" using r notc by (auto simp: handlePolicyDetail_def Let_def)
    then show ?thesis by (auto simp: badRequest_def intro: pol_request_none)
  next
    case put
    let ?p = "p\<lparr>p_ID := ?i\<rparr>"
    obtain err m1 where a: "UpdatePolicy S m ?p = (err, m1)" by (rule prod.exhaust)
    have an: "answer (ph_showErr H) (Some (PolPolicy (updatedPolicy S m ?p))) (err, m1) = (resp, m')"
      using r put a notc by (auto simp: handlePolicyDetail_def Let_def)
    moreover have "pol_truthful m1 (Some (PolPolicy (updatedPolicy S m ?p)))" if "err = None"
      using UpdatePolicy_stored [OF inv] a that by simp
    ultimately have "pol_request m resp m'" using answer_request UpdatePolicy_cases [OF inv a] by blast
    then show ?thesis using a answer_error [OF an] by blast
  next
    case delete
    obtain err m1 where a: "RemovePolicy S m ?i = (err, m1)" by (rule prod.exhaust)
    have an: "answer (ph_showErr H) None (err, m1) = (resp, m')" using r delete a notc by (auto simp: handlePolicyDetail_def Let_def)
    moreover have "pol_truthful m1 None" by (simp add: truthful_defs)
    ultimately have "pol_request m resp m'" using answer_request RemovePolicy_inv [OF inv a] by blast
    then show ?thesis using a answer_error [OF an] by blast
  next
    case other
    then have "resp = reply 405 (Error 405 ''method not allowed'')" "m' = m" using r notc by (auto simp: handlePolicyDetail_def Let_def)
    then show ?thesis by (auto intro: pol_request_none)
  qed
qed

lemma handleValidatePolicy_request: "handleValidatePolicy H r m = (resp, m') \<Longrightarrow> m' = m \<and> pol_request m resp m'"
  by (auto simp: handleValidatePolicy_def badRequest_def pol_request_def truthful_defs split: if_splits sum.splits prod.splits option.splits)

end


text \<open>
  The two sets of handlers do not check the same: a policy whose timeout is no duration is refused by the gin
  handler, and stored by the handler that the server uses, which never calls \<^verbatim>\<open>Policy.Validate\<close>.
\<close>

theorem mux_skips_policy_validation:
  assumes "mps.mgr_inv m" "ph_decode H body = Inr p" "ph_validate H = Policy_Validate validateStruct parseDuration"
    and "validateStruct p = None" "p_Timeout p \<noteq> ''''" "parseDuration (p_Timeout p) = Inl err"
    and "AddPolicy (memoryPolicyStore rank) m p = (None, m')"
  shows "(\<exists>q. mps_content (mgr_store m') (p_ID p) = Some q \<and> p_Timeout q = p_Timeout p)
    \<and> handlePolicies H (memoryPolicyStore rank) \<lparr>rq_Method = ''POST'', rq_Path = ''/api/v1/policies'', rq_Query = [], rq_Authorization = a, rq_Body = body\<rparr> m
        = (okReply (Success (Some (PolPolicy (createdPolicy (memoryPolicyStore rank) m p)))), m')
    \<and> gin_CreatePolicy H (memoryPolicyStore rank) body m
        = (badRequest CodeInvalidParam (''invalid timeout '' @ p_Timeout p @ '': '' @ err), m)"
proof -
  have "\<exists>v. mps_content (mgr_store m') = (mps_content (mgr_store m))(p_ID p \<mapsto> copyPolicy (p\<lparr>p_Version := v\<rparr>))"
    using mps.AddPolicy_cases [OF assms(1,7)] by blast
  moreover have "p_Timeout (copyPolicy (p\<lparr>p_Version := v\<rparr>)) = p_Timeout p" for v by (simp add: copyPolicy_def)
  moreover have "fst (Policy_Validate validateStruct parseDuration p) = Some (''invalid timeout '' @ p_Timeout p @ '': '' @ err)"
    using assms(4-6) by (simp add: Policy_Validate_def Let_def)
  ultimately show ?thesis using assms(2,3,7)
    by (auto simp: handlePolicies_def gin_CreatePolicy_def answer_def split: prod.splits option.splits)
qed

section \<open>Examples\<close>

definition exHttp :: pol_http where
  "exHttp = \<lparr>ph_decode = (\<lambda>body. if body = ''p1'' then Inr startPolicy else if body = ''late'' then Inr (startPolicy\<lparr>p_Timeout := ''soon''\<rparr>)
         else Inl ''unexpected end of JSON input''),
     ph_showErr = (\<lambda>_. ''error''), ph_showPErr = (\<lambda>_. ''not found''), ph_showVErr = (\<lambda>_. ''invalid''),
     ph_validate = Policy_Validate (\<lambda>_. None) (\<lambda>d. if d = ''5m'' then Inr (5 * 60 * second) else Inl ''invalid duration'')\<rparr>"

definition getRequest :: request where
  "getRequest = \<lparr>rq_Method = ''GET'', rq_Path = ''/api/v1/policies/p1'', rq_Query = [], rq_Authorization = '''', rq_Body = ''''\<rparr>"

lemma getRequest_served:
  "serveMux (RegisterRoutesToMux exHttp (memoryPolicyStore length)) getRequest oneManager
     = (okReply (Success (Some (PolPolicy (copyPolicy (startPolicy\<lparr>p_Version := 1\<rparr>))))), oneManager)"
proof -
  have inv: "mps.mgr_inv oneManager"
    using mgr_reachable_inv [of typeEngine oneManager] oneManager_facts(1) typeEngine_simps(1) by (simp add: emptyManager_def r_into_rtranclp)
  then have g: "ps_Get (memoryPolicyStore length) (mgr_store oneManager) ''p1'' = Inr (copyPolicy (startPolicy\<lparr>p_Version := 1\<rparr>))"
    using mps.get_Some oneManager_facts(3) by (simp add: mps.mgr_inv_def)
  have h: "muxHandler (RegisterRoutesToMux exHttp (memoryPolicyStore length)) getRequest = Some (handlePolicyDetail exHttp (memoryPolicyStore length))"
    by (simp add: muxHandler_def getRequest_def isClean_def RegisterRoutesToMux_def)
  show ?thesis unfolding serveMux_def h by (simp add: handlePolicyDetail_def getRequest_def g Let_def)
qed


theorem mux_skips_policy_validation_witness:
  "\<exists>m' :: string mem_manager. fst (gin_CreatePolicy exHttp (memoryPolicyStore length) ''late'' emptyManager) = badRequest CodeInvalidParam ''invalid timeout soon: invalid duration''
    \<and> (\<exists>q. mps_content (mgr_store m') ''p1'' = Some q \<and> p_Timeout q = ''soon'')"
proof -
  let ?p = "startPolicy\<lparr>p_Timeout := ''soon''\<rparr>"
  have e: "mgr_engines emptyManager = [(''cel'', typeEngine)]" "mgr_store emptyManager = NewMemoryPolicyStore"
    by (simp_all add: emptyManager_def RegisterEngine_def NewDefaultPolicyManager_def typeEngine_simps)
  have s: "p_ID ?p = ''p1''" "p_DSL ?p = ''start''" "p_DSLEngine ?p = ''cel''" "p_Timeout ?p = ''soon''" by (simp_all add: startPolicy_def)
  have inv: "mps.mgr_inv emptyManager" using newManager_inv typeEngine_simps(1) by (simp add: emptyManager_def)
  obtain err m' where a: "AddPolicy (memoryPolicyStore length) emptyManager ?p = (err, m')" by (rule prod.exhaust)
  have "fst (AddPolicy (memoryPolicyStore length) emptyManager ?p) = None"
    using s by (simp add: AddPolicy_def validatePolicy_def compilePolicy_def e typeEngine_simps mps_defs NewMemoryPolicyStore_def Let_def)
  with a have a': "AddPolicy (memoryPolicyStore length) emptyManager ?p = (None, m')" by simp
  have "ph_decode exHttp ''late'' = Inr ?p"
    "ph_validate exHttp = Policy_Validate (\<lambda>_. None) (\<lambda>d. if d = ''5m'' then Inr (5 * 60 * second) else Inl ''invalid duration'')"
    by (simp_all add: exHttp_def)
  moreover have "p_Timeout ?p \<noteq> ''''"
    "(\<lambda>d. if d = ''5m'' then Inr (5 * 60 * second) else Inl ''invalid duration'') (p_Timeout ?p) = Inl ''invalid duration''" by simp_all
  ultimately have t: "(\<exists>q. mps_content (mgr_store m') (p_ID ?p) = Some q \<and> p_Timeout q = p_Timeout ?p)
    \<and> gin_CreatePolicy exHttp (memoryPolicyStore length) ''late'' emptyManager
        = (badRequest CodeInvalidParam (''invalid timeout '' @ p_Timeout ?p @ '': '' @ ''invalid duration''), emptyManager)"
    using mux_skips_policy_validation [OF inv _ _ refl _ _ a'] by blast
  show ?thesis using t unfolding s by - (rule exI [of _ m'], simp)
qed

end
