(* ===== verification/Core_Http.thy ===== *)
theory Core_Http
  imports DS_Http Policy_Http SM_Engine_Props
begin

text \<open>
  The HTTP server of the core (\<^verbatim>\<open>startHTTPServer\<close> and the handlers after it in \<^verbatim>\<open>src/pkg/core/core.go\<close>): its routes, the
  handlers for tasks, histories, event logs and traces, and the queue depths of the debug page. The task store
  and the engine are set together, so the engine stands for both; the event log is an interface of two queries.
  Readings of the Go runtime are left out of the debug page.
\<close>

section \<open>The server\<close>

record 'l event_queries =
  eq_QueryByTaskID :: "'l \<Rightarrow> string \<Rightarrow> string + EventLogEntry list"
  eq_QueryByTraceID :: "'l \<Rightarrow> string \<Rightarrow> string + TraceTimeline"

record ('d, 'l, 'm, 's, 'p) Server =
  srv_addr :: string
  srv_engine :: "'d StateMachineEngine option"
  srv_eventLog :: "'l option"
  srv_sources :: "'m DataSourceManager option"
  srv_policies :: "('s, 'p) PolicyManager option"
  srv_started :: bool
  srv_stopped :: bool

datatype core_data =
    CStatus "(string \<times> string) list"
  | CTasks "Task list" nat
  | CTask Task
  | CHistory "StateTransitionRecord list"
  | CEvents string "EventLogEntry list" nat
  | CTimeline TraceTimeline
  | CConfig StateMachineConfig
  | CVars bool bool "(string \<times> int) list option"
  | CSources ds_data
  | CPolicies pol_data
  | CMetrics

definition unavailable :: "string \<Rightarrow> 'd response" where
  "unavailable message = failReply CodeServiceUnavailable message"

definition handleStatus :: "(core_data, ('d, 'l, 'm, 's, 'p) Server) handler" where
  "handleStatus r c =
     (okReply (Success (Some (CStatus [(''status'', ''running''), (''version'', ''0.1.0''), (''address'', srv_addr c)]))), c)"

definition handleTasks ::
  "('d, json) DB \<Rightarrow> (Task \<Rightarrow> nat) \<Rightarrow> (store_error \<Rightarrow> string) \<Rightarrow> (core_data, ('d, 'l, 'm, 's, 'p) Server) handler" where
  "handleTasks B tie showErr r c =
     (case srv_engine c of
        None \<Rightarrow> (unavailable ''task store not initialized'', c)
      | Some e \<Rightarrow>
          (let includeCompleted = (queryGet r ''include_completed'' = ''true''); traceID = queryGet r ''trace_id''
           in case Store_List B tie (sme_store e) (emptyFilter\<lparr>f_IncludeArchived := includeCompleted\<rparr>) of
                Inl err \<Rightarrow> (failReply CodeInternalError (showErr err), c)
              | Inr tasks \<Rightarrow>
                  (let tasks = (if traceID \<noteq> '''' then filter (\<lambda>t. t_TraceID t = traceID) tasks else tasks)
                   in (okReply (Success (Some (CTasks tasks (length tasks)))), c))))"

abbreviation (input) taskPrefix :: string where "taskPrefix \<equiv> ''/api/v1/tasks/''"
abbreviation (input) tracePrefix :: string where "tracePrefix \<equiv> ''/api/v1/traces/''"

definition handleTaskDetail :: "('d, json) DB \<Rightarrow> (core_data, ('d, 'l, 'm, 's, 'p) Server) handler" where
  "handleTaskDetail B r c =
     (case srv_engine c of
        None \<Rightarrow> (unavailable ''task store not initialized'', c)
      | Some e \<Rightarrow>
          (case Store_Get B (sme_store e) (drop (length taskPrefix) (rq_Path r)) of
             Inl _ \<Rightarrow> (okReply (Error 404 ''task not found''), c)
           | Inr t \<Rightarrow> (okReply (Success (Some (CTask t))), c)))"

text \<open>\<^verbatim>\<open>parts[0]\<close> when \<^verbatim>\<open>parts[1]\<close> is the section asked for.\<close>

definition taskSection :: "string \<Rightarrow> request \<Rightarrow> string option" where
  "taskSection what r =
     (let parts = splitSlash (drop (length taskPrefix) (rq_Path r))
      in if length parts < 2 \<or> parts ! 1 \<noteq> what then None else Some (hd parts))"

definition handleTaskHistory ::
  "('d, json) DB \<Rightarrow> (store_error \<Rightarrow> string) \<Rightarrow> (core_data, ('d, 'l, 'm, 's, 'p) Server) handler" where
  "handleTaskHistory B showErr r c =
     (case srv_engine c of
        None \<Rightarrow> (unavailable ''state machine engine not initialized'', c)
      | Some e \<Rightarrow>
          (case taskSection ''history'' r of
             None \<Rightarrow> (okReply (Error 400 ''invalid path''), c)
           | Some taskID \<Rightarrow>
               (case GetTaskHistory B e taskID of
                  Inl err \<Rightarrow> (okReply (Error 404 (''task history not found: '' @ showErr err)), c)
                | Inr history \<Rightarrow> (okReply (Success (Some (CHistory history))), c))))"

definition handleTaskEvents :: "'l event_queries \<Rightarrow> (core_data, ('d, 'l, 'm, 's, 'p) Server) handler" where
  "handleTaskEvents L r c =
     (case srv_eventLog c of
        None \<Rightarrow> (unavailable ''eventlog not enabled'', c)
      | Some l \<Rightarrow>
          (case taskSection ''events'' r of
             None \<Rightarrow> (okReply (Error 400 ''invalid path''), c)
           | Some taskID \<Rightarrow>
               (case eq_QueryByTaskID L l taskID of
                  Inl err \<Rightarrow> (okReply (Error 500 (''query eventlog: '' @ err)), c)
                | Inr entries \<Rightarrow> (okReply (Success (Some (CEvents taskID entries (length entries)))), c))))"

text \<open>The closure registered for \<^verbatim>\<open>/api/v1/tasks/\<close>.\<close>

definition tasksRoute ::
  "('d, json) DB \<Rightarrow> 'l event_queries \<Rightarrow> (store_error \<Rightarrow> string) \<Rightarrow> (core_data, ('d, 'l, 'm, 's, 'p) Server) handler" where
  "tasksRoute B L showErr r c =
     (let path = drop (length taskPrefix) (rq_Path r)
      in if contains path ''/history'' then handleTaskHistory B showErr r c
         else if contains path ''/events'' then handleTaskEvents L r c
         else handleTaskDetail B r c)"

definition handleTraces :: "'l event_queries \<Rightarrow> (core_data, ('d, 'l, 'm, 's, 'p) Server) handler" where
  "handleTraces L r c =
     (case srv_eventLog c of
        None \<Rightarrow> (unavailable ''eventlog not enabled'', c)
      | Some l \<Rightarrow>
          (let traceID = drop (length tracePrefix) (rq_Path r)
           in if traceID = '''' then (okReply (Error 400 ''trace_id is required''), c)
              else case eq_QueryByTraceID L l traceID of
                     Inl err \<Rightarrow> (okReply (Error 500 (''query trace: '' @ err)), c)
                   | Inr timeline \<Rightarrow> (okReply (Success (Some (CTimeline timeline))), c)))"

definition handleStateMachineConfig :: "(core_data, ('d, 'l, 'm, 's, 'p) Server) handler" where
  "handleStateMachineConfig r c =
     (case srv_engine c of
        None \<Rightarrow> (unavailable ''state machine engine not initialized'', c)
      | Some e \<Rightarrow> (okReply (Success (Some (CConfig (sme_config e)))), c))"

section \<open>Queue depths\<close>

text \<open>The loop over the configured states (in the order of the map) and the two totals.\<close>

fun countStates ::
  "('d, json) DB \<Rightarrow> (Task \<Rightarrow> nat) \<Rightarrow> 'd engineTaskStore \<Rightarrow> string list \<Rightarrow> (string \<times> int) list \<Rightarrow> int \<Rightarrow> (string \<times> int) list \<times> int" where
  "countStates B tie s [] depth activeTotal = (depth, activeTotal)"
| "countStates B tie s (state # states) depth activeTotal =
     (case Count B tie s (emptyFilter\<lparr>f_State := state\<rparr>) of
        Inl _ \<Rightarrow> countStates B tie s states depth activeTotal
      | Inr n \<Rightarrow> countStates B tie s states (alist_put state n depth) (activeTotal + n))"

definition queueDepth ::
  "('d, json) DB \<Rightarrow> (Task \<Rightarrow> nat) \<Rightarrow> (string \<Rightarrow> nat) \<Rightarrow> 'd StateMachineEngine \<Rightarrow> (string \<times> int) list" where
  "queueDepth B tie rank e =
     (case countStates B tie (sme_store e) (range_keys rank (map fst (smc_States (sme_config e)))) [] 0 of
        (depth, activeTotal) \<Rightarrow>
          let depth = alist_put ''active_total'' activeTotal depth;
              allWithArchived = (case Count B tie (sme_store e) (emptyFilter\<lparr>f_IncludeArchived := True\<rparr>) of Inl _ \<Rightarrow> 0 | Inr n \<Rightarrow> n)
          in alist_put ''archived_total'' (allWithArchived - activeTotal) depth)"

definition handleDebugVars ::
  "('d, json) DB \<Rightarrow> (Task \<Rightarrow> nat) \<Rightarrow> (string \<Rightarrow> nat) \<Rightarrow> (core_data, ('d, 'l, 'm, 's, 'p) Server) handler" where
  "handleDebugVars B tie rank r c =
     (\<lparr>http_Status = 200,
       http_Body = Raw (CVars (srv_started c) (srv_stopped c) (map_option (queueDepth B tie rank) (srv_engine c)))\<rparr>, c)"

section \<open>Routes\<close>

text \<open>
  Handlers of the data sources and of the policies act on their part of the server.
\<close>

definition onSources :: "(ds_data, 'm DataSourceManager) handler \<Rightarrow> 'm DataSourceManager \<Rightarrow> (core_data, ('d, 'l, 'm, 's, 'p) Server) handler" where
  "onSources h m0 r c =
     (case h r (case srv_sources c of Some m \<Rightarrow> m | None \<Rightarrow> m0) of (resp, m) \<Rightarrow> (map_response CSources resp, c\<lparr>srv_sources := Some m\<rparr>))"

definition onPolicies :: "(pol_data, ('s, 'p) PolicyManager) handler \<Rightarrow> ('s, 'p) PolicyManager \<Rightarrow> (core_data, ('d, 'l, 'm, 's, 'p) Server) handler" where
  "onPolicies h m0 r c =
     (case h r (case srv_policies c of Some m \<Rightarrow> m | None \<Rightarrow> m0) of (resp, m) \<Rightarrow> (map_response CPolicies resp, c\<lparr>srv_policies := Some m\<rparr>))"

record ('d, 'l, 'm, 's) server_env =
  sv_db :: "('d, json) DB"
  sv_tie :: "Task \<Rightarrow> nat"
  sv_rank :: "string \<Rightarrow> nat"
  sv_showErr :: "store_error \<Rightarrow> string"
  sv_log :: "'l event_queries"
  sv_source :: "'m DataSource"
  sv_create :: "gomap \<Rightarrow> string + 'm"
  sv_types :: "string list"
  sv_policyHttp :: pol_http
  sv_policyStore :: "'s PolicyStore"

definition coreRoutes ::
  "('d, 'l, 'm, 's) server_env \<Rightarrow> bool \<Rightarrow> ('d, 'l, 'm, 's, 'p) Server \<Rightarrow> (string \<times> (core_data, ('d, 'l, 'm, 's, 'p) Server) handler) list" where
  "coreRoutes E prometheusEnabled c0 =
     [(''/api/v1/status'', handleStatus)]
     @ (case srv_sources c0 of
          None \<Rightarrow> []
        | Some m0 \<Rightarrow> map (\<lambda>(p, h). (p, onSources h m0)) (ds_RegisterRoutes (sv_rank E) (sv_source E) (sv_create E) (sv_types E)))
     @ (case srv_policies c0 of
          None \<Rightarrow> []
        | Some m0 \<Rightarrow> map (\<lambda>(p, h). (p, onPolicies h m0)) (RegisterRoutesToMux (sv_policyHttp E) (sv_policyStore E)))
     @ [(''/api/v1/tasks'', handleTasks (sv_db E) (sv_tie E) (sv_showErr E)),
        (''/api/v1/tasks/'', tasksRoute (sv_db E) (sv_log E) (sv_showErr E)),
        (''/api/v1/traces/'', handleTraces (sv_log E)),
        (''/api/v1/statemachine/config'', handleStateMachineConfig),
        (''/api/v1/debug/vars'', handleDebugVars (sv_db E) (sv_tie E) (sv_rank E))]
     @ (if prometheusEnabled then [(''/metrics'', \<lambda>r c. (\<lparr>http_Status = 200, http_Body = Raw CMetrics\<rparr>, c))] else [])"

definition serveHTTP ::
  "('d, 'l, 'm, 's) server_env \<Rightarrow> bool \<Rightarrow> string \<Rightarrow> ('d, 'l, 'm, 's, 'p) Server \<Rightarrow> (core_data, ('d, 'l, 'm, 's, 'p) Server) handler" where
  "serveHTTP E prometheusEnabled token c0 = authMiddleware token (serveMux (coreRoutes E prometheusEnabled c0))"

section \<open>Authentication\<close>

lemma coreRoutes_prefix:
  assumes "(p, h) \<in> set (coreRoutes E prom c0)" "\<not> prefix apiPrefix p"
  shows "p = ''/metrics'' \<and> prom \<and> h = (\<lambda>r c. (\<lparr>http_Status = 200, http_Body = Raw CMetrics\<rparr>, c))"
  using assms by (auto simp: coreRoutes_def ds_RegisterRoutes_def RegisterRoutesToMux_def split: option.splits if_splits)

text \<open>
  Claim C22. A request without the token changes nothing, whatever its method and path, and learns nothing but the
  metrics: below the API prefix it is answered with status 401 and no data, and elsewhere it is redirected, not found
  or gets the metrics.
\<close>

theorem unauthenticated_requests_blocked:
  assumes "rq_Authorization r \<noteq> ''Bearer '' @ token" "serveHTTP E prom token c0 r c = (resp, c')"
  shows "c' = c \<and> (response_data resp = None \<or> response_data resp = Some CMetrics \<and> prom \<and> \<not> prefix apiPrefix (rq_Path r))
     \<and> (prefix apiPrefix (rq_Path r) \<longrightarrow> http_Status resp = 401)"
proof -
  note b = auth_blocks [OF assms(1) assms(2) [unfolded serveHTTP_def]]
  show ?thesis
  proof (cases "prefix apiPrefix (rq_Path r)")
    case True
    then show ?thesis using b by (simp only: if_True envelope_simps simp_thms)
  next
    case False
    then consider "resp = muxMiss (coreRoutes E prom c0) r" "c' = c"
      | p h where "(p, h) \<in> set (coreRoutes E prom c0)" "\<not> prefix apiPrefix p" "h r c = (resp, c')"
      using b by (auto simp only: if_False)
    then show ?thesis
    proof cases
      case 1
      then show ?thesis using False by (simp add: muxMiss_def response_data_def)
    next
      case 2
      from coreRoutes_prefix [OF 2(1,2)] 2(3) False show ?thesis by (auto simp: response_data_def)
    qed
  qed
qed

section \<open>The queue depths are exact\<close>

definition inState :: "string \<Rightarrow> Task \<Rightarrow> bool" where
  "inState state t \<longleftrightarrow> t_ArchivedAt t = None \<and> t_State t = state"

context task_db
begin

text \<open>All listings and counts, over the list of the stored tasks.\<close>

lemma stored_tasks:
  assumes inv: "store_inv view db_ok s" and l: "\<exists>keys. db_list B (ets_db s) (ets_prefix s) = Inr keys"
  shows "\<exists>T. distinct T \<and> (\<forall>t. t \<in> set T \<longleftrightarrow> (\<exists>tid. task_at view s tid = Some t))
     \<and> (\<forall>tie flt. f_State flt = '''' \<and> f_Offset flt = 0 \<and> f_Limit flt = 0 \<longrightarrow>
          (\<exists>us. Store_List B tie s flt = Inr us \<and> mset us = mset (filter (\<lambda>t. matchFilter t flt) T)))"
proof -
  obtain keys where keys: "db_list B (ets_db s) (ets_prefix s) = Inr keys" using l by blast
  let ?T = "List.map_filter (readKey B (ets_db s)) keys"
  have "\<exists>us. Store_List B tie s flt = Inr us \<and> mset us = mset (filter (\<lambda>t. matchFilter t flt) ?T)"
    if "f_State flt = ''''" "f_Offset flt = 0" "f_Limit flt = 0" for tie flt
    using that keys by (simp add: Store_List_def paginate_def Let_def)
  then show ?thesis using scan_tasks [OF inv keys] by (intro exI [of _ ?T]) blast
qed

lemma count_states:
  assumes inv: "store_inv view db_ok s" and l: "\<exists>keys. db_list B (ets_db s) (ets_prefix s) = Inr keys"
  shows "\<exists>T. distinct T \<and> (\<forall>t. t \<in> set T \<longleftrightarrow> (\<exists>tid. task_at view s tid = Some t))
     \<and> (\<forall>tie state. state \<noteq> '''' \<longrightarrow> Count B tie s (emptyFilter\<lparr>f_State := state\<rparr>) = Inr (int (length (filter (inState state) T))))
     \<and> (\<forall>tie. Count B tie s (emptyFilter\<lparr>f_IncludeArchived := True\<rparr>) = Inr (int (length T)))"
proof -
  obtain T where T: "distinct T" "\<And>t. t \<in> set T \<longleftrightarrow> (\<exists>tid. task_at view s tid = Some t)"
    and L: "\<And>tie flt. f_State flt = '''' \<Longrightarrow> f_Offset flt = 0 \<Longrightarrow> f_Limit flt = 0 \<Longrightarrow>
          \<exists>us. Store_List B tie s flt = Inr us \<and> mset us = mset (filter (\<lambda>t. matchFilter t flt) T)"
    using stored_tasks [OF assms] by blast
  have state: "Count B tie s (emptyFilter\<lparr>f_State := state\<rparr>) = Inr (int (length (filter (inState state) T)))" if ne: "state \<noteq> ''''" for tie state
  proof -
    let ?f = "emptyFilter\<lparr>f_State := state\<rparr>"
    obtain ts where ts: "Store_List B tie s ?f = Inr ts" "Count B tie s ?f = Inr (int (length ts))"
      using Count_shortcut [OF inv, of ?f tie] ne by (auto simp: emptyFilter_def)
    obtain us where us: "Store_List B tie s (?f\<lparr>f_State := ''''\<rparr>) = Inr us"
        "mset us = mset (filter (\<lambda>t. matchFilter t (?f\<lparr>f_State := ''''\<rparr>)) T)"
      using L [of "?f\<lparr>f_State := ''''\<rparr>" tie] by (auto simp: emptyFilter_def)
    have "mset ts = mset (filter (\<lambda>t. t_State t = state) us)"
      using listByState_scan [OF inv _ _ _ _ us(1), of tie] ts(1) ne by (auto simp: emptyFilter_def)
    also have "\<dots> = mset (filter (inState state) T)"
      unfolding mset_filter us(2) filter_filter_mset
      by (rule filter_mset_cong) (auto simp: inState_def matchFilter_def emptyFilter_def)
    finally have "length ts = length (filter (inState state) T)" by (rule mset_eq_length)
    with ts(2) show ?thesis by simp
  qed
  have all: "Count B tie s (emptyFilter\<lparr>f_IncludeArchived := True\<rparr>) = Inr (int (length T))" for tie
  proof -
    obtain us where us: "Store_List B tie s (emptyFilter\<lparr>f_IncludeArchived := True\<rparr>) = Inr us"
      "mset us = mset (filter (\<lambda>t. matchFilter t (emptyFilter\<lparr>f_IncludeArchived := True\<rparr>)) T)"
      using L [of "emptyFilter\<lparr>f_IncludeArchived := True\<rparr>" tie] by (auto simp: emptyFilter_def)
    then have "mset us = mset T" by (simp add: matchFilter_def emptyFilter_def)
    then have "length us = length T" by (rule mset_eq_length)
    then show ?thesis using us(1) by (simp add: Count_def emptyFilter_def)
  qed
  show ?thesis using T state all by blast
qed

end

lemma map_of_countStates:
  assumes c: "\<And>state. state \<in> set states \<Longrightarrow> Count B tie s (emptyFilter\<lparr>f_State := state\<rparr>) = Inr (n state)" and "distinct states"
  shows "countStates B tie s states depth activeTotal = (fold (\<lambda>state. alist_put state (n state)) states depth, activeTotal + sum_list (map n states))
    \<and> (\<forall>k. map_of (fold (\<lambda>state. alist_put state (n state)) states depth) k = (if k \<in> set states then Some (n k) else map_of depth k))"
  using assms
proof (induction states arbitrary: depth activeTotal)
  case (Cons state states)
  then show ?case by (auto simp: map_of_alist_put)
qed simp

lemma length_filter_sum:
  assumes "distinct states" "\<And>t. t \<in> set T \<Longrightarrow> P t \<Longrightarrow> f t \<in> set states"
  shows "sum_list (map (\<lambda>k. int (length (filter (\<lambda>t. P t \<and> f t = k) T))) states) = int (length (filter P T))"
  using assms(2)
proof (induction T)
  case (Cons t T)
  have one: "sum_list (map (\<lambda>k. if P t \<and> f t = k then 1 else 0) states) = (if P t then 1 else (0 :: int))"
  proof (cases "P t")
    case True
    then have "f t \<in> set states" using Cons.prems by simp
    then show ?thesis using assms(1) True by (simp add: sum_list_distinct_conv_sum_set)
  qed simp
  have "(\<lambda>k. int (length (filter (\<lambda>t. P t \<and> f t = k) (t # T))))
      = (\<lambda>k. (if P t \<and> f t = k then 1 else 0) + int (length (filter (\<lambda>t. P t \<and> f t = k) T)))" by (simp add: fun_eq_iff)
  then have "sum_list (map (\<lambda>k. int (length (filter (\<lambda>t. P t \<and> f t = k) (t # T)))) states)
      = (if P t then 1 else 0) + sum_list (map (\<lambda>k. int (length (filter (\<lambda>t. P t \<and> f t = k) T))) states)"
    by (simp only: sum_list_addf one)
  moreover have "sum_list (map (\<lambda>k. int (length (filter (\<lambda>t. P t \<and> f t = k) T))) states) = int (length (filter P T))"
    using Cons by simp
  ultimately show ?case by (simp only:) simp
qed simp

text \<open>
  The queue depths of the debug page are exact. For a store in its invariant and a configuration that names the state
  of every unarchived task, each configured state is shown with the number of unarchived tasks in it, the total of
  active tasks is the number of unarchived tasks and the archived total that of archived ones, in whatever order the
  states are visited.
\<close>

theorem queue_depth_exact:
  fixes e :: mem_engine
  assumes "mem_inv (sme_store e)" and states: "distinct (map fst (smc_States (sme_config e)))"
    and names: "\<forall>state \<in> fst ` set (smc_States (sme_config e)). state \<notin> {'''', ''active_total'', ''archived_total''}"
    and known: "\<forall>tid t. mem_task (sme_store e) tid = Some t \<and> t_ArchivedAt t = None \<longrightarrow> t_State t \<in> fst ` set (smc_States (sme_config e))"
  shows "\<exists>T. distinct T \<and> (\<forall>t. t \<in> set T \<longleftrightarrow> (\<exists>tid. mem_task (sme_store e) tid = Some t))
     \<and> (\<forall>state \<in> fst ` set (smc_States (sme_config e)).
          map_of (queueDepth (memoryDB rank) tie order e) state = Some (int (length (filter (inState state) T))))
     \<and> map_of (queueDepth (memoryDB rank) tie order e) ''active_total'' = Some (int (length (filter (\<lambda>t. t_ArchivedAt t = None) T)))
     \<and> map_of (queueDepth (memoryDB rank) tie order e) ''archived_total'' = Some (int (length (filter (\<lambda>t. t_ArchivedAt t \<noteq> None) T)))"
proof -
  let ?s = "sme_store e" and ?ks = "range_keys order (map fst (smc_States (sme_config e)))"
  obtain T where TT: "distinct T \<and> (\<forall>t. t \<in> set T \<longleftrightarrow> (\<exists>tid. mem_task ?s tid = Some t))
     \<and> (\<forall>tie state. state \<noteq> '''' \<longrightarrow> Count (memoryDB rank) tie ?s (emptyFilter\<lparr>f_State := state\<rparr>) = Inr (int (length (filter (inState state) T))))
     \<and> (\<forall>tie. Count (memoryDB rank) tie ?s (emptyFilter\<lparr>f_IncludeArchived := True\<rparr>) = Inr (int (length T)))"
    by (rule exE [OF ms.count_states [OF assms(1) mem_list_total]])
  have T: "distinct T" "\<forall>t. t \<in> set T \<longleftrightarrow> (\<exists>tid. mem_task ?s tid = Some t)"
    and cs: "\<And>state. state \<noteq> '''' \<Longrightarrow> Count (memoryDB rank) tie ?s (emptyFilter\<lparr>f_State := state\<rparr>) = Inr (int (length (filter (inState state) T)))"
    and ca: "Count (memoryDB rank) tie ?s (emptyFilter\<lparr>f_IncludeArchived := True\<rparr>) = Inr (int (length T))"
    using TT by simp_all
  let ?n = "\<lambda>state. int (length (filter (inState state) T))"
  have ks: "set ?ks = fst ` set (smc_States (sme_config e))" "distinct ?ks" using states by simp_all
  have n: "Count (memoryDB rank) tie ?s (emptyFilter\<lparr>f_State := state\<rparr>) = Inr (?n state)" if "state \<in> set ?ks" for state
    using cs names that ks(1) by auto
  note loop = map_of_countStates [of ?ks "memoryDB rank" tie ?s ?n "[]" 0, OF n ks(2)]
  have "sum_list (map ?n ?ks) = int (length (filter (\<lambda>t. t_ArchivedAt t = None) T))"
    unfolding inState_def by (rule length_filter_sum [OF ks(2)]) (use known T(2) ks(1) in blast)
  moreover have "int (length T) - int (length (filter (\<lambda>t. t_ArchivedAt t = None) T)) = int (length (filter (\<lambda>t. t_ArchivedAt t \<noteq> None) T))"
    using sum_length_filter_compl [of "\<lambda>t. t_ArchivedAt t = None" T] by linarith
  ultimately show ?thesis
    using T loop names ks(1) by (intro exI [of _ T]) (auto simp: queueDepth_def ca map_of_alist_put Let_def)
qed

section \<open>The task listing\<close>

text \<open>
  The task listing of the API is exact: over a store in its invariant it always answers, with each stored task that is not archived
  (or each, when completed tasks are asked for) and has the trace asked for, once, newest first, and with their number.
\<close>

theorem task_listing_exact:
  fixes c :: "(json MemoryDB, 'l, 'm, 's, 'p) Server"
  assumes "srv_engine c = Some e" "mem_inv (sme_store e)"
  shows "\<exists>ts. handleTasks (memoryDB rank) tie showErr r c = (okReply (Success (Some (CTasks ts (length ts)))), c)
     \<and> distinct ts \<and> sorted (map (\<lambda>t. - t_CreatedAt t) ts)
     \<and> (\<forall>t. t \<in> set ts \<longleftrightarrow> (\<exists>tid. mem_task (sme_store e) tid = Some t)
          \<and> (queryGet r ''include_completed'' = ''true'' \<or> t_ArchivedAt t = None)
          \<and> (queryGet r ''trace_id'' = '''' \<or> t_TraceID t = queryGet r ''trace_id''))"
proof -
  let ?s = "sme_store e" and ?f = "emptyFilter\<lparr>f_IncludeArchived := (queryGet r ''include_completed'' = ''true'')\<rparr>"
  obtain keys where keys: "db_list (memoryDB rank) (ets_db ?s) (ets_prefix ?s) = Inr keys" using mem_list_total by blast
  let ?T = "List.map_filter (readKey (memoryDB rank) (ets_db ?s)) keys"
  let ?us = "go_sort_slice tie (\<lambda>t. - t_CreatedAt t) (filter (\<lambda>t. matchFilter t ?f) ?T)"
  have us: "Store_List (memoryDB rank) tie ?s ?f = Inr ?us"
    using keys by (simp add: Store_List_def paginate_def emptyFilter_def Let_def)
  have T: "distinct ?T" "\<And>t. t \<in> set ?T \<longleftrightarrow> (\<exists>tid. mem_task ?s tid = Some t)" using ms.scan_tasks [OF assms(2) keys] by blast+
  have "distinct ?us" using T(1) by (simp add: go_sort_slice_def)
  moreover have "matchFilter t ?f \<longleftrightarrow> queryGet r ''include_completed'' = ''true'' \<or> t_ArchivedAt t = None" for t
    by (simp add: matchFilter_def emptyFilter_def)
  moreover have "sorted (map (\<lambda>t. - t_CreatedAt t) (filter P ?us))" for P by (rule sorted_filter) simp
  ultimately show ?thesis using assms(1) us T(2)
    by (intro exI [of _ "if queryGet r ''trace_id'' = '''' then ?us else filter (\<lambda>t. t_TraceID t = queryGet r ''trace_id'') ?us"])
      (auto simp: handleTasks_def Let_def)
qed

section \<open>Examples\<close>

definition exServer :: "(json MemoryDB, unit, MockDataSource, MemoryPolicyStore, string) Server" where
  "exServer = \<lparr>srv_addr = ''tcp://0.0.0.0:8080'', srv_engine = Some exampleEngine, srv_eventLog = None, srv_sources = Some switchedMocks,
     srv_policies = Some oneManager, srv_started = True, srv_stopped = False\<rparr>"

definition exServerEnv :: "(json MemoryDB, unit, MockDataSource, MemoryPolicyStore) server_env" where
  "exServerEnv = \<lparr>sv_db = memoryDB length, sv_tie = (\<lambda>_. 0), sv_rank = length, sv_showErr = (\<lambda>_. ''error''),
     sv_log = \<lparr>eq_QueryByTaskID = (\<lambda>_ _. Inr []), eq_QueryByTraceID = (\<lambda>_ _. Inl ''none'')\<rparr>,
     sv_source = mockSource 0 0, sv_create = mockCreate, sv_types = [''a'', ''b''], sv_policyHttp = exHttp,
     sv_policyStore = memoryPolicyStore length\<rparr>"

theorem unauthenticated_requests_blocked_witness:
  "http_Status (fst (serveHTTP exServerEnv True ''secret'' exServer switchRequest exServer)) = 401
   \<and> snd (serveHTTP exServerEnv True ''secret'' exServer switchRequest exServer) = exServer"
proof -
  have "rq_Authorization switchRequest \<noteq> ''Bearer '' @ ''secret''" "prefix apiPrefix (rq_Path switchRequest)"
    by (simp_all add: switchRequest_def)
  then show ?thesis
    using unauthenticated_requests_blocked [of switchRequest "''secret''" exServerEnv True exServer exServer, OF _ surjective_pairing] by simp
qed

lemma exampleEngine_states:
  assumes "mem_task (sme_store exampleEngine) tid = Some t"
  shows "t_State t \<in> {''a'', ''b'', ''c'', ''t''}"
proof -
  have "engine_step emptyEngine exampleEngine"
    using engine_step.create [OF emptyEngine_facts(2), of length exampleFmt 1 2 3 exampleSpec]
    by (metis exampleEngine_def prod.collapse)
  then have "engine_step\<^sup>*\<^sup>* (newEngine length diamond 10 Map.empty) exampleEngine"
    unfolding emptyEngine_def by (rule r_into_rtranclp)
  from reachable_inv [OF this] assms have "taskOk diamond t" by (auto simp: engineInv_def)
  then have "t_State t = ''a'' \<or> (\<exists>s. IsTransitionAllowed diamond s (t_State t))"
    by (auto simp: taskOk_def diamond_def exampleConfig_def)
  then show ?thesis by (auto simp: diamond_def exampleConfig_def IsTransitionAllowed_def split: if_splits)
qed

theorem queue_depth_exact_witness:
  "\<exists>n > 0. map_of (queueDepth (memoryDB length) (\<lambda>_. 0) length exampleEngine) ''a'' = Some n"
proof -
  have st: "fst ` set (smc_States (sme_config exampleEngine)) = {''a'', ''b'', ''c'', ''t''}" "distinct (map fst (smc_States (sme_config exampleEngine)))"
    by (auto simp: exampleEngine_facts(2) diamond_def exampleConfig_def)
  have names: "\<forall>state \<in> fst ` set (smc_States (sme_config exampleEngine)). state \<notin> {'''', ''active_total'', ''archived_total''}"
    unfolding st(1) by simp
  have known: "\<forall>tid t. mem_task (sme_store exampleEngine) tid = Some t \<and> t_ArchivedAt t = None \<longrightarrow> t_State t \<in> fst ` set (smc_States (sme_config exampleEngine))"
    unfolding st(1) using exampleEngine_states by blast
  from queue_depth_exact [OF exampleEngine_facts(1) st(2) names known, of length "\<lambda>_. 0" length]
  obtain T where T: "\<forall>t. t \<in> set T \<longleftrightarrow> (\<exists>tid. mem_task (sme_store exampleEngine) tid = Some t)"
    and d: "map_of (queueDepth (memoryDB length) (\<lambda>_. 0) length exampleEngine) ''a'' = Some (int (length (filter (inState ''a'') T)))"
    unfolding st(1) by blast
  have "exampleTask \<in> set (filter (inState ''a'') T)" using T exampleEngine_facts(3-5) by (auto simp: inState_def)
  then have "filter (inState ''a'') T \<noteq> []" by (metis empty_iff empty_set)
  then show ?thesis using d by (intro exI [of _ "int (length (filter (inState ''a'') T))"]) simp
qed

theorem task_listing_exact_witness:
  "\<exists>ts. handleTasks (memoryDB length) (\<lambda>_. 0) (\<lambda>_. ''error'') getRequest exServer = (okReply (Success (Some (CTasks ts (length ts)))), exServer)
     \<and> exampleTask \<in> set ts"
proof -
  have "srv_engine exServer = Some exampleEngine" by (simp add: exServer_def)
  from task_listing_exact [OF this exampleEngine_facts(1), of length "\<lambda>_. 0" "\<lambda>_. ''error''" getRequest]
  show ?thesis using exampleEngine_facts(3,5) by (auto simp: getRequest_def queryGet_def)
qed

end
