(* ===== verification/Nuts_Config.thy ===== *)
theory Nuts_Config
  imports Policy_Engine
begin

text \<open>
  The configuration manager (\<^verbatim>\<open>src/pkg/config/toml.go\<close>): the decoded TOML document, reading by dotted keys and writing. Files and the TOML library are
  parameters.
\<close>

record TOMLConfigManager =
  tm_data :: gomap

definition NewTOMLConfigManager :: TOMLConfigManager where
  "NewTOMLConfigManager = \<lparr>tm_data = []\<rparr>"

definition Config_Load ::
  "(string \<Rightarrow> string + string) \<Rightarrow> (string \<Rightarrow> string + gomap) \<Rightarrow> string \<Rightarrow> TOMLConfigManager \<Rightarrow> string option \<times> TOMLConfigManager" where
  "Config_Load readFile unmarshal path c =
     (case readFile path of
        Inl err \<Rightarrow> (Some (''read config file: '' @ err), c)
      | Inr text \<Rightarrow>
          (case unmarshal text of
             Inl err \<Rightarrow> (Some (''parse toml: '' @ err), c)
           | Inr config \<Rightarrow> (None, c\<lparr>tm_data := config\<rparr>)))"

text \<open>
  The loop over the parts of a dotted key. The test for the last part compares the part itself with the last one, not its position, so it holds
  already at an earlier part of the same name.
\<close>

fun nestedGet :: "string \<Rightarrow> string list \<Rightarrow> gomap \<Rightarrow> govalue option" where
  "nestedGet lastPart [] current = None"
| "nestedGet lastPart (part # parts) current =
     (case map_of current part of
        None \<Rightarrow> None
      | Some val \<Rightarrow>
          if part = lastPart then Some val
          else (case val of VMap m \<Rightarrow> nestedGet lastPart parts m | _ \<Rightarrow> None))"

definition Config_Get :: "TOMLConfigManager \<Rightarrow> string \<Rightarrow> govalue option" where
  "Config_Get c key =
     (case map_of (tm_data c) key of
        Some val \<Rightarrow> Some val
      | None \<Rightarrow>
          (let parts = splitDot key
           in if length parts < 2 then None else nestedGet (last parts) parts (tm_data c)))"

definition Config_GetString :: "TOMLConfigManager \<Rightarrow> string \<Rightarrow> string" where
  "Config_GetString c key = (case Config_Get c key of Some (VString s) \<Rightarrow> s | _ \<Rightarrow> '''')"

definition Config_GetInt :: "TOMLConfigManager \<Rightarrow> string \<Rightarrow> int" where
  "Config_GetInt c key =
     (case Config_Get c key of Some (VInt v) \<Rightarrow> v | Some (VInt64 v) \<Rightarrow> v | Some (VFloat v) \<Rightarrow> truncate_float v | _ \<Rightarrow> 0)"

definition Config_GetBool :: "TOMLConfigManager \<Rightarrow> string \<Rightarrow> bool" where
  "Config_GetBool c key = (case Config_Get c key of Some (VBool b) \<Rightarrow> b | _ \<Rightarrow> False)"

definition Config_GetMap :: "TOMLConfigManager \<Rightarrow> string \<Rightarrow> gomap option" where
  "Config_GetMap c key = (case Config_Get c key of Some (VMap m) \<Rightarrow> Some m | _ \<Rightarrow> None)"

definition Config_Set :: "string \<Rightarrow> govalue \<Rightarrow> TOMLConfigManager \<Rightarrow> TOMLConfigManager" where
  "Config_Set key value c = c\<lparr>tm_data := alist_put key value (tm_data c)\<rparr>"

definition Config_Save ::
  "(gomap \<Rightarrow> string + string) \<Rightarrow> (string \<Rightarrow> string \<Rightarrow> string option) \<Rightarrow> string \<Rightarrow> TOMLConfigManager \<Rightarrow> string option" where
  "Config_Save marshal writeFile path c =
     (case marshal (tm_data c) of
        Inl err \<Rightarrow> Some (''marshal toml: '' @ err)
      | Inr text \<Rightarrow> (case writeFile path text of None \<Rightarrow> None | Some err \<Rightarrow> Some (''write config file: '' @ err)))"

section \<open>Reading by path\<close>

text \<open>The value at a path of tables.\<close>

fun pathGet :: "string list \<Rightarrow> gomap \<Rightarrow> govalue option" where
  "pathGet [] current = None"
| "pathGet [part] current = map_of current part"
| "pathGet (part # parts) current = (case map_of current part of Some (VMap m) \<Rightarrow> pathGet parts m | _ \<Rightarrow> None)"

lemma nestedGet_path:
  "parts \<noteq> [] \<Longrightarrow> last parts \<notin> set (butlast parts) \<Longrightarrow> nestedGet (last parts) parts m = pathGet parts m"
proof (induction parts arbitrary: m)
  case (Cons part parts)
  show ?case
  proof (cases parts)
    case Nil
    then show ?thesis by (simp split: option.split)
  next
    case pps: (Cons p ps)
    then have ne: "part \<noteq> last parts" and ih: "nestedGet (last parts) parts m' = pathGet parts m'" for m'
      using Cons.IH Cons.prems by auto
    show ?thesis
    proof (cases "map_of m part")
      case (Some val)
      then show ?thesis using ne ih pps by (cases val) simp_all
    qed (simp add: pps)
  qed
qed simp

lemma splitDot_nonempty: "splitDot s \<noteq> []"
  by (induction s) (auto split: list.split)

lemma splitDot_append:
  "CHR ''.'' \<notin> set a \<Longrightarrow> splitDot (a @ ''.'' @ b) = a # splitDot b"
  by (induction a) auto

lemma splitDot_single: "CHR ''.'' \<notin> set a \<Longrightarrow> splitDot a = [a]"
  by (induction a) auto

text \<open>
  Claim C39. Reading the configuration: a key that was set is read back as it was set, and every other key as before unless its first part is that key. A dotted key that is
  not a key of the document itself is the value at the path of its parts, provided the last part does not occur among the earlier
  ones; a key whose first and last part are equal is answered with the value at the first part, whatever the path says.
\<close>

theorem config_get_follows_path:
  "Config_Get (Config_Set key v c) key = Some v
   \<and> (key' \<noteq> key \<and> hd (splitDot key') \<noteq> key \<longrightarrow> Config_Get (Config_Set key v c) key' = Config_Get c key')
   \<and> (map_of (tm_data c) key = None \<and> length (splitDot key) \<ge> 2 \<and> last (splitDot key) \<notin> set (butlast (splitDot key)) \<longrightarrow>
        Config_Get c key = pathGet (splitDot key) (tm_data c))
   \<and> (map_of (tm_data c) key = None \<and> length (splitDot key) \<ge> 2 \<and> last (splitDot key) = hd (splitDot key) \<longrightarrow>
        Config_Get c key = map_of (tm_data c) (hd (splitDot key)))"
proof -
  have "nestedGet (last ps) ps m = map_of m (hd ps)" if "ps \<noteq> []" "last ps = hd ps" for ps m
    using that by (cases ps) (simp_all split: option.split)
  moreover have "nestedGet l ps (alist_put key v m) = nestedGet l ps m" if "ps \<noteq> []" "hd ps \<noteq> key" for l ps m
    using that by (cases ps) (simp_all add: map_of_alist_put)
  ultimately show ?thesis
    by (auto simp: Config_Get_def Config_Set_def map_of_alist_put nestedGet_path splitDot_nonempty Let_def split: option.split)
qed

text \<open>The table \<^verbatim>\<open>log\<close> with a table \<^verbatim>\<open>file\<close> in it, asked for \<^verbatim>\<open>log.file.log\<close>.\<close>

definition exConfig :: TOMLConfigManager where
  "exConfig = \<lparr>tm_data = [(''task'', VMap [(''db'', VMap [(''type'', VString ''memory'')])]), (''log'', VMap [(''file'', VMap [(''log'', VString ''x'')])])]\<rparr>"

theorem config_get_follows_path_witness:
  "Config_Get exConfig ''task.db.type'' = Some (VString ''memory'')
     \<and> Config_Get (Config_Set ''task'' VNil exConfig) ''log.x'' = Config_Get exConfig ''log.x''
     \<and> Config_Get exConfig ''log.file.log'' = Some (VMap [(''file'', VMap [(''log'', VString ''x'')])])"
  using config_get_follows_path [of "''task.db.type''" VNil exConfig] config_get_follows_path [of "''log.file.log''" VNil exConfig]
    config_get_follows_path [of "''task''" VNil exConfig "''log.x''"]
  by (simp add: exConfig_def)

end
