(* ===== verification/Eventlog_Ring.thy ===== *)
theory Eventlog_Ring
  imports Eventlog_Model
begin

text \<open>
  The in-memory event log (\<^verbatim>\<open>src/pkg/eventlog/ringbuffer.go\<close>): a ring of entries with two secondary
  indices. An index maps a key to the identifiers of its entries; a missing key and an empty list
  are the same. The queries are shared with the database log.
\<close>

section \<open>Indices, filters and timelines\<close>

type_synonym log_index = "string \<Rightarrow> string list"

definition addIndex :: "string \<Rightarrow> string \<Rightarrow> log_index \<Rightarrow> log_index" where
  "addIndex key entryID idx = (if key \<noteq> '''' then idx(key := idx key @ [entryID]) else idx)"

text \<open>The loop removes the first occurrence only.\<close>

definition dropIndex :: "string \<Rightarrow> string \<Rightarrow> log_index \<Rightarrow> log_index" where
  "dropIndex key entryID idx = (if key \<noteq> '''' then idx(key := remove1 entryID (idx key)) else idx)"

definition passesFilter :: "LogFilter \<Rightarrow> EventLogEntry \<Rightarrow> bool" where
  "passesFilter f e \<longleftrightarrow>
     \<not> (lf_TraceID f \<noteq> '''' \<and> le_TraceID e \<noteq> lf_TraceID f)
   \<and> \<not> (lf_TaskID f \<noteq> '''' \<and> le_TaskID e \<noteq> lf_TaskID f)
   \<and> \<not> (lf_Stage f \<noteq> '''' \<and> le_Stage e \<noteq> lf_Stage f)
   \<and> \<not> (lf_Source f \<noteq> '''' \<and> le_Source e \<noteq> lf_Source f)
   \<and> \<not> (case lf_StartTime f of Some t \<Rightarrow> before (le_Timestamp e) t | None \<Rightarrow> False)
   \<and> \<not> (case lf_EndTime f of Some t \<Rightarrow> after (le_Timestamp e) t | None \<Rightarrow> False)"

text \<open>The loop of \<^verbatim>\<open>Query\<close>: the limit stops it after an entry was added.\<close>

fun queryLoop :: "LogFilter \<Rightarrow> EventLogEntry list \<Rightarrow> EventLogEntry list \<Rightarrow> EventLogEntry list" where
  "queryLoop f [] result = result"
| "queryLoop f (e # es) result =
     (if \<not> passesFilter f e then queryLoop f es result
      else (let result = result @ [e]
            in if lf_Limit f > 0 \<and> int (length result) \<ge> lf_Limit f then result else queryLoop f es result))"

definition minTime :: "EventLogEntry list \<Rightarrow> gotime" where
  "minTime es = (case es of [] \<Rightarrow> 0 | e # es \<Rightarrow> fold (\<lambda>e m. if before (le_Timestamp e) m then le_Timestamp e else m) es (le_Timestamp e))"

definition maxTime :: "EventLogEntry list \<Rightarrow> gotime" where
  "maxTime es = (case es of [] \<Rightarrow> 0 | e # es \<Rightarrow> fold (\<lambda>e m. if after (le_Timestamp e) m then le_Timestamp e else m) es (le_Timestamp e))"

text \<open>\<open>rank\<close>: the order in which the runtime ranges over the set of task identifiers.\<close>

definition timeline :: "(string \<Rightarrow> nat) \<Rightarrow> string \<Rightarrow> EventLogEntry list \<Rightarrow> TraceTimeline" where
  "timeline rank traceID entries =
     (if entries = [] then \<lparr>tl_TraceID = traceID, tl_Entries = [], tl_Tasks = [], tl_Duration = 0\<rparr>
      else \<lparr>tl_TraceID = traceID, tl_Entries = entries,
            tl_Tasks = map (\<lambda>i. \<lparr>ts_ID = i, ts_State = '''', ts_CreatedAt = 0, ts_UpdatedAt = 0\<rparr>)
              (range_keys rank (remdups (filter (\<lambda>i. i \<noteq> '''') (map le_TaskID entries)))),
            tl_Duration = maxTime entries - minTime entries\<rparr>)"

section \<open>The ring\<close>

record ringBufferEventLog =
  rb_entries :: "EventLogEntry list"
  rb_size :: nat
  rb_head :: nat
  rb_count :: nat
  rb_traceIndex :: log_index
  rb_taskIndex :: log_index

definition NewRingBufferEventLog :: "int \<Rightarrow> ringBufferEventLog" where
  "NewRingBufferEventLog sz =
     (let n = nat (if sz \<le> 0 then 10000 else sz)
      in \<lparr>rb_entries = replicate n emptyEntry, rb_size = n, rb_head = 0, rb_count = 0,
          rb_traceIndex = (\<lambda>_. []), rb_taskIndex = (\<lambda>_. [])\<rparr>)"

definition rb_removeFromIndex :: "string \<Rightarrow> string \<Rightarrow> string \<Rightarrow> ringBufferEventLog \<Rightarrow> ringBufferEventLog" where
  "rb_removeFromIndex traceID taskID entryID r =
     r\<lparr>rb_traceIndex := dropIndex traceID entryID (rb_traceIndex r),
       rb_taskIndex := dropIndex taskID entryID (rb_taskIndex r)\<rparr>"

text \<open>A closed log has no entries left: \<^verbatim>\<open>Append\<close> then indexes into a nil slice and panics (\<^term>\<open>None\<close>).\<close>

definition rb_Append :: "EventLogEntry option \<Rightarrow> ringBufferEventLog \<Rightarrow> ringBufferEventLog option" where
  "rb_Append entry r =
     (case entry of
        None \<Rightarrow> Some r
      | Some e \<Rightarrow>
          if rb_head r \<ge> length (rb_entries r) then None
          else
            (let r = (if rb_count r = rb_size r
                      then (let old = rb_entries r ! rb_head r
                            in rb_removeFromIndex (le_TraceID old) (le_TaskID old) (le_ID old) r)
                      else r);
                 r = r\<lparr>rb_entries := (rb_entries r)[rb_head r := e], rb_head := (rb_head r + 1) mod rb_size r,
                       rb_count := (if rb_count r < rb_size r then rb_count r + 1 else rb_count r)\<rparr>
             in Some (r\<lparr>rb_traceIndex := addIndex (le_TraceID e) (le_ID e) (rb_traceIndex r),
                       rb_taskIndex := addIndex (le_TaskID e) (le_ID e) (rb_taskIndex r)\<rparr>)))"

text \<open>The entries from the oldest to the newest, as \<^verbatim>\<open>Query\<close> and \<^verbatim>\<open>findByIDs\<close> visit them.\<close>

definition rb_content :: "ringBufferEventLog \<Rightarrow> EventLogEntry list" where
  "rb_content r = map (\<lambda>i. rb_entries r ! ((rb_head r + rb_size r - rb_count r + i) mod rb_size r)) [0..<rb_count r]"

definition rb_findByIDs :: "ringBufferEventLog \<Rightarrow> string list \<Rightarrow> EventLogEntry list" where
  "rb_findByIDs r is = filter (\<lambda>e. le_ID e \<in> set is) (rb_content r)"

definition rb_QueryByTraceID :: "(string \<Rightarrow> nat) \<Rightarrow> ringBufferEventLog \<Rightarrow> string \<Rightarrow> TraceTimeline" where
  "rb_QueryByTraceID rank r traceID =
     (let entryIDs = rb_traceIndex r traceID
      in timeline rank traceID (if entryIDs = [] then [] else rb_findByIDs r entryIDs))"

definition rb_QueryByTaskID :: "ringBufferEventLog \<Rightarrow> string \<Rightarrow> EventLogEntry list" where
  "rb_QueryByTaskID r taskID =
     (let entryIDs = rb_taskIndex r taskID
      in if entryIDs = [] then [] else rb_findByIDs r entryIDs)"

definition rb_Query :: "ringBufferEventLog \<Rightarrow> LogFilter \<Rightarrow> EventLogEntry list" where
  "rb_Query r f = queryLoop f (rb_content r) []"

definition rb_Cleanup :: "gotime \<Rightarrow> ringBufferEventLog \<Rightarrow> int \<times> ringBufferEventLog" where
  "rb_Cleanup t r = (0, r)"

definition rb_Close :: "ringBufferEventLog \<Rightarrow> ringBufferEventLog" where
  "rb_Close r = r\<lparr>rb_entries := [], rb_count := 0, rb_traceIndex := (\<lambda>_. []), rb_taskIndex := (\<lambda>_. [])\<rparr>"

section \<open>The ring is a bounded list\<close>

definition rb_shape :: "ringBufferEventLog \<Rightarrow> bool" where
  "rb_shape r \<longleftrightarrow> 0 < rb_size r \<and> length (rb_entries r) = rb_size r \<and> rb_head r < rb_size r \<and> rb_count r \<le> rb_size r"

definition idx_of :: "(EventLogEntry \<Rightarrow> string) \<Rightarrow> EventLogEntry list \<Rightarrow> log_index" where
  "idx_of k es = (\<lambda>s. if s = '''' then [] else map le_ID (filter (\<lambda>e. k e = s) es))"

definition rb_inv :: "ringBufferEventLog \<Rightarrow> bool" where
  "rb_inv r \<longleftrightarrow> rb_shape r \<and> rb_traceIndex r = idx_of le_TraceID (rb_content r)
     \<and> rb_taskIndex r = idx_of le_TaskID (rb_content r)"

text \<open>The specification: a list of at most \<open>n\<close> entries.\<close>

definition boundedAppend :: "nat \<Rightarrow> 'a \<Rightarrow> 'a list \<Rightarrow> 'a list" where
  "boundedAppend n x xs = (if length xs < n then xs @ [x] else tl xs @ [x])"

lemma idx_of_append: "idx_of k (es @ [e]) = addIndex (k e) (le_ID e) (idx_of k es)"
  by (auto simp: idx_of_def addIndex_def fun_eq_iff)

lemma idx_of_tl: "es \<noteq> [] \<Longrightarrow> idx_of k (tl es) = dropIndex (k (hd es)) (le_ID (hd es)) (idx_of k es)"
  by (cases es) (auto simp: idx_of_def dropIndex_def fun_eq_iff)

lemma length_rb_content [simp]: "length (rb_content r) = rb_count r"
  by (simp add: rb_content_def)

definition slot :: "nat \<Rightarrow> nat \<Rightarrow> nat \<Rightarrow> nat \<Rightarrow> nat" where
  "slot n h c i = (h + n - c + i) mod n"

lemma slot_eq:
  assumes "h < n" "c \<le> n" "i < c"
  shows "slot n h c i = (if h + i < c then h + n - c + i else h + i - c)"
  using assms by (auto simp: slot_def le_mod_geq not_less)

lemma rb_content_nth: "i < rb_count r \<Longrightarrow> rb_content r ! i = rb_entries r ! slot (rb_size r) (rb_head r) (rb_count r) i"
  by (simp add: rb_content_def slot_def)

lemma head_next: "h < n \<Longrightarrow> Suc h mod n = (if Suc h = n then 0 else Suc h)"
  by auto

lemma slot_grow:
  assumes "h < n" "c < n"
  shows "i < c \<Longrightarrow> slot n ((h + 1) mod n) (c + 1) i = slot n h c i" "i < c \<Longrightarrow> h \<noteq> slot n h c i"
    "slot n ((h + 1) mod n) (c + 1) c = h"
  using assms by (auto simp: head_next [OF assms(1)] slot_eq)

lemma slot_full:
  assumes "h < n"
  shows "Suc i < n \<Longrightarrow> slot n ((h + 1) mod n) n i = slot n h n (Suc i)" "Suc i < n \<Longrightarrow> h \<noteq> slot n h n (Suc i)"
    "slot n ((h + 1) mod n) n (n - 1) = h" "slot n h n 0 = h"
  using assms by (auto simp: head_next [OF assms(1)] slot_eq)

definition ringPut :: "EventLogEntry \<Rightarrow> ringBufferEventLog \<Rightarrow> ringBufferEventLog" where
  "ringPut e r = r\<lparr>rb_entries := (rb_entries r)[rb_head r := e], rb_head := (rb_head r + 1) mod rb_size r,
       rb_count := (if rb_count r < rb_size r then rb_count r + 1 else rb_count r)\<rparr>"

lemma ringPut_content:
  assumes sh: "rb_shape r"
  shows "rb_content (ringPut e r) = boundedAppend (rb_size r) e (rb_content r)"
proof (rule nth_equalityI)
  show "length (rb_content (ringPut e r)) = length (boundedAppend (rb_size r) e (rb_content r))"
    using sh by (auto simp: ringPut_def boundedAppend_def rb_shape_def)
next
  fix i
  assume i: "i < length (rb_content (ringPut e r))"
  let ?n = "rb_size r" and ?h = "rb_head r" and ?c = "rb_count r"
  have h: "?h < ?n" and l: "length (rb_entries r) = ?n" and c: "?c \<le> ?n" using sh by (simp_all add: rb_shape_def)
  show "rb_content (ringPut e r) ! i = boundedAppend ?n e (rb_content r) ! i"
  proof (cases "?c < ?n")
    case True
    have "rb_content (ringPut e r) ! i = (rb_entries r)[?h := e] ! slot ?n ((?h + 1) mod ?n) (?c + 1) i"
      using i True rb_content_nth [of i "ringPut e r"] by (simp add: ringPut_def)
    moreover have "i < ?c \<or> i = ?c" using i True by (auto simp: ringPut_def)
    ultimately show ?thesis
      using slot_grow [OF h True] h l True by (auto simp: boundedAppend_def nth_append rb_content_nth)
  next
    case False
    then have cn: "?c = ?n" using c by simp
    have "rb_content (ringPut e r) ! i = (rb_entries r)[?h := e] ! slot ?n ((?h + 1) mod ?n) ?n i"
      using i cn rb_content_nth [of i "ringPut e r"] by (simp add: ringPut_def)
    moreover have "Suc i < ?n \<or> i = ?n - 1" using i cn h by (auto simp: ringPut_def)
    ultimately show ?thesis
      using slot_full [OF h] h l cn rb_content_nth [of "Suc i" r] by (auto simp: boundedAppend_def nth_append nth_tl)
  qed
qed

lemma ringPut_shape: "rb_shape r \<Longrightarrow> rb_shape (ringPut e r)"
  by (auto simp: rb_shape_def ringPut_def)

lemma ring_oldest:
  assumes "rb_shape r" "rb_count r = rb_size r" shows "rb_entries r ! rb_head r = hd (rb_content r)" "rb_content r \<noteq> []"
proof -
  have h: "rb_head r < rb_size r" using assms(1) by (simp add: rb_shape_def)
  then have n: "0 < rb_count r" using assms(2) by simp
  then show ne: "rb_content r \<noteq> []" by (metis length_rb_content length_0_conv less_not_refl)
  show "rb_entries r ! rb_head r = hd (rb_content r)"
    using rb_content_nth [OF n] slot_full(4) [OF h] assms(2) ne by (simp add: hd_conv_nth)
qed

lemma rb_content_index [simp]:
  "rb_content (r\<lparr>rb_traceIndex := x\<rparr>) = rb_content r" "rb_content (r\<lparr>rb_taskIndex := x\<rparr>) = rb_content r"
  by (simp_all add: rb_content_def)

lemma rb_Append_eq:
  assumes "rb_shape r"
  shows "rb_Append (Some e) r = Some
    (let out = (\<lambda>k idx. if rb_count r = rb_size r then dropIndex (k (rb_entries r ! rb_head r)) (le_ID (rb_entries r ! rb_head r)) idx else idx)
     in (ringPut e r)\<lparr>rb_traceIndex := addIndex (le_TraceID e) (le_ID e) (out le_TraceID (rb_traceIndex r)),
                      rb_taskIndex := addIndex (le_TaskID e) (le_ID e) (out le_TaskID (rb_taskIndex r))\<rparr>)"
  using assms by (simp add: rb_Append_def rb_removeFromIndex_def ringPut_def rb_shape_def Let_def)

lemma rb_Append_refines:
  assumes inv: "rb_inv r"
  shows "\<exists>r'. rb_Append (Some e) r = Some r' \<and> rb_inv r' \<and> rb_size r' = rb_size r
    \<and> rb_content r' = boundedAppend (rb_size r) e (rb_content r)"
proof -
  have sh: "rb_shape r" and tr: "rb_traceIndex r = idx_of le_TraceID (rb_content r)"
    and ta: "rb_taskIndex r = idx_of le_TaskID (rb_content r)"
    using inv by (simp_all add: rb_inv_def)
  let ?d = "\<lambda>k idx. if rb_count r = rb_size r then dropIndex (k (rb_entries r ! rb_head r)) (le_ID (rb_entries r ! rb_head r)) idx else idx"
  have idx: "addIndex (k e) (le_ID e) (?d k (idx_of k (rb_content r))) = idx_of k (boundedAppend (rb_size r) e (rb_content r))" for k
  proof (cases "rb_count r = rb_size r")
    case True
    then show ?thesis
      using ring_oldest [OF sh True] by (simp add: boundedAppend_def idx_of_append idx_of_tl)
  next
    case False
    then have "rb_count r < rb_size r" using sh by (simp add: rb_shape_def)
    with False show ?thesis by (simp add: boundedAppend_def idx_of_append)
  qed
  let ?r = "(ringPut e r)\<lparr>rb_traceIndex := idx_of le_TraceID (boundedAppend (rb_size r) e (rb_content r)),
     rb_taskIndex := idx_of le_TaskID (boundedAppend (rb_size r) e (rb_content r))\<rparr>"
  have "rb_Append (Some e) r = Some ?r" unfolding rb_Append_eq [OF sh] Let_def tr ta idx ..
  moreover have "rb_shape ?r" using ringPut_shape [OF sh, of e] by (simp add: rb_shape_def)
  ultimately show ?thesis using ringPut_content [OF sh, of e] by (simp add: rb_inv_def) (simp add: ringPut_def)
qed

section \<open>Queries\<close>

lemma queryLoop_eq:
  "(lf_Limit f > 0 \<Longrightarrow> int (length acc) < lf_Limit f) \<Longrightarrow> queryLoop f es acc = acc @
     (if lf_Limit f > 0 then take (nat (lf_Limit f) - length acc) (filter (passesFilter f) es) else filter (passesFilter f) es)"
proof (induction es arbitrary: acc)
  case (Cons e es)
  show ?case
  proof (cases "passesFilter f e")
    case True
    show ?thesis
    proof (cases "lf_Limit f > 0 \<and> int (length (acc @ [e])) \<ge> lf_Limit f")
      case lim: True
      then have "nat (lf_Limit f) - length acc = 1" using Cons.prems by simp
      with True lim show ?thesis by simp
    next
      case False
      then have "lf_Limit f > 0 \<Longrightarrow> int (length (acc @ [e])) < lf_Limit f" by simp
      from Cons.IH [OF this] False True Cons.prems show ?thesis
        by (auto simp: Let_def take_Cons' nat_diff_distrib)
    qed
  next
    case False
    with Cons show ?thesis by simp
  qed
qed auto

lemma find_ids:
  assumes "distinct (map le_ID es)" "s \<noteq> ''''"
  shows "filter (\<lambda>e. le_ID e \<in> set (idx_of k es s)) es = filter (\<lambda>e. k e = s) es"
proof (rule filter_cong [OF refl])
  fix e assume "e \<in> set es"
  then show "le_ID e \<in> set (idx_of k es s) \<longleftrightarrow> k e = s"
    using assms by (auto simp: idx_of_def distinct_map inj_on_def)
qed

lemma idx_of_Nil_iff: "s \<noteq> '''' \<Longrightarrow> idx_of k es s = [] \<longleftrightarrow> filter (\<lambda>e. k e = s) es = []"
  by (simp add: idx_of_def)

lemma ring_task_query:
  assumes "rb_inv r" "distinct (map le_ID (rb_content r))" "s \<noteq> ''''"
  shows "rb_QueryByTaskID r s = filter (\<lambda>e. le_TaskID e = s) (rb_content r)"
  using assms find_ids [OF assms(2,3), of le_TaskID] idx_of_Nil_iff [OF assms(3), of le_TaskID "rb_content r"]
  by (auto simp: rb_QueryByTaskID_def rb_findByIDs_def rb_inv_def Let_def)

lemma ring_trace_query:
  assumes "rb_inv r" "distinct (map le_ID (rb_content r))" "s \<noteq> ''''"
  shows "rb_QueryByTraceID rank r s = timeline rank s (filter (\<lambda>e. le_TraceID e = s) (rb_content r))"
  using assms find_ids [OF assms(2,3), of le_TraceID] idx_of_Nil_iff [OF assms(3), of le_TraceID "rb_content r"]
  by (auto simp: rb_QueryByTraceID_def rb_findByIDs_def rb_inv_def Let_def)

section \<open>A run of appends\<close>

fun rb_appends :: "EventLogEntry list \<Rightarrow> ringBufferEventLog \<Rightarrow> ringBufferEventLog option" where
  "rb_appends [] r = Some r"
| "rb_appends (e # es) r = (case rb_Append (Some e) r of None \<Rightarrow> None | Some r \<Rightarrow> rb_appends es r)"

definition ringSize :: "int \<Rightarrow> nat" where
  "ringSize sz = nat (if sz \<le> 0 then 10000 else sz)"

definition lastN :: "nat \<Rightarrow> 'a list \<Rightarrow> 'a list" where
  "lastN n xs = drop (length xs - n) xs"

lemma lastN_boundedAppend: "0 < n \<Longrightarrow> boundedAppend n x (lastN n xs) = lastN n (xs @ [x])"
  by (auto simp: boundedAppend_def lastN_def drop_Suc tl_drop Suc_diff_le not_less)

lemma NewRing_facts:
  "rb_inv (NewRingBufferEventLog sz)" "rb_content (NewRingBufferEventLog sz) = []"
  "rb_size (NewRingBufferEventLog sz) = ringSize sz" "0 < ringSize sz"
  by (auto simp: NewRingBufferEventLog_def rb_inv_def rb_shape_def rb_content_def idx_of_def ringSize_def Let_def fun_eq_iff)

lemma rb_appends_content:
  assumes "rb_inv r" "rb_content r = lastN (rb_size r) pre"
  shows "\<exists>r'. rb_appends es r = Some r' \<and> rb_inv r' \<and> rb_size r' = rb_size r \<and> rb_content r' = lastN (rb_size r) (pre @ es)"
  using assms
proof (induction es arbitrary: r pre)
  case (Cons e es)
  obtain r1 where r1: "rb_Append (Some e) r = Some r1" "rb_inv r1" "rb_size r1 = rb_size r"
    "rb_content r1 = boundedAppend (rb_size r) e (rb_content r)"
    using rb_Append_refines [OF Cons.prems(1)] by blast
  have "0 < rb_size r" using Cons.prems(1) by (simp add: rb_inv_def rb_shape_def)
  then have "rb_content r1 = lastN (rb_size r1) (pre @ [e])" using r1(3,4) Cons.prems(2) lastN_boundedAppend by metis
  from Cons.IH [OF r1(2) this] r1 show ?case by simp
qed simp

text \<open>
  Claim C21. The ring buffer behaves as the list of the entries appended last, up to its size: appending
  never fails, the queries by filter see exactly those entries from the oldest on, cut at the limit, and
  (identifiers being unique) the queries by task and by trace, which go through the indices, find
  exactly the entries of that task or trace, although overwritten entries had to be taken out of the
  indices.
\<close>

theorem ring_log_is_bounded_list:
  fixes es :: "EventLogEntry list" and sz :: int
  defines "kept \<equiv> lastN (ringSize sz) es"
  shows "\<exists>r. rb_appends es (NewRingBufferEventLog sz) = Some r
     \<and> (\<forall>f. rb_Query r f = (let found = filter (passesFilter f) kept
            in if lf_Limit f > 0 then take (nat (lf_Limit f)) found else found))
     \<and> (distinct (map le_ID es) \<longrightarrow>
          (\<forall>s. s \<noteq> '''' \<longrightarrow> rb_QueryByTaskID r s = filter (\<lambda>e. le_TaskID e = s) kept
             \<and> rb_QueryByTraceID rank r s = timeline rank s (filter (\<lambda>e. le_TraceID e = s) kept)))"
proof -
  let ?r = "NewRingBufferEventLog sz"
  obtain r where r: "rb_appends es ?r = Some r" "rb_inv r" "rb_content r = kept"
    using rb_appends_content [of ?r "[]" es] NewRing_facts [of sz] unfolding kept_def by (auto simp: lastN_def)
  have "rb_Query r f = (let found = filter (passesFilter f) kept
            in if lf_Limit f > 0 then take (nat (lf_Limit f)) found else found)" for f
    unfolding rb_Query_def r(3) by (subst queryLoop_eq) (simp_all add: Let_def)
  moreover have "distinct (map le_ID kept)" if "distinct (map le_ID es)"
    using that unfolding kept_def lastN_def by (simp flip: drop_map)
  ultimately show ?thesis
    using r ring_task_query [OF r(2)] ring_trace_query [OF r(2)] by metis
qed

end
