(* ===== verification/Eventlog_DB.thy ===== *)
theory Eventlog_DB
  imports Eventlog_Ring Nuts_DB Nuts_JSON
begin

text \<open>
  The persistent event log (\<^verbatim>\<open>src/pkg/eventlog/store.go\<close>): one document per entry in a key-value
  database, with the two secondary indices in memory, rebuilt at start-up; its cleaner
  (\<^verbatim>\<open>cleanup.go\<close>) and the asynchronous wrapper (\<^verbatim>\<open>async.go\<close>) that appends through a bounded channel.
\<close>

section \<open>Documents\<close>

text \<open>A document holds every member but the payload as it is, and the payload in JSON if not empty.\<close>

type_synonym entry_doc = "EventLogEntry \<times> (string \<times> jvalue) list option"

definition marshal_entry :: "EventLogEntry \<Rightarrow> string + entry_doc" where
  "marshal_entry e =
     (case le_Payload e of
        None \<Rightarrow> Inr (e, None)
      | Some m \<Rightarrow>
          if m = [] then Inr (e\<lparr>le_Payload := None\<rparr>, None)
          else bindE (toJm m) (\<lambda>js. Inr (e\<lparr>le_Payload := None\<rparr>, Some js)))"

definition unmarshal_entry :: "entry_doc \<Rightarrow> EventLogEntry" where
  "unmarshal_entry d = (fst d)\<lparr>le_Payload := map_option (map (\<lambda>(k, j). (k, fromJ j))) (snd d)\<rparr>"

definition stored_entry :: "EventLogEntry \<Rightarrow> EventLogEntry" where
  "stored_entry e = e\<lparr>le_Payload := (case le_Payload e of None \<Rightarrow> None
     | Some m \<Rightarrow> if m = [] then None else Some (map (\<lambda>(k, v). (k, canon v)) m))\<rparr>"

lemma unmarshal_marshal_entry: "marshal_entry e = Inr d \<Longrightarrow> unmarshal_entry d = stored_entry e"
  by (auto simp: marshal_entry_def unmarshal_entry_def stored_entry_def bindE_eq_Inr fromJ_toJ(3) split: option.splits if_splits)

lemma stored_entry_simps [simp]:
  "le_ID (stored_entry e) = le_ID e" "le_TraceID (stored_entry e) = le_TraceID e" "le_TaskID (stored_entry e) = le_TaskID e"
  "le_Timestamp (stored_entry e) = le_Timestamp e"
  by (simp_all add: stored_entry_def)

section \<open>The log\<close>

text \<open>\<^verbatim>\<open>Close\<close> sets both index maps to nil (\<open>del_closed\<close>): reading and deleting from a nil map is harmless,
  writing to it panics.\<close>

record 'd dbEventLog =
  del_db :: 'd
  del_traceIndex :: log_index
  del_taskIndex :: log_index
  del_closed :: bool

datatype log_error = MarshalEntry string | StoreEntry db_error | ListEntries db_error

abbreviation logKey :: "string \<Rightarrow> string" where
  "logKey i \<equiv> ''eventlog:'' @ i"

definition readEntry :: "('d, entry_doc) DB \<Rightarrow> 'd \<Rightarrow> string \<Rightarrow> EventLogEntry option" where
  "readEntry B d key = (case db_get B d key of Inl _ \<Rightarrow> None | Inr doc \<Rightarrow> Some (unmarshal_entry doc))"

definition getByIDs :: "('d, entry_doc) DB \<Rightarrow> 'd dbEventLog \<Rightarrow> string list \<Rightarrow> EventLogEntry list" where
  "getByIDs B d is = List.map_filter (\<lambda>i. readEntry B (del_db d) (logKey i)) is"

definition getAllEntries :: "('d, entry_doc) DB \<Rightarrow> 'd dbEventLog \<Rightarrow> log_error + EventLogEntry list" where
  "getAllEntries B d =
     (case db_list B (del_db d) ''eventlog:'' of
        Inl err \<Rightarrow> Inl (ListEntries err)
      | Inr keys \<Rightarrow> Inr (List.map_filter (readEntry B (del_db d)) keys))"

definition indexEntry :: "EventLogEntry \<Rightarrow> 'd dbEventLog \<Rightarrow> 'd dbEventLog" where
  "indexEntry e d =
     d\<lparr>del_traceIndex := addIndex (le_TraceID e) (le_ID e) (del_traceIndex d),
       del_taskIndex := addIndex (le_TaskID e) (le_ID e) (del_taskIndex d)\<rparr>"

definition del_removeFromIndex :: "EventLogEntry \<Rightarrow> 'd dbEventLog \<Rightarrow> 'd dbEventLog" where
  "del_removeFromIndex e d =
     d\<lparr>del_traceIndex := dropIndex (le_TraceID e) (le_ID e) (del_traceIndex d),
       del_taskIndex := dropIndex (le_TaskID e) (le_ID e) (del_taskIndex d)\<rparr>"

definition rebuildIndex :: "('d, entry_doc) DB \<Rightarrow> 'd dbEventLog \<Rightarrow> 'd dbEventLog" where
  "rebuildIndex B d =
     (case getAllEntries B d of
        Inl _ \<Rightarrow> d
      | Inr entries \<Rightarrow> fold indexEntry entries d)"

definition NewDBEventLog :: "('d, entry_doc) DB \<Rightarrow> 'd \<Rightarrow> 'd dbEventLog" where
  "NewDBEventLog B database =
     rebuildIndex B \<lparr>del_db = database, del_traceIndex = (\<lambda>_. []), del_taskIndex = (\<lambda>_. []), del_closed = False\<rparr>"

text \<open>\<open>uuid\<close> is the identifier drawn when the entry has none; the result \<^term>\<open>None\<close> is the panic.\<close>

definition del_Append ::
  "('d, entry_doc) DB \<Rightarrow> string \<Rightarrow> EventLogEntry option \<Rightarrow> 'd dbEventLog \<Rightarrow> (log_error option \<times> 'd dbEventLog) option" where
  "del_Append B uuid entry d =
     (case entry of
        None \<Rightarrow> Some (None, d)
      | Some e \<Rightarrow>
          (let e = (if le_ID e = '''' then e\<lparr>le_ID := uuid\<rparr> else e)
           in case marshal_entry e of
                Inl err \<Rightarrow> Some (Some (MarshalEntry err), d)
              | Inr doc \<Rightarrow>
                  (case db_set B (del_db d) (logKey (le_ID e)) doc of
                     Inl err \<Rightarrow> Some (Some (StoreEntry err), d)
                   | Inr db \<Rightarrow>
                       if del_closed d \<and> (le_TraceID e \<noteq> '''' \<or> le_TaskID e \<noteq> '''') then None
                       else Some (None, indexEntry e (d\<lparr>del_db := db\<rparr>)))))"

definition del_QueryByTraceID :: "('d, entry_doc) DB \<Rightarrow> (string \<Rightarrow> nat) \<Rightarrow> 'd dbEventLog \<Rightarrow> string \<Rightarrow> TraceTimeline" where
  "del_QueryByTraceID B rank d traceID =
     (let entryIDs = del_traceIndex d traceID
      in timeline rank traceID (if entryIDs = [] then [] else getByIDs B d entryIDs))"

definition del_QueryByTaskID :: "('d, entry_doc) DB \<Rightarrow> 'd dbEventLog \<Rightarrow> string \<Rightarrow> EventLogEntry list" where
  "del_QueryByTaskID B d taskID =
     (let entryIDs = del_taskIndex d taskID
      in if entryIDs = [] then [] else getByIDs B d entryIDs)"

definition del_Query :: "('d, entry_doc) DB \<Rightarrow> 'd dbEventLog \<Rightarrow> LogFilter \<Rightarrow> log_error + EventLogEntry list" where
  "del_Query B d f = bindE (getAllEntries B d) (\<lambda>es. Inr (queryLoop f es []))"

fun cleanLoop :: "('d, entry_doc) DB \<Rightarrow> gotime \<Rightarrow> EventLogEntry list \<Rightarrow> 'd dbEventLog \<Rightarrow> nat \<Rightarrow> nat \<times> 'd dbEventLog" where
  "cleanLoop B cutoff [] d deleted = (deleted, d)"
| "cleanLoop B cutoff (e # es) d deleted =
     (if before (le_Timestamp e) cutoff
      then (case db_delete B (del_db d) (logKey (le_ID e)) of
              Inl _ \<Rightarrow> cleanLoop B cutoff es d deleted
            | Inr db \<Rightarrow> cleanLoop B cutoff es (del_removeFromIndex e (d\<lparr>del_db := db\<rparr>)) (deleted + 1))
      else cleanLoop B cutoff es d deleted)"

definition del_Cleanup :: "('d, entry_doc) DB \<Rightarrow> gotime \<Rightarrow> 'd dbEventLog \<Rightarrow> (log_error + nat) \<times> 'd dbEventLog" where
  "del_Cleanup B cutoff d =
     (case getAllEntries B d of
        Inl err \<Rightarrow> (Inl err, d)
      | Inr es \<Rightarrow> (case cleanLoop B cutoff es d 0 of (n, d) \<Rightarrow> (Inr n, d)))"

definition del_Close :: "'d dbEventLog \<Rightarrow> 'd dbEventLog" where
  "del_Close d = d\<lparr>del_traceIndex := (\<lambda>_. []), del_taskIndex := (\<lambda>_. []), del_closed := True\<rparr>"

record Cleaner =
  cl_interval :: duration
  cl_retain :: duration

definition Cleaner_cleanup :: "('d, entry_doc) DB \<Rightarrow> gotime \<Rightarrow> Cleaner \<Rightarrow> 'd dbEventLog \<Rightarrow> 'd dbEventLog" where
  "Cleaner_cleanup B now c d = snd (del_Cleanup B (now - cl_retain c) d)"

section \<open>Exact indices\<close>

definition log_content :: "('d \<Rightarrow> string \<Rightarrow> entry_doc option) \<Rightarrow> 'd dbEventLog \<Rightarrow> string \<Rightarrow> EventLogEntry option" where
  "log_content view d i = map_option unmarshal_entry (view (del_db d) (logKey i))"

text \<open>\<open>exact\<close>: under each key the index lists, once each, the identifiers of the entries with that key.\<close>

definition exact :: "(EventLogEntry \<Rightarrow> string) \<Rightarrow> log_index \<Rightarrow> (string \<Rightarrow> EventLogEntry option) \<Rightarrow> bool" where
  "exact k idx content \<longleftrightarrow> idx '''' = [] \<and> (\<forall>s. s \<noteq> '''' \<longrightarrow> distinct (idx s)
     \<and> set (idx s) = {i. \<exists>e. content i = Some e \<and> k e = s})"

definition log_inv :: "('d \<Rightarrow> string \<Rightarrow> entry_doc option) \<Rightarrow> ('d \<Rightarrow> bool) \<Rightarrow> 'd dbEventLog \<Rightarrow> bool" where
  "log_inv view db_ok d \<longleftrightarrow> \<not> del_closed d \<and> db_ok (del_db d) \<and> (\<forall>i e. log_content view d i = Some e \<longrightarrow> le_ID e = i)
     \<and> exact le_TraceID (del_traceIndex d) (log_content view d)
     \<and> exact le_TaskID (del_taskIndex d) (log_content view d)"

lemma log_inv_id: "log_inv view db_ok d \<Longrightarrow> log_content view d i = Some x \<Longrightarrow> le_ID x = i"
  unfolding log_inv_def by blast

lemma exact_add:
  assumes "exact k idx c" "c i = None" "k (g e) = k e"
  shows "exact k (addIndex (k e) i idx) (c(i \<mapsto> g e))"
  using assms by (auto simp: exact_def addIndex_def)

lemma exact_drop:
  assumes "exact k idx c" "c i = Some e"
  shows "exact k (dropIndex (k e) i idx) (c(i := None))"
  using assms by (auto simp: exact_def dropIndex_def set_remove1_eq)

lemma exact_empty: "exact k (\<lambda>_. []) Map.empty"
  by (simp add: exact_def)

lemma tl_Entries_timeline: "tl_Entries (timeline rank s es) = es"
  by (simp add: timeline_def)

locale log_db = kv_db B view db_ok
  for B :: "('d, entry_doc) DB" and view :: "'d \<Rightarrow> string \<Rightarrow> entry_doc option" and db_ok :: "'d \<Rightarrow> bool"
begin

lemma read_content: "db_ok (del_db d) \<Longrightarrow> readEntry B (del_db d) (logKey i) = log_content view d i"
  using get_Some [of "del_db d" "logKey i"] get_None [of "del_db d" "logKey i"]
  by (cases "view (del_db d) (logKey i)") (auto simp: readEntry_def log_content_def)

lemma all_entries:
  assumes ok: "db_ok (del_db d)" and ids: "\<And>i e. log_content view d i = Some e \<Longrightarrow> le_ID e = i"
    and g: "getAllEntries B d = Inr es"
  shows "set es = {e. \<exists>i. log_content view d i = Some e}" "distinct (map le_ID es)"
proof -
  obtain keys where k: "db_list B (del_db d) ''eventlog:'' = Inr keys"
    and es: "es = List.map_filter (readEntry B (del_db d)) keys"
    using g by (auto simp: getAllEntries_def split: sum.splits)
  have ks: "x \<in> set keys \<longleftrightarrow> (\<exists>i. x = logKey i \<and> log_content view d i \<noteq> None)" for x
    using list_set [OF ok k] by (auto simp: prefix_def log_content_def)
  show "set es = {e. \<exists>i. log_content view d i = Some e}"
    unfolding es set_eq_iff set_map_filter_iff mem_Collect_eq by (metis ks read_content [OF ok] option.simps(3))
  have "map (\<lambda>e. logKey (le_ID e)) (List.map_filter (readEntry B (del_db d)) xs) = xs" if "set xs \<subseteq> set keys" for xs
    using that
  proof (induction xs)
    case (Cons x xs)
    then obtain i e where i: "x = logKey i" "log_content view d i = Some e" using ks by fastforce
    with read_content [OF ok, of i] ids [OF i(2)] Cons show ?case by (auto simp: List.map_filter_simps)
  qed (simp add: List.map_filter_simps)
  then have "map (\<lambda>e. logKey (le_ID e)) es = keys" unfolding es by blast
  then have "distinct (map logKey (map le_ID es))" using list_distinct [OF ok k] by (simp add: o_def)
  then show "distinct (map le_ID es)" unfolding distinct_map by blast
qed

lemma append_effect:
  assumes inv: "log_inv view db_ok d" and e: "le_ID e \<noteq> ''''" "log_content view d (le_ID e) = None"
    and r: "del_Append B uuid (Some e) d = Some (None, d')"
  shows "log_inv view db_ok d' \<and> log_content view d' = (log_content view d)(le_ID e \<mapsto> stored_entry e)"
proof -
  have ok: "db_ok (del_db d)" "\<not> del_closed d" using inv by (simp_all add: log_inv_def)
  obtain doc where m: "marshal_entry e = Inr doc" using r e(1) by (cases "marshal_entry e") (simp_all add: del_Append_def)
  obtain db where s: "db_set B (del_db d) (logKey (le_ID e)) doc = Inr db"
    using r e(1) m by (cases "db_set B (del_db d) (logKey (le_ID e)) doc") (simp_all add: del_Append_def)
  have d': "d' = indexEntry e (d\<lparr>del_db := db\<rparr>)" using r e(1) m s ok(2) by (simp add: del_Append_def)
  have v: "db_ok db" "view db = (view (del_db d))(logKey (le_ID e) \<mapsto> doc)" using set_ok [OF ok(1) s] set_view [OF ok(1) s] by simp_all
  have c: "log_content view d' = (log_content view d)(le_ID e \<mapsto> stored_entry e)"
    using unmarshal_marshal_entry [OF m] v(2) by (auto simp: d' indexEntry_def log_content_def fun_eq_iff)
  have x: "exact le_TraceID (del_traceIndex d) (log_content view d)" "exact le_TaskID (del_taskIndex d) (log_content view d)"
    using inv by (simp_all add: log_inv_def)
  have i: "del_traceIndex d' = addIndex (le_TraceID e) (le_ID e) (del_traceIndex d)"
    "del_taskIndex d' = addIndex (le_TaskID e) (le_ID e) (del_taskIndex d)" by (simp_all add: d' indexEntry_def)
  have "exact le_TraceID (del_traceIndex d') (log_content view d')"
    unfolding c i by (rule exact_add [OF x(1) e(2)]) (rule stored_entry_simps)
  moreover have "exact le_TaskID (del_taskIndex d') (log_content view d')"
    unfolding c i by (rule exact_add [OF x(2) e(2)]) (rule stored_entry_simps)
  moreover have "le_ID x = i" if x: "log_content view d' i = Some x" for i x
    using x log_inv_id [OF inv, of i x] unfolding c by (cases "i = le_ID e") auto
  moreover have "db_ok (del_db d')" "\<not> del_closed d'" using v(1) ok(2) by (simp_all add: d' indexEntry_def)
  ultimately show ?thesis unfolding log_inv_def using c by blast
qed

lemma remove_effect:
  assumes inv: "log_inv view db_ok d" and e: "log_content view d (le_ID e) = Some e"
    and s: "db_delete B (del_db d) (logKey (le_ID e)) = Inr db"
  shows "log_inv view db_ok (del_removeFromIndex e (d\<lparr>del_db := db\<rparr>))
    \<and> log_content view (del_removeFromIndex e (d\<lparr>del_db := db\<rparr>)) = (log_content view d)(le_ID e := None)"
proof -
  let ?d = "del_removeFromIndex e (d\<lparr>del_db := db\<rparr>)"
  have ok: "db_ok (del_db d)" using inv by (simp add: log_inv_def)
  have v: "db_ok db" "view db = (view (del_db d))(logKey (le_ID e) := None)"
    using delete_ok [OF ok s] delete_view [OF ok s] by simp_all
  have c: "log_content view ?d = (log_content view d)(le_ID e := None)"
    using v(2) by (auto simp: del_removeFromIndex_def log_content_def fun_eq_iff)
  have x: "exact le_TraceID (del_traceIndex d) (log_content view d)" "exact le_TaskID (del_taskIndex d) (log_content view d)"
    using inv by (simp_all add: log_inv_def)
  have i: "del_traceIndex ?d = dropIndex (le_TraceID e) (le_ID e) (del_traceIndex d)"
    "del_taskIndex ?d = dropIndex (le_TaskID e) (le_ID e) (del_taskIndex d)" by (simp_all add: del_removeFromIndex_def)
  have "exact le_TraceID (del_traceIndex ?d) (log_content view ?d)" unfolding c i by (rule exact_drop [OF x(1) e])
  moreover have "exact le_TaskID (del_taskIndex ?d) (log_content view ?d)" unfolding c i by (rule exact_drop [OF x(2) e])
  moreover have "le_ID x = i" if x: "log_content view ?d i = Some x" for i x
    using x log_inv_id [OF inv, of i x] unfolding c by (cases "i = le_ID e") auto
  moreover have "db_ok (del_db ?d)" "\<not> del_closed ?d" using v(1) inv by (simp_all add: del_removeFromIndex_def log_inv_def)
  ultimately show ?thesis unfolding log_inv_def using c by blast
qed

lemma by_index:
  assumes ok: "db_ok (del_db d)" and x: "exact k idx (log_content view d)" and s: "s \<noteq> ''''"
  shows "set (getByIDs B d (idx s)) = {e. (\<exists>i. log_content view d i = Some e) \<and> k e = s}"
proof -
  have ix: "set (idx s) = {i. \<exists>e. log_content view d i = Some e \<and> k e = s}" using x s by (simp add: exact_def)
  have "e \<in> set (getByIDs B d (idx s)) \<longleftrightarrow> (\<exists>i. log_content view d i = Some e) \<and> k e = s" for e
    unfolding getByIDs_def set_map_filter_iff read_content [OF ok] ix by auto
  then show ?thesis by blast
qed

lemma no_ids [simp]: "getByIDs B d [] = []"
  by (simp add: getByIDs_def List.map_filter_simps)

lemma queries:
  assumes inv: "log_inv view db_ok d" and s: "s \<noteq> ''''"
  shows "set (del_QueryByTaskID B d s) = {e \<in> ran (log_content view d). le_TaskID e = s}"
    "set (tl_Entries (del_QueryByTraceID B rank d s)) = {e \<in> ran (log_content view d). le_TraceID e = s}"
proof -
  have ok: "db_ok (del_db d)" "exact le_TaskID (del_taskIndex d) (log_content view d)"
    "exact le_TraceID (del_traceIndex d) (log_content view d)" using inv by (simp_all add: log_inv_def)
  show "set (del_QueryByTaskID B d s) = {e \<in> ran (log_content view d). le_TaskID e = s}"
    using by_index [OF ok(1,2) s] by (cases "del_taskIndex d s = []") (simp_all add: del_QueryByTaskID_def ran_def)
  show "set (tl_Entries (del_QueryByTraceID B rank d s)) = {e \<in> ran (log_content view d). le_TraceID e = s}"
    using by_index [OF ok(1,3) s]
    by (cases "del_traceIndex d s = []") (simp_all add: del_QueryByTraceID_def Let_def tl_Entries_timeline ran_def)
qed

lemma append_succeeds:
  assumes inv: "log_inv view db_ok d" and e: "le_ID e \<noteq> ''''" "marshal_entry e = Inr doc"
    and total: "\<And>db key v. \<exists>db'. db_set B db key v = Inr db'"
  shows "\<exists>d'. del_Append B uuid (Some e) d = Some (None, d')"
proof -
  obtain db where "db_set B (del_db d) (logKey (le_ID e)) doc = Inr db" using total by blast
  with e inv show ?thesis by (simp add: del_Append_def log_inv_def)
qed

lemma clean_effect:
  assumes "log_inv view db_ok d" "distinct (map le_ID es)" "\<And>e. e \<in> set es \<Longrightarrow> log_content view d (le_ID e) = Some e"
    and total: "\<And>db key. \<exists>db'. db_delete B db key = Inr db'"
  shows "\<exists>d'. cleanLoop B cutoff es d n = (n + length (filter (\<lambda>e. before (le_Timestamp e) cutoff) es), d')
    \<and> log_inv view db_ok d'
    \<and> log_content view d' = (log_content view d) |` (- le_ID ` set (filter (\<lambda>e. before (le_Timestamp e) cutoff) es))"
  using assms(1-3)
proof (induction es arbitrary: d n)
  case (Cons e es)
  show ?case
  proof (cases "before (le_Timestamp e) cutoff")
    case True
    obtain db where s: "db_delete B (del_db d) (logKey (le_ID e)) = Inr db" using total by blast
    let ?d = "del_removeFromIndex e (d\<lparr>del_db := db\<rparr>)"
    have at: "log_content view d (le_ID e) = Some e" using Cons.prems(3) by simp
    note rm = remove_effect [OF Cons.prems(1) at s]
    have "log_content view ?d (le_ID x) = Some x" if x: "x \<in> set es" for x
    proof -
      have "le_ID x \<noteq> le_ID e" using Cons.prems(2) imageI [OF x, of le_ID] by auto
      then show ?thesis using rm Cons.prems(3) x by simp
    qed
    with rm Cons.prems(2) have "\<exists>d'. cleanLoop B cutoff es ?d (n + 1) = (n + 1 + length (filter (\<lambda>e. before (le_Timestamp e) cutoff) es), d')
      \<and> log_inv view db_ok d' \<and> log_content view d' = (log_content view ?d) |` (- le_ID ` set (filter (\<lambda>e. before (le_Timestamp e) cutoff) es))"
      by (intro Cons.IH) simp_all
    then obtain d' where h: "cleanLoop B cutoff es ?d (n + 1) = (n + 1 + length (filter (\<lambda>e. before (le_Timestamp e) cutoff) es), d')"
      "log_inv view db_ok d'" "log_content view d' = (log_content view ?d) |` (- le_ID ` set (filter (\<lambda>e. before (le_Timestamp e) cutoff) es))"
      by blast
    have "log_content view d' = (log_content view d) |` (- le_ID ` set (filter (\<lambda>e. before (le_Timestamp e) cutoff) (e # es)))"
      using True unfolding h(3) conjunct2 [OF rm] by (simp add: restrict_map_def fun_eq_iff)
    then show ?thesis using True s h(1,2) by simp
  next
    case False
    with Cons show ?thesis by auto
  qed
qed (simp add: restrict_map_def)

lemma removes_old:
  assumes inv: "log_inv view db_ok d" and l: "db_list B (del_db d) ''eventlog:'' = Inr keys"
    and total: "\<And>db key. \<exists>db'. db_delete B db key = Inr db'"
  shows "\<exists>n d'. del_Cleanup B cutoff d = (Inr n, d') \<and> log_inv view db_ok d'
    \<and> n = card {i. \<exists>e. log_content view d i = Some e \<and> before (le_Timestamp e) cutoff}
    \<and> log_content view d' = (\<lambda>i. case log_content view d i of None \<Rightarrow> None | Some e \<Rightarrow> if before (le_Timestamp e) cutoff then None else Some e)"
proof -
  have ok: "db_ok (del_db d)" using inv by (simp add: log_inv_def)
  note ids = log_inv_id [OF inv]
  obtain es where g: "getAllEntries B d = Inr es" using l by (simp add: getAllEntries_def)
  have all: "set es = {e. \<exists>i. log_content view d i = Some e}" "distinct (map le_ID es)"
    using all_entries [OF ok _ g] ids by blast+
  have at: "log_content view d (le_ID e) = Some e" if e: "e \<in> set es" for e
  proof -
    obtain i where "log_content view d i = Some e" using e unfolding all(1) by blast
    with ids [OF this] show ?thesis by simp
  qed
  let ?old = "filter (\<lambda>e. before (le_Timestamp e) cutoff) es"
  obtain d' where d': "cleanLoop B cutoff es d 0 = (length ?old, d')" "log_inv view db_ok d'"
    "log_content view d' = (log_content view d) |` (- le_ID ` set ?old)"
    using clean_effect [OF inv all(2) at total, of cutoff 0] by auto
  have gone: "le_ID ` set ?old = {i. \<exists>e. log_content view d i = Some e \<and> before (le_Timestamp e) cutoff}"
    using at ids by (force simp: all(1) image_iff)
  have "log_content view d' i = (case log_content view d i of None \<Rightarrow> None | Some e \<Rightarrow> if before (le_Timestamp e) cutoff then None else Some e)" for i
    unfolding d'(3) gone by (auto simp: restrict_map_def split: option.split)
  moreover have "length ?old = card (le_ID ` set ?old)"
    using all(2) distinct_card [of "map le_ID ?old"] by (simp add: distinct_map inj_on_subset [of le_ID "set es"])
  ultimately show ?thesis using g d'(1,2) unfolding gone by (simp add: del_Cleanup_def fun_eq_iff)
qed

lemma fold_index:
  assumes "exact le_TraceID (del_traceIndex d) c" "exact le_TaskID (del_taskIndex d) c" "distinct (map le_ID es)"
    and "\<And>e. e \<in> set es \<Longrightarrow> c (le_ID e) = None"
  shows "exact le_TraceID (del_traceIndex (fold indexEntry es d)) (\<lambda>i. case map_of (map (\<lambda>e. (le_ID e, e)) es) i of Some e \<Rightarrow> Some e | None \<Rightarrow> c i)
    \<and> exact le_TaskID (del_taskIndex (fold indexEntry es d)) (\<lambda>i. case map_of (map (\<lambda>e. (le_ID e, e)) es) i of Some e \<Rightarrow> Some e | None \<Rightarrow> c i)
    \<and> del_db (fold indexEntry es d) = del_db d \<and> del_closed (fold indexEntry es d) = del_closed d"
  using assms
proof (induction es arbitrary: d c)
  case (Cons e es)
  let ?d = "indexEntry e d" and ?c = "c(le_ID e \<mapsto> e)"
  have x: "exact le_TraceID (del_traceIndex ?d) ?c" "exact le_TaskID (del_taskIndex ?d) ?c"
    using exact_add [where g = "\<lambda>x. x" and e = e and i = "le_ID e" and c = c] Cons.prems by (simp_all add: indexEntry_def)
  have n: "map_of (map (\<lambda>e. (le_ID e, e)) es) (le_ID e) = None"
    using Cons.prems(3) by (simp add: map_of_eq_None_iff image_image)
  have eq: "(\<lambda>i. case map_of (map (\<lambda>e. (le_ID e, e)) es) i of Some x \<Rightarrow> Some x | None \<Rightarrow> ?c i)
      = (\<lambda>i. case map_of (map (\<lambda>e. (le_ID e, e)) (e # es)) i of Some x \<Rightarrow> Some x | None \<Rightarrow> c i)"
    using n by (auto simp: fun_eq_iff split: option.split)
  have "?c (le_ID y) = None" if y: "y \<in> set es" for y
  proof -
    have "le_ID y \<noteq> le_ID e" using Cons.prems(3) imageI [OF y, of le_ID] by auto
    then show ?thesis using Cons.prems(4) y by simp
  qed
  with Cons.IH [OF x] Cons.prems(3) show ?case unfolding eq [symmetric] by (simp add: indexEntry_def)
qed simp

lemma rebuild_inv:
  assumes ok: "db_ok database" and ids: "\<And>i doc. view database (logKey i) = Some doc \<Longrightarrow> le_ID (unmarshal_entry doc) = i"
    and l: "db_list B database ''eventlog:'' = Inr keys"
  shows "log_inv view db_ok (NewDBEventLog B database) \<and> del_db (NewDBEventLog B database) = database"
proof -
  let ?d = "\<lparr>del_db = database, del_traceIndex = (\<lambda>_. []), del_taskIndex = (\<lambda>_. []), del_closed = False\<rparr>"
  have okd: "db_ok (del_db ?d)" using ok by simp
  have cid: "log_content view ?d i = Some e \<Longrightarrow> le_ID e = i" for i e using ids by (auto simp: log_content_def)
  obtain es where g: "getAllEntries B ?d = Inr es" using l by (simp add: getAllEntries_def)
  have all: "set es = {e. \<exists>i. log_content view ?d i = Some e}" "distinct (map le_ID es)"
    using all_entries [OF okd _ g] cid by blast+
  have "exact le_TraceID (del_traceIndex ?d) Map.empty" "exact le_TaskID (del_taskIndex ?d) Map.empty" "distinct (map le_ID es)"
    using exact_empty all(2) cid by auto
  note f = fold_index [OF this]
  have "map_of (map (\<lambda>e. (le_ID e, e)) es) i = log_content view ?d i" for i
  proof (cases "log_content view ?d i")
    case None
    then have "i \<notin> le_ID ` set es" using all(1) cid by auto
    then show ?thesis using None by (simp add: map_of_eq_None_iff image_image)
  next
    case (Some e)
    then have "e \<in> set es" "le_ID e = i" using all(1) cid by auto
    then show ?thesis using Some all(2) by (auto intro!: map_of_is_SomeI simp: o_def)
  qed
  then have eq: "(\<lambda>i. case map_of (map (\<lambda>e. (le_ID e, e)) es) i of Some e \<Rightarrow> Some e | None \<Rightarrow> None) = log_content view ?d"
    by (auto simp: fun_eq_iff split: option.split)
  have c: "log_content view (fold indexEntry es ?d) = log_content view ?d" using f by (simp add: log_content_def fun_eq_iff)
  have "NewDBEventLog B database = fold indexEntry es ?d" using g by (simp add: NewDBEventLog_def rebuildIndex_def)
  then show ?thesis using f okd cid c unfolding eq by (simp add: log_inv_def)
qed

end

interpretation mlog: log_db "memoryDB rank" mem_view mem_ok
  by unfold_locales

end
