(* ===== verification/Eventlog_Props.thy ===== *)
theory Eventlog_Props
  imports Eventlog_DB
begin

text \<open>
  What the event logs promise: the database log is a finite map of entries with exact queries, through
  appends, clean-ups and restarts. The asynchronous wrapper (\<^verbatim>\<open>src/pkg/eventlog/async.go\<close>) hands over to
  its inner log, in order, what its channel accepted.
\<close>

section \<open>Runs of the database log\<close>

datatype log_op = OpAppend EventLogEntry | OpClean gotime | OpRestart

type_synonym mem_log = "entry_doc MemoryDB dbEventLog"

text \<open>\<open>OpRestart\<close> drops the indices and reads the database again.\<close>

definition logStep :: "(string \<Rightarrow> nat) \<Rightarrow> log_op \<Rightarrow> mem_log \<Rightarrow> mem_log option" where
  "logStep rank op d =
     (case op of
        OpAppend e \<Rightarrow> (case del_Append (memoryDB rank) '''' (Some e) d of Some (None, d) \<Rightarrow> Some d | _ \<Rightarrow> None)
      | OpClean cutoff \<Rightarrow> (case del_Cleanup (memoryDB rank) cutoff d of (Inr n, d) \<Rightarrow> Some d | _ \<Rightarrow> None)
      | OpRestart \<Rightarrow> Some (NewDBEventLog (memoryDB rank) (del_db (del_Close d))))"

fun logRun :: "(string \<Rightarrow> nat) \<Rightarrow> log_op list \<Rightarrow> mem_log \<Rightarrow> mem_log option" where
  "logRun rank [] d = Some d"
| "logRun rank (op # ops) d = (case logStep rank op d of None \<Rightarrow> None | Some d \<Rightarrow> logRun rank ops d)"

text \<open>The specification: a map from identifiers to entries.\<close>

fun specStep :: "log_op \<Rightarrow> (string \<rightharpoonup> EventLogEntry) \<Rightarrow> (string \<rightharpoonup> EventLogEntry)" where
  "specStep (OpAppend e) m = m(le_ID e \<mapsto> stored_entry e)"
| "specStep (OpClean cutoff) m =
     (\<lambda>i. case m i of None \<Rightarrow> None | Some e \<Rightarrow> if before (le_Timestamp e) cutoff then None else Some e)"
| "specStep OpRestart m = m"

fun appended :: "log_op list \<Rightarrow> EventLogEntry list" where
  "appended [] = []"
| "appended (OpAppend e # ops) = e # appended ops"
| "appended (_ # ops) = appended ops"

abbreviation mem_content :: "mem_log \<Rightarrow> string \<rightharpoonup> EventLogEntry" where
  "mem_content \<equiv> log_content mem_view"

abbreviation mlog_inv :: "mem_log \<Rightarrow> bool" where
  "mlog_inv \<equiv> log_inv mem_view mem_ok"

lemma mlog_delete_total: "\<exists>db'. db_delete (memoryDB rank) db key = Inr db'"
  by (simp add: memoryDB_simps)

lemma mlog_list_total: "\<exists>ks. db_list (memoryDB rank) db p = Inr ks"
  by (simp add: memoryDB_simps)

lemma append_step:
  assumes "mlog_inv d" "le_ID e \<noteq> ''''" "mem_content d (le_ID e) = None" "marshal_entry e = Inr doc"
  shows "\<exists>d'. logStep rank (OpAppend e) d = Some d' \<and> mlog_inv d' \<and> mem_content d' = specStep (OpAppend e) (mem_content d)"
proof -
  obtain d' where a: "del_Append (memoryDB rank) '''' (Some e) d = Some (None, d')"
    using mlog.append_succeeds [OF assms(1,2,4) mem_set_total] by blast
  from mlog.append_effect [OF assms(1-3) a] a show ?thesis by (simp add: logStep_def)
qed

lemma clean_step:
  assumes "mlog_inv d"
  shows "\<exists>d'. logStep rank (OpClean cutoff) d = Some d' \<and> mlog_inv d' \<and> mem_content d' = specStep (OpClean cutoff) (mem_content d)"
proof -
  obtain keys where "db_list (memoryDB rank) (del_db d) ''eventlog:'' = Inr keys" using mlog_list_total by blast
  from mlog.removes_old [OF assms this mlog_delete_total, of cutoff]
  obtain n d' where "del_Cleanup (memoryDB rank) cutoff d = (Inr n, d')" "mlog_inv d'"
    "mem_content d' = specStep (OpClean cutoff) (mem_content d)" by auto
  then show ?thesis by (simp add: logStep_def)
qed

lemma restart_step:
  assumes "mlog_inv d"
  shows "\<exists>d'. logStep rank OpRestart d = Some d' \<and> mlog_inv d' \<and> mem_content d' = mem_content d"
proof -
  obtain keys where l: "db_list (memoryDB rank) (del_db d) ''eventlog:'' = Inr keys" using mlog_list_total by blast
  have ids: "le_ID (unmarshal_entry doc) = i" if "mem_view (del_db d) (logKey i) = Some doc" for i doc
    using that by (intro log_inv_id [OF assms]) (simp only: log_content_def option.map)
  have "mem_ok (del_db d)" using assms by (simp add: log_inv_def)
  from mlog.rebuild_inv [OF this ids l] show ?thesis by (simp add: logStep_def log_content_def del_Close_def fun_eq_iff)
qed

lemma new_log: "mlog_inv (NewDBEventLog (memoryDB rank) NewMemoryDB)" "mem_content (NewDBEventLog (memoryDB rank) NewMemoryDB) = Map.empty"
proof -
  obtain keys where l: "db_list (memoryDB rank) (NewMemoryDB :: entry_doc MemoryDB) ''eventlog:'' = Inr keys" using mlog_list_total by blast
  have "le_ID (unmarshal_entry doc) = i" if "mem_view NewMemoryDB (logKey i) = Some doc" for i doc
    using that by (simp add: mem_view_def NewMemoryDB_def)
  from mlog.rebuild_inv [OF mem_ok_NewMemoryDB this l]
  show "mlog_inv (NewDBEventLog (memoryDB rank) NewMemoryDB)"
    "mem_content (NewDBEventLog (memoryDB rank) NewMemoryDB) = Map.empty"
    by (simp_all add: log_content_def fun_eq_iff mem_view_def NewMemoryDB_def)
qed

text \<open>Entries that are appended later have identifiers that are not stored yet.\<close>

lemma logRun_refines:
  assumes "mlog_inv d" "distinct (map le_ID (appended ops))"
    and "\<And>e. e \<in> set (appended ops) \<Longrightarrow> le_ID e \<noteq> '''' \<and> mem_content d (le_ID e) = None \<and> (\<exists>doc. marshal_entry e = Inr doc)"
  shows "\<exists>d'. logRun rank ops d = Some d' \<and> mlog_inv d' \<and> mem_content d' = fold specStep ops (mem_content d)"
  using assms
proof (induction ops arbitrary: d)
  case (Cons op ops)
  have "\<exists>d1. logStep rank op d = Some d1 \<and> mlog_inv d1 \<and> mem_content d1 = specStep op (mem_content d)"
  proof (cases op)
    case (OpAppend e)
    with Cons.prems(3) [of e] obtain doc where e: "le_ID e \<noteq> ''''" "mem_content d (le_ID e) = None" "marshal_entry e = Inr doc" by auto
    then show ?thesis using append_step [OF Cons.prems(1) e] OpAppend by simp
  qed (use Cons.prems(1) clean_step restart_step in \<open>simp_all only: specStep.simps\<close>)
  then obtain d1 where d1: "logStep rank op d = Some d1" "mlog_inv d1" "mem_content d1 = specStep op (mem_content d)" by blast
  have "distinct (map le_ID (appended ops))" using Cons.prems(2) by (cases op) simp_all
  moreover have "le_ID x \<noteq> '''' \<and> mem_content d1 (le_ID x) = None \<and> (\<exists>doc. marshal_entry x = Inr doc)"
    if x: "x \<in> set (appended ops)" for x
  proof (cases op)
    case (OpAppend e)
    have "le_ID x \<noteq> le_ID e" using Cons.prems(2) imageI [OF x, of le_ID] OpAppend by auto
    then show ?thesis using Cons.prems(3) [of x] x OpAppend d1(3) by simp
  qed (use Cons.prems(3) [of x] x d1(3) in simp_all)
  ultimately show ?case using Cons.IH [OF d1(2)] d1 by simp
qed simp

text \<open>
  Claim C20. Through any sequence of appends (with identifiers that are fresh and payloads that encode),
  clean-ups and restarts the database log is a map from identifiers to entries: no operation fails, a
  clean-up removes exactly the entries older than its cutoff, a restart loses nothing, and the queries
  by task and by trace, which go through the rebuilt or updated indices, return exactly the stored entries
  of that task or trace.
\<close>

theorem db_log_refines_map:
  assumes "distinct (map le_ID (appended ops))"
    and "\<forall>e \<in> set (appended ops). le_ID e \<noteq> '''' \<and> (\<exists>doc. marshal_entry e = Inr doc)"
  shows "\<exists>d. logRun rank ops (NewDBEventLog (memoryDB rank) NewMemoryDB) = Some d
     \<and> mem_content d = fold specStep ops Map.empty
     \<and> (\<forall>s. s \<noteq> '''' \<longrightarrow>
          set (del_QueryByTaskID (memoryDB rank) d s) = {e \<in> ran (fold specStep ops Map.empty). le_TaskID e = s}
        \<and> set (tl_Entries (del_QueryByTraceID (memoryDB rank) rank d s)) = {e \<in> ran (fold specStep ops Map.empty). le_TraceID e = s})"
proof -
  let ?d = "NewDBEventLog (memoryDB rank) NewMemoryDB"
  have "le_ID e \<noteq> '''' \<and> mem_content ?d (le_ID e) = None \<and> (\<exists>doc. marshal_entry e = Inr doc)" if "e \<in> set (appended ops)" for e
    using assms(2) that new_log(2) by simp
  from logRun_refines [OF new_log(1) assms(1) this] obtain d where
    d: "logRun rank ops ?d = Some d" "mlog_inv d" "mem_content d = fold specStep ops Map.empty"
    unfolding new_log(2) by blast
  show ?thesis using d mlog.queries [OF d(2)] by (intro exI [of _ d]) simp
qed

section \<open>The asynchronous wrapper\<close>

record 'i asyncEventLog =
  ae_inner :: 'i
  ae_ch :: "EventLogEntry list"
  ae_cap :: nat
  ae_closed :: bool

text \<open>\<open>put\<close> is the inner log's \<^verbatim>\<open>Append\<close> with its error, which is only logged, dropped. A result
  \<^term>\<open>None\<close> is a panic: sending on or closing a closed channel.\<close>

definition NewAsyncEventLog :: "'i \<Rightarrow> int \<Rightarrow> 'i asyncEventLog" where
  "NewAsyncEventLog inner bufferSize =
     \<lparr>ae_inner = inner, ae_ch = [], ae_cap = nat (if bufferSize \<le> 0 then 4096 else bufferSize), ae_closed = False\<rparr>"

definition async_Append :: "EventLogEntry option \<Rightarrow> 'i asyncEventLog \<Rightarrow> 'i asyncEventLog option" where
  "async_Append entry a =
     (case entry of
        None \<Rightarrow> Some a
      | Some e \<Rightarrow>
          if ae_closed a then None
          else if length (ae_ch a) < ae_cap a then Some (a\<lparr>ae_ch := ae_ch a @ [e]\<rparr>)
          else Some a)"

text \<open>One round of \<^verbatim>\<open>processLoop\<close>; the worker ends when the channel is closed and empty.\<close>

definition processRound :: "(EventLogEntry \<Rightarrow> 'i \<Rightarrow> 'i) \<Rightarrow> 'i asyncEventLog \<Rightarrow> 'i asyncEventLog" where
  "processRound put a =
     (case ae_ch a of [] \<Rightarrow> a | e # es \<Rightarrow> a\<lparr>ae_inner := put e (ae_inner a), ae_ch := es\<rparr>)"

function processLoop :: "(EventLogEntry \<Rightarrow> 'i \<Rightarrow> 'i) \<Rightarrow> 'i asyncEventLog \<Rightarrow> 'i asyncEventLog" where
  "processLoop put a = (if ae_ch a = [] then a else processLoop put (processRound put a))"
  by pat_completeness auto

termination processLoop
  by (relation "measure (\<lambda>(put, a). length (ae_ch a))") (auto simp: processRound_def split: list.split)

text \<open>\<^verbatim>\<open>Close\<close> closes the channel, waits for the worker, and closes the inner log.\<close>

definition async_Close :: "(EventLogEntry \<Rightarrow> 'i \<Rightarrow> 'i) \<Rightarrow> ('i \<Rightarrow> 'i) \<Rightarrow> 'i asyncEventLog \<Rightarrow> 'i asyncEventLog option" where
  "async_Close put innerClose a =
     (if ae_closed a then None
      else (let a = processLoop put (a\<lparr>ae_closed := True\<rparr>)
            in Some (a\<lparr>ae_inner := innerClose (ae_inner a)\<rparr>)))"

datatype async_act = Send "EventLogEntry option" | Work

fun asyncRun :: "(EventLogEntry \<Rightarrow> 'i \<Rightarrow> 'i) \<Rightarrow> async_act list \<Rightarrow> 'i asyncEventLog \<Rightarrow> 'i asyncEventLog option" where
  "asyncRun put [] a = Some a"
| "asyncRun put (Send x # acts) a = (case async_Append x a of None \<Rightarrow> None | Some a \<Rightarrow> asyncRun put acts a)"
| "asyncRun put (Work # acts) a = asyncRun put acts (processRound put a)"

fun sent :: "async_act list \<Rightarrow> EventLogEntry list" where
  "sent [] = []"
| "sent (Send (Some e) # acts) = e # sent acts"
| "sent (_ # acts) = sent acts"

declare processLoop.simps [simp del]

lemma processLoop_eq:
  "processLoop put a = a\<lparr>ae_inner := fold put (ae_ch a) (ae_inner a), ae_ch := []\<rparr>"
proof (induction put a rule: processLoop.induct)
  case (1 put a)
  show ?case
  proof (cases "ae_ch a")
    case Nil
    then show ?thesis by (subst processLoop.simps) simp
  next
    case (Cons e es)
    then have "processLoop put a = processLoop put (processRound put a)" by (subst processLoop.simps) simp
    with 1 Cons show ?thesis by (simp add: processRound_def)
  qed
qed

text \<open>The entries the channel accepts in a run that starts with \<open>q\<close> waiting.\<close>

fun accepted :: "nat \<Rightarrow> nat \<Rightarrow> async_act list \<Rightarrow> EventLogEntry list" where
  "accepted cap q [] = []"
| "accepted cap q (Send (Some e) # acts) = (if q < cap then e # accepted cap (q + 1) acts else accepted cap q acts)"
| "accepted cap q (Send None # acts) = accepted cap q acts"
| "accepted cap q (Work # acts) = accepted cap (q - 1) acts"

lemma accepted_subseq: "subseq (accepted cap q acts) (sent acts)"
  by (induction cap q acts rule: accepted.induct) auto

lemma accepted_all: "q + length (sent acts) \<le> cap \<Longrightarrow> accepted cap q acts = sent acts"
  by (induction cap q acts rule: accepted.induct) auto

lemma asyncRun_accepts:
  "\<not> ae_closed a \<Longrightarrow> \<exists>a'. asyncRun put acts a = Some a' \<and> \<not> ae_closed a'
     \<and> fold put (ae_ch a') (ae_inner a') = fold put (ae_ch a @ accepted (ae_cap a) (length (ae_ch a)) acts) (ae_inner a)"
proof (induction put acts a rule: asyncRun.induct)
  case (2 put x acts a)
  then show ?case by (cases x) (auto simp: async_Append_def)
next
  case (3 put acts a)
  then show ?case by (cases "ae_ch a") (auto simp: processRound_def)
qed simp


section \<open>Concrete runs\<close>

definition exEntry :: "string \<Rightarrow> gotime \<Rightarrow> string \<Rightarrow> EventLogEntry" where
  "exEntry i t taskID = emptyEntry\<lparr>le_ID := i, le_Timestamp := t, le_TraceID := ''trace'', le_TaskID := taskID\<rparr>"

lemma exEntry_simps [simp]:
  "le_ID (exEntry i t k) = i" "le_TaskID (exEntry i t k) = k" "le_TraceID (exEntry i t k) = ''trace''"
  "le_Timestamp (exEntry i t k) = t" "stored_entry (exEntry i t k) = exEntry i t k"
  "marshal_entry (exEntry i t k) = Inr (exEntry i t k, None)" "exEntry i t k = exEntry j u l \<longleftrightarrow> i = j \<and> t = u \<and> k = l"
  by (auto simp: exEntry_def emptyEntry_def stored_entry_def marshal_entry_def)

theorem ring_log_is_bounded_list_witness:
  "\<exists>r. rb_appends [exEntry ''a'' 1 ''t'', exEntry ''b'' 2 ''t'', exEntry ''c'' 3 ''u''] (NewRingBufferEventLog 2) = Some r
     \<and> rb_QueryByTaskID r ''t'' = [exEntry ''b'' 2 ''t'']"
  using ring_log_is_bounded_list [of "[exEntry ''a'' 1 ''t'', exEntry ''b'' 2 ''t'', exEntry ''c'' 3 ''u'']" 2 "\<lambda>_. 0"]
  by (auto simp: lastN_def ringSize_def)

theorem db_log_refines_map_witness:
  "\<exists>d. logRun (\<lambda>_. 0) [OpAppend (exEntry ''a'' 1 ''t''), OpAppend (exEntry ''b'' 5 ''t''), OpClean 3, OpRestart]
        (NewDBEventLog (memoryDB (\<lambda>_. 0)) NewMemoryDB) = Some d
     \<and> set (del_QueryByTaskID (memoryDB (\<lambda>_. 0)) d ''t'') = {exEntry ''b'' 5 ''t''}"
proof -
  let ?ops = "[OpAppend (exEntry ''a'' 1 ''t''), OpAppend (exEntry ''b'' 5 ''t''), OpClean 3, OpRestart]"
  have "fold specStep ?ops Map.empty = [''b'' \<mapsto> exEntry ''b'' 5 ''t'']" by (auto simp: fun_eq_iff before_def)
  then have r: "{e \<in> ran (fold specStep ?ops Map.empty). le_TaskID e = ''t''} = {exEntry ''b'' 5 ''t''}" by (auto simp: ran_def)
  have "distinct (map le_ID (appended ?ops))" "\<forall>e \<in> set (appended ?ops). le_ID e \<noteq> '''' \<and> (\<exists>doc. marshal_entry e = Inr doc)"
    by simp_all
  from db_log_refines_map [OF this, of "\<lambda>_. 0"] obtain d where d: "logRun (\<lambda>_. 0) ?ops (NewDBEventLog (memoryDB (\<lambda>_. 0)) NewMemoryDB) = Some d"
    "\<forall>s. s \<noteq> '''' \<longrightarrow> set (del_QueryByTaskID (memoryDB (\<lambda>_. 0)) d s) = {e \<in> ran (fold specStep ?ops Map.empty). le_TaskID e = s}"
    by blast
  have "set (del_QueryByTaskID (memoryDB (\<lambda>_. 0)) d ''t'') = {exEntry ''b'' 5 ''t''}" unfolding r [symmetric] by (rule d(2) [rule_format]) simp
  with d(1) show ?thesis by blast
qed


end
