(* ===== verification/Core_Init.thy ===== *)
theory Core_Init
  imports Core_Examples Nuts_Config Bus_Factory Archive_Cleaner Eventlog_Props
begin

text \<open>
  Construction, start and stop of the core (\<^verbatim>\<open>New\<close>, the \<^verbatim>\<open>init\<close> functions, \<^verbatim>\<open>Start\<close>, \<^verbatim>\<open>Stop\<close> and \<^verbatim>\<open>Health\<close> in \<^verbatim>\<open>src/pkg/core/core.go\<close>): what is
  read from the configuration and with which defaults, in which order the parts are made and started, and what a core finds in its
  store when it starts again. Logger and tracer are left out; making a database is a parameter.
\<close>

section \<open>Settings\<close>

definition intOr :: "TOMLConfigManager \<Rightarrow> string \<Rightarrow> int \<Rightarrow> int" where
  "intOr cfg key d = (let n = Config_GetInt cfg key in if n \<le> 0 then d else n)"

definition stringOr :: "TOMLConfigManager \<Rightarrow> string \<Rightarrow> string \<Rightarrow> string" where
  "stringOr cfg key d = (let s = Config_GetString cfg key in if s = '''' then d else s)"

definition policyMatchedBuffer :: "TOMLConfigManager \<Rightarrow> int" where
  "policyMatchedBuffer cfg = intOr cfg ''scheduler.policy_matched_buffer_size'' 100"

definition eventChannelBuffer :: "TOMLConfigManager \<Rightarrow> int" where
  "eventChannelBuffer cfg = intOr cfg ''datasource.event_channel_buffer_size'' 1000"

text \<open>Rate and burst of the limiter.\<close>

definition initEventLimiter :: "TOMLConfigManager \<Rightarrow> int \<times> int" where
  "initEventLimiter cfg = (intOr cfg ''server.event_rate_limit'' 10, intOr cfg ''server.event_burst'' 10)"

text \<open>A file that does not exist leaves the configuration empty; \<open>missing\<close> says that the error is of this kind.\<close>

definition initConfig ::
  "(string \<Rightarrow> string + string) \<Rightarrow> (string \<Rightarrow> string + gomap) \<Rightarrow> (string \<Rightarrow> bool) \<Rightarrow> string \<Rightarrow> string + TOMLConfigManager" where
  "initConfig readFile unmarshal missing configFile =
     (if configFile = '''' then Inr NewTOMLConfigManager
      else case Config_Load readFile unmarshal configFile NewTOMLConfigManager of
             (None, c) \<Rightarrow> Inr c
           | (Some err, c) \<Rightarrow>
               if missing configFile then Inr c else Inl (''load config file '' @ configFile @ '': '' @ err))"

text \<open>
  The section of the chosen bus with its type added goes to the factory. The code adds the type to the table of the configuration itself; nothing reads that
  entry afterwards, and the configuration is left as it is here.
\<close>

definition initEventBus :: "toml \<Rightarrow> (string \<Rightarrow> duration option) \<Rightarrow> nat \<Rightarrow> TOMLConfigManager \<Rightarrow> string + 'e event_bus" where
  "initEventBus T parse ctx cfg =
     (let eventBusType = Config_GetString cfg ''eventbus.type''
      in if eventBusType = '''' then Inr BusNoop
         else
           (let section = (case Config_GetMap cfg (''eventbus.'' @ eventBusType) of None \<Rightarrow> [] | Some m \<Rightarrow> m)
            in case BusFactory_CreateWithMap T (busFactory T parse ctx) (alist_put ''type'' (VString eventBusType) section) of
                 Inl err \<Rightarrow> Inl (''create eventbus '' @ eventBusType @ '': '' @ err)
               | Inr bus \<Rightarrow> Inr bus))"

section \<open>The event log\<close>

datatype 'd log_kind = LogDisabled | LogMemory "ringBufferEventLog asyncEventLog" | LogDB "'d dbEventLog asyncEventLog"

text \<open>
  The log and its cleaner. An unknown type disables the log but reaches the start of the cleaner, with a nil log; a database that cannot be made
  falls back to memory and returns before it.
\<close>

definition startCleaner :: "(string \<Rightarrow> duration option) \<Rightarrow> TOMLConfigManager \<Rightarrow> Cleaner option" where
  "startCleaner parse cfg =
     (let retentionHours = Config_GetInt cfg ''eventlog.retention_hours''
      in if retentionHours > 0
         then Some \<lparr>cl_interval = (case parse (Config_GetString cfg ''eventlog.cleanup_interval'') of None \<Rightarrow> 3600 * second | Some d \<Rightarrow> d),
                    cl_retain = retentionHours * 3600 * second\<rparr>
         else None)"

definition initEventLog ::
  "('d, entry_doc) DB \<Rightarrow> (Config \<Rightarrow> db_error + 'd) \<Rightarrow> (string \<Rightarrow> duration option) \<Rightarrow> TOMLConfigManager \<Rightarrow> 'd log_kind \<times> Cleaner option" where
  "initEventLog B create parse cfg =
     (let logType = Config_GetString cfg ''eventlog.type''
      in if logType = '''' \<or> logType = ''disabled'' then (LogDisabled, None)
         else if logType = ''memory'' then
           (LogMemory (NewAsyncEventLog (NewRingBufferEventLog (intOr cfg ''eventlog.buffer_size'' 10000)) 4096), startCleaner parse cfg)
         else if logType = ''db'' then
           (case create \<lparr>cfg_Type = stringOr cfg ''eventlog.db.type'' ''sqlite'', cfg_Path = stringOr cfg ''eventlog.db.path'' ''data/eventlog.db'',
                         cfg_TableName = ''''\<rparr> of
              Inl err \<Rightarrow> (LogMemory (NewAsyncEventLog (NewRingBufferEventLog 10000) 4096), None)
            | Inr database \<Rightarrow> (LogDB (NewAsyncEventLog (NewDBEventLog B database) 4096), startCleaner parse cfg))
         else (LogDisabled, startCleaner parse cfg))"

section \<open>The task scheduler\<close>

definition initArchiveCleaner :: "(string \<Rightarrow> duration option) \<Rightarrow> TOMLConfigManager \<Rightarrow> MetricsRecorder \<Rightarrow> ArchiveCleaner option" where
  "initArchiveCleaner parse cfg metrics =
     (let retentionDays = Config_GetInt cfg ''task.archive.retention_days''
      in if retentionDays \<le> 0 then None
         else
           (let interval = (case parse (Config_GetString cfg ''task.archive.cleanup_interval'') of None \<Rightarrow> 0 | Some d \<Rightarrow> d);
                interval = (if interval \<le> 0 then 3600 * second else interval)
            in Some ((NewArchiveCleaner retentionDays interval)\<lparr>ac_metrics := Some metrics\<rparr>)))"

definition timeoutInterval :: "(string \<Rightarrow> duration option) \<Rightarrow> TOMLConfigManager \<Rightarrow> duration" where
  "timeoutInterval parse cfg =
     (let s = Config_GetString cfg ''task.scheduler.timeout_check_interval''
      in if s = '''' then 30 * second
         else case parse s of Some d \<Rightarrow> if d > 0 then d else 30 * second | None \<Rightarrow> 30 * second)"

record 'd scheduler =
  sch_engine :: "'d StateMachineEngine"
  sch_checker :: TimeoutChecker
  sch_cleaner :: "ArchiveCleaner option"
  sch_semUsed :: nat
  sch_semCap :: nat

text \<open>\<open>vrank\<close> is the iteration order of the validator; \<open>tie\<close>, \<open>now\<close> are those of the recovery.\<close>

definition initTaskScheduler ::
  "('d, json) DB \<Rightarrow> (Config \<Rightarrow> db_error + 'd) \<Rightarrow> (string \<Rightarrow> duration option) \<Rightarrow> (string \<Rightarrow> nat) \<Rightarrow> (Task \<Rightarrow> nat) \<Rightarrow> (Task \<Rightarrow> gotime \<times> gotime)
     \<Rightarrow> PayloadBuilderFactory \<Rightarrow> MetricsRecorder \<Rightarrow> TOMLConfigManager \<Rightarrow> (validate_error + db_error) + 'd scheduler" where
  "initTaskScheduler B create parse vrank tie now builders metrics cfg =
     (let smConfig = LoadStateMachineConfig (Config_GetMap cfg ''statemachine'')
      in case Validate vrank smConfig of
           Inl err \<Rightarrow> Inl (Inl err)
         | Inr _ \<Rightarrow>
             (case create \<lparr>cfg_Type = stringOr cfg ''task.db.type'' ''memory'', cfg_Path = Config_GetString cfg ''task.db.path'', cfg_TableName = ''tasks''\<rparr> of
                Inl err \<Rightarrow> Inl (Inr err)
              | Inr database \<Rightarrow>
                  (let e = \<lparr>sme_store = NewTaskStore B database 100, sme_config = smConfig, sme_builders = builders, sme_metrics = Some metrics\<rparr>;
                       e = recoverOrphanedTasks B tie now e;
                       slots = restoreSlots B tie (Config_GetInt cfg ''task.max_concurrent'') (sme_store e)
                   in Inr \<lparr>sch_engine = e,
                           sch_checker = NewTimeoutChecker (timeoutInterval parse cfg) (intOr cfg ''task.scheduler.timeout_rebuild_interval'' 5),
                           sch_cleaner = initArchiveCleaner parse cfg metrics, sch_semUsed = fst slots, sch_semCap = snd slots\<rparr>)))"

section \<open>Recovery\<close>

definition orphan :: "StateMachineConfig \<Rightarrow> Task \<Rightarrow> bool" where
  "orphan cfg t \<longleftrightarrow> IsTerminalState cfg (t_State t) \<and> t_ArchivedAt t = None"

definition recovered :: "StateMachineConfig \<Rightarrow> (Task \<Rightarrow> gotime \<times> gotime) \<Rightarrow> Task \<Rightarrow> Task" where
  "recovered cfg now t =
     (if orphan cfg t then t\<lparr>t_ArchivedAt := Some (fst (now t)), t_UpdatedAt := snd (now t), t_Version := t_Version t + 1\<rparr> else t)"

lemma recover_one:
  assumes inv: "mem_inv s" and t: "mem_task s (t_ID t) = Some t" and o: "orphan cfg t"
  obtains s' where "Update (memoryDB rank) (snd (now t)) s (t\<lparr>t_ArchivedAt := Some (fst (now t))\<rparr>) = Inr (recovered cfg now t, s')"
    "mem_inv s'" "mem_task s' = (mem_task s)(t_ID t \<mapsto> recovered cfg now t)"
proof -
  let ?t = "t\<lparr>t_ArchivedAt := Some (fst (now t))\<rparr>"
  have ok: "mem_ok (ets_db s)" using inv by (simp add: store_inv_def)
  have "getLocked (memoryDB rank) s (t_ID ?t) = Inr t" using t ms.getLocked_iff [OF ok, of rank] by simp
  then obtain t' s' where u: "Update (memoryDB rank) (snd (now t)) s ?t = Inr (t', s')"
    by (simp add: Update_def putLocked_def memoryDB_simps Let_def)
  have e: "mem_task s' = (mem_task s)(t_ID t \<mapsto> t')" "t' = recovered cfg now t"
    using ms.Update_effect [OF ok u] o by (simp_all add: recovered_def)
  have "mem_inv s'" by (rule ms.Update_inv [OF inv u, of t]) (use t o in \<open>simp_all add: orphan_def\<close>)
  with u e show ?thesis using that by blast
qed

lemma recoverLoop_orphan:
  assumes "orphan cfg t" "Update B (snd (now t)) s (t\<lparr>t_ArchivedAt := Some (fst (now t))\<rparr>) = Inr (t', s')"
  shows "recoverLoop B cfg now (t # ts) s = recoverLoop B cfg now ts s'"
  using assms by (simp add: orphan_def)

lemma recoverLoop_other:
  assumes "\<not> orphan cfg t"
  shows "recoverLoop B cfg now (t # ts) s = recoverLoop B cfg now ts s" "recovered cfg now t = t"
  using assms by (auto simp: orphan_def recovered_def)

lemma recover_loop:
  assumes "mem_inv s" "\<forall>t \<in> set ts. mem_task s (t_ID t) = Some t" "distinct (map t_ID ts)"
  shows "mem_inv (recoverLoop (memoryDB rank) cfg now ts s)
    \<and> (\<forall>t \<in> set ts. mem_task (recoverLoop (memoryDB rank) cfg now ts s) (t_ID t) = Some (recovered cfg now t))
    \<and> (\<forall>tid. tid \<notin> t_ID ` set ts \<longrightarrow> mem_task (recoverLoop (memoryDB rank) cfg now ts s) tid = mem_task s tid)"
  using assms
proof (induction ts arbitrary: s)
  case Nil
  then show ?case by simp
next
  case (Cons t ts)
  have new: "t_ID t \<notin> t_ID ` set ts" and d: "distinct (map t_ID ts)" using Cons.prems(3) by auto
  show ?case
  proof (cases "orphan cfg t")
    case True
    obtain s' where u: "Update (memoryDB rank) (snd (now t)) s (t\<lparr>t_ArchivedAt := Some (fst (now t))\<rparr>) = Inr (recovered cfg now t, s')"
      and i: "mem_inv s'" and m: "mem_task s' = (mem_task s)(t_ID t \<mapsto> recovered cfg now t)"
      by (rule recover_one [OF Cons.prems(1) _ True]) (use Cons.prems(2) in auto)
    have "\<forall>u \<in> set ts. mem_task s' (t_ID u) = Some u" unfolding m using Cons.prems(2) new by (auto simp: image_iff)
    from Cons.IH [OF i this d] show ?thesis
      unfolding recoverLoop_orphan [where now = now, OF True u] using new unfolding m by auto
  next
    case False
    have "\<forall>u \<in> set ts. mem_task s (t_ID u) = Some u" using Cons.prems(2) by simp
    from Cons.IH [OF Cons.prems(1) this d] show ?thesis
      unfolding recoverLoop_other(1) [where now = now, OF False] using new Cons.prems(2) recoverLoop_other(2) [OF False, of now] by auto
  qed
qed

text \<open>The listing of the unarchived tasks.\<close>

lemma list_active:
  assumes inv: "mem_inv s"
  obtains ts where "Store_List (memoryDB rank) tie s emptyFilter = Inr ts" "distinct ts" "distinct (map t_ID ts)"
    "\<And>t. t \<in> set ts \<longleftrightarrow> mem_task s (t_ID t) = Some t \<and> t_ArchivedAt t = None"
proof -
  obtain keys where l: "db_list (memoryDB rank) (ets_db s) (ets_prefix s) = Inr keys" using mem_list_total by blast
  let ?all = "List.map_filter (readKey (memoryDB rank) (ets_db s)) keys"
  note sc = ms.scan_tasks [OF inv l]
  let ?ts = "go_sort_slice tie (\<lambda>t. - t_CreatedAt t) (filter (\<lambda>t. matchFilter t emptyFilter) ?all)"
  have r: "Store_List (memoryDB rank) tie s emptyFilter = Inr ?ts"
    using l by (simp add: Store_List_def emptyFilter_def paginate_def mapErr_def Let_def)
  have m: "mset ?ts = mset (filter (\<lambda>t. matchFilter t emptyFilter) ?all)" by simp
  have d: "distinct ?ts" using sc(1) by (metis m distinct_filter mset_eq_imp_distinct_iff)
  have docs: "docs_ok mem_view s" using inv by (simp add: store_inv_def)
  have s: "t \<in> set ?ts \<longleftrightarrow> mem_task s (t_ID t) = Some t \<and> t_ArchivedAt t = None" for t
    using mset_eq_setD [OF m] sc(2) [of t] docs_ok_ID [OF docs] by auto
  have "inj_on t_ID (set ?ts)" by (rule inj_onI) (metis s option.inject)
  then have "distinct (map t_ID ?ts)" using d by (simp add: distinct_map)
  with r d s show ?thesis using that by blast
qed

lemma recover_store:
  assumes "mem_inv s"
  shows "mem_inv (sme_store (recoverOrphanedTasks (memoryDB rank) tie now (e\<lparr>sme_store := s\<rparr>)))"
    "mem_task (sme_store (recoverOrphanedTasks (memoryDB rank) tie now (e\<lparr>sme_store := s\<rparr>))) tid
       = map_option (recovered (sme_config e) now) (mem_task s tid)"
proof -
  let ?cfg = "sme_config e"
  obtain ts where l: "Store_List (memoryDB rank) tie s emptyFilter = Inr ts" and d: "distinct (map t_ID ts)"
    and ts: "\<And>t. t \<in> set ts \<longleftrightarrow> mem_task s (t_ID t) = Some t \<and> t_ArchivedAt t = None"
    by (rule list_active [OF assms]) blast
  have r: "sme_store (recoverOrphanedTasks (memoryDB rank) tie now (e\<lparr>sme_store := s\<rparr>)) = recoverLoop (memoryDB rank) ?cfg now ts s"
    by (simp add: recoverOrphanedTasks_def l)
  have "\<forall>t \<in> set ts. mem_task s (t_ID t) = Some t" using ts by blast
  note loop = recover_loop [OF assms this d, of rank ?cfg now]
  show "mem_inv (sme_store (recoverOrphanedTasks (memoryDB rank) tie now (e\<lparr>sme_store := s\<rparr>)))"
    unfolding r using loop by blast
  have docs: "docs_ok mem_view s" using assms by (simp add: store_inv_def)
  show "mem_task (sme_store (recoverOrphanedTasks (memoryDB rank) tie now (e\<lparr>sme_store := s\<rparr>))) tid
       = map_option (recovered ?cfg now) (mem_task s tid)"
  proof (cases "tid \<in> t_ID ` set ts")
    case True
    then obtain t where "t \<in> set ts" "tid = t_ID t" by blast
    then show ?thesis unfolding r using loop ts [of t] by auto
  next
    case False
    have "recovered ?cfg now t = t" if m: "mem_task s tid = Some t" for t
    proof -
      have "t_ID t = tid" using docs_ok_ID [OF docs m] .
      then have "\<not> orphan ?cfg t" using False m ts [of t] by (auto simp: orphan_def)
      then show ?thesis by (rule recoverLoop_other(2))
    qed
    then show ?thesis unfolding r using loop False by (cases "mem_task s tid") auto
  qed
qed

definition activeIDs :: "json MemoryDB engineTaskStore \<Rightarrow> string set" where
  "activeIDs s = {tid. \<exists>t. mem_task s tid = Some t \<and> t_ArchivedAt t = None}"

lemma restore_slots:
  assumes "mem_inv s"
  shows "restoreSlots (memoryDB rank) tie m s =
     (min (card (activeIDs s)) (nat (if m \<le> 0 then 100 else m)), nat (if m \<le> 0 then 100 else m))"
proof -
  obtain ts where l: "Store_List (memoryDB rank) tie s emptyFilter = Inr ts" and d: "distinct (map t_ID ts)"
    and ts: "\<And>t. t \<in> set ts \<longleftrightarrow> mem_task s (t_ID t) = Some t \<and> t_ArchivedAt t = None"
    by (rule list_active [OF assms]) blast
  have docs: "docs_ok mem_view s" using assms by (simp add: store_inv_def)
  have "activeIDs s = set (map t_ID ts)" using ts docs_ok_ID [OF docs] by (force simp: activeIDs_def)
  then have c: "card (activeIDs s) = length ts" using distinct_card [OF d] by simp
  have "Count (memoryDB rank) tie s emptyFilter = Inr (int (length ts))"
    using l by (simp add: Count_def emptyFilter_def)
  then show ?thesis by (auto simp: restoreSlots_def c Let_def)
qed

section \<open>Starting again\<close>


lemma default_valid: "Validate length defaultStateMachineConfig = Inr ()"
  by code_simp

definition orphanStore :: "json MemoryDB engineTaskStore" where
  "orphanStore = sme_store (startedEngine (defaultStateMachineConfig\<lparr>smc_InitialState := ''completed''\<rparr>))"

lemma orphan_facts:
  "mem_inv orphanStore" "ets_prefix orphanStore = ''task:''"
  "\<exists>t. mem_task orphanStore ''x'' = Some t \<and> t_State t = ''completed''"
  using started_facts [of "defaultStateMachineConfig\<lparr>smc_InitialState := ''completed''\<rparr>"]
  by (auto simp: orphanStore_def engineInv_def)
     (simp add: startedEngine_def CreateTask_frame newEngine_def NewTaskStore_def rebuild_frame)

lemma empty_config: "Config_GetMap NewTOMLConfigManager ''statemachine'' = None"
  by code_simp


end
