(* ===== verification/Metrics_Alert.thy ===== *)
theory Metrics_Alert
  imports SM_Engine
begin

text \<open>
  The alerting decorator of the metrics recorder (\<^verbatim>\<open>src/pkg/metrics/sliding_window.go\<close>, \<^verbatim>\<open>alert.go\<close>). Counts
  are far from the bounds of \<^verbatim>\<open>int64\<close> and are integers; rates are exact quotients (the code rounds them to
  \<^verbatim>\<open>float64\<close>). Each reading of the clock is an argument.
\<close>

section \<open>The sliding window\<close>

record bucket =
  b_start :: gotime
  b_count :: int

record slidingWindow =
  w_buckets :: "bucket list"
  w_size :: duration
  w_interval :: duration
  w_total :: int

definition newSlidingWindow :: "duration \<Rightarrow> duration \<Rightarrow> slidingWindow" where
  "newSlidingWindow sz interval =
     \<lparr>w_buckets = [], w_size = sz,
      w_interval = (if interval \<le> 0 then max (sz div 60) millisecond else interval), w_total = 0\<rparr>"

text \<open>The loop of \<^verbatim>\<open>evict\<close>: it stops at the first bucket that is not expired.\<close>

fun evictScan :: "gotime \<Rightarrow> nat \<Rightarrow> bucket list \<Rightarrow> int \<times> nat" where
  "evictScan cutoff i [] = (0, 0)"
| "evictScan cutoff i (b # bs) = (if after (b_start b) cutoff then (b_count b, i) else evictScan cutoff (i + 1) bs)"

definition evict :: "gotime \<Rightarrow> slidingWindow \<Rightarrow> slidingWindow" where
  "evict now w =
     (let cutoff = now - w_size w; (newTotal, validStart) = evictScan cutoff 0 (w_buckets w)
      in w\<lparr>w_buckets := (if validStart > 0 then drop validStart (w_buckets w) else w_buckets w), w_total := newTotal\<rparr>)"

text \<open>\<^verbatim>\<open>currentBucket\<close> returns a pointer to the last element, after which the window always ends in it.\<close>

definition currentBucket :: "gotime \<Rightarrow> slidingWindow \<Rightarrow> slidingWindow" where
  "currentBucket now w =
     (if w_buckets w = [] then w\<lparr>w_buckets := [\<lparr>b_start = now, b_count = 0\<rparr>]\<rparr>
      else if now - b_start (last (w_buckets w)) < w_interval w then w
      else w\<lparr>w_buckets := w_buckets w @ [\<lparr>b_start = now, b_count = 0\<rparr>]\<rparr>)"

definition bumpLast :: "int \<Rightarrow> bucket list \<Rightarrow> bucket list" where
  "bumpLast n bs = butlast bs @ [(last bs)\<lparr>b_count := b_count (last bs) + n\<rparr>]"

definition Window_Add :: "gotime \<Rightarrow> int \<Rightarrow> slidingWindow \<Rightarrow> slidingWindow" where
  "Window_Add now n w =
     (let w = currentBucket now (evict now w)
      in w\<lparr>w_buckets := bumpLast n (w_buckets w), w_total := w_total w + n\<rparr>)"

definition Window_Total :: "gotime \<Rightarrow> slidingWindow \<Rightarrow> int \<times> slidingWindow" where
  "Window_Total now w = (let w = evict now w in (w_total w, w))"

definition Window_Rate :: "gotime \<Rightarrow> slidingWindow \<Rightarrow> rat \<times> slidingWindow" where
  "Window_Rate now w =
     (let w = evict now w
      in (if w_size w = 0 then 0 else of_int (w_total w) / (of_int (w_size w) / of_int second), w))"

section \<open>The decorator\<close>

record AlertConfig =
  TimeoutRateThreshold :: rat
  ErrorRateThreshold :: rat
  WindowSize :: duration
  CheckInterval :: duration

definition DefaultAlertConfig :: AlertConfig where
  "DefaultAlertConfig = \<lparr>TimeoutRateThreshold = 10, ErrorRateThreshold = 20, WindowSize = 60 * second, CheckInterval = 10 * second\<rparr>"

datatype alert = TimeoutAlert rat | ErrorAlert rat

record AlertMetrics =
  am_inner :: MetricsRecorder
  am_config :: AlertConfig
  am_timeoutWindow :: slidingWindow
  am_errorWindow :: slidingWindow
  am_retryWindow :: slidingWindow
  am_alerts :: "alert list"

definition NewAlertMetrics :: "MetricsRecorder \<Rightarrow> AlertConfig \<Rightarrow> AlertMetrics" where
  "NewAlertMetrics inner cfg =
     \<lparr>am_inner = inner, am_config = cfg, am_timeoutWindow = newSlidingWindow (WindowSize cfg) 0,
      am_errorWindow = newSlidingWindow (WindowSize cfg) 0, am_retryWindow = newSlidingWindow (WindowSize cfg) 0,
      am_alerts = []\<rparr>"

text \<open>\<open>t\<close> and \<open>u\<close> are the readings of the clock in \<^verbatim>\<open>Add\<close> and \<^verbatim>\<open>Rate\<close>; the alerts raised stand for the log.\<close>

definition Alert_TaskTimeout :: "gotime \<Rightarrow> gotime \<Rightarrow> AlertMetrics \<Rightarrow> AlertMetrics" where
  "Alert_TaskTimeout t u a =
     (let a = a\<lparr>am_inner := am_inner a @ [TaskTimeout]\<rparr>;
          (rate, w) = Window_Rate u (Window_Add t 1 (am_timeoutWindow a));
          a = a\<lparr>am_timeoutWindow := w\<rparr>
      in if rate > TimeoutRateThreshold (am_config a) then a\<lparr>am_alerts := am_alerts a @ [TimeoutAlert rate]\<rparr> else a)"

definition Alert_TaskError :: "gotime \<Rightarrow> gotime \<Rightarrow> AlertMetrics \<Rightarrow> AlertMetrics" where
  "Alert_TaskError t u a =
     (let a = a\<lparr>am_inner := am_inner a @ [TaskError]\<rparr>;
          (rate, w) = Window_Rate u (Window_Add t 1 (am_errorWindow a));
          a = a\<lparr>am_errorWindow := w\<rparr>
      in if rate > ErrorRateThreshold (am_config a) then a\<lparr>am_alerts := am_alerts a @ [ErrorAlert rate]\<rparr> else a)"

definition Alert_TaskRetry :: "gotime \<Rightarrow> AlertMetrics \<Rightarrow> AlertMetrics" where
  "Alert_TaskRetry t a =
     a\<lparr>am_inner := am_inner a @ [TaskRetry], am_retryWindow := Window_Add t 1 (am_retryWindow a)\<rparr>"

definition Alert_record :: "gotime \<Rightarrow> gotime \<Rightarrow> metric \<Rightarrow> AlertMetrics \<Rightarrow> AlertMetrics" where
  "Alert_record t u m a =
     (case m of
        TaskTimeout \<Rightarrow> Alert_TaskTimeout t u a
      | TaskError \<Rightarrow> Alert_TaskError t u a
      | TaskRetry \<Rightarrow> Alert_TaskRetry t a
      | _ \<Rightarrow> a\<lparr>am_inner := am_inner a @ [m]\<rparr>)"

definition TimeoutRate :: "gotime \<Rightarrow> AlertMetrics \<Rightarrow> rat \<times> AlertMetrics" where
  "TimeoutRate now a = (case Window_Rate now (am_timeoutWindow a) of (r, w) \<Rightarrow> (r, a\<lparr>am_timeoutWindow := w\<rparr>))"

definition ErrorRate :: "gotime \<Rightarrow> AlertMetrics \<Rightarrow> rat \<times> AlertMetrics" where
  "ErrorRate now a = (case Window_Rate now (am_errorWindow a) of (r, w) \<Rightarrow> (r, a\<lparr>am_errorWindow := w\<rparr>))"

definition RetryRate :: "gotime \<Rightarrow> AlertMetrics \<Rightarrow> rat \<times> AlertMetrics" where
  "RetryRate now a = (case Window_Rate now (am_retryWindow a) of (r, w) \<Rightarrow> (r, a\<lparr>am_retryWindow := w\<rparr>))"

section \<open>What the window counts\<close>

definition liveBuckets :: "gotime \<Rightarrow> slidingWindow \<Rightarrow> bucket list" where
  "liveBuckets now w = filter (\<lambda>b. after (b_start b) (now - w_size w)) (w_buckets w)"

lemma evictScan_eq:
  "evictScan c i bs = (case dropWhile (\<lambda>b. \<not> after (b_start b) c) bs of
     [] \<Rightarrow> (0, 0) | b # _ \<Rightarrow> (b_count b, i + length (takeWhile (\<lambda>b. \<not> after (b_start b) c) bs)))"
  by (induction bs arbitrary: i) (auto split: list.split simp del: dropWhile_eq_Nil_conv)

lemma drop_takeWhile: "drop (length (takeWhile P xs)) xs = dropWhile P xs"
  by (induction xs) auto

lemma evict_eq:
  "evict now w =
     (case dropWhile (\<lambda>b. \<not> after (b_start b) (now - w_size w)) (w_buckets w) of
        [] \<Rightarrow> w\<lparr>w_total := 0\<rparr>
      | b # bs \<Rightarrow> w\<lparr>w_buckets := b # bs, w_total := b_count b\<rparr>)"
proof (cases "dropWhile (\<lambda>b. \<not> after (b_start b) (now - w_size w)) (w_buckets w)")
  case Nil
  then show ?thesis by (simp only: evict_def evictScan_eq Let_def list.case prod.case) simp
next
  case (Cons b bs)
  let ?pre = "takeWhile (\<lambda>b. \<not> after (b_start b) (now - w_size w)) (w_buckets w)"
  have "w_buckets w = ?pre @ b # bs" using Cons by (metis takeWhile_dropWhile_id)
  then have "(if 0 < length ?pre then drop (length ?pre) (w_buckets w) else w_buckets w) = b # bs"
    using Cons drop_takeWhile by (metis append_Nil length_greater_0_conv)
  then show ?thesis using Cons by (simp only: evict_def evictScan_eq Let_def list.case prod.case add_0)
qed

lemma evict_all_expired:
  assumes "\<forall>b \<in> set (w_buckets w). \<not> after (b_start b) (now - w_size w)"
  shows "evict now w = w\<lparr>w_total := 0\<rparr>"
proof -
  have "dropWhile (\<lambda>b. \<not> after (b_start b) (now - w_size w)) (w_buckets w) = []" using assms by simp
  then show ?thesis by (simp only: evict_eq list.case)
qed

text \<open>Starts of buckets grow, and each bucket holds a positive count.\<close>

definition window_ok :: "gotime \<Rightarrow> slidingWindow \<Rightarrow> bool" where
  "window_ok now w \<longleftrightarrow> sorted (map b_start (w_buckets w)) \<and> (\<forall>b \<in> set (w_buckets w). b_start b \<le> now \<and> 0 < b_count b)"

definition countSince :: "gotime \<Rightarrow> bucket list \<Rightarrow> int" where
  "countSince c bs = sum_list (map b_count (filter (\<lambda>b. b_start b > c) bs))"

lemma live_dropWhile:
  "sorted (map b_start bs) \<Longrightarrow> dropWhile (\<lambda>b. \<not> after (b_start b) c) bs = filter (\<lambda>b. after (b_start b) c) bs"
proof (induction bs)
  case (Cons b bs)
  have "filter (\<lambda>b. after (b_start b) c) bs = bs" if "after (b_start b) c"
    using Cons.prems that by (auto simp: filter_id_conv after_def)
  with Cons show ?case by auto
qed simp

lemma evict_total:
  assumes "window_ok t w"
  shows "w_total (evict now w) = (case liveBuckets now w of [] \<Rightarrow> 0 | b # _ \<Rightarrow> b_count b)"
  using live_dropWhile [of "w_buckets w" "now - w_size w"] assms
  by (simp add: evict_eq window_ok_def liveBuckets_def split: list.split)

lemma evict_buckets: "\<exists>pre. w_buckets w = pre @ w_buckets (evict now w)"
proof (cases "dropWhile (\<lambda>b. \<not> after (b_start b) (now - w_size w)) (w_buckets w)")
  case Nil
  then have "w_buckets (evict now w) = w_buckets w" by (simp only: evict_eq list.case) simp
  then show ?thesis by simp
next
  case (Cons b bs)
  then have "w_buckets (evict now w) = b # bs" by (simp add: evict_eq)
  then show ?thesis using Cons by (metis takeWhile_dropWhile_id)
qed

lemma evict_size [simp]: "w_size (evict now w) = w_size w" "w_interval (evict now w) = w_interval w"
  by (simp_all add: evict_eq split: list.split)

lemma Window_Add_buckets:
  "w_buckets (Window_Add t n w) =
     (let bs = w_buckets (evict t w)
      in if bs = [] \<or> \<not> t - b_start (last bs) < w_interval w then bs @ [\<lparr>b_start = t, b_count = n\<rparr>] else bumpLast n bs)"
  by (simp add: Window_Add_def currentBucket_def bumpLast_def Let_def)

lemma Window_Add_size [simp]: "w_size (Window_Add t n w) = w_size w" "w_interval (Window_Add t n w) = w_interval w"
  by (simp_all add: Window_Add_def currentBucket_def Let_def)

lemma countSince_append: "countSince c (xs @ ys) = countSince c xs + countSince c ys"
  by (simp add: countSince_def)

lemma countSince_nonneg: "\<forall>b \<in> set bs. 0 < b_count b \<Longrightarrow> 0 \<le> countSince c bs"
  unfolding countSince_def by (rule sum_list_nonneg) auto

lemma Window_Add_ok:
  assumes ok: "window_ok t0 w" and t: "t0 \<le> t" and n: "0 < n"
  shows "window_ok t (Window_Add t n w)
    \<and> countSince c (w_buckets (Window_Add t n w)) \<le> countSince c (w_buckets w) + (if c < t then n else 0)"
proof -
  let ?bs = "w_buckets (evict t w)"
  obtain pre where pre: "w_buckets w = pre @ ?bs" using evict_buckets by blast
  have bs: "sorted (map b_start ?bs)" "\<forall>b \<in> set ?bs. b_start b \<le> t \<and> 0 < b_count b"
    using ok t unfolding window_ok_def pre by (simp_all add: sorted_append ball_Un) (meson order_trans)
  have "0 \<le> countSince c pre" using ok unfolding window_ok_def pre by (intro countSince_nonneg) simp
  then have le: "countSince c ?bs \<le> countSince c (w_buckets w)" unfolding pre countSince_append by simp
  show ?thesis
  proof (cases "?bs = [] \<or> \<not> t - b_start (last ?bs) < w_interval w")
    case True
    then have "w_buckets (Window_Add t n w) = ?bs @ [\<lparr>b_start = t, b_count = n\<rparr>]" by (simp add: Window_Add_buckets Let_def)
    then show ?thesis using bs le n by (auto simp: window_ok_def sorted_append countSince_def)
  next
    case False
    then obtain cs b where cs: "?bs = cs @ [b]" by (metis append_butlast_last_id)
    then have "w_buckets (Window_Add t n w) = cs @ [b\<lparr>b_count := b_count b + n\<rparr>]"
      using False by (simp add: Window_Add_buckets bumpLast_def Let_def)
    then show ?thesis using bs le n unfolding cs by (auto simp: window_ok_def sorted_append countSince_def)
  qed
qed

definition windowRun :: "duration \<Rightarrow> duration \<Rightarrow> gotime list \<Rightarrow> slidingWindow" where
  "windowRun sz interval ts = fold (\<lambda>t. Window_Add t 1) ts (newSlidingWindow sz interval)"

lemma windowRun_ok:
  assumes "sorted ts" "\<forall>t \<in> set ts. t \<le> now"
  shows "window_ok now (windowRun sz interval ts) \<and> w_size (windowRun sz interval ts) = sz
    \<and> countSince c (w_buckets (windowRun sz interval ts)) \<le> int (length (filter (\<lambda>t. c < t) ts))"
  using assms
proof (induction ts arbitrary: now rule: rev_induct)
  case Nil
  then show ?case by (simp add: windowRun_def newSlidingWindow_def window_ok_def countSince_def)
next
  case (snoc t ts)
  have "sorted ts" "\<forall>u \<in> set ts. u \<le> t" "t \<le> now" using snoc.prems by (auto simp: sorted_append)
  with snoc.IH [of t] have w: "window_ok t (windowRun sz interval ts)" "w_size (windowRun sz interval ts) = sz"
    "countSince c (w_buckets (windowRun sz interval ts)) \<le> int (length (filter (\<lambda>t. c < t) ts))" by simp_all
  have e: "windowRun sz interval (ts @ [t]) = Window_Add t 1 (windowRun sz interval ts)" by (simp add: windowRun_def)
  note a = Window_Add_ok [OF w(1) order_refl, of 1 c]
  have "window_ok now (Window_Add t 1 (windowRun sz interval ts))" using a \<open>t \<le> now\<close> by (force simp: window_ok_def)
  then show ?case unfolding e using a w(2,3) by auto
qed

lemma live_sum_iff:
  assumes "\<forall>b \<in> set bs. 0 < b_count b"
  shows "(case bs of [] \<Rightarrow> 0 | b # _ \<Rightarrow> b_count b) = sum_list (map b_count bs) \<longleftrightarrow> length bs \<le> 1"
    "(case bs of [] \<Rightarrow> 0 | b # _ \<Rightarrow> b_count b) \<le> sum_list (map b_count bs)"
proof -
  have "0 < sum_list (map b_count cs)" if "cs \<noteq> []" "\<forall>b \<in> set cs. 0 < b_count b" for cs
    using that by (induction cs rule: list_nonempty_induct) auto
  with assms show "(case bs of [] \<Rightarrow> 0 | b # _ \<Rightarrow> b_count b) = sum_list (map b_count bs) \<longleftrightarrow> length bs \<le> 1"
    "(case bs of [] \<Rightarrow> 0 | b # _ \<Rightarrow> b_count b) \<le> sum_list (map b_count bs)"
    by (cases bs; cases "tl bs"; force)+
qed

text \<open>
  After any number of events at non-decreasing times, the total of the window is the count of its oldest
  unexpired bucket only. It never exceeds the number of events inside the window, so an alert is never
  false; but it equals the count of the unexpired buckets exactly if there is at most one of them: events
  in every later bucket are not counted.
\<close>

theorem window_total_counts_oldest_bucket:
  fixes ts :: "gotime list" and sz interval :: duration
  assumes "sorted ts" "\<forall>t \<in> set ts. t \<le> now"
  defines "w \<equiv> windowRun sz interval ts"
  shows "fst (Window_Total now w) = (case liveBuckets now w of [] \<Rightarrow> 0 | b # _ \<Rightarrow> b_count b)
     \<and> fst (Window_Total now w) \<le> int (length (filter (\<lambda>t. now - sz < t) ts))
     \<and> (fst (Window_Total now w) = sum_list (map b_count (liveBuckets now w)) \<longleftrightarrow> length (liveBuckets now w) \<le> 1)"
proof -
  note ok = windowRun_ok [OF assms(1,2), of sz interval "now - sz", folded w_def]
  have tot: "fst (Window_Total now w) = (case liveBuckets now w of [] \<Rightarrow> 0 | b # _ \<Rightarrow> b_count b)"
    using evict_total [of now w now] ok by (simp add: Window_Total_def Let_def)
  have pos: "\<forall>b \<in> set (liveBuckets now w). 0 < b_count b" using ok by (simp add: liveBuckets_def window_ok_def)
  have "sum_list (map b_count (liveBuckets now w)) = countSince (now - sz) (w_buckets w)"
    using ok by (simp add: liveBuckets_def countSince_def after_def)
  with live_sum_iff [OF pos] ok tot show ?thesis by simp
qed

theorem window_total_counts_oldest_bucket_witness:
  "fst (Window_Total 4000000000 (windowRun 60000000000 0 [1000000000, 2000000000, 3000000000])) = 1
     \<and> sum_list (map b_count (liveBuckets 4000000000 (windowRun 60000000000 0 [1000000000, 2000000000, 3000000000]))) = 3"
proof -
  have b: "w_buckets (windowRun 60000000000 0 [1000000000, 2000000000, 3000000000])
      = map (\<lambda>t. \<lparr>b_start = t, b_count = 1\<rparr>) [1000000000, 2000000000, 3000000000]"
    by (simp add: windowRun_def newSlidingWindow_def Window_Add_buckets evict_def after_def Let_def)
  have s: "w_size (windowRun 60000000000 0 [1000000000, 2000000000, 3000000000]) = 60000000000"
    by (simp add: windowRun_def newSlidingWindow_def)
  show ?thesis
    using window_total_counts_oldest_bucket [of "[1000000000, 2000000000, 3000000000]" 4000000000 60000000000 0]
    by (simp add: liveBuckets_def b s after_def)
qed

text \<open>Buckets are dropped only when a later one is unexpired.\<close>

lemma sparse_run:
  assumes "sorted_wrt (\<lambda>t u. t \<le> u - sz) ts" "millisecond \<le> sz"
  shows "w_buckets (windowRun sz 0 ts) = map (\<lambda>t. \<lparr>b_start = t, b_count = 1\<rparr>) ts
    \<and> w_size (windowRun sz 0 ts) = sz \<and> w_interval (windowRun sz 0 ts) \<le> sz"
  using assms(1)
proof (induction ts rule: rev_induct)
  case Nil
  then show ?case using assms(2) by (auto simp: windowRun_def newSlidingWindow_def)
next
  case (snoc t ts)
  have old: "u \<le> t - sz" if "u \<in> set ts" for u using snoc.prems that by (simp add: sorted_wrt_append)
  have w: "w_buckets (windowRun sz 0 ts) = map (\<lambda>t. \<lparr>b_start = t, b_count = 1\<rparr>) ts"
    "w_size (windowRun sz 0 ts) = sz" "w_interval (windowRun sz 0 ts) \<le> sz"
    using snoc by (simp_all add: sorted_wrt_append)
  have e: "windowRun sz 0 (ts @ [t]) = Window_Add t 1 (windowRun sz 0 ts)" by (simp add: windowRun_def)
  have "evict t (windowRun sz 0 ts) = (windowRun sz 0 ts)\<lparr>w_total := 0\<rparr>"
    using old by (intro evict_all_expired) (auto simp: w after_def not_less)
  then have "w_buckets (evict t (windowRun sz 0 ts)) = map (\<lambda>t. \<lparr>b_start = t, b_count = 1\<rparr>) ts" by (simp add: w)
  moreover have "ts = [] \<or> \<not> t - last ts < w_interval (windowRun sz 0 ts)" using old [of "last ts"] w(3) by force
  ultimately show ?case unfolding e using w(2,3) by (cases "ts = []") (simp_all add: Window_Add_buckets last_map Let_def)
qed

text \<open>
  Events that are each at least a window apart leave one bucket each behind: although all but the last are
  expired, none is ever removed, so the window of a rarely failing system grows without bound.
\<close>

theorem sparse_events_keep_all_buckets:
  assumes "sorted_wrt (\<lambda>t u. t \<le> u - sz) ts" "millisecond \<le> sz"
  shows "length (w_buckets (windowRun sz 0 ts)) = length ts"
  using sparse_run [OF assms] by simp

theorem sparse_events_keep_all_buckets_witness:
  "length (w_buckets (windowRun (60 * second) 0 [100 * second, 200 * second, 300 * second])) = 3"
  using sparse_events_keep_all_buckets [of "60 * second" "[100 * second, 200 * second, 300 * second]"] by simp

section \<open>Alerts\<close>

type_synonym metric_call = "gotime \<times> gotime \<times> metric"

definition alertRun :: "metric_call list \<Rightarrow> AlertMetrics \<Rightarrow> AlertMetrics" where
  "alertRun = fold (\<lambda>(t, u, m). Alert_record t u m)"

text \<open>The clock never runs backwards.\<close>

fun clocked :: "gotime \<Rightarrow> metric_call list \<Rightarrow> bool" where
  "clocked now [] \<longleftrightarrow> True"
| "clocked now ((t, u, m) # cs) \<longleftrightarrow> now \<le> t \<and> t \<le> u \<and> clocked u cs"

definition eventTimes :: "metric \<Rightarrow> metric_call list \<Rightarrow> gotime list" where
  "eventTimes m cs = map fst (filter (\<lambda>(t, u, k). k = m) cs)"

definition inWindow :: "metric \<Rightarrow> gotime \<Rightarrow> metric_call list \<Rightarrow> int" where
  "inWindow m c cs = int (length (filter (\<lambda>t. c < t) (eventTimes m cs)))"

definition window_of :: "metric \<Rightarrow> duration \<Rightarrow> gotime \<Rightarrow> metric_call list \<Rightarrow> slidingWindow \<Rightarrow> bool" where
  "window_of m sz now cs w \<longleftrightarrow> window_ok now w \<and> w_size w = sz \<and> (\<forall>c. countSince c (w_buckets w) \<le> inWindow m c cs)"

lemma evict_keeps:
  assumes "window_of m sz now cs w" shows "window_of m sz now cs (evict t w)"
proof -
  obtain pre where pre: "w_buckets w = pre @ w_buckets (evict t w)" using evict_buckets by blast
  have ok: "sorted (map b_start (pre @ w_buckets (evict t w)))"
    "\<forall>b \<in> set (pre @ w_buckets (evict t w)). b_start b \<le> now \<and> 0 < b_count b"
    using assms unfolding window_of_def window_ok_def pre by simp_all
  have "countSince c (w_buckets (evict t w)) \<le> inWindow m c cs" for c
  proof -
    have "countSince c (w_buckets w) \<le> inWindow m c cs" using assms by (simp add: window_of_def)
    moreover have "0 \<le> countSince c pre" using ok by (intro countSince_nonneg) simp
    ultimately show ?thesis unfolding pre countSince_append by simp
  qed
  moreover have "window_ok now (evict t w)" using ok by (simp add: window_ok_def sorted_append)
  ultimately show ?thesis using assms by (simp add: window_of_def)
qed

lemma inWindow_snoc: "inWindow m c (cs @ [(t, u, k)]) = inWindow m c cs + (if k = m \<and> c < t then 1 else 0)"
  by (simp add: inWindow_def eventTimes_def)

lemma add_keeps:
  assumes "window_of m sz now cs w" "now \<le> t" shows "window_of m sz t (cs @ [(t, u, m)]) (Window_Add t 1 w)"
proof -
  have ok: "window_ok now w" using assms by (simp add: window_of_def)
  have "countSince c (w_buckets (Window_Add t 1 w)) \<le> inWindow m c (cs @ [(t, u, m)])" for c
  proof -
    have "countSince c (w_buckets w) \<le> inWindow m c cs" using assms(1) by (simp add: window_of_def)
    then show ?thesis using Window_Add_ok [OF ok assms(2), of 1 c] by (simp add: inWindow_snoc split: if_splits)
  qed
  with Window_Add_ok [OF ok assms(2), of 1] assms(1) show ?thesis by (simp add: window_of_def)
qed

lemma later: "window_of m sz now cs w \<Longrightarrow> now \<le> t \<Longrightarrow> window_of m sz t cs w"
  by (force simp: window_of_def window_ok_def)

lemma other_call: "k \<noteq> m \<Longrightarrow> window_of m sz now cs w \<Longrightarrow> window_of m sz now (cs @ [(t, u, k)]) w"
  by (simp add: window_of_def inWindow_snoc)

definition trueRate :: "metric \<Rightarrow> duration \<Rightarrow> gotime \<Rightarrow> metric_call list \<Rightarrow> rat" where
  "trueRate m sz now cs = of_int (inWindow m (now - sz) cs) / (of_int sz / of_int second)"

lemma rate_bound:
  assumes w: "window_of m sz t cs w" and sz: "0 < sz"
  shows "fst (Window_Rate u w) \<le> trueRate m sz u cs"
proof -
  have ok: "window_ok t w" "w_size w = sz" "countSince (u - sz) (w_buckets w) \<le> inWindow m (u - sz) cs"
    using w by (simp_all add: window_of_def)
  have pos: "\<forall>b \<in> set (liveBuckets u w). 0 < b_count b" using ok(1) by (simp add: liveBuckets_def window_ok_def)
  have "sum_list (map b_count (liveBuckets u w)) = countSince (u - sz) (w_buckets w)"
    using ok(2) by (simp add: liveBuckets_def countSince_def after_def)
  then have le: "w_total (evict u w) \<le> inWindow m (u - sz) cs"
    using evict_total [OF ok(1), of u] live_sum_iff(2) [OF pos] ok(3) by simp
  have "of_int (w_total (evict u w)) / (of_int sz / of_int second) \<le> (of_int (inWindow m (u - sz) cs) :: rat) / (of_int sz / of_int second)"
    using le sz by (intro divide_right_mono) simp_all
  then show ?thesis using sz ok(2) by (simp add: Window_Rate_def trueRate_def Let_def)
qed

definition alert_inv :: "MetricsRecorder \<Rightarrow> AlertConfig \<Rightarrow> gotime \<Rightarrow> metric_call list \<Rightarrow> AlertMetrics \<Rightarrow> bool" where
  "alert_inv inner cfg now cs a \<longleftrightarrow> am_config a = cfg \<and> am_inner a = inner @ map (snd \<circ> snd) cs
     \<and> window_of TaskTimeout (WindowSize cfg) now cs (am_timeoutWindow a)
     \<and> window_of TaskError (WindowSize cfg) now cs (am_errorWindow a)"

definition raises :: "(rat \<Rightarrow> alert) \<Rightarrow> rat \<Rightarrow> rat \<Rightarrow> AlertMetrics \<Rightarrow> AlertMetrics \<Rightarrow> bool" where
  "raises al threshold true_rate a a' \<longleftrightarrow>
     (\<exists>r. am_alerts a' = (if threshold < r then am_alerts a @ [al r] else am_alerts a) \<and> r \<le> true_rate)"

lemma snd_Window_Rate [simp]: "snd (Window_Rate u w) = evict u w"
  by (simp add: Window_Rate_def Let_def)

lemma Alert_record_ok:
  assumes inv: "alert_inv inner cfg now cs a" and t: "now \<le> t" "t \<le> u" and sz: "0 < WindowSize cfg"
  shows "alert_inv inner cfg u (cs @ [(t, u, m)]) (Alert_record t u m a)"
    "m = TaskTimeout \<Longrightarrow> raises TimeoutAlert (TimeoutRateThreshold cfg) (trueRate m (WindowSize cfg) u (cs @ [(t, u, m)])) a (Alert_record t u m a)"
    "m = TaskError \<Longrightarrow> raises ErrorAlert (ErrorRateThreshold cfg) (trueRate m (WindowSize cfg) u (cs @ [(t, u, m)])) a (Alert_record t u m a)"
    "m \<noteq> TaskTimeout \<Longrightarrow> m \<noteq> TaskError \<Longrightarrow> am_alerts (Alert_record t u m a) = am_alerts a"
proof -
  let ?sz = "WindowSize cfg" and ?cs = "cs @ [(t, u, m)]"
  have w: "window_of TaskTimeout ?sz now cs (am_timeoutWindow a)" "window_of TaskError ?sz now cs (am_errorWindow a)"
    "am_config a = cfg" "am_inner a = inner @ map (snd \<circ> snd) cs"
    using inv by (simp_all add: alert_inv_def)
  have hit: "window_of k ?sz u (cs @ [(t, u, k)]) (evict u (Window_Add t 1 v))"
    "fst (Window_Rate u (Window_Add t 1 v)) \<le> trueRate k ?sz u (cs @ [(t, u, k)])"
    if "window_of k ?sz now cs v" for k v
    using add_keeps [OF that t(1), of u] rate_bound [OF _ sz] later [OF _ t(2)] evict_keeps by blast+
  have miss: "window_of k ?sz u ?cs v" if "window_of k ?sz now cs v" "m \<noteq> k" for k v
    using other_call [OF that(2) later [OF that(1)]] t by (meson order_trans)
  show "alert_inv inner cfg u ?cs (Alert_record t u m a)"
    using w hit(1) miss
    by (cases m) (auto simp: Alert_record_def Alert_TaskTimeout_def Alert_TaskError_def Alert_TaskRetry_def alert_inv_def
        Let_def case_prod_beta)
  show "raises TimeoutAlert (TimeoutRateThreshold cfg) (trueRate m ?sz u ?cs) a (Alert_record t u m a)" if "m = TaskTimeout"
    using hit(2) [OF w(1)] that w(3) unfolding raises_def
    by (intro exI [of _ "fst (Window_Rate u (Window_Add t 1 (am_timeoutWindow a)))"])
      (simp add: Alert_record_def Alert_TaskTimeout_def Let_def case_prod_beta)
  show "raises ErrorAlert (ErrorRateThreshold cfg) (trueRate m ?sz u ?cs) a (Alert_record t u m a)" if "m = TaskError"
    using hit(2) [OF w(2)] that w(3) unfolding raises_def
    by (intro exI [of _ "fst (Window_Rate u (Window_Add t 1 (am_errorWindow a)))"])
      (simp add: Alert_record_def Alert_TaskError_def Let_def case_prod_beta)
  show "am_alerts (Alert_record t u m a) = am_alerts a" if "m \<noteq> TaskTimeout" "m \<noteq> TaskError"
    using that by (cases m) (simp_all add: Alert_record_def Alert_TaskRetry_def)
qed

lemma alertRun_inv:
  assumes "alert_inv inner cfg now cs a" "clocked now ds" "0 < WindowSize cfg"
  shows "\<exists>now'. alert_inv inner cfg now' (cs @ ds) (alertRun ds a) \<and> (\<forall>t u m. clocked now (ds @ [(t, u, m)]) \<longrightarrow> now' \<le> t)"
  using assms(1,2)
proof (induction ds arbitrary: now cs a)
  case Nil
  then show ?case by (auto simp: alertRun_def)
next
  case (Cons d ds)
  obtain t u m where d: "d = (t, u, m)" by (cases d) auto
  with Cons.prems have c: "now \<le> t" "t \<le> u" "clocked u ds" by simp_all
  from Cons.IH [OF Alert_record_ok(1) [OF Cons.prems(1) c(1,2) assms(3), of m] c(3)] c(1,2) show ?case
    by (simp add: d alertRun_def)
qed

lemma clocked_snoc: "clocked now (cs @ [(t, u, m)]) \<Longrightarrow> clocked now cs \<and> t \<le> u"
  by (induction now cs rule: clocked.induct) auto

lemma new_alert_inv: "alert_inv inner cfg now [] (NewAlertMetrics inner cfg)"
  by (simp add: alert_inv_def NewAlertMetrics_def newSlidingWindow_def window_of_def window_ok_def countSince_def inWindow_def eventTimes_def)

text \<open>
  The alerting decorator forwards every call to the recorder it wraps, in order, and raises no
  false alert: with a clock that does not run backwards, each call raises at most one alert, only a
  timeout or an error does, and the rate it reports is above the threshold and at most the true rate of
  such events inside the window.
\<close>

theorem alerts_forwarded_and_genuine:
  fixes inner :: MetricsRecorder and cfg :: AlertConfig and cs :: "metric_call list"
  assumes "clocked now (cs @ [(t, u, m)])" "0 < WindowSize cfg"
  defines "a \<equiv> alertRun cs (NewAlertMetrics inner cfg)"
  shows "am_inner (Alert_record t u m a) = inner @ map (snd \<circ> snd) (cs @ [(t, u, m)])
     \<and> (if m = TaskTimeout then raises TimeoutAlert (TimeoutRateThreshold cfg) (trueRate m (WindowSize cfg) u (cs @ [(t, u, m)])) a (Alert_record t u m a)
        else if m = TaskError then raises ErrorAlert (ErrorRateThreshold cfg) (trueRate m (WindowSize cfg) u (cs @ [(t, u, m)])) a (Alert_record t u m a)
        else am_alerts (Alert_record t u m a) = am_alerts a)"
proof -
  have c: "clocked now cs" "t \<le> u" using clocked_snoc [OF assms(1)] by simp_all
  obtain now' where inv: "alert_inv inner cfg now' cs a" "now' \<le> t"
    using alertRun_inv [OF new_alert_inv c(1) assms(2), of inner] assms(1) unfolding a_def by auto
  note k = Alert_record_ok [OF inv c(2) assms(2), of m]
  show ?thesis using k by (auto simp: alert_inv_def)
qed

theorem alerts_forwarded_and_genuine_witness:
  "am_inner (Alert_record 5 6 TaskTimeout (alertRun [(1, 2, TaskCreated), (3, 4, TaskTimeout)] (NewAlertMetrics [] DefaultAlertConfig)))
     = [TaskCreated, TaskTimeout, TaskTimeout]
   \<and> raises TimeoutAlert 10 (2 / 60) (alertRun [(1, 2, TaskCreated), (3, 4, TaskTimeout)] (NewAlertMetrics [] DefaultAlertConfig))
       (Alert_record 5 6 TaskTimeout (alertRun [(1, 2, TaskCreated), (3, 4, TaskTimeout)] (NewAlertMetrics [] DefaultAlertConfig)))"
  using alerts_forwarded_and_genuine [of 0 "[(1, 2, TaskCreated), (3, 4, TaskTimeout)]" 5 6 TaskTimeout DefaultAlertConfig "[]"]
  by (simp add: DefaultAlertConfig_def trueRate_def inWindow_def eventTimes_def)

end
