(* ===== verification/Nuts_ID.thy ===== *)
theory Nuts_ID
  imports Nuts_Values "HOL-Library.Word"
begin

unbundle bit_operations_syntax

text \<open>
  The identifier generators of \<^verbatim>\<open>src/pkg/common/id.go\<close>. The Snowflake generator reads the clock
  several times and spins while the clock lags; the readings are an explicit list, each with its
  wall clock (which \<^verbatim>\<open>UnixMilli\<close> uses) and its monotonic clock (which \<^verbatim>\<open>After\<close> uses). A run that
  consumes every reading and still waits is \<^term>\<open>None\<close>. The random UUIDs of
  \<^verbatim>\<open>github.com/google/uuid\<close> are a parameter.
\<close>

record reading =
  rd_wall :: gotime
  rd_mono :: gotime

definition UnixMilli :: "reading \<Rightarrow> int" where
  "UnixMilli r = rd_wall r div millisecond"

record SnowflakeGenerator =
  sf_machineID :: int
  sf_sequence :: int
  sf_lastTime :: int

abbreviation snowflakeEpoch :: int where "snowflakeEpoch \<equiv> 1700000000000"
abbreviation maxMachineID :: int where "maxMachineID \<equiv> 1023"
abbreviation maxSequence :: int where "maxSequence \<equiv> 4095"
abbreviation timeShift :: nat where "timeShift \<equiv> 22"
abbreviation machineIDShift :: nat where "machineIDShift \<equiv> 12"

datatype id_error = MachineIDRange int | UnknownGenerator string

definition NewSnowflakeGenerator :: "int \<Rightarrow> id_error + SnowflakeGenerator" where
  "NewSnowflakeGenerator machineID =
     (if machineID < 0 \<or> machineID > maxMachineID then Inl (MachineIDRange machineID)
      else Inr \<lparr>sf_machineID = machineID, sf_sequence = 0, sf_lastTime = 0\<rparr>)"

text \<open>
  The waiting loop that \<^verbatim>\<open>Generate\<close> has twice: while \<open>lag now\<close> holds, leave when a reading is past the
  deadline (the flag is set), else sleep and read the clock again.
\<close>

fun spin :: "(int \<Rightarrow> bool) \<Rightarrow> gotime \<Rightarrow> int \<Rightarrow> reading list \<Rightarrow> (int \<times> bool \<times> reading list) option" where
  "spin lag deadline now rs =
     (if \<not> lag now then Some (now, False, rs)
      else case rs of
             [] \<Rightarrow> None
           | r # rs1 \<Rightarrow>
               if after (rd_mono r) deadline then Some (now, True, rs1)
               else (case rs1 of [] \<Rightarrow> None | r2 # rs2 \<Rightarrow> spin lag deadline (UnixMilli r2) rs2))"

definition spin10ms :: "(int \<Rightarrow> bool) \<Rightarrow> int \<Rightarrow> reading list \<Rightarrow> (int \<times> bool \<times> reading list) option" where
  "spin10ms lag now rs =
     (case rs of [] \<Rightarrow> None | d # rs1 \<Rightarrow> spin lag (rd_mono d + 10 * millisecond) now rs1)"

text \<open>The clock went back: catch up with \<^verbatim>\<open>lastTime\<close> or go on with \<^verbatim>\<open>lastTime\<close> itself.\<close>

definition catchUp :: "SnowflakeGenerator \<Rightarrow> int \<Rightarrow> reading list \<Rightarrow> (int \<times> reading list) option" where
  "catchUp s now rs =
     (if now < sf_lastTime s
      then case spin10ms (\<lambda>n. n < sf_lastTime s) now rs of
             None \<Rightarrow> None
           | Some (now, _, rs) \<Rightarrow> Some (if now < sf_lastTime s then sf_lastTime s else now, rs)
      else Some (now, rs))"

text \<open>The next timestamp and sequence number.\<close>

definition nextSequence ::
  "SnowflakeGenerator \<Rightarrow> int \<Rightarrow> reading list \<Rightarrow> (int \<times> int \<times> reading list) option" where
  "nextSequence s now rs =
     (if now = sf_lastTime s
      then let sequence = (sf_sequence s + 1) AND maxSequence
           in if sequence = 0
              then case spin10ms (\<lambda>n. n \<le> sf_lastTime s) now rs of
                     None \<Rightarrow> None
                   | Some (now, expired, rs) \<Rightarrow>
                       Some (if expired then sf_lastTime s + 1 else now, 0, rs)
              else Some (now, sequence, rs)
      else Some (now, 0, rs))"

definition snowflakeID :: "int \<Rightarrow> int \<Rightarrow> int \<Rightarrow> 64 word" where
  "snowflakeID now machineID sequence =
     (push_bit timeShift (word_of_int (now - snowflakeEpoch))
        OR push_bit machineIDShift (word_of_int machineID))
     OR word_of_int sequence"

definition Generate ::
  "SnowflakeGenerator \<Rightarrow> reading list \<Rightarrow> (string \<times> SnowflakeGenerator \<times> reading list) option" where
  "Generate s rs =
     (case rs of
        [] \<Rightarrow> None
      | r # rs \<Rightarrow>
          (case catchUp s (UnixMilli r) rs of
             None \<Rightarrow> None
           | Some (now, rs) \<Rightarrow>
               (case nextSequence s now rs of
                  None \<Rightarrow> None
                | Some (now, sequence, rs) \<Rightarrow>
                    let s = s\<lparr>sf_sequence := sequence, sf_lastTime := now\<rparr>
                    in Some (show_int (sint (snowflakeID now (sf_machineID s) sequence)), s, rs))))"

fun generateMany ::
  "nat \<Rightarrow> SnowflakeGenerator \<Rightarrow> reading list \<Rightarrow> (string list \<times> SnowflakeGenerator \<times> reading list) option" where
  "generateMany 0 s rs = Some ([], s, rs)"
| "generateMany (Suc n) s rs =
     (case Generate s rs of
        None \<Rightarrow> None
      | Some (i, s, rs) \<Rightarrow>
          (case generateMany n s rs of None \<Rightarrow> None | Some (is, s, rs) \<Rightarrow> Some (i # is, s, rs)))"

section \<open>The factory\<close>

datatype IDGenerator = UUIDGenerator | Snowflake SnowflakeGenerator

type_synonym id_creator = "gomap \<Rightarrow> id_error + IDGenerator"

definition IDFactory_Register ::
  "(string \<rightharpoonup> id_creator) \<Rightarrow> string \<Rightarrow> id_creator \<Rightarrow> (string \<rightharpoonup> id_creator)" where
  "IDFactory_Register f name creator = f(name \<mapsto> creator)"

definition IDFactory_Create :: "(string \<rightharpoonup> id_creator) \<Rightarrow> gomap \<Rightarrow> id_error + IDGenerator" where
  "IDFactory_Create f config =
     (let idType = (case map_of config ''type'' of Some (VString s) \<Rightarrow> s | _ \<Rightarrow> '''');
          idType = (if idType = '''' then ''uuid'' else idType)
      in case f idType of None \<Rightarrow> Inl (UnknownGenerator idType) | Some creator \<Rightarrow> creator config)"

definition snowflakeCreator :: id_creator where
  "snowflakeCreator cfg =
     (let machineID =
        (case map_of cfg ''snowflake'' of
           Some (VMap m) \<Rightarrow>
             (case map_of m ''machine_id'' of
                Some (VInt64 mid) \<Rightarrow> mid
              | Some (VFloat mid) \<Rightarrow> truncate_float mid
              | _ \<Rightarrow> 1)
         | _ \<Rightarrow> 1)
      in mapErr (\<lambda>e. e) (bindE (NewSnowflakeGenerator machineID) (\<lambda>s. Inr (Snowflake s))))"

definition id_init :: "(string \<rightharpoonup> id_creator) \<Rightarrow> (string \<rightharpoonup> id_creator)" where
  "id_init f = IDFactory_Register (IDFactory_Register f ''uuid'' (\<lambda>cfg. Inr UUIDGenerator))
     ''snowflake'' snowflakeCreator"

section \<open>Layout of an identifier\<close>

definition sf_ok :: "SnowflakeGenerator \<Rightarrow> bool" where
  "sf_ok s \<longleftrightarrow> 0 \<le> sf_machineID s \<and> sf_machineID s \<le> maxMachineID
     \<and> 0 \<le> sf_sequence s \<and> sf_sequence s \<le> maxSequence"

definition id_value :: "int \<Rightarrow> int \<Rightarrow> int \<Rightarrow> int" where
  "id_value now machineID sequence = (now - snowflakeEpoch) * 2 ^ 22 + machineID * 2 ^ 12 + sequence"

lemma NewSnowflakeGenerator_ok: "NewSnowflakeGenerator m = Inr s \<Longrightarrow> sf_ok s"
  by (auto simp: NewSnowflakeGenerator_def sf_ok_def split: if_splits)

lemma or_disjoint_int:
  fixes a b :: int
  assumes "0 \<le> b" "b < 2 ^ n" shows "(a * 2 ^ n) OR b = a * 2 ^ n + b"
proof -
  have "(a * 2 ^ n) AND b = 0"
  proof (rule bit_eqI)
    fix i
    have "b = take_bit n b" using assms by (simp add: take_bit_int_eq_self)
    then have "bit b i \<Longrightarrow> i < n" by (metis bit_take_bit_iff)
    moreover have "bit (a * 2 ^ n) i \<Longrightarrow> n \<le> i"
      by (metis bit_push_bit_iff push_bit_eq_mult)
    ultimately show "bit (a * 2 ^ n AND b) i = bit 0 i" by (auto simp: bit_and_iff)
  qed
  then show ?thesis using plus_and_or [of "a * 2 ^ n" b] by simp
qed

lemma snowflakeID_word:
  assumes "0 \<le> m" "m \<le> maxMachineID" "0 \<le> q" "q \<le> maxSequence"
  shows "snowflakeID now m q = word_of_int (id_value now m q)"
proof -
  define d where "d = now - snowflakeEpoch"
  have "d * 2 ^ 22 OR (m * 2 ^ 12) = d * 2 ^ 22 + m * 2 ^ 12"
    by (rule or_disjoint_int) (use assms in simp_all)
  also have "\<dots> = (d * 2 ^ 10 + m) * 2 ^ 12" by simp
  finally have "(d * 2 ^ 22 OR (m * 2 ^ 12)) OR q = (d * 2 ^ 10 + m) * 2 ^ 12 OR q" by simp
  also have "\<dots> = (d * 2 ^ 10 + m) * 2 ^ 12 + q"
    by (rule or_disjoint_int) (use assms in simp_all)
  finally have "(d * 2 ^ 22 OR (m * 2 ^ 12)) OR q = id_value now m q"
    by (simp add: id_value_def d_def)
  moreover have "snowflakeID now m q = word_of_int ((d * 2 ^ 22 OR (m * 2 ^ 12)) OR q)"
  proof -
    have "push_bit 22 (word_of_int d :: 64 word) = word_of_int (d * 2 ^ 22)"
      and "push_bit 12 (word_of_int m :: 64 word) = word_of_int (m * 2 ^ 12)"
      by (simp_all add: push_bit_eq_mult)
    then show ?thesis by (simp only: snowflakeID_def of_int_or_eq flip: d_def)
  qed
  ultimately show ?thesis by simp
qed

lemma id_value_bounds:
  assumes "0 \<le> m" "m \<le> maxMachineID" "0 \<le> q" "q \<le> maxSequence"
    and "snowflakeEpoch \<le> now" "now < snowflakeEpoch + 2 ^ 41"
  shows "0 \<le> id_value now m q \<and> id_value now m q < 2 ^ 63"
  using assms by (simp add: id_value_def)

lemma snowflakeID_sint:
  assumes "0 \<le> m" "m \<le> maxMachineID" "0 \<le> q" "q \<le> maxSequence"
    and "snowflakeEpoch \<le> now" "now < snowflakeEpoch + 2 ^ 41"
  shows "sint (snowflakeID now m q) = id_value now m q"
  using id_value_bounds [OF assms] snowflakeID_word [OF assms(1-4)]
  by (simp add: sint_uint signed_take_bit_int_eq_self uint_word_of_int take_bit_int_eq_self)

section \<open>Order of the identifiers\<close>

definition clock_ok :: "reading list \<Rightarrow> bool" where
  "clock_ok rs \<longleftrightarrow> (\<forall>r \<in> set rs. snowflakeEpoch \<le> UnixMilli r)"

declare spin.simps [simp del]

lemma spin_result:
  "spin lag dl now rs = Some (now', expired, rs') \<Longrightarrow> set rs' \<subseteq> set rs \<and> (\<not> expired \<longrightarrow> \<not> lag now')"
proof (induction lag dl now rs rule: spin.induct)
  case (1 lag dl now rs)
  show ?case
  proof (cases "lag now")
    case True
    with 1(2) obtain r rs1 where rs: "rs = r # rs1"
      by (simp add: spin.simps [of lag dl now]) (cases rs; auto)
    show ?thesis
    proof (cases "after (rd_mono r) dl")
      case True
      with \<open>lag now\<close> 1(2) rs show ?thesis by (auto simp: spin.simps [of lag dl now])
    next
      case False
      with \<open>lag now\<close> 1(2) rs obtain r2 rs2 where rs1: "rs1 = r2 # rs2"
        and sp: "spin lag dl (UnixMilli r2) rs2 = Some (now', expired, rs')"
        by (simp add: spin.simps [of lag dl now]) (cases rs1; auto)
      from 1(1) [of r rs1 r2 rs2] True False rs rs1 sp show ?thesis by auto
    qed
  qed (use 1(2) in \<open>simp add: spin.simps [of lag dl now]\<close>)
qed

lemma spin10ms_result:
  "spin10ms lag now rs = Some (now', expired, rs') \<Longrightarrow>
     set rs' \<subseteq> set rs \<and> (\<not> expired \<longrightarrow> \<not> lag now')"
  by (fastforce simp: spin10ms_def split: list.splits dest: spin_result)

lemma catchUp_result:
  "catchUp s now rs = Some (now', rs') \<Longrightarrow>
     set rs' \<subseteq> set rs \<and> sf_lastTime s \<le> now' \<and> now \<le> now'"
  by (auto simp: catchUp_def split: if_splits option.splits dest!: spin10ms_result)

lemma and_maxSequence: "(q + 1) AND maxSequence = (if q = maxSequence then 0 else q + 1)"
  if "0 \<le> q" "q \<le> maxSequence"
proof -
  have "(q + 1) AND maxSequence = (q + 1) mod 2 ^ 12"
    using take_bit_eq_mask [of 12 "q + 1"] by (simp add: take_bit_eq_mod mask_eq_exp_minus_1)
  with that show ?thesis by auto
qed

lemma nextSequence_result:
  assumes "nextSequence s now rs = Some (now', q, rs')" "sf_ok s" "sf_lastTime s \<le> now"
  shows "set rs' \<subseteq> set rs \<and> 0 \<le> q \<and> q \<le> maxSequence \<and> now \<le> now'
     \<and> (sf_lastTime s < now' \<or> now' = sf_lastTime s \<and> sf_sequence s < q)"
proof (cases "now = sf_lastTime s \<and> (sf_sequence s + 1) AND maxSequence = 0")
  case True
  with assms(1) obtain n e where sp: "spin10ms (\<lambda>n. n \<le> sf_lastTime s) now rs = Some (n, e, rs')"
    and r: "now' = (if e then sf_lastTime s + 1 else n)" "q = 0"
    by (auto simp: nextSequence_def split: option.splits)
  from spin10ms_result [OF sp] r True show ?thesis by auto
next
  case False
  with assms and_maxSequence [of "sf_sequence s"] show ?thesis
    by (auto simp: nextSequence_def Let_def sf_ok_def split: if_splits)
qed

lemma Generate_result:
  assumes "Generate s rs = Some (i, s', rs')" "sf_ok s" "clock_ok rs"
  shows "sf_ok s' \<and> clock_ok rs' \<and> sf_machineID s' = sf_machineID s
    \<and> i = show_int (sint (snowflakeID (sf_lastTime s') (sf_machineID s') (sf_sequence s')))
    \<and> (sf_lastTime s < sf_lastTime s' \<or> sf_lastTime s' = sf_lastTime s \<and> sf_sequence s < sf_sequence s')
    \<and> snowflakeEpoch \<le> sf_lastTime s'"
proof -
  obtain r rs0 now rs1 q where rs: "rs = r # rs0" and c: "catchUp s (UnixMilli r) rs0 = Some (now, rs1)"
    and n: "nextSequence s now rs1 = Some (sf_lastTime s', q, rs')"
    and s': "s' = s\<lparr>sf_sequence := q, sf_lastTime := sf_lastTime s'\<rparr>"
    and i: "i = show_int (sint (snowflakeID (sf_lastTime s') (sf_machineID s') q))"
    using assms(1) by (auto simp: Generate_def Let_def split: list.splits option.splits)
  from catchUp_result [OF c] have le: "sf_lastTime s \<le> now" "UnixMilli r \<le> now" and sub: "set rs1 \<subseteq> set rs0" by auto
  from nextSequence_result [OF n assms(2) le(1)] le(2) s' sub i assms(2,3) rs show ?thesis
    by (cases s'; cases s) (auto simp: sf_ok_def clock_ok_def)
qed

lemma id_value_less:
  assumes "0 \<le> q" "q' \<le> maxSequence" "q \<le> maxSequence" "0 \<le> q'"
    and "t < t' \<or> t' = t \<and> q < q'" and "0 \<le> m" "m \<le> maxMachineID"
  shows "id_value t m q < id_value t' m q'"
  using assms by (auto simp: id_value_def)

lemma id_value_machine:
  assumes "0 \<le> m" "m \<le> maxMachineID" "0 \<le> q" "q \<le> maxSequence"
  shows "id_value t m q div 2 ^ 12 mod 2 ^ 10 = m"
proof -
  define d where "d = t - snowflakeEpoch"
  have "id_value t m q div 2 ^ 12 = d * 2 ^ 10 + m"
    using assms by (simp add: id_value_def d_def)
  then show ?thesis using assms by simp
qed

lemma generateMany_values:
  assumes "generateMany n s rs = Some (is, s', rs')" "sf_ok s" "clock_ok rs"
    and "sf_lastTime s' < snowflakeEpoch + 2 ^ 41"
  shows "\<exists>vs. is = map show_int vs \<and> length vs = n
     \<and> sorted_wrt (<) (id_value (sf_lastTime s) (sf_machineID s) (sf_sequence s) # vs)
     \<and> (\<forall>v \<in> set vs. v div 2 ^ 12 mod 2 ^ 10 = sf_machineID s) \<and> sf_lastTime s \<le> sf_lastTime s'"
  using assms
proof (induction n arbitrary: s rs "is")
  case 0
  then show ?case by auto
next
  case (Suc n)
  obtain i s1 rs1 is1 where g: "Generate s rs = Some (i, s1, rs1)"
    and gm: "generateMany n s1 rs1 = Some (is1, s', rs')" and i_s: "is = i # is1"
    using Suc.prems(1) by (auto split: option.splits)
  note r = Generate_result [OF g Suc.prems(2,3)]
  obtain vs where vs: "is1 = map show_int vs" "length vs = n"
    "sorted_wrt (<) (id_value (sf_lastTime s1) (sf_machineID s1) (sf_sequence s1) # vs)"
    "\<forall>v \<in> set vs. v div 2 ^ 12 mod 2 ^ 10 = sf_machineID s1" "sf_lastTime s1 \<le> sf_lastTime s'"
    using Suc.IH [OF gm] r Suc.prems(4) by auto
  let ?v = "id_value (sf_lastTime s1) (sf_machineID s1) (sf_sequence s1)"
  have "i = show_int ?v" using r vs(5) Suc.prems(4) by (simp add: snowflakeID_sint sf_ok_def)
  moreover have "id_value (sf_lastTime s) (sf_machineID s) (sf_sequence s) < ?v"
    using r Suc.prems(2) by (auto intro!: id_value_less simp: sf_ok_def)
  moreover have "?v div 2 ^ 12 mod 2 ^ 10 = sf_machineID s"
    using r id_value_machine [of "sf_machineID s1" "sf_sequence s1"] by (simp add: sf_ok_def)
  ultimately show ?case using vs i_s r by (intro exI [of _ "?v # vs"]) auto
qed

section \<open>Waiting ends\<close>

text \<open>The monotonic clock advances between any two readings.\<close>

definition advancing :: "reading list \<Rightarrow> bool" where
  "advancing rs \<longleftrightarrow> sorted_wrt (\<lambda>a b. rd_mono a < rd_mono b) rs"

lemma spin_total:
  assumes "advancing rs" "rs \<noteq> []" "dl - rd_mono (hd rs) + 3 \<le> k" "k \<le> int (length rs)" "1 \<le> k"
  shows "\<exists>now' e rs'. spin lag dl now rs = Some (now', e, rs') \<and> suffix rs' rs
    \<and> int (length rs) - k \<le> int (length rs')"
  using assms
proof (induction lag dl now rs arbitrary: k rule: spin.induct)
  case (1 lag dl now rs)
  obtain r rs1 where rs: "rs = r # rs1" using 1(3) by (cases rs) auto
  consider "\<not> lag now" | "lag now" "after (rd_mono r) dl" | "lag now" "\<not> after (rd_mono r) dl" by blast
  then show ?case
  proof cases
    case 1
    then show ?thesis using "1.prems"(5)
      by (intro exI [of _ now] exI [of _ False] exI [of _ rs]) (simp add: spin.simps [of lag dl now])
  next
    case 2
    then show ?thesis using "1.prems" rs by (auto simp: spin.simps [of lag dl now] suffix_Cons)
  next
    case 3
    then have "3 \<le> k" using "1.prems" rs by (simp add: go_simps)
    then obtain r2 r3 rs2 where rs1: "rs1 = r2 # r3 # rs2" using "1.prems"(4) rs
      by (cases rs1; cases "tl rs1") auto
    have adv: "advancing (r3 # rs2)" "rd_mono r + 2 \<le> rd_mono r3"
      using "1.prems"(1) rs rs1 by (auto simp: advancing_def)
    from "1.IH" [of r rs1 r2 "r3 # rs2" "k - 2"] "1.prems"(3,4) 3 rs rs1 adv \<open>3 \<le> k\<close>
    obtain now' e rs' where "spin lag dl (UnixMilli r2) (r3 # rs2) = Some (now', e, rs')"
      "suffix rs' (r3 # rs2)" "int (length (r3 # rs2)) - (k - 2) \<le> int (length rs')" by auto
    then show ?thesis using 3 rs rs1 by (auto simp: spin.simps [of lag dl now] suffix_Cons)
  qed
qed

lemma advancing_suffix: "advancing rs \<Longrightarrow> suffix rs' rs \<Longrightarrow> advancing rs'"
  by (auto simp: advancing_def suffix_def sorted_wrt_append)

text \<open>A wait of ten milliseconds takes at most this many readings.\<close>

abbreviation waitReadings :: int where "waitReadings \<equiv> 10 * millisecond + 4"

lemma spin10ms_total:
  assumes "advancing rs" "waitReadings \<le> int (length rs)"
  shows "\<exists>now' e rs'. spin10ms lag now rs = Some (now', e, rs') \<and> suffix rs' rs
    \<and> int (length rs) - waitReadings \<le> int (length rs')"
proof -
  obtain d r rs1 where rs: "rs = d # r # rs1" using assms(2) by (cases rs; cases "tl rs") auto
  have "advancing (r # rs1)" "rd_mono d < rd_mono r" using assms(1) rs by (auto simp: advancing_def)
  with spin_total [of "r # rs1" "rd_mono d + 10 * millisecond" "waitReadings - 1" lag now] assms(2) rs
  show ?thesis by (auto simp: spin10ms_def suffix_Cons)
qed

lemma catchUp_total:
  assumes "advancing rs" "waitReadings \<le> int (length rs)"
  shows "\<exists>now' rs'. catchUp s now rs = Some (now', rs') \<and> suffix rs' rs
    \<and> int (length rs) - waitReadings \<le> int (length rs')"
  using spin10ms_total [OF assms, of "\<lambda>n. n < sf_lastTime s" now] by (auto simp: catchUp_def)

lemma nextSequence_total:
  assumes "advancing rs" "waitReadings \<le> int (length rs)"
  shows "\<exists>r. nextSequence s now rs = Some r"
  using spin10ms_total [OF assms, of "\<lambda>n. n \<le> sf_lastTime s" now] by (auto simp: nextSequence_def Let_def)

section \<open>Properties\<close>

text \<open>
  Claim C32. \<^verbatim>\<open>Generate\<close> never repeats an identifier, whatever the wall clock does: over any run of one
  generator, with the clock past the custom epoch and the timestamps within 41 bits, the
  identifiers are the decimal forms of strictly increasing numbers, each carrying the machine id
  in its ten bits, hence pairwise distinct and distinct from those of another machine.
\<close>

theorem generateMany_unique:
  assumes "generateMany n s rs = Some (ids, s', rs')" "sf_ok s" "clock_ok rs"
    and "sf_lastTime s' < snowflakeEpoch + 2 ^ 41"
  shows "\<exists>vs. ids = map show_int vs \<and> length vs = n \<and> sorted_wrt (<) vs \<and> distinct ids
     \<and> (\<forall>v \<in> set vs. v div 2 ^ 12 mod 2 ^ 10 = sf_machineID s)"
proof -
  obtain vs where vs: "ids = map show_int vs" "length vs = n" "sorted_wrt (<) vs"
    "\<forall>v \<in> set vs. v div 2 ^ 12 mod 2 ^ 10 = sf_machineID s"
    using generateMany_values [OF assms] by auto
  then have "distinct vs" by (simp add: strict_sorted_iff)
  with vs show ?thesis by (auto simp: distinct_map inj_on_def show_int_inj)
qed

definition stuckClock :: "reading list" where
  "stuckClock = map (\<lambda>w. \<lparr>rd_wall = w * millisecond, rd_mono = 0\<rparr>)
     [snowflakeEpoch + 7, snowflakeEpoch + 7, snowflakeEpoch + 8]"

theorem generateMany_unique_witness:
  "\<exists>vs s' rs'. generateMany 3 \<lparr>sf_machineID = 5, sf_sequence = 0, sf_lastTime = 0\<rparr> stuckClock
       = Some (map show_int vs, s', rs') \<and> length vs = 3 \<and> distinct vs"
proof -
  let ?s = "\<lparr>sf_machineID = 5, sf_sequence = 0, sf_lastTime = 0\<rparr>"
  have ok: "sf_ok ?s" "clock_ok stuckClock" by (simp_all add: sf_ok_def clock_ok_def stuckClock_def UnixMilli_def)
  let ?i = "\<lambda>t q. show_int (sint (snowflakeID t 5 q))"
  let ?t = "\<lambda>t q. \<lparr>sf_machineID = 5, sf_sequence = q, sf_lastTime = t\<rparr>"
  have step: "Generate ?s stuckClock = Some (?i 1700000000007 0, ?t 1700000000007 0, tl stuckClock)"
    "Generate (?t 1700000000007 0) (tl stuckClock) =
       Some (?i 1700000000007 1, ?t 1700000000007 1, tl (tl stuckClock))"
    "Generate (?t 1700000000007 1) (tl (tl stuckClock)) =
       Some (?i 1700000000008 0, ?t 1700000000008 0, [])"
    by (simp_all add: stuckClock_def Generate_def catchUp_def nextSequence_def UnixMilli_def)
  obtain ids s' rs' where g: "generateMany 3 ?s stuckClock = Some (ids, s', rs')"
    and t: "sf_lastTime s' = snowflakeEpoch + 8"
    by (simp add: eval_nat_numeral step)
  from generateMany_unique [OF g ok] t obtain vs where "ids = map show_int vs" "length vs = 3" "sorted_wrt (<) vs"
    by auto
  with g show ?thesis by (auto simp: strict_sorted_iff)
qed

text \<open>
  \<^verbatim>\<open>Generate\<close> returns: both of its waiting loops end after at most ten milliseconds of the
  monotonic clock, so twice \<^term>\<open>waitReadings\<close> readings and one more are enough for one call, even
  when the wall clock stands still or runs backwards.
\<close>

theorem Generate_returns:
  assumes "advancing rs" "2 * waitReadings + 1 \<le> int (length rs)"
  shows "\<exists>i s' rs'. Generate s rs = Some (i, s', rs')"
proof -
  obtain r rs0 where rs: "rs = r # rs0" using assms(2) by (cases rs) auto
  have a: "advancing rs0" using assms(1) rs by (auto simp: advancing_def)
  obtain now rs1 where c: "catchUp s (UnixMilli r) rs0 = Some (now, rs1)" and s1: "suffix rs1 rs0"
    and l: "int (length rs0) - waitReadings \<le> int (length rs1)"
    using catchUp_total [OF a, of s "UnixMilli r"] assms(2) rs by auto
  from nextSequence_total [OF advancing_suffix [OF a s1], of s now] l assms(2) rs c show ?thesis
    by (auto simp: Generate_def Let_def)
qed

theorem Generate_returns_witness:
  "\<exists>i s' rs'. Generate \<lparr>sf_machineID = 1, sf_sequence = maxSequence, sf_lastTime = 9\<rparr>
     (map (\<lambda>n. \<lparr>rd_wall = 0, rd_mono = int n\<rparr>) [0..<20000100]) = Some (i, s', rs')"
  by (rule Generate_returns) (auto simp: advancing_def sorted_wrt_map simp del: upt_rec_numeral)

end
