(* ===== verification/Core_Life.thy ===== *)
theory Core_Life
  imports Core_Init Metrics_Alert Nuts_ID
begin

text \<open>
  The rest of \<^verbatim>\<open>New\<close> that reads the configuration, and \<^verbatim>\<open>Start\<close>, \<^verbatim>\<open>Stop\<close> and \<^verbatim>\<open>Health\<close> of the core (\<^verbatim>\<open>src/pkg/core/core.go\<close>). The parts'
  own \<^verbatim>\<open>Start\<close>, \<^verbatim>\<open>Stop\<close> and \<^verbatim>\<open>Health\<close> are arguments that give their errors; what is recorded is which part is started or stopped, in order.
\<close>

section \<open>Generators and alerts\<close>

text \<open>The default generator after \<^verbatim>\<open>initIDGenerator\<close>: an error leaves the one before. A nil map reads as an empty one.\<close>

definition initIDGenerator :: "(string \<rightharpoonup> id_creator) \<Rightarrow> TOMLConfigManager \<Rightarrow> IDGenerator \<Rightarrow> IDGenerator" where
  "initIDGenerator f cfg g =
     (case IDFactory_Create f (case Config_GetMap cfg ''id'' of None \<Rightarrow> [] | Some m \<Rightarrow> m) of Inl _ \<Rightarrow> g | Inr generator \<Rightarrow> generator)"

definition floatOr :: "TOMLConfigManager \<Rightarrow> string \<Rightarrow> rat \<Rightarrow> rat" where
  "floatOr cfg key d = (case Config_Get cfg key of Some (VFloat f) \<Rightarrow> if f > 0 then f else d | _ \<Rightarrow> d)"

definition secondsOr :: "TOMLConfigManager \<Rightarrow> string \<Rightarrow> duration \<Rightarrow> duration" where
  "secondsOr cfg key d = (let v = Config_GetInt cfg key in if v > 0 then v * second else d)"

text \<open>The alert decorator of \<^verbatim>\<open>initMetrics\<close> around the recorder \<open>inner\<close>, when it is enabled.\<close>

definition initAlerts :: "TOMLConfigManager \<Rightarrow> MetricsRecorder \<Rightarrow> AlertMetrics option" where
  "initAlerts cfg inner =
     (if Config_GetBool cfg ''metrics.alert.enabled''
      then (let d = DefaultAlertConfig;
                alertCfg = d\<lparr>TimeoutRateThreshold := floatOr cfg ''metrics.alert.timeout_rate_threshold'' (TimeoutRateThreshold d),
                  ErrorRateThreshold := floatOr cfg ''metrics.alert.error_rate_threshold'' (ErrorRateThreshold d),
                  WindowSize := secondsOr cfg ''metrics.alert.window_size_seconds'' (WindowSize d),
                  CheckInterval := secondsOr cfg ''metrics.alert.check_interval_seconds'' (CheckInterval d)\<rparr>
            in Some (NewAlertMetrics inner alertCfg))
      else None)"

text \<open>
  A threshold is used only when the document has it as a positive float; one written as an integer, which the TOML library decodes to
  \<^verbatim>\<open>int64\<close>, leaves the default.
\<close>

lemma integer_threshold_ignored:
  "Config_Get cfg key = Some (VInt64 n) \<Longrightarrow> floatOr cfg key d = d"
  by (simp add: floatOr_def)

section \<open>Start\<close>

datatype part =
  EventBusPart | TaskHandlerPart | CommandHandlerPart | TimeoutCheckerPart | PolicyEnginePart | EventProcessorPart
| DataSourcePart | HttpPart | ArchiveCleanerPart | EventLogPart | TracerPart

datatype life_event = Started part | Cancelled | Waited | StoppedPart part

record core_life =
  lf_started :: bool
  lf_stopped :: bool
  lf_events :: "life_event list"

text \<open>The parts a core may lack; the event channel is made with the data sources.\<close>

record core_parts =
  has_eventCh :: bool
  has_archiveCleaner :: bool
  has_eventLog :: bool
  has_tracer :: bool
  has_bus :: bool
  has_http :: bool
  has_datasources :: bool
  has_policyEngine :: bool

definition launch :: "part \<Rightarrow> core_life \<Rightarrow> core_life" where
  "launch p c = c\<lparr>lf_events := lf_events c @ [Started p]\<rparr>"

definition Core_Start :: "core_parts \<Rightarrow> (part \<Rightarrow> string option) \<Rightarrow> core_life \<Rightarrow> string option \<times> core_life" where
  "Core_Start ps err c =
     (if lf_started c then (None, c)
      else
        (let c = launch EventBusPart (c\<lparr>lf_started := True\<rparr>)
         in case err EventBusPart of
              Some e \<Rightarrow> (Some (''start eventbus: '' @ e), c)
            | None \<Rightarrow>
                (let c = launch PolicyEnginePart (launch TimeoutCheckerPart (launch CommandHandlerPart (launch TaskHandlerPart c)))
                 in case err PolicyEnginePart of
                      Some e \<Rightarrow> (Some (''start policy engine: '' @ e), c)
                    | None \<Rightarrow>
                        (let c = launch DataSourcePart (if has_eventCh ps then launch EventProcessorPart c else c)
                         in case err DataSourcePart of
                              Some e \<Rightarrow> (Some (''start datasource: '' @ e), c)
                            | None \<Rightarrow>
                                (let c = launch HttpPart c
                                 in case err HttpPart of
                                      Some e \<Rightarrow> (Some (''start http server: '' @ e), c)
                                    | None \<Rightarrow> (None, if has_archiveCleaner ps then launch ArchiveCleanerPart c else c))))))"

section \<open>Stop\<close>

definition halt :: "bool \<Rightarrow> part \<Rightarrow> core_life \<Rightarrow> core_life" where
  "halt present p c = (if present then c\<lparr>lf_events := lf_events c @ [StoppedPart p]\<rparr> else c)"

definition mark :: "life_event \<Rightarrow> core_life \<Rightarrow> core_life" where
  "mark ev c = c\<lparr>lf_events := lf_events c @ [ev]\<rparr>"

text \<open>The errors of the parts are logged and dropped; \<open>Waited\<close> is the bounded wait for the goroutines.\<close>

definition Core_Stop :: "core_parts \<Rightarrow> core_life \<Rightarrow> string option \<times> core_life" where
  "Core_Stop ps c =
     (if lf_stopped c then (None, c)
      else
        (let c = mark Cancelled (c\<lparr>lf_stopped := True\<rparr>);
             c = halt (has_bus ps) EventBusPart c;
             c = halt (has_tracer ps) TracerPart c;
             c = halt (has_http ps) HttpPart c;
             c = mark Waited c;
             c = halt (has_datasources ps) DataSourcePart c;
             c = halt (has_policyEngine ps) PolicyEnginePart c;
             c = halt (has_archiveCleaner ps) ArchiveCleanerPart c;
             c = halt (has_eventLog ps) EventLogPart c
         in (None, c)))"

text \<open>The bounds of the waits, in seconds.\<close>

definition shutdownTimeouts :: "TOMLConfigManager \<Rightarrow> int \<times> int \<times> int" where
  "shutdownTimeouts cfg =
     (intOr cfg ''shutdown.tracer_timeout'' 5, intOr cfg ''shutdown.http_timeout'' 5, intOr cfg ''shutdown.grace_period'' 30)"

section \<open>Health\<close>

definition Core_Health ::
  "bool \<Rightarrow> bool \<Rightarrow> bool \<Rightarrow> string option option \<Rightarrow> string option option \<Rightarrow> string option" where
  "Core_Health taskStore stateMachineEngine timeoutChecker eventBus policyEngine =
     (if \<not> taskStore then Some ''task store not initialized''
      else if \<not> stateMachineEngine then Some ''state machine engine not initialized''
      else if \<not> timeoutChecker then Some ''timeout checker not initialized''
      else case eventBus of
             Some (Some err) \<Rightarrow> Some (''eventbus: '' @ err)
           | _ \<Rightarrow> (case policyEngine of Some (Some err) \<Rightarrow> Some (''policy engine: '' @ err) | _ \<Rightarrow> None))"

section \<open>Properties\<close>

text \<open>The parts in the order of \<^verbatim>\<open>Start\<close>, and those whose error ends it.\<close>

definition startOrder :: "core_parts \<Rightarrow> part list" where
  "startOrder ps =
     [EventBusPart, TaskHandlerPart, CommandHandlerPart, TimeoutCheckerPart, PolicyEnginePart]
     @ (if has_eventCh ps then [EventProcessorPart] else []) @ [DataSourcePart, HttpPart]
     @ (if has_archiveCleaner ps then [ArchiveCleanerPart] else [])"

definition fails :: "(part \<Rightarrow> string option) \<Rightarrow> part \<Rightarrow> bool" where
  "fails err p \<longleftrightarrow> p \<in> {EventBusPart, PolicyEnginePart, DataSourcePart, HttpPart} \<and> err p \<noteq> None"

definition upToFailure :: "('a \<Rightarrow> bool) \<Rightarrow> 'a list \<Rightarrow> 'a list" where
  "upToFailure bad xs = takeWhile (\<lambda>x. \<not> bad x) xs @ take 1 (dropWhile (\<lambda>x. \<not> bad x) xs)"

lemma upToFailure_simps [simp]:
  "upToFailure bad [] = []" "upToFailure bad (x # xs) = (if bad x then [x] else x # upToFailure bad xs)"
  by (simp_all add: upToFailure_def)

lemmas start_defs = Core_Start_def launch_def startOrder_def fails_def

text \<open>
  Claim C34. \<^verbatim>\<open>Start\<close> brings the parts up in a fixed order and stops at the first one that fails: the parts started are those of the
  order up to and including the failing one, the result is an error exactly when one fails, the data sources start only after the bus, the
  handlers, the policy engine and the event processor, and nothing that was started is stopped again. A later \<^verbatim>\<open>Start\<close>
  returns without an error and starts nothing, also after a failed one.
\<close>

theorem start_in_order:
  assumes "\<not> lf_started c" "Core_Start ps err c = (r, c')"
  shows "lf_events c' = lf_events c @ map Started (upToFailure (fails err) (startOrder ps))
     \<and> (r = None \<longleftrightarrow> \<not> list_ex (fails err) (startOrder ps))
     \<and> lf_started c' \<and> Core_Start ps err' c' = (None, c')"
  using assms
  by (cases "err EventBusPart"; cases "err PolicyEnginePart"; cases "err DataSourcePart"; cases "err HttpPart")
     (auto simp: start_defs Let_def)

definition newLife :: core_life where
  "newLife = \<lparr>lf_started = False, lf_stopped = False, lf_events = []\<rparr>"

definition fullCore :: core_parts where
  "fullCore = \<lparr>has_eventCh = True, has_archiveCleaner = True, has_eventLog = True, has_tracer = False, has_bus = True, has_http = True,
     has_datasources = True, has_policyEngine = True\<rparr>"

definition badSource :: "part \<Rightarrow> string option" where
  "badSource p = (if p = DataSourcePart then Some ''refused'' else None)"

theorem start_in_order_witness:
  "let (r, c') = Core_Start fullCore badSource newLife in
     r = Some ''start datasource: refused'' \<and> Started DataSourcePart \<in> set (lf_events c') \<and> Started HttpPart \<notin> set (lf_events c')
     \<and> Core_Start fullCore Map.empty c' = (None, c')"
proof -
  have r: "Core_Start fullCore badSource newLife = (Some ''start datasource: refused'', snd (Core_Start fullCore badSource newLife))"
    by (simp add: start_defs badSource_def newLife_def fullCore_def)
  have n: "\<not> lf_started newLife" by (simp add: newLife_def)
  have "upToFailure (fails badSource) (startOrder fullCore) = [EventBusPart, TaskHandlerPart, CommandHandlerPart, TimeoutCheckerPart,
      PolicyEnginePart, EventProcessorPart, DataSourcePart]"
    by (simp add: startOrder_def fullCore_def fails_def badSource_def)
  with start_in_order [OF n r, of Map.empty] show ?thesis
    by (subst r) (simp add: newLife_def)
qed

text \<open>
  The consumers are up before anything is delivered: whenever the data sources have been started, the parts that take what they deliver were
  started before.
\<close>

lemma sources_start_last:
  assumes "\<not> lf_started c" "lf_events c = []" "Core_Start ps err c = (r, c')" "lf_events c' = xs @ Started DataSourcePart # ys"
    and "has_eventCh ps"
  shows "{Started EventBusPart, Started TaskHandlerPart, Started PolicyEnginePart, Started EventProcessorPart} \<subseteq> set xs"
  using assms
  by (cases "err EventBusPart"; cases "err PolicyEnginePart"; cases "err DataSourcePart"; cases "err HttpPart")
     (auto simp: start_defs Let_def Cons_eq_append_conv split: if_splits)

text \<open>
  \<^verbatim>\<open>Stop\<close> runs once and never fails; it cancels first, closes the bus and the HTTP server before it waits for the goroutines, and closes
  the sources, the engine and the logs after.
\<close>

definition present :: "(bool \<times> part) list \<Rightarrow> part list" where
  "present xs = concat (map (\<lambda>(b, p). if b then [p] else []) xs)"

lemma halt_simps [simp]:
  "lf_events (halt b p c) = lf_events c @ map StoppedPart (if b then [p] else [])" "lf_stopped (halt b p c) = lf_stopped c"
  by (simp_all add: halt_def)

lemma mark_simps [simp]: "lf_events (mark ev c) = lf_events c @ [ev]" "lf_stopped (mark ev c) = lf_stopped c"
  by (simp_all add: mark_def)

lemma stop_once:
  assumes "\<not> lf_stopped c" "Core_Stop ps c = (r, c')"
  shows "r = None"
    "lf_events c' = lf_events c
       @ Cancelled # map StoppedPart (present [(has_bus ps, EventBusPart), (has_tracer ps, TracerPart), (has_http ps, HttpPart)])
       @ Waited # map StoppedPart (present [(has_datasources ps, DataSourcePart), (has_policyEngine ps, PolicyEnginePart),
           (has_archiveCleaner ps, ArchiveCleanerPart), (has_eventLog ps, EventLogPart)])"
    "Core_Stop ps c' = (None, c')"
proof -
  have c': "r = None" "lf_stopped c'" using assms by (auto simp: Core_Stop_def Let_def)
  then show "r = None" "Core_Stop ps c' = (None, c')" by (simp_all add: Core_Stop_def)
  show "lf_events c' = lf_events c
       @ Cancelled # map StoppedPart (present [(has_bus ps, EventBusPart), (has_tracer ps, TracerPart), (has_http ps, HttpPart)])
       @ Waited # map StoppedPart (present [(has_datasources ps, DataSourcePart), (has_policyEngine ps, PolicyEnginePart),
           (has_archiveCleaner ps, ArchiveCleanerPart), (has_eventLog ps, EventLogPart)])"
    using assms by (auto simp: Core_Stop_def Let_def present_def simp del: if_image_distrib split del: if_split)
qed

text \<open>An unknown log type with a retention starts a cleaner although there is no log.\<close>

lemma cleaner_without_log:
  assumes "Config_GetString cfg ''eventlog.type'' \<notin> {'''', ''disabled'', ''memory'', ''db''}" "0 < Config_GetInt cfg ''eventlog.retention_hours''"
  shows "fst (initEventLog B create parse cfg) = LogDisabled \<and> snd (initEventLog B create parse cfg) \<noteq> None"
  using assms by (simp add: initEventLog_def startCleaner_def Let_def)

end
