(* ===== verification/DS_Buffer.thy ===== *)
theory DS_Buffer
  imports DS_Manager "HOL-Library.Sublist"
begin

text \<open>
  The buffered data source (\<^verbatim>\<open>src/pkg/datasource/buffered.go\<close>): a ring buffer between a source and the event
  channel, with three policies for a full buffer. The element type stands for the pointer to an event; a
  nil pointer, which only a closed input channel produces, is left out. The two goroutines (one fills the
  buffer, one empties it) are steps that interleave freely.
\<close>

section \<open>The ring buffer\<close>

record 'e RingBuffer =
  ring_data :: "'e option list"
  ring_head :: nat
  ring_tail :: nat
  ring_size :: nat
  ring_cap :: nat

definition NewRingBuffer :: "nat \<Rightarrow> 'e RingBuffer" where
  "NewRingBuffer capacity = \<lparr>ring_data = replicate capacity None, ring_head = 0, ring_tail = 0, ring_size = 0, ring_cap = capacity\<rparr>"

text \<open>
  The result is the named result \<^verbatim>\<open>dropped\<close>. The evicted event is assigned to it, but the final \<^verbatim>\<open>return nil\<close>
  overwrites it.
\<close>

definition ring_Push :: "'e \<Rightarrow> 'e RingBuffer \<Rightarrow> 'e option \<times> 'e RingBuffer" where
  "ring_Push event rb =
     (if ring_size rb = ring_cap rb \<and> ring_cap rb = 0 then (Some event, rb)
      else
        (let rb = (if ring_size rb = ring_cap rb
                   then rb\<lparr>ring_head := (ring_head rb + 1) mod ring_cap rb, ring_size := ring_size rb - 1\<rparr>
                   else rb)
         in (None, rb\<lparr>ring_data := (ring_data rb)[ring_tail rb := Some event],
                      ring_tail := (ring_tail rb + 1) mod ring_cap rb, ring_size := ring_size rb + 1\<rparr>)))"

definition ring_Pop :: "'e RingBuffer \<Rightarrow> 'e option \<times> 'e RingBuffer" where
  "ring_Pop rb =
     (if ring_size rb = 0 then (None, rb)
      else (ring_data rb ! ring_head rb,
            rb\<lparr>ring_head := (ring_head rb + 1) mod ring_cap rb, ring_size := ring_size rb - 1\<rparr>))"

definition ring_IsFull :: "'e RingBuffer \<Rightarrow> bool" where
  "ring_IsFull rb \<longleftrightarrow> ring_size rb = ring_cap rb"

text \<open>The abstraction: the buffer is a queue.\<close>

definition ring_at :: "'e RingBuffer \<Rightarrow> nat \<Rightarrow> 'e option" where
  "ring_at rb i = ring_data rb ! ((ring_head rb + i) mod ring_cap rb)"

definition ring_rep :: "'e RingBuffer \<Rightarrow> 'e list \<Rightarrow> bool" where
  "ring_rep rb q \<longleftrightarrow> 0 < ring_cap rb \<and> length (ring_data rb) = ring_cap rb \<and> ring_head rb < ring_cap rb
     \<and> ring_size rb = length q \<and> length q \<le> ring_cap rb \<and> ring_tail rb = (ring_head rb + length q) mod ring_cap rb
     \<and> (\<forall>i < length q. ring_at rb i = Some (q ! i))"

lemma new_ring: "0 < n \<Longrightarrow> ring_rep (NewRingBuffer n) []"
  by (simp add: ring_rep_def NewRingBuffer_def)

lemma wrap: "h < n \<Longrightarrow> i \<le> n \<Longrightarrow> (h + i) mod n = (if h + i < n then h + i else h + i - (n :: nat))"
  by (auto simp: not_less le_mod_geq)

lemma ring_drop:
  assumes "ring_rep rb (x # q)"
  shows "ring_rep (rb\<lparr>ring_head := (ring_head rb + 1) mod ring_cap rb, ring_size := ring_size rb - 1\<rparr>) q"
    "ring_data rb ! ring_head rb = Some x"
proof -
  let ?n = "ring_cap rb" and ?h = "ring_head rb"
  have r: "0 < ?n" "length (ring_data rb) = ?n" "?h < ?n" "ring_size rb = Suc (length q)" "Suc (length q) \<le> ?n"
    "ring_tail rb = (?h + Suc (length q)) mod ?n" "\<forall>i < Suc (length q). ring_at rb i = Some ((x # q) ! i)"
    using assms by (simp_all add: ring_rep_def)
  have shift: "((?h + 1) mod ?n + i) mod ?n = (?h + Suc i) mod ?n" for i by (simp add: mod_simps)
  have "ring_data rb ! ((?h + Suc i) mod ?n) = Some (q ! i)" if "i < length q" for i
    using r(7) that by (auto simp: ring_at_def dest: spec [of _ "Suc i"])
  then show "ring_rep (rb\<lparr>ring_head := (?h + 1) mod ?n, ring_size := ring_size rb - 1\<rparr>) q"
    using r(1-6) shift by (simp add: ring_rep_def ring_at_def)
  show "ring_data rb ! ?h = Some x" using r(3,7) by (auto simp: ring_at_def dest: spec [of _ 0])
qed

lemma ring_add:
  assumes "ring_rep rb q" "length q < ring_cap rb"
  shows "ring_rep (rb\<lparr>ring_data := (ring_data rb)[ring_tail rb := Some x], ring_tail := (ring_tail rb + 1) mod ring_cap rb,
    ring_size := ring_size rb + 1\<rparr>) (q @ [x])"
proof -
  let ?n = "ring_cap rb" and ?h = "ring_head rb" and ?t = "ring_tail rb"
  have r: "0 < ?n" "length (ring_data rb) = ?n" "?h < ?n" "ring_size rb = length q"
    "?t = (?h + length q) mod ?n" "\<forall>i < length q. ring_at rb i = Some (q ! i)"
    using assms by (simp_all add: ring_rep_def)
  have "(ring_data rb)[?t := Some x] ! ((?h + i) mod ?n) = Some ((q @ [x]) ! i)" if i: "i < Suc (length q)" for i
  proof (cases "i = length q")
    case True
    then show ?thesis using r(1,2,5) by (simp add: nth_append)
  next
    case False
    then have "(?h + i) mod ?n \<noteq> ?t" using i assms(2) r(3) unfolding r(5) by (auto simp: wrap)
    then show ?thesis using False i r(6) by (simp add: ring_at_def nth_append)
  qed
  moreover have "(?t + 1) mod ?n = (?h + Suc (length q)) mod ?n" unfolding r(5) by (simp add: mod_simps)
  ultimately show ?thesis using r(1-4) assms(2) by (simp add: ring_rep_def ring_at_def)
qed

lemma ring_Push_rep:
  assumes "ring_rep rb q"
  shows "\<exists>rb'. ring_Push x rb = (None, rb') \<and> ring_cap rb' = ring_cap rb
    \<and> ring_rep rb' ((if length q < ring_cap rb then q else tl q) @ [x])"
proof (cases "length q < ring_cap rb")
  case True
  let ?r = "rb\<lparr>ring_data := (ring_data rb)[ring_tail rb := Some x], ring_tail := (ring_tail rb + 1) mod ring_cap rb, ring_size := ring_size rb + 1\<rparr>"
  have "ring_size rb \<noteq> ring_cap rb" using assms True by (simp add: ring_rep_def)
  then have p: "ring_Push x rb = (None, ?r)" by (simp add: ring_Push_def)
  have c: "ring_cap ?r = ring_cap rb" by simp
  show ?thesis unfolding if_P [OF True] by (rule exI [of _ ?r], rule conjI [OF p conjI [OF c ring_add [OF assms True]]])
next
  case False
  then obtain y r where q: "q = y # r" using assms by (cases q) (auto simp: ring_rep_def)
  let ?d = "rb\<lparr>ring_head := (ring_head rb + 1) mod ring_cap rb, ring_size := ring_size rb - 1\<rparr>"
  have d: "ring_rep ?d r" by (rule ring_drop(1) [OF assms [unfolded q]])
  have full: "ring_size rb = ring_cap rb" "ring_cap rb \<noteq> 0" "length r < ring_cap ?d" using assms False q by (auto simp: ring_rep_def)
  let ?r = "?d\<lparr>ring_data := (ring_data ?d)[ring_tail ?d := Some x], ring_tail := (ring_tail ?d + 1) mod ring_cap ?d, ring_size := ring_size ?d + 1\<rparr>"
  have p: "ring_Push x rb = (None, ?r)" using full(1,2) by (simp add: ring_Push_def)
  have c: "ring_cap ?r = ring_cap rb" by simp
  show ?thesis unfolding if_not_P [OF False] unfolding q list.sel by (rule exI [of _ ?r], rule conjI [OF p conjI [OF c ring_add [OF d full(3)]]])
qed

lemma ring_Pop_rep:
  assumes "ring_rep rb q"
  shows "\<exists>rb'. ring_Pop rb = ((case q of [] \<Rightarrow> None | x # _ \<Rightarrow> Some x), rb') \<and> ring_cap rb' = ring_cap rb \<and> ring_rep rb' (tl q)"
proof (cases q)
  case Nil
  then show ?thesis using assms by (simp add: ring_Pop_def ring_rep_def)
next
  case (Cons x r)
  then have "ring_size rb \<noteq> 0" using assms by (simp add: ring_rep_def)
  with ring_drop [of rb x r] assms Cons show ?thesis by (simp add: ring_Pop_def)
qed

section \<open>The buffered source\<close>

datatype DropPolicy = DropOldest | DropNewest | Block

record BufferStats =
  bs_BufferedEvents :: int
  bs_DroppedEvents :: int
  bs_ProcessedEvents :: int
  bs_FullCount :: int

text \<open>\<open>bds_out\<close> is what was sent to the event channel so far.\<close>

record 'e BufferedDataSource =
  bds_bufferSize :: nat
  bds_dropPolicy :: DropPolicy
  bds_buffer :: "'e RingBuffer"
  bds_stats :: BufferStats
  bds_out :: "'e list"

definition NewBufferedDataSource :: "nat \<Rightarrow> DropPolicy \<Rightarrow> 'e BufferedDataSource" where
  "NewBufferedDataSource bufferSize dropPolicy =
     \<lparr>bds_bufferSize = bufferSize, bds_dropPolicy = dropPolicy, bds_buffer = NewRingBuffer bufferSize,
      bds_stats = \<lparr>bs_BufferedEvents = 0, bs_DroppedEvents = 0, bs_ProcessedEvents = 0, bs_FullCount = 0\<rparr>, bds_out = []\<rparr>"

definition countBuffered :: "'e BufferedDataSource \<Rightarrow> 'e BufferedDataSource" where
  "countBuffered b = b\<lparr>bds_stats := (bds_stats b)\<lparr>bs_BufferedEvents := bs_BufferedEvents (bds_stats b) + 1\<rparr>\<rparr>"

definition countDropped :: "'e BufferedDataSource \<Rightarrow> 'e BufferedDataSource" where
  "countDropped b = b\<lparr>bds_stats := (bds_stats b)\<lparr>bs_DroppedEvents := bs_DroppedEvents (bds_stats b) + 1\<rparr>\<rparr>"

definition countFull :: "nat \<Rightarrow> 'e BufferedDataSource \<Rightarrow> 'e BufferedDataSource" where
  "countFull currentSize b =
     (if currentSize = bds_bufferSize b
      then b\<lparr>bds_stats := (bds_stats b)\<lparr>bs_FullCount := bs_FullCount (bds_stats b) + 1\<rparr>\<rparr> else b)"

text \<open>
  One round of \<^verbatim>\<open>bufferEvents\<close>. Under \<^term>\<open>Block\<close> and with a full buffer the round waits: it is not enabled
  (\<^term>\<open>None\<close>) until the other goroutine has taken an event. A dropped newest event skips the count of full
  buffers.
\<close>

definition bufferEvent :: "'e \<Rightarrow> 'e BufferedDataSource \<Rightarrow> 'e BufferedDataSource option" where
  "bufferEvent event b =
     (let currentSize = ring_size (bds_buffer b)
      in case bds_dropPolicy b of
           DropOldest \<Rightarrow>
             (case ring_Push event (bds_buffer b) of (dropped, rb) \<Rightarrow>
                let b = b\<lparr>bds_buffer := rb\<rparr>;
                    b = (if dropped \<noteq> None then countDropped b else b)
                in Some (countFull currentSize (countBuffered b)))
         | DropNewest \<Rightarrow>
             if ring_IsFull (bds_buffer b) then Some (countDropped b)
             else Some (countFull currentSize (countBuffered (b\<lparr>bds_buffer := snd (ring_Push event (bds_buffer b))\<rparr>)))
         | Block \<Rightarrow>
             if ring_IsFull (bds_buffer b) then None
             else Some (countFull currentSize (countBuffered (b\<lparr>bds_buffer := snd (ring_Push event (bds_buffer b))\<rparr>))))"

text \<open>One event of \<^verbatim>\<open>flushEvents\<close>, which repeats it until the buffer is empty.\<close>

definition flushEvent :: "'e BufferedDataSource \<Rightarrow> 'e BufferedDataSource" where
  "flushEvent b =
     (case ring_Pop (bds_buffer b) of
        (None, rb) \<Rightarrow> b\<lparr>bds_buffer := rb\<rparr>
      | (Some event, rb) \<Rightarrow>
          b\<lparr>bds_buffer := rb, bds_out := bds_out b @ [event],
            bds_stats := (bds_stats b)\<lparr>bs_ProcessedEvents := bs_ProcessedEvents (bds_stats b) + 1\<rparr>\<rparr>)"

text \<open>A run of the two goroutines: the events received and the resulting state.\<close>

inductive buffer_run :: "'e BufferedDataSource \<Rightarrow> 'e list \<Rightarrow> 'e BufferedDataSource \<Rightarrow> bool" where
  start: "buffer_run b [] b"
| receive: "buffer_run b xs b' \<Longrightarrow> bufferEvent x b' = Some b'' \<Longrightarrow> buffer_run b (xs @ [x]) b''"
| flush: "buffer_run b xs b' \<Longrightarrow> buffer_run b xs (flushEvent b')"

section \<open>What reaches the channel\<close>

text \<open>The queue content after a run, and the statistics, by policy.\<close>

definition buffer_inv :: "nat \<Rightarrow> DropPolicy \<Rightarrow> 'e list \<Rightarrow> 'e list \<Rightarrow> 'e BufferedDataSource \<Rightarrow> bool" where
  "buffer_inv n policy xs q b \<longleftrightarrow> bds_bufferSize b = n \<and> bds_dropPolicy b = policy \<and> ring_cap (bds_buffer b) = n
     \<and> ring_rep (bds_buffer b) q
     \<and> subseq (bds_out b @ q) xs \<and> (policy = Block \<longrightarrow> bds_out b @ q = xs)
     \<and> bs_ProcessedEvents (bds_stats b) = int (length (bds_out b))
     \<and> bs_BufferedEvents (bds_stats b) + (if policy = DropNewest then bs_DroppedEvents (bds_stats b) else 0) = int (length xs)
     \<and> (policy \<noteq> DropNewest \<longrightarrow> bs_DroppedEvents (bds_stats b) = 0)
     \<and> (policy = DropNewest \<longrightarrow> bs_BufferedEvents (bds_stats b) = int (length (bds_out b @ q)))
     \<and> (policy = DropOldest \<longrightarrow> suffix q xs)"

lemma count_simps [simp]:
  "bds_buffer (countBuffered b) = bds_buffer b" "bds_buffer (countDropped b) = bds_buffer b" "bds_buffer (countFull k b) = bds_buffer b"
  "bds_out (countBuffered b) = bds_out b" "bds_out (countDropped b) = bds_out b" "bds_out (countFull k b) = bds_out b"
  "bds_bufferSize (countBuffered b) = bds_bufferSize b" "bds_bufferSize (countDropped b) = bds_bufferSize b" "bds_bufferSize (countFull k b) = bds_bufferSize b"
  "bds_dropPolicy (countBuffered b) = bds_dropPolicy b" "bds_dropPolicy (countDropped b) = bds_dropPolicy b" "bds_dropPolicy (countFull k b) = bds_dropPolicy b"
  "bs_ProcessedEvents (bds_stats (countBuffered b)) = bs_ProcessedEvents (bds_stats b)" "bs_ProcessedEvents (bds_stats (countDropped b)) = bs_ProcessedEvents (bds_stats b)"
  "bs_ProcessedEvents (bds_stats (countFull k b)) = bs_ProcessedEvents (bds_stats b)"
  "bs_BufferedEvents (bds_stats (countBuffered b)) = bs_BufferedEvents (bds_stats b) + 1" "bs_BufferedEvents (bds_stats (countDropped b)) = bs_BufferedEvents (bds_stats b)"
  "bs_BufferedEvents (bds_stats (countFull k b)) = bs_BufferedEvents (bds_stats b)"
  "bs_DroppedEvents (bds_stats (countBuffered b)) = bs_DroppedEvents (bds_stats b)" "bs_DroppedEvents (bds_stats (countDropped b)) = bs_DroppedEvents (bds_stats b) + 1"
  "bs_DroppedEvents (bds_stats (countFull k b)) = bs_DroppedEvents (bds_stats b)"
  by (simp_all add: countBuffered_def countDropped_def countFull_def)

lemma new_inv: "0 < n \<Longrightarrow> buffer_inv n policy [] [] (NewBufferedDataSource n policy)"
  using new_ring [of n] by (simp add: buffer_inv_def NewBufferedDataSource_def) (simp add: NewRingBuffer_def)

lemma flush_inv:
  assumes "buffer_inv n policy xs q b"
  shows "buffer_inv n policy xs (tl q) (flushEvent b)"
proof -
  have rep: "ring_rep (bds_buffer b) q" using assms by (simp add: buffer_inv_def)
  obtain rb where rb: "ring_Pop (bds_buffer b) = ((case q of [] \<Rightarrow> None | x # _ \<Rightarrow> Some x), rb)" "ring_cap rb = ring_cap (bds_buffer b)"
    "ring_rep rb (tl q)" using ring_Pop_rep [OF rep] by blast
  show ?thesis
  proof (cases q)
    case Nil
    then show ?thesis using assms rb by (auto simp: flushEvent_def buffer_inv_def)
  next
    case (Cons x r)
    then show ?thesis using assms rb by (auto simp: flushEvent_def buffer_inv_def dest: suffix_ConsD)
  qed
qed

lemma receive_inv:
  assumes inv: "buffer_inv n policy xs q b" and r: "bufferEvent x b = Some b'"
  shows "\<exists>q'. buffer_inv n policy (xs @ [x]) q' b'"
proof -
  have rep: "ring_rep (bds_buffer b) q" and cap: "ring_cap (bds_buffer b) = n" using inv by (simp_all add: buffer_inv_def)
  obtain rb where push: "ring_Push x (bds_buffer b) = (None, rb)" "ring_cap rb = n" "ring_rep rb ((if length q < n then q else tl q) @ [x])"
    using ring_Push_rep [OF rep, of x] cap by auto
  have full: "ring_IsFull (bds_buffer b) \<longleftrightarrow> \<not> length q < n" using rep cap by (auto simp: ring_IsFull_def ring_rep_def)
  show ?thesis
  proof (cases policy)
    case DropOldest
    have "b' = countFull (ring_size (bds_buffer b)) (countBuffered (b\<lparr>bds_buffer := rb\<rparr>))"
      using r inv push(1) DropOldest by (simp add: bufferEvent_def buffer_inv_def Let_def)
    moreover have "subseq (bds_out b @ tl q) (bds_out b @ q)" by (cases q) (auto intro: list_emb_append_mono)
    then have "subseq (bds_out b @ tl q) xs" using inv by (auto simp: buffer_inv_def intro: subseq_order.trans)
    moreover have "suffix (tl q) xs" using inv DropOldest by (cases q) (auto simp: buffer_inv_def dest: suffix_ConsD)
    ultimately show ?thesis using inv push DropOldest
      by (intro exI [of _ "(if length q < n then q else tl q) @ [x]"]) (auto simp: buffer_inv_def simp flip: append_assoc)
  next
    case DropNewest
    show ?thesis
    proof (cases "length q < n")
      case True
      then have "b' = countFull (ring_size (bds_buffer b)) (countBuffered (b\<lparr>bds_buffer := rb\<rparr>))"
        using r inv push(1) DropNewest full by (simp add: bufferEvent_def buffer_inv_def Let_def)
      then show ?thesis using inv push DropNewest True
        by (intro exI [of _ "q @ [x]"]) (auto simp: buffer_inv_def simp flip: append_assoc)
    next
      case False
      then have "b' = countDropped b" using r inv DropNewest full by (simp add: bufferEvent_def buffer_inv_def Let_def)
      then show ?thesis using inv DropNewest by (intro exI [of _ q]) (auto simp: buffer_inv_def subseq_snoc)
    qed
  next
    case Block
    then have lt: "length q < n" using r inv full by (auto simp: bufferEvent_def buffer_inv_def Let_def split: if_splits)
    then have "b' = countFull (ring_size (bds_buffer b)) (countBuffered (b\<lparr>bds_buffer := rb\<rparr>))"
      using r inv push(1) Block full by (simp add: bufferEvent_def buffer_inv_def Let_def)
    then show ?thesis using inv push Block lt
      by (intro exI [of _ "q @ [x]"]) (auto simp: buffer_inv_def simp flip: append_assoc)
  qed
qed

lemma run_inv:
  "buffer_run b xs b' \<Longrightarrow> b = NewBufferedDataSource n policy \<Longrightarrow> 0 < n \<Longrightarrow> \<exists>q. buffer_inv n policy xs q b'"
proof (induction rule: buffer_run.induct)
  case (start b)
  then show ?case using new_inv by blast
next
  case (receive b xs b' x b'')
  then obtain q where "buffer_inv n policy xs q b'" by blast
  from receive_inv [OF this receive.hyps(2)] show ?case .
next
  case (flush b xs b')
  then show ?case using flush_inv by blast
qed

text \<open>
  Claim C26. However the two goroutines interleave, the events that leave the buffered source are, in their order, a
  subsequence of those received; under the blocking policy none is lost: sent and still buffered events
  together are exactly those received, and a round that has to wait becomes enabled by one flush. The counters agree
  with this, except that under the policy that drops the oldest events the counter of dropped events
  stays zero however many were overwritten.
\<close>

theorem buffered_source_delivers:
  assumes "buffer_run (NewBufferedDataSource n policy) xs b" "0 < n"
  shows "\<exists>q. subseq (bds_out b @ q) xs \<and> length q \<le> n \<and> (policy = Block \<longrightarrow> bds_out b @ q = xs)
     \<and> bs_ProcessedEvents (bds_stats b) = int (length (bds_out b))
     \<and> bs_BufferedEvents (bds_stats b) + (if policy = DropNewest then bs_DroppedEvents (bds_stats b) else 0) = int (length xs)
     \<and> (policy = DropNewest \<longrightarrow> bs_DroppedEvents (bds_stats b) = int (length xs) - int (length (bds_out b @ q)))
     \<and> (policy = DropOldest \<longrightarrow> bs_DroppedEvents (bds_stats b) = 0)
     \<and> (bufferEvent x b = None \<longrightarrow> bufferEvent x (flushEvent b) \<noteq> None)"
proof -
  obtain q where inv: "buffer_inv n policy xs q b" using run_inv [OF assms(1) refl assms(2)] by blast
  have "bufferEvent x (flushEvent b) \<noteq> None" if "bufferEvent x b = None"
  proof -
    have "buffer_inv n policy xs (tl q) (flushEvent b)" by (rule flush_inv [OF inv])
    then have "ring_size (bds_buffer (flushEvent b)) < ring_cap (bds_buffer (flushEvent b)) \<or> q = []"
      using inv by (cases q) (auto simp: buffer_inv_def ring_rep_def)
    moreover have "q \<noteq> []" using that inv assms(2)
      by (auto simp: bufferEvent_def buffer_inv_def ring_IsFull_def ring_rep_def Let_def split: DropPolicy.splits if_splits prod.splits)
    ultimately show ?thesis
      by (auto simp: bufferEvent_def ring_IsFull_def Let_def split: DropPolicy.splits prod.splits)
  qed
  with inv show ?thesis by (intro exI [of _ q]) (auto simp: buffer_inv_def ring_rep_def)
qed

text \<open>Four events through a buffer of two that drops the oldest.\<close>

definition exRun :: "DropPolicy \<Rightarrow> nat BufferedDataSource" where
  "exRun policy = fold (\<lambda>x b. the (bufferEvent x b)) [1, 2, 3, 4] (NewBufferedDataSource 2 policy)"

lemma exRun_run: "buffer_run (NewBufferedDataSource 2 DropOldest) [1, 2, 3, 4] (exRun DropOldest)"
proof -
  have step: "buffer_run b (xs @ [x]) (the (bufferEvent x b'))" if "buffer_run b xs b'" "bds_dropPolicy b' = DropOldest" for b xs x and b' :: "nat BufferedDataSource"
    using receive [OF that(1), of x "the (bufferEvent x b')"] that(2) by (simp add: bufferEvent_def Let_def split: prod.split)
  have pol: "bds_dropPolicy (the (bufferEvent x b)) = DropOldest" if "bds_dropPolicy b = DropOldest" for x and b :: "nat BufferedDataSource"
    using that by (simp add: bufferEvent_def Let_def split: prod.split)
  have n: "bds_dropPolicy (NewBufferedDataSource 2 DropOldest) = DropOldest" by (simp add: NewBufferedDataSource_def)
  from step [OF step [OF step [OF step [OF start n] pol [OF n]] pol [OF pol [OF n]]] pol [OF pol [OF pol [OF n]]], of 1 2 3 4]
  show ?thesis by (simp add: exRun_def)
qed

theorem buffered_source_delivers_witness:
  "\<exists>q. subseq (bds_out (exRun DropOldest) @ q) [1, 2, 3, 4] \<and> length q \<le> 2 \<and> bs_DroppedEvents (bds_stats (exRun DropOldest)) = 0"
  using buffered_source_delivers [OF exRun_run, of 5] by auto

section \<open>Starting and stopping\<close>

text \<open>
  The wrapper starts and stops the source it wraps. A nil context makes \<^verbatim>\<open>context.WithCancel\<close> panic after the flag was
  set; the panic is given as an error.
\<close>

record ('e, 's) WrappedSource =
  ws_source :: 's
  ws_started :: bool
  ws_data :: "'e BufferedDataSource"

definition Buffered_Start :: "'s DataSource \<Rightarrow> nat option \<Rightarrow> ('e, 's) WrappedSource \<Rightarrow> string option \<times> ('e, 's) WrappedSource" where
  "Buffered_Start S ctx b =
     (if ws_started b then (None, b)
      else case ctx of
             None \<Rightarrow> (Some ''panic: cannot create context from nil parent'', b\<lparr>ws_started := True\<rparr>)
           | Some c \<Rightarrow>
               (case ds_Start S ctx (ws_source b) of
                  (Some err, s) \<Rightarrow> (Some err, b\<lparr>ws_source := s, ws_started := False\<rparr>)
                | (None, s) \<Rightarrow> (None, b\<lparr>ws_source := s, ws_started := True\<rparr>)))"

definition Buffered_Stop :: "'s DataSource \<Rightarrow> ('e, 's) WrappedSource \<Rightarrow> string option \<times> ('e, 's) WrappedSource" where
  "Buffered_Stop S b =
     (if \<not> ws_started b then (None, b)
      else case ds_Stop S (ws_source b) of (err, s) \<Rightarrow> (err, b\<lparr>ws_source := s, ws_started := False\<rparr>))"

definition bufferedSource :: "'s DataSource \<Rightarrow> ('e, 's) WrappedSource DataSource" where
  "bufferedSource S =
     \<lparr>ds_Start = Buffered_Start S, ds_Stop = Buffered_Stop S,
      ds_Health = (\<lambda>b. ds_Health S (ws_source b)), ds_GetStats = (\<lambda>b. ds_GetStats S (ws_source b))\<rparr>"

text \<open>
  The flag is cleared before the wrapped source is stopped: when that fails, a second attempt reports success and leaves
  the wrapped source as it is.
\<close>

lemma buffered_stop_not_retried:
  assumes "ds_Stop (bufferedSource S) b = (Some err, b')"
  shows "ds_Stop (bufferedSource S) b' = (None, b')"
  using assms by (auto simp: bufferedSource_def Buffered_Stop_def split: if_splits prod.splits)

text \<open>A wrapped source is started once, however often the wrapper is.\<close>

lemma buffered_start_idempotent:
  assumes "ds_Start (bufferedSource S) ctx b = (None, b')"
  shows "ds_Start (bufferedSource S) ctx' b' = (None, b')"
  using assms by (auto simp: bufferedSource_def Buffered_Start_def split: if_splits option.splits prod.splits)

end
