(* ===== verification/DS_Containerd.thy ===== *)
theory DS_Containerd
  imports DS_Sources Bus_Model
begin

text \<open>
  The containerd data source (\<^verbatim>\<open>src/pkg/datasource/containerd.go\<close>, \<^verbatim>\<open>containerd_config.go\<close>): its configuration, the filters it
  subscribes with, the conversion of the runtime's messages into events, the loop over an event stream with its counters, and the
  reconnection with its backoff. The client library is a parameter: what it delivers is a list of observations, and whether a
  client can be made is the result \<open>connect\<close>. The time and the trace id of a new event are arguments.
\<close>

section \<open>Configuration\<close>

record ContainerdConfig =
  cn_SocketPath :: string
  cn_Namespace :: string
  cn_Events :: "string list"
  cn_BufferSize :: int
  cn_StopTimeout :: int
  cn_ReconnectInitialBackoff :: int
  cn_ReconnectMaxBackoff :: int
  cn_HealthCheckInterval :: duration
  cn_ReconnectInterval :: duration

definition defaultContainerd :: ContainerdConfig where
  "defaultContainerd = \<lparr>cn_SocketPath = ''/run/containerd/containerd.sock'', cn_Namespace = ''k8s.io'',
     cn_Events = [''TaskCreate'', ''TaskStart'', ''TaskExit'', ''TaskDelete''], cn_BufferSize = 1000, cn_StopTimeout = 0,
     cn_ReconnectInitialBackoff = 0, cn_ReconnectMaxBackoff = 0, cn_HealthCheckInterval = 0, cn_ReconnectInterval = 0\<rparr>"

text \<open>The type assertions \<^verbatim>\<open>m[key].(string)\<close>, \<^verbatim>\<open>.(int)\<close> and \<^verbatim>\<open>.(int64)\<close>, with what is kept when they fail.\<close>

definition asString :: "gomap \<Rightarrow> string \<Rightarrow> string \<Rightarrow> string" where
  "asString m key d = (case map_of m key of Some (VString s) \<Rightarrow> s | _ \<Rightarrow> d)"

definition asInt :: "gomap \<Rightarrow> string \<Rightarrow> int \<Rightarrow> int" where
  "asInt m key d = (case map_of m key of Some (VInt n) \<Rightarrow> n | _ \<Rightarrow> d)"

definition asInt64 :: "gomap \<Rightarrow> string \<Rightarrow> int \<Rightarrow> int" where
  "asInt64 m key d = (case map_of m key of Some (VInt64 n) \<Rightarrow> n | _ \<Rightarrow> d)"

text \<open>A list of values; an element that is not a string stays empty.\<close>

definition asStrings :: "gomap \<Rightarrow> string \<Rightarrow> string list \<Rightarrow> string list" where
  "asStrings m key d =
     (case map_of m key of Some (VSlice vs) \<Rightarrow> map (\<lambda>v. case v of VString s \<Rightarrow> s | _ \<Rightarrow> '''') vs | _ \<Rightarrow> d)"

text \<open>\<open>unmarshal\<close> is the TOML library, which reads whole numbers as \<^verbatim>\<open>int64\<close>. The factory calls the parser with a text.\<close>

definition containerdOf :: "gomap \<Rightarrow> ContainerdConfig" where
  "containerdOf m =
     (let cfg = defaultContainerd
      in cfg\<lparr>cn_SocketPath := asString m ''socket_path'' (cn_SocketPath cfg), cn_Namespace := asString m ''namespace'' (cn_Namespace cfg),
           cn_BufferSize := asInt m ''buffer_size'' (cn_BufferSize cfg), cn_Events := asStrings m ''events'' (cn_Events cfg),
           cn_StopTimeout := asInt64 m ''stop_timeout'' (cn_StopTimeout cfg),
           cn_ReconnectInitialBackoff := asInt64 m ''reconnect_initial_backoff'' (cn_ReconnectInitialBackoff cfg),
           cn_ReconnectMaxBackoff := asInt64 m ''reconnect_max_backoff'' (cn_ReconnectMaxBackoff cfg)\<rparr>)"

definition ParseContainerdConfig :: "(string \<Rightarrow> string + gomap) \<Rightarrow> string \<Rightarrow> string + ContainerdConfig" where
  "ParseContainerdConfig unmarshal configStr =
     (case unmarshal configStr of
        Inl err \<Rightarrow> Inl (''failed to parse TOML config: '' @ err)
      | Inr m \<Rightarrow> Inr (containerdOf m))"

definition Containerd_Validate :: "ContainerdConfig \<Rightarrow> string option \<times> ContainerdConfig" where
  "Containerd_Validate c =
     (if cn_SocketPath c = '''' then (Some ''socket_path is required'', c)
      else
        (let c = (if cn_Namespace c = '''' then c\<lparr>cn_Namespace := ''k8s.io''\<rparr> else c)
         in if cn_Events c = [] then (Some ''events list cannot be empty'', c)
            else (None,
              c\<lparr>cn_BufferSize := (if cn_BufferSize c \<le> 0 then 1000 else cn_BufferSize c),
                cn_HealthCheckInterval := (if cn_HealthCheckInterval c = 0 then 30 * second else cn_HealthCheckInterval c),
                cn_ReconnectInterval := (if cn_ReconnectInterval c = 0 then 5 * second else cn_ReconnectInterval c)\<rparr>)))"

section \<open>Filters\<close>

definition topicOf :: "string \<Rightarrow> string option" where
  "topicOf eventType =
     (if eventType = ''TaskCreate'' then Some ''/tasks/create''
      else if eventType = ''TaskStart'' then Some ''/tasks/start''
      else if eventType = ''TaskExit'' then Some ''/tasks/exit''
      else if eventType = ''TaskDelete'' then Some ''/tasks/delete''
      else if eventType = ''TaskPause'' then Some ''/tasks/paused''
      else if eventType = ''TaskResume'' then Some ''/tasks/resumed''
      else if eventType = ''ContainerCreate'' then Some ''/containers/create''
      else if eventType = ''ContainerDelete'' then Some ''/containers/delete''
      else None)"

text \<open>A filter \<^verbatim>\<open>topic=="t"\<close> is kept as the topic it names.\<close>

definition buildFilters :: "ContainerdConfig \<Rightarrow> string list" where
  "buildFilters c = List.map_filter topicOf (cn_Events c)"

section \<open>Messages\<close>

text \<open>The decoded messages of the runtime; the numbers are printed in decimal.\<close>

datatype decoded =
    TaskCreate string string nat string
  | TaskStart string nat
  | TaskExit string nat nat "gotime option"
  | TaskDelete string nat nat "gotime option"
  | TaskPaused string
  | TaskResumed string
  | ContainerCreate string string "string option"
  | ContainerDelete string
  | OtherMessage

record envelope =
  env_Topic :: string
  env_Event :: "(string + decoded) option"

definition showNat :: "nat \<Rightarrow> string" where
  "showNat n = show_int (int n)"

text \<open>The event all handlers build: \<open>now1\<close> for the identifier, \<open>now2\<close> for the timestamp.\<close>

definition runtimeEvent :: "string \<Rightarrow> string \<Rightarrow> string \<Rightarrow> gotime \<Rightarrow> gotime \<Rightarrow> string \<Rightarrow> string \<Rightarrow> PodEventPayload \<Rightarrow> Event" where
  "runtimeEvent traceID idPrefix ident now1 now2 eventType source pod =
     \<lparr>ev_ID = idPrefix @ ident @ ''-'' @ show_int now1, ev_Type = eventType, ev_Topic = eventType, ev_Timestamp = now2, ev_TraceID = traceID,
      ev_Source = source, ev_Version = '''', ev_TypedPayload = Some (Event_Pod (Some pod)), ev_Payload = None,
      ev_Ctx = ContextWithTraceID (Some None) traceID\<rparr>"

definition extensionsPod :: "strmap \<Rightarrow> PodEventPayload" where
  "extensionsPod ext =
     \<lparr>pod_PodName = '''', pod_PodNamespace = '''', pod_PodUid = '''', pod_PodId = '''', pod_Labels = None, pod_Extensions = Some ext\<rparr>"

abbreviation (input) containerdEvent :: "string \<Rightarrow> gotime \<Rightarrow> gotime \<Rightarrow> string \<Rightarrow> string \<Rightarrow> string \<Rightarrow> strmap \<Rightarrow> Event" where
  "containerdEvent traceID now1 now2 idPrefix ident eventType ext \<equiv>
     runtimeEvent traceID idPrefix ident now1 now2 eventType ''containerd'' (extensionsPod ext)"

definition handleTaskCreate :: "string \<Rightarrow> gotime \<Rightarrow> gotime \<Rightarrow> decoded \<Rightarrow> Event option" where
  "handleTaskCreate tr n1 n2 d =
     (case d of
        TaskCreate i bundle pid checkpoint \<Rightarrow>
          Some (containerdEvent tr n1 n2 ''containerd-task-create-'' i ''TaskCreate''
            ([(''container_id'', i), (''bundle'', bundle), (''pid'', showNat pid)] @ (if checkpoint \<noteq> '''' then [(''checkpoint'', checkpoint)] else [])))
      | _ \<Rightarrow> None)"

definition handleTaskStart :: "string \<Rightarrow> gotime \<Rightarrow> gotime \<Rightarrow> decoded \<Rightarrow> Event option" where
  "handleTaskStart tr n1 n2 d =
     (case d of
        TaskStart i pid \<Rightarrow>
          Some (containerdEvent tr n1 n2 ''containerd-task-start-'' i ''TaskStart'' [(''container_id'', i), (''pid'', showNat pid)])
      | _ \<Rightarrow> None)"

text \<open>\<open>fmt\<close> prints a time in RFC 3339.\<close>

definition handleTaskExit :: "(gotime \<Rightarrow> string) \<Rightarrow> string \<Rightarrow> gotime \<Rightarrow> gotime \<Rightarrow> decoded \<Rightarrow> Event option" where
  "handleTaskExit fmt tr n1 n2 d =
     (case d of
        TaskExit i status pid exitedAt \<Rightarrow>
          Some (containerdEvent tr n1 n2 ''containerd-task-exit-'' i ''TaskExit''
            ([(''container_id'', i), (''exit_status'', showNat status), (''pid'', showNat pid)]
             @ (case exitedAt of None \<Rightarrow> [] | Some t \<Rightarrow> [(''exited_at'', fmt t)])))
      | _ \<Rightarrow> None)"

definition handleTaskDelete :: "(gotime \<Rightarrow> string) \<Rightarrow> string \<Rightarrow> gotime \<Rightarrow> gotime \<Rightarrow> decoded \<Rightarrow> Event option" where
  "handleTaskDelete fmt tr n1 n2 d =
     (case d of
        TaskDelete i pid status exitedAt \<Rightarrow>
          Some (containerdEvent tr n1 n2 ''containerd-task-delete-'' i ''TaskDelete''
            ([(''container_id'', i), (''pid'', showNat pid), (''exit_status'', showNat status)]
             @ (case exitedAt of None \<Rightarrow> [] | Some t \<Rightarrow> [(''exited_at'', fmt t)])))
      | _ \<Rightarrow> None)"

definition handleTaskPaused :: "string \<Rightarrow> gotime \<Rightarrow> gotime \<Rightarrow> decoded \<Rightarrow> Event option" where
  "handleTaskPaused tr n1 n2 d =
     (case d of
        TaskPaused i \<Rightarrow> Some (containerdEvent tr n1 n2 ''containerd-task-paused-'' i ''TaskPause'' [(''container_id'', i)])
      | _ \<Rightarrow> None)"

definition handleTaskResumed :: "string \<Rightarrow> gotime \<Rightarrow> gotime \<Rightarrow> decoded \<Rightarrow> Event option" where
  "handleTaskResumed tr n1 n2 d =
     (case d of
        TaskResumed i \<Rightarrow> Some (containerdEvent tr n1 n2 ''containerd-task-resumed-'' i ''TaskResume'' [(''container_id'', i)])
      | _ \<Rightarrow> None)"

definition handleContainerCreate :: "string \<Rightarrow> gotime \<Rightarrow> gotime \<Rightarrow> decoded \<Rightarrow> Event option" where
  "handleContainerCreate tr n1 n2 d =
     (case d of
        ContainerCreate i img runtime \<Rightarrow>
          Some (containerdEvent tr n1 n2 ''containerd-container-create-'' i ''ContainerCreate''
            ([(''container_id'', i), (''image'', img)] @ (case runtime of None \<Rightarrow> [] | Some name \<Rightarrow> [(''runtime_name'', name)])))
      | _ \<Rightarrow> None)"

definition handleContainerDelete :: "string \<Rightarrow> gotime \<Rightarrow> gotime \<Rightarrow> decoded \<Rightarrow> Event option" where
  "handleContainerDelete tr n1 n2 d =
     (case d of
        ContainerDelete i \<Rightarrow> Some (containerdEvent tr n1 n2 ''containerd-container-delete-'' i ''ContainerDelete'' [(''container_id'', i)])
      | _ \<Rightarrow> None)"

definition handleEnvelope :: "(gotime \<Rightarrow> string) \<Rightarrow> string \<Rightarrow> gotime \<Rightarrow> gotime \<Rightarrow> envelope option \<Rightarrow> Event option" where
  "handleEnvelope fmt tr n1 n2 envl =
     (case envl of
        None \<Rightarrow> None
      | Some v \<Rightarrow>
          (case env_Event v of
             None \<Rightarrow> None
           | Some (Inl err) \<Rightarrow> None
           | Some (Inr d) \<Rightarrow>
               (if env_Topic v = ''/tasks/create'' then handleTaskCreate tr n1 n2 d
                else if env_Topic v = ''/tasks/start'' then handleTaskStart tr n1 n2 d
                else if env_Topic v = ''/tasks/exit'' then handleTaskExit fmt tr n1 n2 d
                else if env_Topic v = ''/tasks/delete'' then handleTaskDelete fmt tr n1 n2 d
                else if env_Topic v = ''/tasks/paused'' then handleTaskPaused tr n1 n2 d
                else if env_Topic v = ''/tasks/resumed'' then handleTaskResumed tr n1 n2 d
                else if env_Topic v = ''/containers/create'' then handleContainerCreate tr n1 n2 d
                else if env_Topic v = ''/containers/delete'' then handleContainerDelete tr n1 n2 d
                else None)))"

section \<open>The source\<close>

record ContainerdDataSource =
  ct_config :: ContainerdConfig
  ct_client :: bool
  ct_started :: bool
  ct_ready :: bool
  ct_startTime :: gotime
  ct_eventsReceived :: int
  ct_eventsSent :: int
  ct_eventsDropped :: int

definition NewContainerdDataSource :: "ContainerdConfig option \<Rightarrow> ContainerdDataSource" where
  "NewContainerdDataSource config =
     \<lparr>ct_config = (case config of None \<Rightarrow> defaultContainerd | Some c \<Rightarrow> c), ct_client = False, ct_started = False, ct_ready = False,
      ct_startTime = 0, ct_eventsReceived = 0, ct_eventsSent = 0, ct_eventsDropped = 0\<rparr>"

text \<open>
  \<open>connect\<close> makes a client, or gives an error. A nil context makes \<^verbatim>\<open>context.WithCancel\<close> panic after the flag was set, as in the mock source.
  The client is closed and dropped by \<^verbatim>\<open>Stop\<close>, whether or not its goroutine ended in time.
\<close>

definition Containerd_Start :: "(ContainerdConfig \<Rightarrow> string option) \<Rightarrow> gotime \<Rightarrow> nat option \<Rightarrow> ContainerdDataSource \<Rightarrow> string option \<times> ContainerdDataSource" where
  "Containerd_Start connect now ctx c =
     (if ct_started c then (Some ''containerd data source is already running'', c)
      else case ctx of
             None \<Rightarrow> (Some ''panic: cannot create context from nil parent'', c\<lparr>ct_started := True\<rparr>)
           | Some x \<Rightarrow>
               (let c = c\<lparr>ct_startTime := now\<rparr>
                in case connect (ct_config c) of
                     Some err \<Rightarrow> (Some (''failed to create containerd client: '' @ err), c)
                   | None \<Rightarrow> (None, c\<lparr>ct_started := True, ct_client := True\<rparr>)))"

definition Containerd_Stop :: "ContainerdDataSource \<Rightarrow> string option \<times> ContainerdDataSource" where
  "Containerd_Stop c = (if \<not> ct_started c then (None, c) else (None, c\<lparr>ct_started := False, ct_client := False\<rparr>))"

definition Containerd_Health :: "ContainerdDataSource \<Rightarrow> string option" where
  "Containerd_Health c =
     (if \<not> ct_started c then Some ''containerd data source is not running''
      else if \<not> ct_client c then Some ''containerd client is not initialized''
      else None)"

definition Containerd_GetStats :: "gotime \<Rightarrow> ContainerdDataSource \<Rightarrow> DataSourceStats" where
  "Containerd_GetStats now c =
     \<lparr>dss_EventsReceived = ct_eventsReceived c, dss_EventsSent = ct_eventsSent c, dss_EventsDropped = ct_eventsDropped c,
      dss_LastEventTime = now, dss_Connected = ct_started c, dss_Uptime = now - ct_startTime c\<rparr>"

text \<open>\<^verbatim>\<open>config["events"].([]string)\<close> never holds for a decoded map, whose lists have elements of any type.\<close>

definition Containerd_ParseConfig :: "gomap \<Rightarrow> ContainerdDataSource \<Rightarrow> string option \<times> ContainerdDataSource" where
  "Containerd_ParseConfig m c =
     (let cfg = ct_config c;
          cfg = cfg\<lparr>cn_SocketPath := asString m ''socket_path'' (cn_SocketPath cfg), cn_Namespace := asString m ''namespace'' (cn_Namespace cfg),
                    cn_BufferSize := asInt m ''buffer_size'' (cn_BufferSize cfg)\<rparr>
      in case Containerd_Validate cfg of (err, cfg) \<Rightarrow> (err, c\<lparr>ct_config := cfg\<rparr>))"

definition containerdSource :: "(ContainerdConfig \<Rightarrow> string option) \<Rightarrow> gotime \<Rightarrow> ContainerdDataSource DataSource" where
  "containerdSource connect now =
     \<lparr>ds_Start = Containerd_Start connect now, ds_Stop = Containerd_Stop, ds_Health = Containerd_Health, ds_GetStats = Containerd_GetStats now\<rparr>"

text \<open>The source keeps the contract of the manager.\<close>

interpretation containerd: data_source "containerdSource connect now" ct_started
  by unfold_locales
    (auto simp: containerdSource_def Containerd_Start_def Containerd_Stop_def Let_def split: if_splits option.splits)

section \<open>The event stream\<close>

text \<open>
  What the loop observes: the arms of its \<^verbatim>\<open>select\<close>, an envelope with the trace id and the two times of its event, and with
  whether the cancelled context is chosen when its event is to be sent. \<open>ReaderTakes\<close> is a receive of the
  goroutine at the other end of the channel.
\<close>

datatype stream_obs =
    ContextDone
  | ErrorsClosed
  | ErrorReported
  | NilError
  | EventsClosed
  | Arrives string gotime gotime "envelope option" bool
  | ReaderTakes

text \<open>\<^verbatim>\<open>select { case c.eventCh <- event: ... default: }\<close>\<close>

definition offerEvent :: "Event \<Rightarrow> ContainerdDataSource \<times> Event channel \<Rightarrow> ContainerdDataSource \<times> Event channel" where
  "offerEvent event s =
     (case s of (c, ch) \<Rightarrow>
        if hasRoom ch then (c\<lparr>ct_eventsSent := ct_eventsSent c + 1\<rparr>, ch\<lparr>ch_buf := ch_buf ch @ [event]\<rparr>)
        else (c\<lparr>ct_eventsDropped := ct_eventsDropped c + 1\<rparr>, ch))"

text \<open>The result says whether the loop returned.\<close>

fun processEventStream ::
  "(gotime \<Rightarrow> string) \<Rightarrow> stream_obs list \<Rightarrow> ContainerdDataSource \<times> Event channel \<Rightarrow> bool \<times> ContainerdDataSource \<times> Event channel" where
  "processEventStream fmt [] s = (False, s)"
| "processEventStream fmt (ContextDone # obs) s = (True, s)"
| "processEventStream fmt (ErrorsClosed # obs) s = (True, s)"
| "processEventStream fmt (ErrorReported # obs) s = (True, s)"
| "processEventStream fmt (NilError # obs) s = processEventStream fmt obs s"
| "processEventStream fmt (EventsClosed # obs) s = (True, s)"
| "processEventStream fmt (Arrives tr n1 n2 envl cancelled # obs) (c, ch) =
     (let c = c\<lparr>ct_eventsReceived := ct_eventsReceived c + 1\<rparr>
      in case handleEnvelope fmt tr n1 n2 envl of
           None \<Rightarrow> processEventStream fmt obs (c, ch)
         | Some event \<Rightarrow>
             if cancelled then (True, c, ch) else processEventStream fmt obs (offerEvent event (c, ch)))"
| "processEventStream fmt (ReaderTakes # obs) (c, ch) =
     (case ch_buf ch of
        [] \<Rightarrow> processEventStream fmt obs (c, ch)
      | e # es \<Rightarrow> processEventStream fmt obs (c, ch\<lparr>ch_buf := es, ch_taken := ch_taken ch @ [e]\<rparr>))"

section \<open>Reconnection\<close>

definition initialBackoff :: "ContainerdConfig \<Rightarrow> duration" where
  "initialBackoff cfg = (if cn_ReconnectInitialBackoff cfg \<le> 0 then 1 else cn_ReconnectInitialBackoff cfg) * second"

definition maxBackoff :: "ContainerdConfig \<Rightarrow> duration" where
  "maxBackoff cfg = (if cn_ReconnectMaxBackoff cfg \<le> 0 then 30 else cn_ReconnectMaxBackoff cfg) * second"

text \<open>
  The outer loop over the observations of one connection after the other, each with whether the context is cancelled after it, at the check or during the
  wait, which ends the loop; the second result is the list of completed waits. The backoff is kept from one connection to the next. Durations are unbounded: seconds of a configuration do not reach
  2 to the 33rd.
\<close>

fun eventLoop ::
  "(gotime \<Rightarrow> string) \<Rightarrow> duration \<Rightarrow> duration \<Rightarrow> (stream_obs list \<times> bool) list \<Rightarrow> ContainerdDataSource \<times> Event channel
     \<Rightarrow> (ContainerdDataSource \<times> Event channel) \<times> duration list" where
  "eventLoop fmt maxB backoff [] s = (s, [])"
| "eventLoop fmt maxB backoff ((obs, cancelled) # connections) s =
     (case processEventStream fmt obs s of (returned, s) \<Rightarrow>
        if cancelled then (s, [])
        else case eventLoop fmt maxB (if backoff * 2 > maxB then maxB else backoff * 2) connections s of
          (s, waits) \<Rightarrow> (s, backoff # waits))"

definition runEventLoop ::
  "(gotime \<Rightarrow> string) \<Rightarrow> (stream_obs list \<times> bool) list \<Rightarrow> ContainerdDataSource \<times> Event channel \<Rightarrow> (ContainerdDataSource \<times> Event channel) \<times> duration list" where
  "runEventLoop fmt connections s = eventLoop fmt (maxBackoff (ct_config (fst s))) (initialBackoff (ct_config (fst s))) connections s"

section \<open>Properties\<close>

definition goesOn :: "stream_obs \<Rightarrow> bool" where
  "goesOn obs = (case obs of NilError \<Rightarrow> True | ReaderTakes \<Rightarrow> True | Arrives _ _ _ _ cancelled \<Rightarrow> \<not> cancelled | _ \<Rightarrow> False)"

definition isArrival :: "stream_obs \<Rightarrow> bool" where
  "isArrival obs = (case obs of Arrives _ _ _ _ _ \<Rightarrow> True | _ \<Rightarrow> False)"

definition converted :: "(gotime \<Rightarrow> string) \<Rightarrow> stream_obs list \<Rightarrow> Event list" where
  "converted fmt obs = List.map_filter (\<lambda>x. case x of Arrives tr n1 n2 envl _ \<Rightarrow> handleEnvelope fmt tr n1 n2 envl | _ \<Rightarrow> None) obs"

text \<open>What was put into a channel, taken or not.\<close>

definition put :: "'e channel \<Rightarrow> 'e list" where
  "put ch = ch_taken ch @ ch_buf ch"

lemmas handler_defs = handleTaskCreate_def handleTaskStart_def handleTaskExit_def handleTaskDelete_def handleTaskPaused_def
  handleTaskResumed_def handleContainerCreate_def handleContainerDelete_def

lemma handler_type:
  "handleTaskCreate tr n1 n2 d = Some e \<Longrightarrow> ev_Type e = ''TaskCreate'' \<and> ev_Topic e = ev_Type e"
  "handleTaskStart tr n1 n2 d = Some e \<Longrightarrow> ev_Type e = ''TaskStart'' \<and> ev_Topic e = ev_Type e"
  "handleTaskExit fmt tr n1 n2 d = Some e \<Longrightarrow> ev_Type e = ''TaskExit'' \<and> ev_Topic e = ev_Type e"
  "handleTaskDelete fmt tr n1 n2 d = Some e \<Longrightarrow> ev_Type e = ''TaskDelete'' \<and> ev_Topic e = ev_Type e"
  "handleTaskPaused tr n1 n2 d = Some e \<Longrightarrow> ev_Type e = ''TaskPause'' \<and> ev_Topic e = ev_Type e"
  "handleTaskResumed tr n1 n2 d = Some e \<Longrightarrow> ev_Type e = ''TaskResume'' \<and> ev_Topic e = ev_Type e"
  "handleContainerCreate tr n1 n2 d = Some e \<Longrightarrow> ev_Type e = ''ContainerCreate'' \<and> ev_Topic e = ev_Type e"
  "handleContainerDelete tr n1 n2 d = Some e \<Longrightarrow> ev_Type e = ''ContainerDelete'' \<and> ev_Topic e = ev_Type e"
  by (cases d; auto simp: handler_defs runtimeEvent_def)+

text \<open>The conversion is faithful to the topic: the event has the type whose filter asks for the topic.\<close>

lemma handleEnvelope_type:
  assumes "handleEnvelope fmt tr n1 n2 (Some v) = Some e"
  shows "topicOf (ev_Type e) = Some (env_Topic v) \<and> ev_Topic e = ev_Type e"
proof -
  obtain d where d: "env_Event v = Some (Inr d)" using assms by (auto simp: handleEnvelope_def split: option.splits sum.splits)
  show ?thesis
    using assms d by (simp add: handleEnvelope_def split: if_split_asm) (drule handler_type, simp add: topicOf_def)+
qed

text \<open>The books of the stream loop: a stretch with \<open>n\<close> envelopes that were converted to the events \<open>es\<close>.\<close>

definition accounted :: "nat \<Rightarrow> Event list \<Rightarrow> ContainerdDataSource \<times> Event channel \<Rightarrow> ContainerdDataSource \<times> Event channel \<Rightarrow> bool" where
  "accounted n es s s' \<longleftrightarrow>
     ct_eventsReceived (fst s') = ct_eventsReceived (fst s) + int n
   \<and> ch_cap (snd s') = ch_cap (snd s) \<and> (length (ch_buf (snd s)) \<le> ch_cap (snd s) \<longrightarrow> length (ch_buf (snd s')) \<le> ch_cap (snd s'))
   \<and> (\<exists>kept. subseq kept es \<and> put (snd s') = put (snd s) @ kept \<and> ct_eventsSent (fst s') = ct_eventsSent (fst s) + int (length kept)
        \<and> ct_eventsDropped (fst s') = ct_eventsDropped (fst s) + (int (length es) - int (length kept)))"

lemma accounted_refl: "accounted 0 [] s s"
  by (simp add: accounted_def)

lemma accounted_trans:
  assumes "accounted n es s s1" "accounted m fs s1 s2"
  shows "accounted (n + m) (es @ fs) s s2"
proof -
  obtain k1 k2 where "subseq k1 es" "put (snd s1) = put (snd s) @ k1" "ct_eventsSent (fst s1) = ct_eventsSent (fst s) + int (length k1)"
      "ct_eventsDropped (fst s1) = ct_eventsDropped (fst s) + (int (length es) - int (length k1))"
    and "subseq k2 fs" "put (snd s2) = put (snd s1) @ k2" "ct_eventsSent (fst s2) = ct_eventsSent (fst s1) + int (length k2)"
      "ct_eventsDropped (fst s2) = ct_eventsDropped (fst s1) + (int (length fs) - int (length k2))"
    using assms unfolding accounted_def by blast
  then have "\<exists>kept. subseq kept (es @ fs) \<and> put (snd s2) = put (snd s) @ kept \<and> ct_eventsSent (fst s2) = ct_eventsSent (fst s) + int (length kept)
        \<and> ct_eventsDropped (fst s2) = ct_eventsDropped (fst s) + (int (length (es @ fs)) - int (length kept))"
    by (intro exI [of _ "k1 @ k2"]) (simp add: list_emb_append_mono)
  moreover have "ct_eventsReceived (fst s2) = ct_eventsReceived (fst s) + int (n + m)" "ch_cap (snd s2) = ch_cap (snd s)"
    "length (ch_buf (snd s)) \<le> ch_cap (snd s) \<longrightarrow> length (ch_buf (snd s2)) \<le> ch_cap (snd s2)"
    using assms unfolding accounted_def by (simp, simp, metis)
  ultimately show ?thesis unfolding accounted_def by blast
qed

lemma offer_accounted: "accounted 0 [e] s (offerEvent e s)"
proof (cases "hasRoom (snd s)")
  case True
  then show ?thesis by (auto simp: accounted_def offerEvent_def put_def hasRoom_def split: prod.splits intro: exI [of _ "[e]"])
next
  case False
  then show ?thesis by (auto simp: accounted_def offerEvent_def split: prod.splits intro: exI [of _ "[]"])
qed

lemma received_accounted: "accounted 1 [] (c, ch) (c\<lparr>ct_eventsReceived := ct_eventsReceived c + 1\<rparr>, ch)"
  by (simp add: accounted_def)

lemma taken_accounted: "ch_buf ch = e # es \<Longrightarrow> accounted 0 [] (c, ch) (c, ch\<lparr>ch_buf := es, ch_taken := ch_taken ch @ [e]\<rparr>)"
  by (simp add: accounted_def put_def)

lemma counting [simp]:
  "isArrival (Arrives tr n1 n2 envl b)" "\<not> isArrival NilError" "\<not> isArrival ReaderTakes" "converted fmt [] = []"
  "converted fmt (NilError # obs) = converted fmt obs" "converted fmt (ReaderTakes # obs) = converted fmt obs"
  "converted fmt (Arrives tr n1 n2 envl b # obs) = (case handleEnvelope fmt tr n1 n2 envl of None \<Rightarrow> [] | Some e \<Rightarrow> [e]) @ converted fmt obs"
  by (simp_all add: isArrival_def converted_def map_filter_simps split: option.split)

lemma stream_accounted:
  assumes "list_all goesOn obs"
  shows "\<exists>s'. processEventStream fmt obs s = (False, s') \<and> accounted (length (filter isArrival obs)) (converted fmt obs) s s'"
  using assms
proof (induction obs arbitrary: s)
  case Nil
  then show ?case by (simp add: accounted_refl)
next
  case (Cons x obs)
  obtain c ch where s: "s = (c, ch)" by (rule prod.exhaust)
  have tl: "list_all goesOn obs" and x: "goesOn x" using Cons.prems by simp_all
  show ?case
  proof (cases x)
    case ReaderTakes
    then show ?thesis
      using Cons.IH [OF tl] accounted_trans [OF taken_accounted] by (cases "ch_buf ch") (fastforce simp: s)+
  next
    case (Arrives tr n1 n2 envl cancelled)
    let ?s = "(c\<lparr>ct_eventsReceived := ct_eventsReceived c + 1\<rparr>, ch)"
    have nc: "\<not> cancelled" using x Arrives by (simp add: goesOn_def)
    show ?thesis
    proof (cases "handleEnvelope fmt tr n1 n2 envl")
      case None
      then show ?thesis using Arrives Cons.IH [OF tl, of ?s] accounted_trans [OF received_accounted] by (auto simp: s Let_def)
    next
      case (Some e)
      obtain s' where s': "processEventStream fmt obs (offerEvent e ?s) = (False, s')"
          "accounted (length (filter isArrival obs)) (converted fmt obs) (offerEvent e ?s) s'"
        using Cons.IH [OF tl] by blast
      then show ?thesis
        using accounted_trans [OF received_accounted accounted_trans [OF offer_accounted s'(2)]] Arrives Some nc by (simp add: s Let_def)
    qed
  qed (use x Cons.IH [OF tl, of s] in \<open>simp_all add: goesOn_def\<close>)
qed

text \<open>
  Claim C29. The books of the containerd source are exact: while its stream lasts, whatever arrives and however the reader takes from the channel, the
  received counter grows by the number of envelopes; the channel gets, in order, a part of the events they were converted to, never more
  than it holds; the sent counter grows by that part and the dropped counter by the rest. A converted event has the type whose
  filter asks for the topic of its envelope.
\<close>

theorem containerd_stream_exact:
  assumes "list_all goesOn obs"
  shows "\<exists>c' ch'. processEventStream fmt obs (c, ch) = (False, c', ch')
     \<and> ct_eventsReceived c' = ct_eventsReceived c + int (length (filter isArrival obs))
     \<and> (length (ch_buf ch) \<le> ch_cap ch \<longrightarrow> length (ch_buf ch') \<le> ch_cap ch)
     \<and> (\<exists>kept. subseq kept (converted fmt obs) \<and> put ch' = put ch @ kept \<and> ct_eventsSent c' = ct_eventsSent c + int (length kept)
          \<and> ct_eventsDropped c' = ct_eventsDropped c + (int (length (converted fmt obs)) - int (length kept)))
     \<and> (handleEnvelope fmt tr n1 n2 (Some v) = Some e \<longrightarrow> topicOf (ev_Type e) = Some (env_Topic v))"
  using stream_accounted [OF assms, of fmt "(c, ch)"] handleEnvelope_type [of fmt tr n1 n2 v e] by (auto simp: accounted_def)

definition startEnvelope :: envelope where
  "startEnvelope = \<lparr>env_Topic = ''/tasks/start'', env_Event = Some (Inr (TaskStart ''c1'' 7))\<rparr>"

theorem containerd_stream_exact_witness:
  "\<exists>c' ch'. processEventStream (\<lambda>_. '''') [Arrives ''t1'' 1 2 (Some startEnvelope) False, Arrives ''t2'' 3 4 (Some startEnvelope) False]
      (NewContainerdDataSource None, \<lparr>ch_buf = [], ch_cap = 1, ch_closed = False, ch_taken = []\<rparr>) = (False, c', ch')
     \<and> ct_eventsReceived c' = 2 \<and> length (ch_buf ch') \<le> 1"
  using containerd_stream_exact [of "[Arrives ''t1'' 1 2 (Some startEnvelope) False, Arrives ''t2'' 3 4 (Some startEnvelope) False]"
      "\<lambda>_. ''''" "NewContainerdDataSource None" "\<lparr>ch_buf = [], ch_cap = 1, ch_closed = False, ch_taken = []\<rparr>"]
  by (fastforce simp: goesOn_def NewContainerdDataSource_def)

lemma waits_step:
  fixes b m :: int
  assumes "0 \<le> m"
  shows "(if min b m * 2 > m then m else min b m * 2) = min (b * 2) m"
  using assms by (auto simp: min_def)

lemma eventLoop_waits:
  assumes "0 \<le> maxB" "0 \<le> b"
  shows "snd (eventLoop fmt maxB (min b maxB) (map (\<lambda>obs. (obs, False)) conns) s) = map (\<lambda>i. min (b * 2 ^ i) maxB) [0..<length conns]"
  using assms(2)
proof (induction conns arbitrary: b s)
  case (Cons obs conns)
  have e: "b * (2 * 2 ^ i) = b * 2 * 2 ^ i" for i :: nat by simp
  have "snd (eventLoop fmt maxB (min b maxB) (map (\<lambda>obs. (obs, False)) (obs # conns)) s) = min b maxB # map (\<lambda>i. min (b * 2 * 2 ^ i) maxB) [0..<length conns]"
    using Cons.IH [of "b * 2" "snd (processEventStream fmt obs s)"] Cons.prems
    by (simp add: waits_step [OF assms(1)] case_prod_unfold)
  also have "\<dots> = map (\<lambda>i. min (b * 2 ^ i) maxB) [0..<length (obs # conns)]"
    by (simp add: upt_conv_Cons map_Suc_upt [symmetric] e comp_def del: upt_Suc)
  finally show ?case .
qed simp

text \<open>
  The waits between connections: the first is the initial backoff, even where it exceeds the maximum; each later one is twice the one before,
  up to the maximum. Nothing in between, not even a connection that delivered events, starts them afresh.
\<close>

theorem reconnect_waits_double:
  "snd (runEventLoop fmt (map (\<lambda>obs. (obs, False)) (obs # conns)) s) =
     initialBackoff (ct_config (fst s)) # map (\<lambda>i. min (initialBackoff (ct_config (fst s)) * 2 ^ Suc i) (maxBackoff (ct_config (fst s)))) [0..<length conns]"
proof -
  let ?b = "initialBackoff (ct_config (fst s))" and ?m = "maxBackoff (ct_config (fst s))"
  have pos: "0 \<le> ?m" "0 \<le> ?b * 2" by (simp_all add: maxBackoff_def initialBackoff_def)
  have "(if ?b * 2 > ?m then ?m else ?b * 2) = min (?b * 2) ?m" by simp
  then show ?thesis
    using eventLoop_waits [OF pos, of fmt conns "snd (processEventStream fmt obs s)"]
    by (simp add: runEventLoop_def case_prod_unfold mult.assoc)
qed

text \<open>
  The configured buffer size has no effect: TOML numbers are decoded to 64-bit integers, which the type assertion for it does not accept, so that the
  default of 1000 stays; the number of seconds to wait when stopping, which is asserted as a 64-bit integer, is taken over.
\<close>

theorem configured_buffer_size_ignored:
  assumes "unmarshal text = Inr m" "map_of m ''buffer_size'' = Some (VInt64 n)" "map_of m ''stop_timeout'' = Some (VInt64 k)"
  shows "\<exists>cfg. ParseContainerdConfig unmarshal text = Inr cfg \<and> cn_BufferSize cfg = 1000 \<and> cn_StopTimeout cfg = k"
  using assms by (simp add: ParseContainerdConfig_def containerdOf_def asInt_def asInt64_def defaultContainerd_def Let_def)

theorem configured_buffer_size_ignored_witness:
  "\<exists>cfg. ParseContainerdConfig (\<lambda>_. Inr [(''buffer_size'', VInt64 5), (''stop_timeout'', VInt64 9)]) ''t'' = Inr cfg \<and> cn_BufferSize cfg = 1000"
  using configured_buffer_size_ignored [of "\<lambda>_. Inr [(''buffer_size'', VInt64 5), (''stop_timeout'', VInt64 9)]" "''t''"
      "[(''buffer_size'', VInt64 5), (''stop_timeout'', VInt64 9)]" 5 9] by auto

text \<open>
  A configuration whose event names are all unknown, for example by a misspelling, passes the validation and subscribes with no filter, which selects every
  topic; the conversion does not look at the configured names, so events of all eight kinds are delivered.
\<close>

theorem unknown_events_subscribe_to_all:
  assumes "cn_Events c \<noteq> []" "\<forall>t \<in> set (cn_Events c). topicOf t = None" "cn_SocketPath c \<noteq> ''''"
  shows "fst (Containerd_Validate c) = None \<and> buildFilters (snd (Containerd_Validate c)) = []"
proof -
  have "List.map_filter topicOf ts = []" if "\<forall>t \<in> set ts. topicOf t = None" for ts
    using that by (induction ts) (simp_all add: map_filter_simps)
  then show ?thesis using assms by (simp add: Containerd_Validate_def buildFilters_def Let_def)
qed

theorem unknown_events_subscribe_to_all_witness:
  "buildFilters (snd (Containerd_Validate (defaultContainerd\<lparr>cn_Events := [''TaskPaused'']\<rparr>))) = []"
  using unknown_events_subscribe_to_all [of "defaultContainerd\<lparr>cn_Events := [''TaskPaused'']\<rparr>"]
  by (simp add: topicOf_def defaultContainerd_def)

text \<open>Every operation leaves the readiness as it was made: never.\<close>

lemma containerd_never_ready:
  "ct_ready (snd (Containerd_Start connect now ctx c)) = ct_ready c" "ct_ready (snd (Containerd_Stop c)) = ct_ready c"
  "ct_ready (snd (Containerd_ParseConfig m c)) = ct_ready c" "\<not> ct_ready (NewContainerdDataSource cfg)"
  by (auto simp: Containerd_Start_def Containerd_Stop_def Containerd_ParseConfig_def NewContainerdDataSource_def Let_def
      split: option.split prod.split)

end
