(* ===== verification/DS_NRI.thy ===== *)
theory DS_NRI
  imports DS_Containerd
begin

text \<open>
  The NRI data source (\<^verbatim>\<open>src/pkg/datasource/nri.go\<close>, \<^verbatim>\<open>nri_config.go\<close>): a plugin of the container runtime whose callbacks send events on
  the source's channel. The stub library is a parameter: parsing the event mask and making the stub succeed or fail. A send waits
  until the reader takes the event, or ends with the context's error; \<open>cancelled\<close> says which. The events sent are \<open>nr_sent\<close>.
\<close>

section \<open>Configuration\<close>

record NRIConfig =
  nc_SocketPath :: string
  nc_PluginName :: string
  nc_PluginIndex :: string
  nc_Events :: "string list"
  nc_BufferSize :: int
  nc_StopTimeout :: int
  nc_HealthCheckInterval :: duration
  nc_ReconnectInterval :: duration

definition defaultNRI :: NRIConfig where
  "defaultNRI = \<lparr>nc_SocketPath = ''/var/run/nri.sock'', nc_PluginName = ''01-nuts'', nc_PluginIndex = ''01'',
     nc_Events = [''RunPodSandbox'', ''StopPodSandbox'', ''StartContainer'', ''StopContainer'', ''RemoveContainer''], nc_BufferSize = 1000,
     nc_StopTimeout = 0, nc_HealthCheckInterval = 0, nc_ReconnectInterval = 0\<rparr>"

definition nriOf :: "gomap \<Rightarrow> NRIConfig" where
  "nriOf m =
     (let cfg = defaultNRI
      in cfg\<lparr>nc_SocketPath := asString m ''socket_path'' (nc_SocketPath cfg), nc_PluginName := asString m ''plugin_name'' (nc_PluginName cfg),
           nc_PluginIndex := asString m ''plugin_index'' (nc_PluginIndex cfg), nc_BufferSize := asInt m ''buffer_size'' (nc_BufferSize cfg),
           nc_Events := asStrings m ''events'' (nc_Events cfg), nc_StopTimeout := asInt64 m ''stop_timeout'' (nc_StopTimeout cfg)\<rparr>)"

definition ParseNRIConfig :: "(string \<Rightarrow> string + gomap) \<Rightarrow> string \<Rightarrow> string + NRIConfig" where
  "ParseNRIConfig unmarshal configStr =
     (case unmarshal configStr of
        Inl err \<Rightarrow> Inl (''failed to parse TOML config: '' @ err)
      | Inr m \<Rightarrow> Inr (nriOf m))"

definition NRI_Validate :: "NRIConfig \<Rightarrow> string option \<times> NRIConfig" where
  "NRI_Validate c =
     (if nc_SocketPath c = '''' then (Some ''socket_path is required'', c)
      else if nc_PluginName c = '''' then (Some ''plugin_name is required'', c)
      else if nc_Events c = [] then (Some ''events list cannot be empty'', c)
      else (None,
        c\<lparr>nc_BufferSize := (if nc_BufferSize c \<le> 0 then 1000 else nc_BufferSize c),
          nc_HealthCheckInterval := (if nc_HealthCheckInterval c = 0 then 30 * second else nc_HealthCheckInterval c),
          nc_ReconnectInterval := (if nc_ReconnectInterval c = 0 then 5 * second else nc_ReconnectInterval c)\<rparr>))"

section \<open>The source\<close>

record NRIDataSource =
  nr_config :: NRIConfig
  nr_stub :: bool
  nr_mask :: int
  nr_eventCh :: bool
  nr_started :: bool
  nr_ready :: bool
  nr_startTime :: gotime
  nr_sent :: "Event list"

definition NewNRIDataSource :: "NRIConfig option \<Rightarrow> NRIDataSource" where
  "NewNRIDataSource config =
     \<lparr>nr_config = (case config of None \<Rightarrow> defaultNRI | Some c \<Rightarrow> c), nr_stub = False, nr_mask = 0, nr_eventCh = False, nr_started = False,
      nr_ready = False, nr_startTime = 0, nr_sent = []\<rparr>"

definition NRI_Start ::
  "(string list \<Rightarrow> string + int) \<Rightarrow> (NRIConfig \<Rightarrow> string option) \<Rightarrow> gotime \<Rightarrow> nat option \<Rightarrow> NRIDataSource \<Rightarrow> string option \<times> NRIDataSource" where
  "NRI_Start parseMask newStub now ctx n =
     (if nr_started n then (Some ''NRI data source is already running'', n)
      else case ctx of
             None \<Rightarrow> (Some ''panic: cannot create context from nil parent'', n\<lparr>nr_started := True\<rparr>)
           | Some x \<Rightarrow>
               (let n = n\<lparr>nr_eventCh := True, nr_startTime := now\<rparr>
                in case parseMask (nc_Events (nr_config n)) of
                     Inl err \<Rightarrow> (Some (''failed to parse event mask: '' @ err), n)
                   | Inr eventMask \<Rightarrow>
                       (let n = n\<lparr>nr_mask := eventMask\<rparr>
                        in case newStub (nr_config n) of
                             Some err \<Rightarrow> (Some (''failed to create NRI stub: '' @ err), n\<lparr>nr_stub := False\<rparr>)
                           | None \<Rightarrow> (None, n\<lparr>nr_started := True, nr_stub := True, nr_ready := True\<rparr>))))"

definition NRI_Stop :: "NRIDataSource \<Rightarrow> string option \<times> NRIDataSource" where
  "NRI_Stop n = (if \<not> nr_started n then (None, n) else (None, n\<lparr>nr_started := False, nr_stub := False\<rparr>))"

definition NRI_Health :: "NRIDataSource \<Rightarrow> string option" where
  "NRI_Health n =
     (if \<not> nr_started n then Some ''NRI data source is not running''
      else if \<not> nr_stub n then Some ''NRI stub is not initialized''
      else None)"

text \<open>The counters are constant.\<close>

definition NRI_GetStats :: "gotime \<Rightarrow> NRIDataSource \<Rightarrow> DataSourceStats" where
  "NRI_GetStats now n =
     \<lparr>dss_EventsReceived = 0, dss_EventsSent = 0, dss_EventsDropped = 0, dss_LastEventTime = 0, dss_Connected = nr_started n,
      dss_Uptime = now - nr_startTime n\<rparr>"

definition NRI_ParseConfig :: "gomap \<Rightarrow> NRIDataSource \<Rightarrow> string option \<times> NRIDataSource" where
  "NRI_ParseConfig m n =
     (let cfg = nr_config n;
          cfg = cfg\<lparr>nc_SocketPath := asString m ''socket_path'' (nc_SocketPath cfg), nc_PluginName := asString m ''plugin_name'' (nc_PluginName cfg),
                    nc_PluginIndex := asString m ''plugin_index'' (nc_PluginIndex cfg), nc_BufferSize := asInt m ''buffer_size'' (nc_BufferSize cfg),
                    nc_StopTimeout := asInt64 m ''stop_timeout'' (nc_StopTimeout cfg)\<rparr>
      in case NRI_Validate cfg of (err, cfg) \<Rightarrow> (err, n\<lparr>nr_config := cfg\<rparr>))"

definition nriSource :: "(string list \<Rightarrow> string + int) \<Rightarrow> (NRIConfig \<Rightarrow> string option) \<Rightarrow> gotime \<Rightarrow> NRIDataSource DataSource" where
  "nriSource parseMask newStub now =
     \<lparr>ds_Start = NRI_Start parseMask newStub now, ds_Stop = NRI_Stop, ds_Health = NRI_Health, ds_GetStats = NRI_GetStats now\<rparr>"

interpretation nri: data_source "nriSource parseMask newStub now" nr_started
  by unfold_locales
    (auto simp: nriSource_def NRI_Start_def NRI_Stop_def Let_def split: if_splits option.splits sum.splits)

section \<open>Events\<close>

record PodSandbox =
  ps_Id :: string
  ps_Uid :: string
  ps_Name :: string
  ps_Namespace :: string
  ps_Labels :: "strmap option"
  ps_RuntimeHandler :: string

record Container =
  co_Id :: string
  co_Name :: string
  co_State :: string
  co_PodSandboxId :: string

record evstamp =
  es_trace :: string
  es_idTime :: gotime
  es_time :: gotime

definition createPodEvent :: "evstamp \<Rightarrow> string \<Rightarrow> PodSandbox option \<Rightarrow> Event option" where
  "createPodEvent st eventType pod =
     (case pod of
        None \<Rightarrow> None
      | Some p \<Rightarrow>
          Some (runtimeEvent (es_trace st) ''pod-'' (ps_Uid p) (es_idTime st) (es_time st) eventType ''nri''
            \<lparr>pod_PodName = ps_Name p, pod_PodNamespace = ps_Namespace p, pod_PodUid = ps_Uid p, pod_PodId = ps_Id p, pod_Labels = ps_Labels p,
             pod_Extensions = Some [(''runtime_handler'', ps_RuntimeHandler p)]\<rparr>))"

definition createContainerEvent :: "evstamp \<Rightarrow> string \<Rightarrow> PodSandbox option \<Rightarrow> Container option \<Rightarrow> Event option" where
  "createContainerEvent st eventType pod container =
     (case container of
        None \<Rightarrow> None
      | Some c \<Rightarrow>
          (let payload = extensionsPod [(''container_id'', co_Id c), (''container_name'', co_Name c), (''container_state'', co_State c),
                                        (''pod_sandbox_id'', co_PodSandboxId c)];
               payload = (case pod of
                            None \<Rightarrow> payload
                          | Some p \<Rightarrow> payload\<lparr>pod_PodUid := ps_Uid p, pod_PodName := ps_Name p, pod_PodNamespace := ps_Namespace p,
                                              pod_Labels := ps_Labels p\<rparr>)
           in Some (runtimeEvent (es_trace st) ''container-'' (co_Id c) (es_idTime st) (es_time st) eventType ''nri'' payload)))"

text \<open>\<^verbatim>\<open>if event != nil && n.eventCh != nil { select { ... } }\<close>; the error is the context's.\<close>

definition sendEvent :: "bool \<Rightarrow> Event option \<Rightarrow> NRIDataSource \<Rightarrow> string option \<times> NRIDataSource" where
  "sendEvent cancelled event n =
     (case event of
        None \<Rightarrow> (None, n)
      | Some e \<Rightarrow>
          if \<not> nr_eventCh n then (None, n)
          else if cancelled then (Some ''context canceled'', n)
          else (None, n\<lparr>nr_sent := nr_sent n @ [e]\<rparr>))"

text \<open>
  The callbacks. Those that log fields of the pod or the container before anything else fail on a nil pointer (\<^const>\<open>Panics\<close>); the others
  do nothing then.
\<close>

definition RunPodSandbox :: "evstamp \<Rightarrow> bool \<Rightarrow> PodSandbox option \<Rightarrow> NRIDataSource \<Rightarrow> (string option \<times> NRIDataSource) outcome" where
  "RunPodSandbox st cancelled pod n =
     (if pod = None then Panics else Finished (sendEvent cancelled (createPodEvent st ''RunPodSandbox'' pod) n))"

definition StopPodSandbox :: "evstamp \<Rightarrow> bool \<Rightarrow> PodSandbox option \<Rightarrow> NRIDataSource \<Rightarrow> (string option \<times> NRIDataSource) outcome" where
  "StopPodSandbox st cancelled pod n =
     (if pod = None then Panics else Finished (sendEvent cancelled (createPodEvent st ''StopPodSandbox'' pod) n))"

definition RemovePodSandbox :: "evstamp \<Rightarrow> bool \<Rightarrow> PodSandbox option \<Rightarrow> NRIDataSource \<Rightarrow> (string option \<times> NRIDataSource) outcome" where
  "RemovePodSandbox st cancelled pod n = Finished (sendEvent cancelled (createPodEvent st ''PodRemove'' pod) n)"

definition CreateContainer :: "evstamp \<Rightarrow> bool \<Rightarrow> PodSandbox option \<Rightarrow> Container option \<Rightarrow> NRIDataSource \<Rightarrow> (string option \<times> NRIDataSource) outcome" where
  "CreateContainer st cancelled pod c n = Finished (sendEvent cancelled (createContainerEvent st ''ContainerCreate'' pod c) n)"

definition PostCreateContainer :: "evstamp \<Rightarrow> bool \<Rightarrow> PodSandbox option \<Rightarrow> Container option \<Rightarrow> NRIDataSource \<Rightarrow> (string option \<times> NRIDataSource) outcome" where
  "PostCreateContainer st cancelled pod c n = Finished (sendEvent cancelled (createContainerEvent st ''ContainerPostCreate'' pod c) n)"

definition StartContainer :: "evstamp \<Rightarrow> bool \<Rightarrow> PodSandbox option \<Rightarrow> Container option \<Rightarrow> NRIDataSource \<Rightarrow> (string option \<times> NRIDataSource) outcome" where
  "StartContainer st cancelled pod c n =
     (if pod = None \<or> c = None then Panics else Finished (sendEvent cancelled (createContainerEvent st ''StartContainer'' pod c) n))"

definition PostStartContainer :: "evstamp \<Rightarrow> bool \<Rightarrow> PodSandbox option \<Rightarrow> Container option \<Rightarrow> NRIDataSource \<Rightarrow> (string option \<times> NRIDataSource) outcome" where
  "PostStartContainer st cancelled pod c n = Finished (sendEvent cancelled (createContainerEvent st ''ContainerPostStart'' pod c) n)"

text \<open>\<open>resources\<close> is the printed form of the resources, if they are not nil.\<close>

definition UpdateContainer ::
  "evstamp \<Rightarrow> bool \<Rightarrow> PodSandbox option \<Rightarrow> Container option \<Rightarrow> string option \<Rightarrow> NRIDataSource \<Rightarrow> (string option \<times> NRIDataSource) outcome" where
  "UpdateContainer st cancelled pod c resources n =
     (let addResources = (\<lambda>r e. case ev_TypedPayload e of
            Some (Event_Pod (Some p)) \<Rightarrow>
              e\<lparr>ev_TypedPayload := Some (Event_Pod (Some (p\<lparr>pod_Extensions := map_option (alist_put ''resources_json'' r) (pod_Extensions p)\<rparr>)))\<rparr>
          | _ \<Rightarrow> e);
          event = createContainerEvent st ''ContainerUpdate'' pod c
      in Finished (sendEvent cancelled (case resources of None \<Rightarrow> event | Some r \<Rightarrow> map_option (addResources r) event) n))"

definition PostUpdateContainer :: "evstamp \<Rightarrow> bool \<Rightarrow> PodSandbox option \<Rightarrow> Container option \<Rightarrow> NRIDataSource \<Rightarrow> (string option \<times> NRIDataSource) outcome" where
  "PostUpdateContainer st cancelled pod c n = Finished (sendEvent cancelled (createContainerEvent st ''ContainerPostUpdate'' pod c) n)"

definition StopContainer :: "evstamp \<Rightarrow> bool \<Rightarrow> PodSandbox option \<Rightarrow> Container option \<Rightarrow> NRIDataSource \<Rightarrow> (string option \<times> NRIDataSource) outcome" where
  "StopContainer st cancelled pod c n =
     (if pod = None \<or> c = None then Panics else Finished (sendEvent cancelled (createContainerEvent st ''StopContainer'' pod c) n))"

definition RemoveContainer :: "evstamp \<Rightarrow> bool \<Rightarrow> PodSandbox option \<Rightarrow> Container option \<Rightarrow> NRIDataSource \<Rightarrow> (string option \<times> NRIDataSource) outcome" where
  "RemoveContainer st cancelled pod c n =
     (if pod = None \<or> c = None then Panics else Finished (sendEvent cancelled (createContainerEvent st ''RemoveContainer'' pod c) n))"

text \<open>The existing containers at start-up, each with its stamp and with whether the context is cancelled when its event is sent.\<close>

fun Synchronize :: "(evstamp \<times> bool \<times> Container option) list \<Rightarrow> NRIDataSource \<Rightarrow> string option \<times> NRIDataSource" where
  "Synchronize [] n = (None, n)"
| "Synchronize ((st, cancelled, c) # cs) n =
     (case sendEvent cancelled (createContainerEvent st ''ContainerExisting'' None c) n of
        (Some err, n) \<Rightarrow> (Some err, n)
      | (None, n) \<Rightarrow> Synchronize cs n)"

section \<open>Properties\<close>

text \<open>What a callback of the runtime sends.\<close>

definition nri_sends :: "string \<Rightarrow> PodSandbox \<Rightarrow> (string \<times> string) list \<Rightarrow> NRIDataSource \<Rightarrow> (string option \<times> NRIDataSource) outcome \<Rightarrow> bool" where
  "nri_sends eventType p fs n r \<longleftrightarrow>
     (\<exists>e. r = Finished (None, n\<lparr>nr_sent := nr_sent n @ [e]\<rparr>) \<and> ev_Type e = eventType \<and> ev_Topic e = eventType \<and> ev_Source e = ''nri''
        \<and> GetField e ''pod_uid'' = nonempty (ps_Uid p) \<and> GetField e ''pod_name'' = nonempty (ps_Name p)
        \<and> GetField e ''namespace'' = nonempty (ps_Namespace p) \<and> GetField e ''labels'' = map_option VStrMap (ps_Labels p)
        \<and> list_all (\<lambda>(k, v). GetField e k = Some (VString v)) fs)"

lemma GetField_runtime: "GetField (runtimeEvent tr pre i t1 t2 ty src pod) key = getPodField pod key"
  by (simp add: GetField_def typedField_def runtimeEvent_def split: option.split)

lemma nri_sendsI:
  assumes "nr_eventCh n" "pod_PodUid pod = ps_Uid p" "pod_PodName pod = ps_Name p" "pod_PodNamespace pod = ps_Namespace p" "pod_Labels pod = ps_Labels p"
    and "list_all (\<lambda>(k, v). getPodField pod k = Some (VString v)) fs"
  shows "nri_sends ty p fs n (Finished (sendEvent False (Some (runtimeEvent tr pre i t1 t2 ty ''nri'' pod)) n))"
proof -
  have "ev_Type (runtimeEvent tr pre i t1 t2 ty ''nri'' pod) = ty" "ev_Topic (runtimeEvent tr pre i t1 t2 ty ''nri'' pod) = ty"
    "ev_Source (runtimeEvent tr pre i t1 t2 ty ''nri'' pod) = ''nri''" by (simp_all add: runtimeEvent_def)
  then show ?thesis unfolding nri_sends_def using assms
    by (intro exI [of _ "runtimeEvent tr pre i t1 t2 ty ''nri'' pod"]) (simp add: sendEvent_def GetField_runtime getPodField_def)
qed

lemma pod_sends:
  assumes "nr_eventCh n"
  shows "nri_sends ty p [(''runtime_handler'', ps_RuntimeHandler p)] n (Finished (sendEvent False (createPodEvent st ty (Some p)) n))"
  unfolding createPodEvent_def option.case by (rule nri_sendsI [OF assms]) (simp_all add: getPodField_def extension_def)

lemma container_sends:
  assumes "nr_eventCh n"
  shows "nri_sends ty p [(''container_id'', co_Id c), (''container_state'', co_State c)] n
    (Finished (sendEvent False (createContainerEvent st ty (Some p) (Some c)) n))"
  unfolding createContainerEvent_def option.case Let_def
  by (rule nri_sendsI [OF assms]) (simp_all add: getPodField_def extension_def extensionsPod_def)


definition exPod :: PodSandbox where
  "exPod = \<lparr>ps_Id = ''i'', ps_Uid = ''u'', ps_Name = ''p'', ps_Namespace = ''ns'', ps_Labels = None, ps_RuntimeHandler = ''runc''\<rparr>"


text \<open>
  The manager runs one runtime source at a time: over containerd or NRI sources that the factory creates stopped, whatever is registered, switched,
  stopped and removed, a source runs exactly if it is the one named as active.
\<close>

theorem one_runtime_source_runs:
  fixes m :: "ContainerdDataSource DataSourceManager" and m' :: "NRIDataSource DataSourceManager"
  assumes c: "(ds_step (containerdSource connect now) ct_started create types)\<^sup>*\<^sup>* NewDataSourceManager m" "\<forall>c s. create c = Inr s \<longrightarrow> \<not> ct_started s"
    and n: "(ds_step (nriSource parseMask newStub now) nr_started create' types)\<^sup>*\<^sup>* NewDataSourceManager m'" "\<forall>c s. create' c = Inr s \<longrightarrow> \<not> nr_started s"
    and t: "'''' \<notin> set types"
  shows "(\<forall>n w. map_of (dm_sources m) n = Some w \<longrightarrow> (ct_started (dw_source w) \<longleftrightarrow> n \<noteq> '''' \<and> n = dm_activeName m))
     \<and> (\<forall>n w. map_of (dm_sources m') n = Some w \<longrightarrow> (nr_started (dw_source w) \<longleftrightarrow> n \<noteq> '''' \<and> n = dm_activeName m'))"
  using containerd.running_iff [OF containerd.sources_reachable_inv [OF c(1) _ t]] nri.running_iff [OF nri.sources_reachable_inv [OF n(1) _ t]] c(2) n(2)
  by blast

text \<open>A manager with one registered source of each kind.\<close>

theorem one_runtime_source_runs_witness:
  "\<not> ct_started (dw_source (the (map_of (dm_sources (snd (DM_Register ''c'' (NewContainerdDataSource None) NewDataSourceManager))) ''c'')))
     \<and> \<not> nr_started (dw_source (the (map_of (dm_sources (snd (DM_Register ''n'' (NewNRIDataSource None) NewDataSourceManager))) ''n'')))"
proof -
  let ?m = "snd (DM_Register ''c'' (NewContainerdDataSource None) NewDataSourceManager)"
  let ?n = "snd (DM_Register ''n'' (NewNRIDataSource None) NewDataSourceManager)"
  have "\<not> ct_started (NewContainerdDataSource None)" "\<not> nr_started (NewNRIDataSource None)"
    by (simp_all add: NewContainerdDataSource_def NewNRIDataSource_def)
  then have "(ds_step (containerdSource (\<lambda>_. None) 0) ct_started (\<lambda>_. Inl '''') [])\<^sup>*\<^sup>* NewDataSourceManager ?m"
      "(ds_step (nriSource (\<lambda>_. Inr 0) (\<lambda>_. None) 0) nr_started (\<lambda>_. Inl '''') [])\<^sup>*\<^sup>* NewDataSourceManager ?n"
    by (auto intro!: r_into_rtranclp ds_step.register prod.collapse [symmetric])
  moreover have "map_of (dm_sources ?m) ''c'' = Some \<lparr>dw_source = NewContainerdDataSource None, dw_active = False\<rparr>" "dm_activeName ?m = ''''"
      "map_of (dm_sources ?n) ''n'' = Some \<lparr>dw_source = NewNRIDataSource None, dw_active = False\<rparr>" "dm_activeName ?n = ''''"
    by (simp_all add: DM_Register_def NewDataSourceManager_def putSource_def)
  ultimately show ?thesis using one_runtime_source_runs [of "\<lambda>_. None" 0 "\<lambda>_. Inl ''''" "[]" ?m "\<lambda>_. Inr 0" "\<lambda>_. None" "\<lambda>_. Inl ''''" ?n] by fastforce
qed

end
