(* ===== verification/Spec2Isabelle.thy ===== *)
theory Spec2Isabelle
  imports Component_Flow Core_Events Core_Http Core_Life DS_Buffer DS_NRI Eventlog_Props Metrics_Alert SM_Validate_Props Nuts_ID
begin

text \<open>
  A verification library for nuts, an event-driven task scheduler written in Go (\<^verbatim>\<open>src/\<close>).

  \<^bold>\<open>The program.\<close> Data sources deliver events; the policy engine matches them against policies; for every
  match the core (\<^verbatim>\<open>src/pkg/core/core.go\<close>) creates a task in the task store and announces it on the event
  bus; components take the announcements from the bus and move the task along a configured state machine by
  transition commands, which come back over the bus; a timeout checker retries or archives tasks whose deadline
  passes, and a cleaner deletes old archived tasks. Event logs record what happened, metrics are counted and
  raise alerts, and an HTTP server shows and changes policies, data sources and tasks.

  \<^bold>\<open>Conventions.\<close> One operation of the code is one function of the model; state is a record that is passed and
  returned; an error is a value of a sum or option type, with the message of the code. Go maps are association lists
  without duplicate keys, and the order in which Go iterates them is a parameter (\<open>rank\<close>, \<open>tie\<close>). Clock readings,
  generated identifiers and what third-party libraries return are arguments. Operations under one mutex are one
  step; where the code releases a lock in between, the model has the parts as separate steps, and theorems quantify over
  all interleavings of the steps (inductive relations). Integers are unbounded except where their width matters: the
  shifts of the backoffs and the Snowflake identifiers are 64-bit words.

  \<^bold>\<open>Shared theories.\<close>
  \<^item> \<^verbatim>\<open>Nuts_Prelude\<close>, \<^verbatim>\<open>Nuts_Words\<close>: results, times, map iteration, slices, signed 64-bit readings.
  \<^item> \<^verbatim>\<open>Nuts_Values\<close>, \<^verbatim>\<open>Nuts_JSON\<close>: dynamically typed values and JSON documents.
  \<^item> \<^verbatim>\<open>Nuts_Common\<close>: error codes, application errors, addresses (\<^verbatim>\<open>pkg/common/errorcode.go\<close>, \<^verbatim>\<open>app_error.go\<close>, \<^verbatim>\<open>utils.go\<close>).
  \<^item> \<^verbatim>\<open>Nuts_Event\<close>: events, their fields and the flattened payload (\<^verbatim>\<open>pkg/common/event.go\<close>); the two views agree where keys do not clash.
  \<^item> \<^verbatim>\<open>Nuts_ID\<close>: identifier generators (\<^verbatim>\<open>pkg/common/id.go\<close>); the Snowflake generator never repeats itself whatever the clock does.
  \<^item> \<^verbatim>\<open>Nuts_DB\<close>: the database interface, its memory backend and factory (\<^verbatim>\<open>pkg/db\<close>), with the contract \<open>kv_db\<close>.
  \<^item> \<^verbatim>\<open>Nuts_HTTP\<close>: requests, responses, routing and the response envelope (\<^verbatim>\<open>pkg/common/api.go\<close>).

  \<^bold>\<open>Tasks\<close> (\<^verbatim>\<open>pkg/task\<close>).
  \<^item> \<^verbatim>\<open>Task_Model\<close>, \<^verbatim>\<open>Task_Store\<close>, \<^verbatim>\<open>Task_Store_Inv\<close>, \<^verbatim>\<open>Task_Store_Ops\<close>, \<^verbatim>\<open>Task_Store_List\<close>, \<^verbatim>\<open>Task_Store_Props\<close>: task documents and the store
    (\<^verbatim>\<open>interface.go\<close>, \<^verbatim>\<open>engine_store.go\<close>) over any \<open>kv_db\<close> (locale \<open>task_db\<close>): the state index is exact through all operations and a restart, listings by
    index agree with a scan, updates are guarded by versions, documents are a round trip.
  \<^item> \<^verbatim>\<open>SM_Config\<close>, \<^verbatim>\<open>SM_Validator\<close>, \<^verbatim>\<open>SM_Validator_Correct\<close>, \<^verbatim>\<open>SM_Cycles\<close>, \<^verbatim>\<open>SM_Validate_Props\<close>: the configuration and its validator (\<^verbatim>\<open>sm_factory.go\<close>,
    \<^verbatim>\<open>sm_validator.go\<close>): breadth-first search, dead ends and cycle search against the edge relation.
  \<^item> \<^verbatim>\<open>Payload_Builder\<close>, \<^verbatim>\<open>SM_Engine\<close>, \<^verbatim>\<open>SM_Engine_Props\<close>: the engine (\<^verbatim>\<open>state_machine_engine.go\<close>): a command performs one allowed transition, published
    once, or is refused without a trace; check and commit are separate steps, so the race between two commands is visible.
  \<^item> \<^verbatim>\<open>Go_Heap\<close>, \<^verbatim>\<open>Timeout_Checker\<close>, \<^verbatim>\<open>Archive_Cleaner\<close>: the heap of \<^verbatim>\<open>container/heap\<close>, the timeout check (\<^verbatim>\<open>timeout_checker.go\<close>) and one cleaning pass
    (\<^verbatim>\<open>archive.go\<close>). The check is a fuelled loop; \<open>core_check_ends\<close> shows that enough fuel exists.

  \<^bold>\<open>Policies\<close> (\<^verbatim>\<open>pkg/policy\<close>). \<^verbatim>\<open>Policy_Store\<close>, \<^verbatim>\<open>Policy_Cache\<close>, \<^verbatim>\<open>Policy_Manager\<close>, \<^verbatim>\<open>Policy_Manager_Props\<close>, \<^verbatim>\<open>Policy_Engine\<close>, \<^verbatim>\<open>Policy_Props\<close>, \<^verbatim>\<open>Policy_Http\<close>:
  the stores behind one contract (\<open>policy_store\<close>), the caching store over an explicit heap of shared objects, the manager with its compiled programs,
  matching, and the HTTP handlers. Matching through the cache equals evaluating the current expressions.

  \<^bold>\<open>Data sources\<close> (\<^verbatim>\<open>pkg/datasource\<close>). \<^verbatim>\<open>DS_Manager\<close>, \<^verbatim>\<open>DS_Sources\<close>, \<^verbatim>\<open>DS_Buffer\<close>, \<^verbatim>\<open>DS_Http\<close>: manager, factory, mock source, buffered wrapper and handlers;
  \<^verbatim>\<open>DS_Containerd\<close>, \<^verbatim>\<open>DS_NRI\<close>: the sources for container runtimes (\<^verbatim>\<open>containerd.go\<close>, \<^verbatim>\<open>nri.go\<close> and their configurations). The contract \<open>data_source\<close> is met by
  all three kinds of source, so the manager runs at most one; the counters of the containerd stream are exact; the callbacks of the NRI plugin send once.

  \<^bold>\<open>Event bus\<close> (\<^verbatim>\<open>pkg/eventbus\<close>). \<^verbatim>\<open>Bus_Model\<close> (subscribers, channels in a store, local and remote publication), \<^verbatim>\<open>Bus_Props\<close> (order, ownership of channels,
  exclusive subscribers, over all interleavings), \<^verbatim>\<open>Bus_Serializer\<close> (contract \<open>serializer\<close>, protobuf as a parameter that decodes what it encoded, up to what the
  encoding cannot tell apart), \<^verbatim>\<open>Bus_Client\<close> (both ends of a stream, reconnection, the table of cancel functions), \<^verbatim>\<open>Bus_Factory\<close>.

  \<^bold>\<open>Components\<close> (\<^verbatim>\<open>pkg/component\<close>). \<^verbatim>\<open>Component_Pool\<close> (worker pool as steps: exactly once, bounded, exact counters, able to finish and to stop),
  \<^verbatim>\<open>Component_Base\<close> (life cycle, transition command, the example components), \<^verbatim>\<open>Component_Flow\<close> (contract \<open>component_handler\<close>, and a component's command through
  serializer and bus to the engine behind the core).

  \<^bold>\<open>The core\<close> (\<^verbatim>\<open>pkg/core/core.go\<close>). \<^verbatim>\<open>Core_Tasks\<close> (task creation, commands, timeouts, retries, archiving, recovery), \<^verbatim>\<open>Core_Events\<close> (from an event to the matched
  events on the channel), \<^verbatim>\<open>Core_Props\<close>, \<^verbatim>\<open>Core_Flow\<close>, \<^verbatim>\<open>Core_Examples\<close> (the invariant over all interleavings, the effect of each handler, concrete cores), \<^verbatim>\<open>Core_Http\<close> (routes,
  authentication, task handlers and the debug page). \<^verbatim>\<open>Nuts_Config\<close> (\<^verbatim>\<open>pkg/config/toml.go\<close>: reading by dotted keys), \<^verbatim>\<open>Core_Init\<close> (what is made from the
  configuration, and a start on the store of an earlier run), \<^verbatim>\<open>Core_Life\<close> (identifier generator and alerts from the configuration, start, stop and health).

  \<^bold>\<open>Event log and metrics\<close> (\<^verbatim>\<open>pkg/eventlog\<close>, \<^verbatim>\<open>pkg/metrics\<close>). \<^verbatim>\<open>Eventlog_Model\<close>, \<^verbatim>\<open>Eventlog_Ring\<close>, \<^verbatim>\<open>Eventlog_DB\<close>, \<^verbatim>\<open>Eventlog_Props\<close>: the ring buffer refines the list of the
  last entries, the database log a finite map, the asynchronous wrapper keeps the order. \<^verbatim>\<open>Metrics_Alert\<close>: sliding window and alerts.

  \<^bold>\<open>Loops.\<close> Loops over lists are structural. Loops whose end depends on data have a measure (heap operations, graph searches) or fuel with a proof that enough
  fuel gives the result (timeout check, Snowflake waiting). Endless loops of goroutines are step relations or folds over what they observe, with progress
  stated as the existence of a run that completes.

  \<^bold>\<open>Where the code falls short.\<close> Theorems that show a defect are stated as the code behaves; among them: two commands can both commit, a
  publication can send on a closed channel, a failed validation is processed all the same, the validator misses a cycle behind a terminal state, and the
  backoffs overflow, and a second start after a failed one reports success.

  \<^bold>\<open>Not modelled.\<close> The SQLite backend and the Prometheus adapter (calls of third-party libraries); logging and tracing (wrappers); the
  command line and terminal interface (clients of the HTTP API and display code); \<^verbatim>\<open>src/internal\<close> (an earlier design whose imports are not in the repository);
  generated protobuf code (a parameter); sockets, tickers, wait groups and the making of the policy engine and the data sources from the configuration by \<^verbatim>\<open>New\<close>; the builder of CEL expressions.
\<close>

end
